(* ===== verification/Prelude.thy ===== *)
theory Prelude
  imports Complex_Main "HOL-Library.AList" "HOL-Library.Char_ord"
    "HOL-Library.List_Lexorder" "HOL-Library.Product_Lexorder" "HOL-Library.Multiset"
begin

text \<open>
  Shared material of the development: the Python values every component uses.
  Strings are lists of Latin-1 code points (what the HTTP layer hands to the program),
  dictionaries are association lists in insertion order (\<open>AList.update\<close> overwrites in
  place and appends a new key, as a Python dict does), results that may raise are values
  of \<open>exc + 'a\<close> with \<open>Inl\<close> for the exception.
\<close>

named_theorems py_str \<open>unfolding rules of the string operations\<close>
named_theorems od_simps \<open>lookups in insertion-ordered dictionaries\<close>

section \<open>Exceptions and the result type\<close>

text \<open>
  The exceptions of \<open>core/errors.py\<close> with the fields they carry, the built-in ones the code
  raises or catches, and one constructor for every other exception class, by its name.
\<close>

datatype exc =
    InvalidRequestError (exc_type: string) (exc_message: string)
  | AdmissionRejectedError string string int int
  | ValueError string
  | TypeError string
  | OtherException string

fun exc_class_name :: "exc \<Rightarrow> string" where
  "exc_class_name (InvalidRequestError _ _) = ''InvalidRequestError''"
| "exc_class_name (AdmissionRejectedError _ _ _ _) = ''AdmissionRejectedError''"
| "exc_class_name (ValueError _) = ''ValueError''"
| "exc_class_name (TypeError _) = ''TypeError''"
| "exc_class_name (OtherException n) = n"

text \<open>\<open>asyncio.CancelledError\<close> is the one exception used here that \<open>except Exception\<close> lets through.\<close>

abbreviation CancelledError :: exc where "CancelledError \<equiv> OtherException ''CancelledError''"

type_synonym 'a res = "exc + 'a"

fun rbind :: "'a res \<Rightarrow> ('a \<Rightarrow> 'b res) \<Rightarrow> 'b res" where
  "rbind (Inl e) f = Inl e"
| "rbind (Inr x) f = f x"

lemma rbind_Inr_iff [simp]: "rbind r f = Inr y \<longleftrightarrow> (\<exists>x. r = Inr x \<and> f x = Inr y)"
  by (cases r) auto

lemma rbind_Inl_iff: "rbind r f = Inl e \<longleftrightarrow> r = Inl e \<or> (\<exists>x. r = Inr x \<and> f x = Inl e)"
  by (cases r) auto

fun rmap_list :: "('a \<Rightarrow> 'b res) \<Rightarrow> 'a list \<Rightarrow> 'b list res" where
  "rmap_list f [] = Inr []"
| "rmap_list f (x # xs) = rbind (f x) (\<lambda>y. rbind (rmap_list f xs) (\<lambda>ys. Inr (y # ys)))"

lemma rmap_list_Inr:
  "rmap_list f xs = Inr ys \<Longrightarrow> length ys = length xs \<and> (\<forall>i < length xs. f (xs ! i) = Inr (ys ! i))"
  by (induction xs arbitrary: ys) (auto simp: less_Suc_eq_0_disj)

lemma rmap_list_all_Inr: "(\<And>x. x \<in> set xs \<Longrightarrow> f x = Inr (g x)) \<Longrightarrow> rmap_list f xs = Inr (map g xs)"
  by (induction xs) auto

section \<open>Strings\<close>

abbreviation char_code :: "char \<Rightarrow> nat" where "char_code c \<equiv> of_char c"

definition py_isspace :: "char \<Rightarrow> bool" where [py_str]:
  "py_isspace c \<longleftrightarrow> (let n = char_code c in
     (9 \<le> n \<and> n \<le> 13) \<or> (28 \<le> n \<and> n \<le> 32) \<or> n = 133 \<or> n = 160)"

definition py_lower_char :: "char \<Rightarrow> char" where [py_str]:
  "py_lower_char c = (let n = char_code c in
     if (65 \<le> n \<and> n \<le> 90) \<or> (192 \<le> n \<and> n \<le> 222 \<and> n \<noteq> 215) then char_of (n + 32) else c)"

definition py_lower :: "string \<Rightarrow> string" where [py_str]:
  "py_lower s = map py_lower_char s"

definition py_lstrip :: "string \<Rightarrow> string" where [py_str]:
  "py_lstrip s = dropWhile py_isspace s"

definition py_strip :: "string \<Rightarrow> string" where [py_str]:
  "py_strip s = rev (dropWhile py_isspace (rev (py_lstrip s)))"

definition py_startswith :: "string \<Rightarrow> string \<Rightarrow> bool" where [py_str]:
  "py_startswith s p \<longleftrightarrow> take (length p) s = p"

text \<open>\<open>s.split(c)\<close> for a one-character separator: always at least one part.\<close>

fun py_split_on :: "char \<Rightarrow> string \<Rightarrow> string list" where
  "py_split_on c [] = [[]]"
| "py_split_on c (x # xs) =
     (if x = c then [] # py_split_on c xs
      else (case py_split_on c xs of [] \<Rightarrow> [[x]] | p # ps \<Rightarrow> (x # p) # ps))"

text \<open>\<open>s.split(maxsplit=1)\<close> of an already stripped string.\<close>

definition py_split_ws1 :: "string \<Rightarrow> string list" where [py_str]:
  "py_split_ws1 s =
     (if s = [] then []
      else let a = takeWhile (\<lambda>c. \<not> py_isspace c) s; r = py_lstrip (drop (length a) s)
           in if r = [] then [a] else [a, r])"

text \<open>\<open>s.split(c, 1)\<close> where \<open>c in s\<close>: the part before the first \<open>c\<close> and the rest.\<close>

definition py_partition :: "char \<Rightarrow> string \<Rightarrow> string \<times> string" where [py_str]:
  "py_partition c s = (takeWhile (\<lambda>x. x \<noteq> c) s, tl (dropWhile (\<lambda>x. x \<noteq> c) s))"

text \<open>\<open>c.isdigit()\<close> holds for the superscripts two, three and one as well; \<open>int\<close> takes only 0-9.\<close>

definition is_dec_digit :: "char \<Rightarrow> bool" where [py_str]:
  "is_dec_digit c \<longleftrightarrow> 48 \<le> char_code c \<and> char_code c \<le> 57"

definition py_isdigit_char :: "char \<Rightarrow> bool" where [py_str]:
  "py_isdigit_char c \<longleftrightarrow> is_dec_digit c \<or> char_code c \<in> {178, 179, 185}"

definition py_isdigit :: "string \<Rightarrow> bool" where [py_str]:
  "py_isdigit s \<longleftrightarrow> s \<noteq> [] \<and> list_all py_isdigit_char s"

definition digit_val :: "char \<Rightarrow> nat" where [py_str]:
  "digit_val c = char_code c - 48"

definition digits_val :: "string \<Rightarrow> nat" where [py_str]:
  "digits_val s = foldl (\<lambda>acc c. acc * 10 + digit_val c) 0 s"

text \<open>
  The digit part of an \<open>int\<close> literal: nonempty, decimal digits, single underscores between
  digits only.
\<close>

fun py_int_body :: "string \<Rightarrow> string option" where
  "py_int_body [] = None"
| "py_int_body [c] = (if is_dec_digit c then Some [c] else None)"
| "py_int_body (c # d # cs) =
     (if \<not> is_dec_digit c then None
      else if d = CHR ''_'' then map_option ((#) c) (py_int_body cs)
      else map_option ((#) c) (py_int_body (d # cs)))"

text \<open>\<open>int(s)\<close>: \<open>None\<close> is the \<open>ValueError\<close>, raised for more than 4300 digits too.\<close>

definition py_int_of_str :: "string \<Rightarrow> int option" where [py_str]:
  "py_int_of_str s =
     (let t = py_strip s;
          neg = (t \<noteq> [] \<and> hd t = CHR ''-'');
          u = (if t \<noteq> [] \<and> (hd t = CHR ''-'' \<or> hd t = CHR ''+'') then tl t else t)
      in case py_int_body u of
           None \<Rightarrow> None
         | Some ds \<Rightarrow> if length ds > 4300 then None
             else Some (if neg then - int (digits_val ds) else int (digits_val ds)))"

text \<open>\<open>str(n)\<close> of an int.\<close>

fun nat_str :: "nat \<Rightarrow> string" where
  "nat_str n = (if n < 10 then [char_of (n + 48)] else nat_str (n div 10) @ [char_of (n mod 10 + 48)])"

declare nat_str.simps [simp del]

definition int_str :: "int \<Rightarrow> string" where
  "int_str i = (if i < 0 then CHR ''-'' # nat_str (nat (- i)) else nat_str (nat i))"

lemma digits_val_snoc: "digits_val (ds @ [c]) = digits_val ds * 10 + digit_val c"
  by (simp add: digits_val_def)

lemma char_code_digit: "n < 10 \<Longrightarrow> char_code (char_of (n + 48) :: char) = n + 48"
  by simp

lemma nat_str_nonempty [simp]: "nat_str n \<noteq> []"
  by (subst nat_str.simps) simp

lemma nat_str_digits: "list_all is_dec_digit (nat_str n)"
proof (induction n rule: nat_str.induct)
  case (1 n)
  show ?case
  proof (cases "n < 10")
    case True
    then show ?thesis by (subst nat_str.simps) (simp add: is_dec_digit_def)
  next
    case False
    have "n mod 10 < 10" by simp
    then have "is_dec_digit (char_of (n mod 10 + 48))"
      unfolding is_dec_digit_def by (simp only: char_code_digit) simp
    with False 1 show ?thesis by (subst nat_str.simps) simp
  qed
qed

lemma digits_val_nat_str: "digits_val (nat_str n) = n"
proof (induction n rule: nat_str.induct)
  case (1 n)
  show ?case
  proof (cases "n < 10")
    case True
    then show ?thesis by (subst nat_str.simps) (simp add: digits_val_def digit_val_def)
  next
    case False
    have "digit_val (char_of (n mod 10 + 48)) = n mod 10"
      unfolding digit_val_def by (subst char_code_digit) simp_all
    with False 1 show ?thesis by (subst nat_str.simps) (simp add: digits_val_snoc)
  qed
qed

lemma py_int_body_digits: "s \<noteq> [] \<Longrightarrow> list_all is_dec_digit s \<Longrightarrow> py_int_body s = Some s"
proof (induction s rule: py_int_body.induct)
  case (3 c d cs)
  then have "d \<noteq> CHR ''_''" by (auto simp: is_dec_digit_def)
  with 3 show ?case by simp
qed simp_all

lemma digit_not_space: "is_dec_digit c \<Longrightarrow> \<not> py_isspace c"
  by (auto simp: is_dec_digit_def py_isspace_def Let_def)

lemma dropWhile_none: "s = [] \<or> \<not> P (hd s) \<Longrightarrow> dropWhile P s = s"
  by (cases s) auto

lemma py_strip_id:
  "(s = [] \<or> \<not> py_isspace (hd s) \<and> \<not> py_isspace (last s)) \<Longrightarrow> py_strip s = s"
  by (auto simp: py_strip_def py_lstrip_def dropWhile_none hd_rev)

lemma py_strip_digits: "list_all is_dec_digit s \<Longrightarrow> py_strip s = s"
  by (rule py_strip_id) (cases s, auto simp: list_all_iff digit_not_space)

lemma py_int_of_digits:
  assumes "s \<noteq> []" "list_all is_dec_digit s" "length s \<le> 4300"
  shows "py_int_of_str s = Some (int (digits_val s))"
proof -
  have "is_dec_digit (hd s)" using assms by (cases s) auto
  then have "hd s \<noteq> CHR ''-''" "hd s \<noteq> CHR ''+''" by (auto simp: is_dec_digit_def)
  then show ?thesis using assms
    by (simp add: py_int_of_str_def py_strip_digits py_int_body_digits)
qed

lemma length_py_lower [simp]: "length (py_lower s) = length s"
  by (simp add: py_lower_def)

lemma py_lower_char_idem: "py_lower_char (py_lower_char c) = py_lower_char c"
proof -
  have "char_code (char_of (n + 32) :: char) = n + 32" if "n \<le> 222" for n :: nat
    using that by simp
  then show ?thesis by (auto simp: py_lower_char_def Let_def)
qed

lemma py_lower_idem [simp]: "py_lower (py_lower s) = py_lower s"
  by (simp add: py_lower_def py_lower_char_idem)

section \<open>Insertion-ordered dictionaries and order-preserving deduplication\<close>

type_synonym ('k, 'v) odict = "('k \<times> 'v) list"

lemma od_get_set [od_simps]: "map_of (AList.update k v d) k' = (if k' = k then Some v else map_of d k')"
  by (simp add: update_conv')

lemma od_get_del [od_simps]: "map_of (AList.delete k d) k' = (if k' = k then None else map_of d k')"
  by (simp add: delete_conv')

lemma od_keys_set: "fst ` set (AList.update k v d) = insert k (fst ` set d)"
  by (simp add: dom_update)

text \<open>\<open>list(dict.fromkeys(xs))\<close>, and the loops that keep the first occurrence with a \<open>seen\<close> set.\<close>

fun dedup_from :: "'a set \<Rightarrow> 'a list \<Rightarrow> 'a list" where
  "dedup_from seen [] = []"
| "dedup_from seen (x # xs) =
     (if x \<in> seen then dedup_from seen xs else x # dedup_from (insert x seen) xs)"

abbreviation dedup :: "'a list \<Rightarrow> 'a list" where "dedup \<equiv> dedup_from {}"

lemma set_dedup_from: "set (dedup_from S xs) = set xs - S"
  by (induction xs arbitrary: S) auto

lemma distinct_dedup_from: "distinct (dedup_from S xs)"
  by (induction xs arbitrary: S) (auto simp: set_dedup_from)

lemma dedup_from_id: "distinct xs \<Longrightarrow> set xs \<inter> S = {} \<Longrightarrow> dedup_from S xs = xs"
  by (induction xs arbitrary: S) auto

lemma length_dedup_from: "length (dedup_from S xs) \<le> length xs"
proof (induction xs arbitrary: S)
  case (Cons x xs)
  have "length (dedup_from S xs) \<le> Suc (length xs)" using Cons[of S] by simp
  then show ?case using Cons[of "insert x S"] by simp
qed simp

section \<open>Sorted lists by a key\<close>

text \<open>\<open>sorted(xs, key=f)\<close> is stable, as \<open>sort_key f xs\<close> is.\<close>

lemma sort_key_cong_set: "set (sort_key f xs) = set xs" by simp

lemma sort_key_unique:
  assumes "mset xs = mset ys" "inj_on f (set xs)"
  shows "sort_key f xs = sort_key f ys"
proof (rule properties_for_sort_key)
  show "mset (sort_key f ys) = mset xs" using assms(1) by simp
  show "sorted (map f (sort_key f ys))" by simp
next
  fix k
  assume "k \<in> set (sort_key f ys)"
  then have k: "k \<in> set xs" using assms(1) by (metis set_mset_mset set_sort)
  have st: "filter (\<lambda>x. f k = f x) zs = filter (\<lambda>x. k = x) zs" if "set zs = set xs" for zs
    using that assms(2) k by (intro filter_cong) (auto dest: inj_onD)
  have rep: "filter (\<lambda>x. k = x) zs = replicate (count (mset zs) k) k" for zs :: "'a list"
    by (induction zs) auto
  have "set ys = set xs" using assms(1) by (metis set_mset_mset)
  then show "filter (\<lambda>x. f k = f x) (sort_key f ys) = filter (\<lambda>x. f k = f x) xs"
    using assms(1) by (simp add: st rep)
qed

end
