(* ===== verification/ApiKeys.thy ===== *)
theory ApiKeys
  imports Prelude "HOL-Library.List_Lexorder" "HOL-Library.Char_ord" "HOL-Library.Product_Lexorder"
begin

text \<open>
  API keys and rate limits (\<open>security/store.py\<close>, \<open>security/anon_limiter.py\<close>,
  \<open>security/models.py\<close>). The SQLite file is the state: one table of keys and one of request counts,
  each with its primary key; each operation is one transaction under the store's lock. The random
  parts of a new key and the clock readings are arguments, SHA-256 is the parameter \<open>sha\<close>. The
  failures of SQLite itself (a locked or unreadable file) are left out.
\<close>

section \<open>Results (\<open>security/models.py\<close>)\<close>

datatype auth_failure_reason = MISSING_AUTHORIZATION | INVALID_AUTHORIZATION | INVALID_KEY | REVOKED | EXPIRED

fun auth_reason_text :: "auth_failure_reason \<Rightarrow> string" where
  "auth_reason_text MISSING_AUTHORIZATION = ''missing_authorization''"
| "auth_reason_text INVALID_AUTHORIZATION = ''invalid_authorization''"
| "auth_reason_text INVALID_KEY = ''invalid_key''"
| "auth_reason_text REVOKED = ''revoked''"
| "auth_reason_text EXPIRED = ''expired''"

record api_key_record =
  kr_public_id :: string
  kr_label :: string
  kr_key_prefix :: string
  kr_created_at :: int
  kr_rate_limit_rpm :: "int option"
  kr_last_used_at :: "int option"
  kr_revoked_at :: "int option"
  kr_revoked_reason :: "string option"
  kr_expires_at :: "int option"

record api_key_issue_result =
  ai_public_id :: string
  ai_label :: string
  ai_key :: string
  ai_key_prefix :: string
  ai_created_at :: int

record auth_result =
  au_authenticated :: bool
  au_public_id :: "string option"
  au_label :: "string option"
  au_rate_limit_rpm :: "int option"
  au_failure_reason :: "auth_failure_reason option"

definition auth_success :: "string \<Rightarrow> string \<Rightarrow> int option \<Rightarrow> auth_result" where
  "auth_success public_id label rpm = \<lparr>au_authenticated = True, au_public_id = Some public_id,
     au_label = Some label, au_rate_limit_rpm = rpm, au_failure_reason = None\<rparr>"

definition auth_failure :: "auth_failure_reason \<Rightarrow> auth_result" where
  "auth_failure reason = \<lparr>au_authenticated = False, au_public_id = None, au_label = None,
     au_rate_limit_rpm = None, au_failure_reason = Some reason\<rparr>"

record rate_limit_result =
  rl_allowed :: bool
  rl_limit :: int
  rl_remaining :: int
  rl_reset_epoch :: int
  rl_retry_after_seconds :: int
  rl_request_count :: int

definition rate_limit_headers :: "rate_limit_result \<Rightarrow> (string, string) odict" where
  "rate_limit_headers r =
     [(''X-RateLimit-Limit'', int_str (rl_limit r)), (''X-RateLimit-Remaining'', int_str (rl_remaining r)),
      (''X-RateLimit-Reset'', int_str (rl_reset_epoch r)), (''Retry-After'', int_str (rl_retry_after_seconds r))]"

datatype delete_status = DELETED | ALREADY_DELETED | NOT_FOUND

record delete_result =
  dr_status :: delete_status
  dr_public_id :: string
  dr_revoked_at :: "int option"
  dr_revoked_reason :: "string option"

section \<open>The store\<close>

record api_key_row =
  k_label :: string
  k_secret_hash :: string
  k_key_prefix :: string
  k_created_at :: int
  k_rate_limit_rpm :: "int option"
  k_last_used_at :: "int option"
  k_revoked_at :: "int option"
  k_revoked_reason :: "string option"
  k_expires_at :: "int option"

record key_store =
  ks_keys :: "(string, api_key_row) odict"
  ks_windows :: "(string \<times> int, int) odict"
  ks_next_cleanup :: int

text \<open>Opening the store on the tables found in its file.\<close>

definition ApiKeyStore :: "(string, api_key_row) odict \<Rightarrow> (string \<times> int, int) odict \<Rightarrow> key_store" where
  "ApiKeyStore keys windows = \<lparr>ks_keys = keys, ks_windows = windows, ks_next_cleanup = 0\<rparr>"

definition KEY_PREFIX :: string where "KEY_PREFIX = ''tpa_live_''"

definition hex_char :: "char \<Rightarrow> bool" where
  "hex_char c \<longleftrightarrow> is_dec_digit c \<or> (97 \<le> char_code c \<and> char_code c \<le> 102)"

definition public_id_pattern :: "string \<Rightarrow> bool" where
  "public_id_pattern s \<longleftrightarrow> length s = 16 \<and> list_all hex_char s"

definition normalize_label :: "string \<Rightarrow> string res" where
  "normalize_label label = (let l = py_strip label in if l = [] then Inl (ValueError ''label must be non-empty'') else Inr l)"

definition normalize_reason :: "string option \<Rightarrow> string option" where
  "normalize_reason reason = (case reason of None \<Rightarrow> None
     | Some r \<Rightarrow> let s = py_strip r in if s = [] then None else Some s)"

definition hash_secret :: "(string \<Rightarrow> string) \<Rightarrow> string \<Rightarrow> string \<Rightarrow> string" where
  "hash_secret sha public_id secret = sha (public_id @ '':'' @ secret)"

definition parse_key :: "string \<Rightarrow> (string \<times> string) option" where
  "parse_key key =
     (if \<not> py_startswith key KEY_PREFIX then None
      else let raw = drop (length KEY_PREFIX) key in
        if CHR ''.'' \<notin> set raw then None
        else let (public_id, secret) = py_partition (CHR ''.'') raw in
          if public_id = [] \<or> secret = [] then None
          else if \<not> public_id_pattern public_id then None
          else Some (public_id, secret))"

definition parse_bearer_credential :: "string option \<Rightarrow> auth_failure_reason + string" where
  "parse_bearer_credential authorization =
     (case authorization of
        None \<Rightarrow> Inl MISSING_AUTHORIZATION
      | Some a \<Rightarrow>
          if a = [] then Inl MISSING_AUTHORIZATION
          else case py_split_ws1 (py_strip a) of
            [scheme, credential] \<Rightarrow>
              (if py_lower scheme \<noteq> ''bearer'' then Inl INVALID_AUTHORIZATION
               else if credential = [] then Inl INVALID_AUTHORIZATION
               else Inr credential)
          | _ \<Rightarrow> Inl INVALID_AUTHORIZATION)"

definition auth_row_failure_reason ::
    "(string \<Rightarrow> string) \<Rightarrow> api_key_row \<Rightarrow> int \<Rightarrow> string \<Rightarrow> string \<Rightarrow> auth_failure_reason option" where
  "auth_row_failure_reason sha row now public_id secret =
     (if k_revoked_at row \<noteq> None then Some REVOKED
      else if (case k_expires_at row of None \<Rightarrow> False | Some t \<Rightarrow> now \<ge> t) then Some EXPIRED
      else if k_secret_hash row \<noteq> hash_secret sha public_id secret then Some INVALID_KEY
      else None)"

text \<open>\<open>UPDATE api_keys SET ... WHERE public_id = ?\<close>.\<close>

definition update_key :: "string \<Rightarrow> (api_key_row \<Rightarrow> api_key_row) \<Rightarrow> key_store \<Rightarrow> key_store" where
  "update_key public_id f st = st\<lparr>ks_keys := map (\<lambda>(k, row). (k, if k = public_id then f row else row)) (ks_keys st)\<rparr>"

definition authenticate_key :: "(string \<Rightarrow> string) \<Rightarrow> string \<Rightarrow> int \<Rightarrow> key_store \<Rightarrow> auth_result \<times> key_store" where
  "authenticate_key sha key now st =
     (case parse_key key of
        None \<Rightarrow> (auth_failure INVALID_KEY, st)
      | Some (public_id, secret) \<Rightarrow>
          (case map_of (ks_keys st) public_id of
             None \<Rightarrow> (auth_failure INVALID_KEY, st)
           | Some row \<Rightarrow>
               (case auth_row_failure_reason sha row now public_id secret of
                  Some reason \<Rightarrow> (auth_failure reason, st)
                | None \<Rightarrow> (auth_success public_id (k_label row) (k_rate_limit_rpm row),
                           update_key public_id (\<lambda>r. r\<lparr>k_last_used_at := Some now\<rparr>) st))))"

definition authenticate_bearer_header ::
    "(string \<Rightarrow> string) \<Rightarrow> string option \<Rightarrow> int \<Rightarrow> key_store \<Rightarrow> auth_result \<times> key_store" where
  "authenticate_bearer_header sha authorization now st =
     (case parse_bearer_credential authorization of
        Inl reason \<Rightarrow> (auth_failure reason, st)
      | Inr credential \<Rightarrow> authenticate_key sha credential now st)"

definition authenticate_request_headers ::
    "(string \<Rightarrow> string) \<Rightarrow> string option \<Rightarrow> string option \<Rightarrow> int \<Rightarrow> key_store \<Rightarrow> auth_result \<times> key_store" where
  "authenticate_request_headers sha authorization x_api_key now st =
     (case parse_bearer_credential authorization of
        Inr credential \<Rightarrow> authenticate_key sha credential now st
      | Inl bearer_failure \<Rightarrow>
          (case x_api_key of
             Some k \<Rightarrow> if py_strip k \<noteq> [] then authenticate_key sha (py_strip k) now st
                       else (auth_failure bearer_failure, st)
           | None \<Rightarrow> (auth_failure bearer_failure, st)))"

text \<open>\<open>public_id\<close> and \<open>secret\<close> come from \<open>secrets.token_hex(8)\<close> and \<open>secrets.token_urlsafe(24)\<close>.\<close>

definition issue_key :: "(string \<Rightarrow> string) \<Rightarrow> string \<Rightarrow> string \<Rightarrow> string \<Rightarrow> int \<Rightarrow> key_store
    \<Rightarrow> api_key_issue_result res \<times> key_store" where
  "issue_key sha label public_id secret now st =
     (case normalize_label label of
        Inl e \<Rightarrow> (Inl e, st)
      | Inr l \<Rightarrow>
          let key_prefix = KEY_PREFIX @ public_id @ ''.''; raw_key = key_prefix @ secret in
          if map_of (ks_keys st) public_id \<noteq> None then (Inl (OtherException ''IntegrityError''), st)
          else
            (Inr \<lparr>ai_public_id = public_id, ai_label = l, ai_key = raw_key, ai_key_prefix = key_prefix,
                  ai_created_at = now\<rparr>,
             st\<lparr>ks_keys := ks_keys st @ [(public_id, \<lparr>k_label = l, k_secret_hash = hash_secret sha public_id secret,
                k_key_prefix = key_prefix, k_created_at = now, k_rate_limit_rpm = None, k_last_used_at = None,
                k_revoked_at = None, k_revoked_reason = None, k_expires_at = None\<rparr>)]\<rparr>))"

definition shown_reason :: "string option \<Rightarrow> string option" where
  "shown_reason reason = (case reason of None \<Rightarrow> None | Some r \<Rightarrow> if r = [] then None else Some r)"

definition api_key_record_from_row :: "string \<times> api_key_row \<Rightarrow> api_key_record" where
  "api_key_record_from_row e =
     (case e of (public_id, row) \<Rightarrow>
        \<lparr>kr_public_id = public_id, kr_label = k_label row, kr_key_prefix = k_key_prefix row,
         kr_created_at = k_created_at row, kr_rate_limit_rpm = k_rate_limit_rpm row,
         kr_last_used_at = k_last_used_at row, kr_revoked_at = k_revoked_at row,
         kr_revoked_reason = shown_reason (k_revoked_reason row), kr_expires_at = k_expires_at row\<rparr>)"

text \<open>\<open>ORDER BY created_at DESC, public_id ASC\<close>.\<close>

definition list_keys :: "bool \<Rightarrow> key_store \<Rightarrow> api_key_record list" where
  "list_keys include_revoked st =
     map api_key_record_from_row
       (sort_key (\<lambda>(public_id, row). (- k_created_at row, public_id))
         (filter (\<lambda>(_, row). include_revoked \<or> k_revoked_at row = None) (ks_keys st)))"

definition delete_key :: "string \<Rightarrow> string option \<Rightarrow> int \<Rightarrow> key_store \<Rightarrow> delete_result \<times> key_store" where
  "delete_key public_id reason now st =
     (case map_of (ks_keys st) public_id of
        None \<Rightarrow> (\<lparr>dr_status = NOT_FOUND, dr_public_id = public_id, dr_revoked_at = None, dr_revoked_reason = None\<rparr>, st)
      | Some row \<Rightarrow>
          (case k_revoked_at row of
             Some t \<Rightarrow> (\<lparr>dr_status = ALREADY_DELETED, dr_public_id = public_id, dr_revoked_at = Some t,
                         dr_revoked_reason = shown_reason (k_revoked_reason row)\<rparr>, st)
           | None \<Rightarrow> (\<lparr>dr_status = DELETED, dr_public_id = public_id, dr_revoked_at = Some now,
                       dr_revoked_reason = normalize_reason reason\<rparr>,
                      update_key public_id (\<lambda>r. r\<lparr>k_revoked_at := Some now,
                        k_revoked_reason := normalize_reason reason\<rparr>) st)))"

definition set_key_rate_limit :: "string \<Rightarrow> int \<Rightarrow> key_store \<Rightarrow> bool res \<times> key_store" where
  "set_key_rate_limit public_id rate_limit_rpm st =
     (if rate_limit_rpm \<le> 0 then (Inl (ValueError ''rate_limit_rpm must be > 0''), st)
      else (Inr (map_of (ks_keys st) public_id \<noteq> None),
            update_key public_id (\<lambda>r. r\<lparr>k_rate_limit_rpm := Some rate_limit_rpm\<rparr>) st))"

section \<open>Rate windows\<close>

definition RATE_WINDOW_SECONDS :: int where "RATE_WINDOW_SECONDS = 60"
definition RETENTION_WINDOWS :: int where "RETENTION_WINDOWS = 120"
definition CLEANUP_INTERVAL_SECONDS :: int where "CLEANUP_INTERVAL_SECONDS = 30"

definition rate_window :: "int \<Rightarrow> int" where
  "rate_window now = now - now mod RATE_WINDOW_SECONDS"

definition cleanup_rate_windows_if_due ::
    "int \<Rightarrow> int \<Rightarrow> int \<Rightarrow> (string \<times> int, int) odict \<Rightarrow> (string \<times> int, int) odict \<times> int" where
  "cleanup_rate_windows_if_due now window_start next_cleanup windows =
     (if now < next_cleanup then (windows, next_cleanup)
      else (filter (\<lambda>((_, w), _). \<not> w < window_start - RETENTION_WINDOWS * RATE_WINDOW_SECONDS) windows,
            now + CLEANUP_INTERVAL_SECONDS))"

definition consume_rate_limit :: "string \<Rightarrow> int \<Rightarrow> int \<Rightarrow> key_store \<Rightarrow> rate_limit_result res \<times> key_store" where
  "consume_rate_limit public_id limit_rpm now st =
     (if limit_rpm \<le> 0 then (Inl (ValueError ''limit_rpm must be > 0''), st)
      else
        let window_start = rate_window now; reset_epoch = window_start + RATE_WINDOW_SECONDS;
            request_count = (case map_of (ks_windows st) (public_id, window_start) of None \<Rightarrow> 1 | Some c \<Rightarrow> c + 1);
            (windows, next_cleanup) = cleanup_rate_windows_if_due now window_start (ks_next_cleanup st)
              (AList.update (public_id, window_start) request_count (ks_windows st))
        in (Inr \<lparr>rl_allowed = (request_count \<le> limit_rpm), rl_limit = limit_rpm,
                rl_remaining = max (limit_rpm - request_count) 0, rl_reset_epoch = reset_epoch,
                rl_retry_after_seconds = max (reset_epoch - now) 0, rl_request_count = request_count\<rparr>,
            st\<lparr>ks_windows := windows, ks_next_cleanup := next_cleanup\<rparr>))"

section \<open>Anonymous clients (\<open>security/anon_limiter.py\<close>)\<close>

record anon_limiter =
  an_windows :: "string \<rightharpoonup> int \<times> int"
  an_next_cleanup :: int

definition AnonymousRateLimiter :: anon_limiter where
  "AnonymousRateLimiter = \<lparr>an_windows = Map.empty, an_next_cleanup = 0\<rparr>"

definition anon_cleanup :: "int \<Rightarrow> int \<Rightarrow> (string \<rightharpoonup> int \<times> int) \<Rightarrow> (string \<rightharpoonup> int \<times> int)" where
  "anon_cleanup now min_interval windows =
     (let cutoff = now - max 3 (min_interval * 3) in
      (\<lambda>k. case windows k of None \<Rightarrow> None | Some (w, c) \<Rightarrow> if w < cutoff then None else Some (w, c)))"

definition bucket_key :: "string \<Rightarrow> string" where
  "bucket_key client_id = (if client_id = [] then ''unknown'' else client_id)"

definition anon_consume_bucket :: "int \<Rightarrow> string \<Rightarrow> int \<Rightarrow> anon_limiter \<Rightarrow> rate_limit_result \<times> anon_limiter" where
  "anon_consume_bucket min_interval bucket now l =
     (let window_start = (now div min_interval) * min_interval;
          request_count = (case an_windows l bucket of
              Some (w, c) \<Rightarrow> if w = window_start then c + 1 else 1
            | None \<Rightarrow> 1);
          windows = (an_windows l)(bucket \<mapsto> (window_start, request_count));
          l' = (if now \<ge> an_next_cleanup l
                then l\<lparr>an_windows := anon_cleanup now min_interval windows, an_next_cleanup := now + 10\<rparr>
                else l\<lparr>an_windows := windows\<rparr>);
          reset_epoch = window_start + min_interval
      in (\<lparr>rl_allowed = (request_count \<le> 1), rl_limit = 1, rl_remaining = max (1 - request_count) 0,
           rl_reset_epoch = reset_epoch, rl_retry_after_seconds = max (reset_epoch - now) 0,
           rl_request_count = request_count\<rparr>, l'))"

definition anon_consume :: "string \<Rightarrow> int \<Rightarrow> int \<Rightarrow> anon_limiter \<Rightarrow> rate_limit_result res \<times> anon_limiter" where
  "anon_consume client_id min_interval now l =
     (if min_interval \<le> 0 then (Inl (ValueError ''min_interval_seconds must be > 0''), l)
      else let (r, l') = anon_consume_bucket min_interval (bucket_key client_id) now l in (Inr r, l'))"

section \<open>Counting requests in windows\<close>

text \<open>
  What a rate limiter with fixed windows promises: consuming for a usable key adds one to the count
  of that key in the window of the moment and allows the request as long as that count stays within
  the key's limit; the counts of other keys in this window stay, and no other count becomes positive.
\<close>

locale window_counter =
  fixes consume :: "'k \<Rightarrow> int \<Rightarrow> 's \<Rightarrow> bool \<times> 's" and count :: "'s \<Rightarrow> 'k \<Rightarrow> int \<Rightarrow> int"
    and window :: "int \<Rightarrow> int" and limit :: "'k \<Rightarrow> int" and usable :: "'k \<Rightarrow> bool"
  assumes allowed_iff: "usable k \<Longrightarrow> consume k t s = (a, s') \<Longrightarrow> a \<longleftrightarrow> count s k (window t) < limit k"
    and count_self: "usable k \<Longrightarrow> consume k t s = (a, s') \<Longrightarrow> count s' k (window t) = count s k (window t) + 1"
    and count_other: "usable k \<Longrightarrow> consume k t s = (a, s') \<Longrightarrow> k' \<noteq> k \<Longrightarrow>
      count s' k' (window t) = count s k' (window t)"
    and count_zero: "usable k \<Longrightarrow> consume k t s = (a, s') \<Longrightarrow> (k', w) \<noteq> (k, window t) \<Longrightarrow>
      count s k' w = 0 \<Longrightarrow> count s' k' w = 0"

text \<open>The answers to a sequence of requests, and those for one key in one window.\<close>

fun answers :: "('k \<Rightarrow> int \<Rightarrow> 's \<Rightarrow> bool \<times> 's) \<Rightarrow> ('k \<times> int) list \<Rightarrow> 's \<Rightarrow> (bool \<times> 'k \<times> int) list" where
  "answers consume [] s = []"
| "answers consume ((k, t) # calls) s = (let (a, s') = consume k t s in (a, k, t) # answers consume calls s')"

definition answers_in :: "(int \<Rightarrow> int) \<Rightarrow> 'k \<Rightarrow> int \<Rightarrow> (bool \<times> 'k \<times> int) list \<Rightarrow> bool list" where
  "answers_in window k w as = map fst (filter (\<lambda>(a, k', t). k' = k \<and> window t = w) as)"

lemma answers_in_simps [simp]:
  "answers_in window k w [] = []"
  "answers_in window k w ((a, k', t) # as) =
     (if k' = k \<and> window t = w then a # answers_in window k w as else answers_in window k w as)"
  by (simp_all add: answers_in_def)

lemma answers_calls: "map snd (answers consume calls s) = calls"
  by (induction calls arbitrary: s) (auto simp: split_beta)

lemma answers_in_none:
  assumes "\<forall>(k', t) \<in> set calls. window t \<noteq> w"
  shows "answers_in window k w (answers consume calls s) = []"
  using assms by (induction calls arbitrary: s) (auto simp: split_beta)

context window_counter
begin

text \<open>Exactly the first requests up to the limit are allowed.\<close>

lemma first_requests_allowed:
  assumes "sorted (map (window \<circ> snd) calls)" "\<forall>(k', t) \<in> set calls. usable k'"
    and "c = count s k w" "c = 0 \<or> (\<forall>(k', t) \<in> set calls. w \<le> window t)"
  shows "\<exists>n. answers_in window k w (answers consume calls s) = map (\<lambda>j. c + int j < limit k) [0..<n]"
  using assms
proof (induction calls arbitrary: s c)
  case Nil
  then show ?case by (intro exI[of _ 0]) simp
next
  case (Cons call calls)
  obtain k0 t0 where call: "call = (k0, t0)" by fastforce
  obtain a s' where con: "consume k0 t0 s = (a, s')" by fastforce
  have u: "usable k0" using Cons.prems(2) call by simp
  have later: "\<forall>(k', t) \<in> set calls. window t0 \<le> window t" using Cons.prems(1) call by auto
  have srt: "sorted (map (window \<circ> snd) calls)" using Cons.prems(1) by (simp add: comp_def)
  have us: "\<forall>(k', t) \<in> set calls. usable k'" using Cons.prems(2) by simp
  consider (self) "k0 = k" "window t0 = w" | (other) "window t0 = w" "k0 \<noteq> k" | (early) "window t0 < w"
    | (late) "w < window t0" by force
  then show ?case
  proof cases
    case self
    obtain n where n: "answers_in window k w (answers consume calls s') = map (\<lambda>j. (c + 1) + int j < limit k) [0..<n]"
      using Cons.IH[OF srt us, of "c + 1" s'] later count_self[OF u con] self Cons.prems(3) by auto
    have "map (\<lambda>j. c + int j < limit k) [0..<Suc n] = (c < limit k) # map (\<lambda>j. (c + 1) + int j < limit k) [0..<n]"
      by (simp only: upt_conv_Cons[OF zero_less_Suc] map_Suc_upt[symmetric]) (simp add: algebra_simps)
    then show ?thesis using n con self allowed_iff[OF u con] Cons.prems(3)
      by (intro exI[of _ "Suc n"]) (simp add: call del: upt_Suc)
  next
    case other
    have "c = count s' k w" using count_other[OF u con, of k] other Cons.prems(3) by simp
    then show ?thesis using Cons.IH[OF srt us] later other con by (auto simp: call)
  next
    case early
    then have "c = 0" using Cons.prems(4) call by auto
    then have "count s' k w = 0" using count_zero[OF u con, of k w] early Cons.prems(3) by auto
    then show ?thesis using Cons.IH[OF srt us, of 0 s'] early con \<open>c = 0\<close> by (simp add: call)
  next
    case late
    then have "\<forall>(k', t) \<in> set calls. window t \<noteq> w" using later by auto
    then show ?thesis using late con answers_in_none[of calls window w k consume s']
      by (intro exI[of _ 0]) (simp add: call)
  qed
qed

end

lemma answers_in_length:
  "length (answers_in window k w (answers consume calls s)) = length (filter (\<lambda>(k', t). k' = k \<and> window t = w) calls)"
  by (induction calls arbitrary: s) (auto simp: split_beta)

text \<open>The requests of one API key, each within the limit of its key.\<close>

definition consume_key :: "(string \<Rightarrow> int) \<Rightarrow> string \<Rightarrow> int \<Rightarrow> key_store \<Rightarrow> bool \<times> key_store" where
  "consume_key limit public_id now st =
     (case consume_rate_limit public_id (limit public_id) now st of
        (Inr r, st') \<Rightarrow> (rl_allowed r, st') | (Inl e, st') \<Rightarrow> (False, st'))"

definition key_count :: "key_store \<Rightarrow> string \<Rightarrow> int \<Rightarrow> int" where
  "key_count st k w = (case map_of (ks_windows st) (k, w) of None \<Rightarrow> 0 | Some c \<Rightarrow> c)"

lemma map_of_recent:
  "map_of (filter (\<lambda>((_, w), _). \<not> w < cutoff) d) (k, w) = (if w < cutoff then None else map_of d (k, w))"
  by (induction d) auto

lemma consume_key_count:
  assumes "0 < limit k" "consume_key limit k t st = (a, st')"
  shows "(a \<longleftrightarrow> key_count st k (rate_window t) < limit k)
    \<and> (key_count st' k' w = (if (k', w) = (k, rate_window t) then key_count st k' w + 1 else key_count st k' w)
       \<or> (w < rate_window t \<and> key_count st' k' w = 0))"
proof -
  have cut: "\<not> rate_window t < rate_window t - RETENTION_WINDOWS * RATE_WINDOW_SECONDS"
    by (simp add: RETENTION_WINDOWS_def RATE_WINDOW_SECONDS_def)
  have st': "a \<longleftrightarrow> key_count st k (rate_window t) < limit k"
    "ks_windows st' = fst (cleanup_rate_windows_if_due t (rate_window t) (ks_next_cleanup st)
       (AList.update (k, rate_window t) (key_count st k (rate_window t) + 1) (ks_windows st)))"
    using assms by (auto simp: consume_key_def consume_rate_limit_def key_count_def Let_def split: option.splits prod.splits)
  have w: "w < rate_window t - RETENTION_WINDOWS * RATE_WINDOW_SECONDS \<Longrightarrow> w < rate_window t"
    by (simp add: RETENTION_WINDOWS_def RATE_WINDOW_SECONDS_def)
  then show ?thesis using st'(1) cut
    by (auto simp: st'(2) key_count_def cleanup_rate_windows_if_due_def map_of_recent od_simps)
qed

interpretation key_windows: window_counter "consume_key limit" key_count rate_window limit "\<lambda>k. 0 < limit k" for limit
proof unfold_locales
  fix k t s a s' k' w
  assume u: "0 < limit k" and c: "consume_key limit k t s = (a, s')"
  show "a \<longleftrightarrow> key_count s k (rate_window t) < limit k" using consume_key_count[OF u c] by blast
  show "key_count s' k (rate_window t) = key_count s k (rate_window t) + 1"
    using consume_key_count[OF u c, of k "rate_window t"] by simp
  show "key_count s' k' (rate_window t) = key_count s k' (rate_window t)" if "k' \<noteq> k"
    using consume_key_count[OF u c, of k' "rate_window t"] that by auto
  show "key_count s' k' w = 0" if "(k', w) \<noteq> (k, rate_window t)" "key_count s k' w = 0"
    using consume_key_count[OF u c, of k' w] that by auto
qed

text \<open>The requests of one anonymous client.\<close>

definition consume_client :: "int \<Rightarrow> string \<Rightarrow> int \<Rightarrow> anon_limiter \<Rightarrow> bool \<times> anon_limiter" where
  "consume_client min_interval bucket now l =
     (let (r, l') = anon_consume_bucket min_interval bucket now l in (rl_allowed r, l'))"

definition client_count :: "anon_limiter \<Rightarrow> string \<Rightarrow> int \<Rightarrow> int" where
  "client_count l k w = (case an_windows l k of None \<Rightarrow> 0 | Some (w', c) \<Rightarrow> if w' = w then c else 0)"

definition anon_window :: "int \<Rightarrow> int \<Rightarrow> int" where
  "anon_window min_interval now = (now div min_interval) * min_interval"

lemma anon_window_recent: "0 < m \<Longrightarrow> \<not> anon_window m t < t - max 3 (m * 3)"
  using div_mult_mod_eq[of t m] pos_mod_bound[of m t] unfolding anon_window_def by linarith

lemma consume_client_count:
  assumes "0 < m" "consume_client m k t l = (a, l')"
  shows "(a \<longleftrightarrow> client_count l k (anon_window m t) < 1)
    \<and> client_count l' k (anon_window m t) = client_count l k (anon_window m t) + 1
    \<and> (k' \<noteq> k \<longrightarrow> client_count l' k' (anon_window m t) = client_count l k' (anon_window m t))
    \<and> ((k', w) \<noteq> (k, anon_window m t) \<longrightarrow> client_count l k' w = 0 \<longrightarrow> client_count l' k' w = 0)"
proof -
  let ?w = "anon_window m t"
  let ?c = "client_count l k ?w + 1"
  let ?ws = "(an_windows l)(k \<mapsto> (?w, ?c))"
  let ?l1 = "l\<lparr>an_windows := ?ws\<rparr>"
  have a: "a \<longleftrightarrow> ?c \<le> 1" and l': "an_windows l' = ?ws \<or> an_windows l' = anon_cleanup t m ?ws"
    using assms(2) by (auto simp: consume_client_def anon_consume_bucket_def anon_window_def client_count_def Let_def
        split: if_splits option.splits)
  have upd: "client_count ?l1 p v = (if p = k then if v = ?w then ?c else 0 else client_count l p v)" for p v
    by (simp add: client_count_def)
  have eq: "client_count l' p v = client_count ?l1 p v \<or> v < ?w \<and> client_count l' p v = 0" for p v
  proof (cases "an_windows l' = ?ws")
    case True
    then show ?thesis by (simp add: client_count_def)
  next
    case False
    then have c: "an_windows l' = anon_cleanup t m ?ws" using l' by blast
    show ?thesis
    proof (cases "v < t - max 3 (m * 3)")
      case True
      then have "v < ?w" using anon_window_recent[OF assms(1), of t] by linarith
      moreover have "client_count l' p v = 0" using True unfolding client_count_def c
        by (simp add: anon_cleanup_def Let_def split: option.split)
      ultimately show ?thesis by blast
    next
      case False
      then have "client_count l' p v = client_count ?l1 p v" unfolding client_count_def c
        by (simp add: anon_cleanup_def Let_def split: option.split)
      then show ?thesis by blast
    qed
  qed
  show ?thesis using a eq[of k ?w] eq[of k' ?w] eq[of k' w] by (auto simp: upd)
qed

interpretation client_windows: window_counter "consume_client m" client_count "anon_window m" "\<lambda>k. 1" "\<lambda>k. 0 < m" for m
proof unfold_locales
  fix k t s a s' k' w
  assume u: "0 < m" and c: "consume_client m k t s = (a, s')"
  note n = consume_client_count[OF u c, of k' w]
  show "a \<longleftrightarrow> client_count s k (anon_window m t) < 1" using n by blast
  show "client_count s' k (anon_window m t) = client_count s k (anon_window m t) + 1" using n by blast
  show "client_count s' k' (anon_window m t) = client_count s k' (anon_window m t)" if "k' \<noteq> k" using n that by blast
  show "client_count s' k' w = 0" if "(k', w) \<noteq> (k, anon_window m t)" "client_count s k' w = 0" using n that by blast
qed

section \<open>Lemmas on the keys\<close>

lemma update_key_views [simp]:
  "ks_windows (update_key p f st) = ks_windows st" "ks_next_cleanup (update_key p f st) = ks_next_cleanup st"
  "map fst (ks_keys (update_key p f st)) = map fst (ks_keys st)"
  by (auto simp: update_key_def comp_def)

lemma map_of_update_key:
  "map_of (ks_keys (update_key p f st)) k = (if k = p then map_option f (map_of (ks_keys st) k) else map_of (ks_keys st) k)"
proof -
  have "map_of (map (\<lambda>(k, row). (k, if k = p then f row else row)) d) k
      = (if k = p then map_option f (map_of d k) else map_of d k)" for d
    by (induction d) auto
  then show ?thesis by (simp add: update_key_def)
qed

lemma consume_rate_limit_keys [simp]: "ks_keys (snd (consume_rate_limit p l now st)) = ks_keys st"
  by (simp add: consume_rate_limit_def Let_def split: prod.splits)

lemma parse_key_issued:
  assumes "public_id_pattern p" "secret \<noteq> []"
  shows "parse_key (KEY_PREFIX @ p @ ''.'' @ secret) = Some (p, secret)"
proof -
  have hex: "hex_char c \<Longrightarrow> c \<noteq> CHR ''.''" for c by (auto simp: hex_char_def is_dec_digit_def)
  have "\<forall>c \<in> set p. c \<noteq> CHR ''.''" "p \<noteq> []" using assms(1) hex by (auto simp: public_id_pattern_def list_all_iff)
  then have "takeWhile (\<lambda>x. x \<noteq> CHR ''.'') (p @ ''.'' @ secret) = p"
    "dropWhile (\<lambda>x. x \<noteq> CHR ''.'') (p @ ''.'' @ secret) = ''.'' @ secret"
    by (simp_all add: takeWhile_append2 dropWhile_append2)
  then show ?thesis using assms \<open>p \<noteq> []\<close>
    by (simp add: parse_key_def py_startswith_def py_partition_def KEY_PREFIX_def)
qed

lemma bearer_issued:
  assumes "list_all (\<lambda>c. \<not> py_isspace c) key" "key \<noteq> []"
  shows "parse_bearer_credential (Some (''Bearer '' @ key)) = Inr key"
proof -
  have l: "\<not> py_isspace (last key)" "\<not> py_isspace (hd key)" using assms by (auto simp: list_all_iff)
  have space: "py_isspace CHR '' ''" by (simp add: py_isspace_def)
  have "py_strip (''Bearer '' @ key) = ''Bearer '' @ key"
    using assms l by (intro py_strip_id) (simp add: py_isspace_def Let_def)
  moreover have letters: "\<not> py_isspace CHR ''B''" "\<not> py_isspace CHR ''e''" "\<not> py_isspace CHR ''a''" "\<not> py_isspace CHR ''r''"
    by code_simp+
  then have "py_split_ws1 (''Bearer '' @ key) = [''Bearer'', key]"
    using l assms(2) hd_in_set[OF assms(2)] by (auto simp: py_split_ws1_def py_lstrip_def Let_def space dropWhile_none)
  moreover have "py_lower ''Bearer'' = ''bearer''" by code_simp
  ultimately show ?thesis using assms(2) by (simp add: parse_bearer_credential_def)
qed

section \<open>What the store stores\<close>

text \<open>
  The abstract store: the live (not revoked) keys with what authentication needs of them. Every
  operation of the store acts on it as the obvious map update.
\<close>

definition live_keys :: "key_store \<Rightarrow> string \<rightharpoonup> string \<times> string \<times> int option \<times> int option" where
  "live_keys st p =
     (case map_of (ks_keys st) p of
        None \<Rightarrow> None
      | Some row \<Rightarrow> if k_revoked_at row = None
          then Some (k_label row, k_secret_hash row, k_rate_limit_rpm row, k_expires_at row) else None)"

lemma authenticated_iff:
  "au_authenticated (fst (authenticate_key sha key now st)) \<longleftrightarrow>
     (\<exists>q s l h rpm e. parse_key key = Some (q, s) \<and> live_keys st q = Some (l, h, rpm, e)
        \<and> h = hash_secret sha q s \<and> (e = None \<or> now < the e))"
  by (auto simp: authenticate_key_def live_keys_def auth_row_failure_reason_def auth_success_def auth_failure_def
      split: option.splits if_splits)

lemma authenticated_result:
  "au_authenticated (fst (authenticate_key sha key now st)) \<Longrightarrow>
     \<exists>q s l h rpm e. parse_key key = Some (q, s) \<and> live_keys st q = Some (l, h, rpm, e)
        \<and> h = hash_secret sha q s \<and> (e = None \<or> now < the e)
        \<and> fst (authenticate_key sha key now st) = auth_success q l rpm"
  by (auto simp: authenticate_key_def live_keys_def auth_row_failure_reason_def auth_failure_def
      split: option.splits if_splits)

text \<open>Everything that happens to a store.\<close>

inductive store_step :: "(string \<Rightarrow> string) \<Rightarrow> key_store \<Rightarrow> key_store \<Rightarrow> bool" for sha where
  issue: "store_step sha st (snd (issue_key sha label p secret now st))"
| authenticate: "store_step sha st (snd (authenticate_request_headers sha authorization x_api_key now st))"
| delete: "store_step sha st (snd (delete_key p reason now st))"
| limit: "store_step sha st (snd (set_key_rate_limit p n st))"
| consume: "store_step sha st (snd (consume_rate_limit p n now st))"
| reopen: "store_step sha st (ApiKeyStore (ks_keys st) (ks_windows st))"

definition revoked_key :: "key_store \<Rightarrow> string \<Rightarrow> bool" where
  "revoked_key st p \<longleftrightarrow> (\<exists>row. map_of (ks_keys st) p = Some row \<and> k_revoked_at row \<noteq> None)"

lemma authenticate_key_revoked: "revoked_key st p \<Longrightarrow> revoked_key (snd (authenticate_key sha key now st)) p"
  by (auto simp: revoked_key_def authenticate_key_def map_of_update_key split: option.splits)

lemma store_step_revoked: "store_step sha st st' \<Longrightarrow> revoked_key st p \<Longrightarrow> revoked_key st' p"
proof (induction rule: store_step.induct)
  case (issue st label q secret now)
  then show ?case by (auto simp: revoked_key_def issue_key_def Let_def split: sum.splits)
next
  case (authenticate st authorization x_api_key now)
  then show ?case by (auto simp: authenticate_request_headers_def authenticate_key_revoked split: sum.splits option.splits)
next
  case (delete st q reason now)
  then show ?case by (auto simp: revoked_key_def delete_key_def map_of_update_key split: option.splits)
next
  case (limit st q n)
  then show ?case by (auto simp: revoked_key_def set_key_rate_limit_def map_of_update_key)
next
  case (reopen st)
  then show ?case by (simp add: revoked_key_def ApiKeyStore_def)
qed (simp add: revoked_key_def)

section \<open>Properties\<close>

text \<open>C38: The store implements a map of live keys: issuing adds the key under a fresh id, deleting
  removes it, a rate limit is changed only for a live key, and authenticating or counting a request
  changes nothing; a key authenticates exactly when its id is live, its secret has the stored
  hash and it has not expired.\<close>

theorem store_refines_live_keys:
  "live_keys (snd (issue_key sha label p secret now st)) =
     (case normalize_label label of
        Inr l \<Rightarrow> if map_of (ks_keys st) p = None
          then (live_keys st)(p \<mapsto> (l, hash_secret sha p secret, None, None)) else live_keys st
      | Inl _ \<Rightarrow> live_keys st)
   \<and> live_keys (snd (delete_key p reason now st)) = (live_keys st)(p := None)
   \<and> live_keys (snd (set_key_rate_limit p n st)) =
       (if n \<le> 0 then live_keys st
        else (live_keys st)(p := map_option (\<lambda>(l, h, _, e). (l, h, Some n, e)) (live_keys st p)))
   \<and> live_keys (snd (consume_rate_limit p n now st)) = live_keys st
   \<and> live_keys (snd (authenticate_key sha key now st)) = live_keys st
   \<and> (au_authenticated (fst (authenticate_key sha key now st)) \<longleftrightarrow>
        (\<exists>q s l h rpm e. parse_key key = Some (q, s) \<and> live_keys st q = Some (l, h, rpm, e)
           \<and> h = hash_secret sha q s \<and> (e = None \<or> now < the e)))"
proof (intro conjI)
  show "live_keys (snd (issue_key sha label p secret now st)) =
     (case normalize_label label of
        Inr l \<Rightarrow> if map_of (ks_keys st) p = None
          then (live_keys st)(p \<mapsto> (l, hash_secret sha p secret, None, None)) else live_keys st
      | Inl _ \<Rightarrow> live_keys st)"
    by (rule ext) (auto simp: live_keys_def issue_key_def map_add_def Let_def split: sum.splits option.splits)
  show "live_keys (snd (delete_key p reason now st)) = (live_keys st)(p := None)"
    by (rule ext) (auto simp: live_keys_def delete_key_def map_of_update_key split: option.splits)
  show "live_keys (snd (set_key_rate_limit p n st)) =
       (if n \<le> 0 then live_keys st
        else (live_keys st)(p := map_option (\<lambda>(l, h, _, e). (l, h, Some n, e)) (live_keys st p)))"
    by (rule ext) (auto simp: live_keys_def set_key_rate_limit_def map_of_update_key split: option.splits)
  show "live_keys (snd (consume_rate_limit p n now st)) = live_keys st"
    by (rule ext) (simp add: live_keys_def)
  show "live_keys (snd (authenticate_key sha key now st)) = live_keys st"
    by (rule ext) (auto simp: live_keys_def authenticate_key_def map_of_update_key split: option.splits)
  show "au_authenticated (fst (authenticate_key sha key now st)) \<longleftrightarrow>
        (\<exists>q s l h rpm e. parse_key key = Some (q, s) \<and> live_keys st q = Some (l, h, rpm, e)
           \<and> h = hash_secret sha q s \<and> (e = None \<or> now < the e))"
    by (rule authenticated_iff)
qed

text \<open>A key just issued is accepted, as a bearer token and in the \<open>x-api-key\<close> header, under its
  stripped label; the keys issued before stay what they were.\<close>

theorem issued_key_authenticates:
  assumes "issue_key sha label p secret now st = (Inr issued, st')"
    and "public_id_pattern p" "secret \<noteq> []" "list_all (\<lambda>c. \<not> py_isspace c) secret"
  shows "fst (authenticate_request_headers sha (Some (''Bearer '' @ ai_key issued)) x later st')
      = auth_success p (py_strip label) None
    \<and> fst (authenticate_request_headers sha None (Some (ai_key issued)) later st') = auth_success p (py_strip label) None
    \<and> (\<forall>q \<noteq> p. map_of (ks_keys st') q = map_of (ks_keys st) q)"
proof -
  have key: "ai_key issued = KEY_PREFIX @ p @ ''.'' @ secret"
    and st': "\<exists>row. ks_keys st' = ks_keys st @ [(p, row)] \<and> map_of (ks_keys st) p = None \<and> k_label row = py_strip label
      \<and> k_secret_hash row = hash_secret sha p secret \<and> k_rate_limit_rpm row = None \<and> k_revoked_at row = None
      \<and> k_expires_at row = None"
    using assms(1) by (auto simp: issue_key_def normalize_label_def Let_def split: sum.splits if_splits)
  have hex: "\<not> py_isspace c" if "hex_char c" for c
    using that by (auto simp: hex_char_def is_dec_digit_def py_isspace_def Let_def)
  have "list_all (\<lambda>c. \<not> py_isspace c) KEY_PREFIX" "\<not> py_isspace CHR ''.''" by code_simp+
  then have ns: "list_all (\<lambda>c. \<not> py_isspace c) (ai_key issued)" "ai_key issued \<noteq> []"
    using assms(2,4) hex by (auto simp: key public_id_pattern_def list_all_iff KEY_PREFIX_def)
  then have strip: "py_strip (ai_key issued) = ai_key issued" by (intro py_strip_id) (auto simp: list_all_iff)
  have auth: "fst (authenticate_key sha (ai_key issued) later st') = auth_success p (py_strip label) None"
    using st' parse_key_issued[OF assms(2,3)]
    by (auto simp: authenticate_key_def key auth_row_failure_reason_def map_add_def split: option.splits)
  show ?thesis using auth bearer_issued[OF ns] strip ns(2) st'
    by (auto simp: authenticate_request_headers_def parse_bearer_credential_def map_add_def split: option.splits)
qed

definition example_store :: key_store where
  "example_store = ApiKeyStore [] []"

abbreviation example_id :: string where "example_id \<equiv> ''00112233445566aa''"

theorem issued_key_authenticates_witness:
  "\<exists>issued st. issue_key (\<lambda>x. x) '' ops '' example_id ''s3cret'' 5 example_store = (Inr issued, st)
     \<and> fst (authenticate_request_headers (\<lambda>x. x) None (Some (ai_key issued)) 9 st) = auth_success example_id ''ops'' None"
proof -
  let ?r = "issue_key (\<lambda>x. x) '' ops '' example_id ''s3cret'' 5 example_store"
  have "case fst ?r of Inl e \<Rightarrow> False | Inr i \<Rightarrow> True" by code_simp
  then obtain i where i: "fst ?r = Inr i" by (auto split: sum.splits)
  have run: "?r = (Inr i, snd ?r)" using i by (simp add: prod_eq_iff)
  have h: "public_id_pattern example_id" "list_all (\<lambda>c. \<not> py_isspace c) ''s3cret''" "py_strip '' ops '' = ''ops''"
    by code_simp+
  show ?thesis using issued_key_authenticates[OF run h(1) _ h(2), of None 9] run by (simp add: h(3)) blast
qed

text \<open>A revoked key is rejected for ever: whatever operations follow, reopening the store
  included, its id authenticates with no secret.\<close>

theorem revocation_permanent:
  assumes "revoked_key st p" "(store_step sha)\<^sup>*\<^sup>* st st'" "parse_key key = Some (p, secret)"
  shows "authenticate_key sha key now st' = (auth_failure REVOKED, st')"
proof -
  have "revoked_key st' p" using assms(2,1) by (induction rule: rtranclp_induct) (auto intro: store_step_revoked)
  then show ?thesis using assms(3)
    by (auto simp: revoked_key_def authenticate_key_def auth_row_failure_reason_def)
qed

theorem revocation_permanent_witness:
  "authenticate_key (\<lambda>x. x) ''tpa_live_00112233445566aa.s3cret'' 20
      (snd (set_key_rate_limit example_id 7
        (snd (delete_key example_id None 9 (snd (issue_key (\<lambda>x. x) ''ops'' example_id ''s3cret'' 5 example_store))))))
   = (auth_failure REVOKED, (snd (set_key_rate_limit example_id 7
        (snd (delete_key example_id None 9 (snd (issue_key (\<lambda>x. x) ''ops'' example_id ''s3cret'' 5 example_store)))))))"
proof -
  let ?st = "snd (delete_key example_id None 9 (snd (issue_key (\<lambda>x. x) ''ops'' example_id ''s3cret'' 5 example_store)))"
  have k: "parse_key ''tpa_live_00112233445566aa.s3cret'' = Some (example_id, ''s3cret'')" by code_simp
  have "case map_of (ks_keys ?st) example_id of None \<Rightarrow> False | Some row \<Rightarrow> k_revoked_at row = Some 9" by code_simp
  then have "revoked_key ?st example_id" by (auto simp: revoked_key_def split: option.splits)
  moreover have "(store_step (\<lambda>x. x))\<^sup>*\<^sup>* ?st (snd (set_key_rate_limit example_id 7 ?st))"
    by (intro r_into_rtranclp store_step.limit)
  ultimately show ?thesis using k by (rule revocation_permanent)
qed

text \<open>An API key gets exactly its limit: of its requests in one minute, the first \<open>limit\<close> are
  allowed and the others rejected, whatever requests of other keys come in between, as long as the
  clock does not step back to an earlier minute; counts outside the retention time may be dropped
  without a change.\<close>

theorem key_limit_exact:
  assumes "sorted (map (rate_window \<circ> snd) calls)" "\<forall>k. 0 < limit k" "key_count st public_id w = 0"
  shows "answers_in rate_window public_id w (answers (consume_key limit) calls st)
     = map (\<lambda>j. int j < limit public_id)
         [0..<length (filter (\<lambda>(k, t). k = public_id \<and> rate_window t = w) calls)]"
proof -
  obtain n where n: "answers_in rate_window public_id w (answers (consume_key limit) calls st)
      = map (\<lambda>j. int j < limit public_id) [0..<n]"
    using key_windows.first_requests_allowed[OF assms(1), of limit 0 st public_id w] assms(2,3) by auto
  then show ?thesis using answers_in_length[of rate_window public_id w "consume_key limit" calls st] by simp
qed

theorem key_limit_exact_witness:
  "answers_in rate_window ''k'' 60 (answers (consume_key (\<lambda>_. 2)) [(''k'', 61), (''x'', 62), (''k'', 70), (''k'', 119)] example_store)
     = [True, True, False]"
  by (subst key_limit_exact)
     (simp_all add: example_store_def ApiKeyStore_def key_count_def rate_window_def RATE_WINDOW_SECONDS_def upt_rec)

text \<open>An anonymous client is served exactly once per interval: only the first of its requests
  in an interval of \<open>min_interval\<close> seconds is allowed, whatever other clients do, as long as the clock
  does not step back to an earlier interval.\<close>

theorem anonymous_once_per_interval:
  assumes "0 < min_interval" "sorted (map (anon_window min_interval \<circ> snd) calls)" "client_count l client w = 0"
  shows "answers_in (anon_window min_interval) client w (answers (consume_client min_interval) calls l)
     = map (\<lambda>j. j = 0)
         [0..<length (filter (\<lambda>(k, t). k = client \<and> anon_window min_interval t = w) calls)]"
proof -
  obtain n where n: "answers_in (anon_window min_interval) client w (answers (consume_client min_interval) calls l)
      = map (\<lambda>j. int j < 1) [0..<n]"
    using client_windows.first_requests_allowed[OF assms(2), of 0 l client w] assms(1,3) by auto
  then show ?thesis
    using answers_in_length[of "anon_window min_interval" client w "consume_client min_interval" calls l] by simp
qed

theorem anonymous_once_per_interval_witness:
  "answers_in (anon_window 5) ''ip'' 10 (answers (consume_client 5) [(''ip'', 9), (''ip'', 11), (''x'', 12), (''ip'', 14)]
      AnonymousRateLimiter) = [True, False]"
  by (subst anonymous_once_per_interval)
     (simp_all add: AnonymousRateLimiter_def client_count_def anon_window_def upt_rec)

end
