(* ===== verification/KeyDatabase.thy ===== *)
theory KeyDatabase
  imports ApiKeys
begin

text \<open>
  The SQLite file under the key store (\<open>security/store.py\<close>): its tables as SQL sees them, the creation and the
  migration of the schema, one definition per SQL statement and the operations of the store over these statements.
  ApiKeys has the same operations over typed rows; that this level implements them is a theorem. A row is a dictionary
  from columns to SQL values. Foreign keys are declared but not enforced, which is the default of SQLite.
\<close>

section \<open>Tables\<close>

datatype sql_value = Null | Integer int | Real rat | Text string | Blob "nat list"

type_synonym sql_row = "(string, sql_value) odict"

record sql_table =
  st_columns :: "string list"
  st_rows :: "sql_row list"

record key_file =
  kf_keys :: "sql_table option"
  kf_windows :: "sql_table option"
  kf_index :: bool

definition cell :: "sql_row \<Rightarrow> string \<Rightarrow> sql_value" where
  "cell r c = (case map_of r c of None \<Rightarrow> Null | Some v \<Rightarrow> v)"

definition API_KEYS_COLUMNS :: "string list" where
  "API_KEYS_COLUMNS = [''public_id'', ''label'', ''secret_hash'', ''key_prefix'', ''created_at'', ''rate_limit_rpm'',
     ''last_used_at'', ''revoked_at'', ''revoked_reason'', ''expires_at'']"

definition API_KEYS_NOT_NULL :: "string list" where
  "API_KEYS_NOT_NULL = [''label'', ''secret_hash'', ''key_prefix'', ''created_at'']"

definition RATE_WINDOWS_COLUMNS :: "string list" where
  "RATE_WINDOWS_COLUMNS = [''public_id'', ''window_start'', ''request_count'']"

text \<open>\<open>CREATE TABLE IF NOT EXISTS\<close> and \<open>ALTER TABLE ... ADD COLUMN\<close>.\<close>

definition create_table :: "string list \<Rightarrow> sql_table option \<Rightarrow> sql_table" where
  "create_table columns t = (case t of None \<Rightarrow> \<lparr>st_columns = columns, st_rows = []\<rparr> | Some t \<Rightarrow> t)"

definition add_column :: "string \<Rightarrow> sql_table \<Rightarrow> sql_table" where
  "add_column c t = t\<lparr>st_columns := st_columns t @ [c], st_rows := map (\<lambda>r. r @ [(c, Null)]) (st_rows t)\<rparr>"

definition ensure_api_keys_columns :: "sql_table \<Rightarrow> sql_table" where
  "ensure_api_keys_columns t = (if ''rate_limit_rpm'' \<notin> set (st_columns t) then add_column ''rate_limit_rpm'' t else t)"

definition ensure_key_db :: "key_file \<Rightarrow> key_file" where
  "ensure_key_db f =
     \<lparr>kf_keys = Some (ensure_api_keys_columns (create_table API_KEYS_COLUMNS (kf_keys f))),
      kf_windows = Some (create_table RATE_WINDOWS_COLUMNS (kf_windows f)), kf_index = True\<rparr>"

section \<open>Values\<close>

text \<open>\<open>_to_optional_int\<close>; booleans do not come out of SQLite.\<close>

definition to_optional_int :: "sql_value \<Rightarrow> int option res" where
  "to_optional_int v =
     (case v of
        Null \<Rightarrow> Inr None
      | Integer n \<Rightarrow> Inr (Some n)
      | Real x \<Rightarrow> Inr (Some (if x < 0 then - \<lfloor>- x\<rfloor> else \<lfloor>x\<rfloor>))
      | Text s \<Rightarrow> (case py_int_of_str s of None \<Rightarrow> Inl (ValueError s) | Some n \<Rightarrow> Inr (Some n))
      | Blob b \<Rightarrow> Inl (TypeError ''cannot convert value of type bytes to int''))"

text \<open>\<open>int(row[...])\<close> and \<open>str(row[...])\<close>; \<open>repr\<close> is Python's text of floats and bytes.\<close>

definition int_column :: "sql_value \<Rightarrow> int res" where
  "int_column v =
     (case v of Null \<Rightarrow> Inl (TypeError ''int'') | Blob b \<Rightarrow> Inl (ValueError ''int'')
      | _ \<Rightarrow> rbind (to_optional_int v) (\<lambda>n. Inr (the n)))"

definition str_column :: "(sql_value \<Rightarrow> string) \<Rightarrow> sql_value \<Rightarrow> string" where
  "str_column repr v = (case v of Null \<Rightarrow> ''None'' | Integer n \<Rightarrow> int_str n | Text s \<Rightarrow> s | _ \<Rightarrow> repr v)"

text \<open>\<open>str(v) if v else None\<close>.\<close>

definition str_or_none :: "(sql_value \<Rightarrow> string) \<Rightarrow> sql_value \<Rightarrow> string option" where
  "str_or_none repr v =
     (if v \<in> {Null, Integer 0, Real 0, Text [], Blob []} then None else Some (str_column repr v))"

section \<open>Statements\<close>

definition where_key :: "string \<Rightarrow> sql_row \<Rightarrow> bool" where
  "where_key public_id r \<longleftrightarrow> cell r ''public_id'' = Text public_id"

definition select_row :: "string \<Rightarrow> sql_table \<Rightarrow> sql_row option" where
  "select_row public_id t = List.find (where_key public_id) (st_rows t)"

definition update_rows :: "(sql_row \<Rightarrow> bool) \<Rightarrow> (string \<times> sql_value) list \<Rightarrow> sql_table \<Rightarrow> sql_table" where
  "update_rows P sets t =
     t\<lparr>st_rows := map (\<lambda>r. if P r then fold (\<lambda>(c, v). AList.update c v) sets r else r) (st_rows t)\<rparr>"

definition new_row :: "string list \<Rightarrow> (string \<times> sql_value) list \<Rightarrow> sql_row" where
  "new_row columns vals = map (\<lambda>c. (c, cell vals c)) columns"

record issued_key_material =
  im_public_id :: string
  im_label :: string
  im_raw_key :: string
  im_key_prefix :: string
  im_secret_hash :: string
  im_created_at :: int

definition SQL_INSERT_API_KEY :: "issued_key_material \<Rightarrow> sql_table \<Rightarrow> sql_table res" where
  "SQL_INSERT_API_KEY m t =
     (let r = new_row (st_columns t) [(''public_id'', Text (im_public_id m)), (''label'', Text (im_label m)),
            (''secret_hash'', Text (im_secret_hash m)), (''key_prefix'', Text (im_key_prefix m)),
            (''created_at'', Integer (im_created_at m))] in
      if list_ex (where_key (im_public_id m)) (st_rows t) \<or> list_ex (\<lambda>c. cell r c = Null) API_KEYS_NOT_NULL
      then Inl (OtherException ''IntegrityError'')
      else Inr (t\<lparr>st_rows := st_rows t @ [r]\<rparr>))"

definition SQL_TOUCH_LAST_USED :: "int \<Rightarrow> string \<Rightarrow> sql_table \<Rightarrow> sql_table" where
  "SQL_TOUCH_LAST_USED now public_id = update_rows (where_key public_id) [(''last_used_at'', Integer now)]"

definition SQL_REVOKE_KEY :: "int \<Rightarrow> string option \<Rightarrow> string \<Rightarrow> sql_table \<Rightarrow> sql_table" where
  "SQL_REVOKE_KEY now reason public_id = update_rows (where_key public_id)
     [(''revoked_at'', Integer now), (''revoked_reason'', case reason of None \<Rightarrow> Null | Some s \<Rightarrow> Text s)]"

definition SQL_UPDATE_KEY_RATE_LIMIT :: "int \<Rightarrow> string \<Rightarrow> sql_table \<Rightarrow> nat \<times> sql_table" where
  "SQL_UPDATE_KEY_RATE_LIMIT rpm public_id t =
     (length (filter (where_key public_id) (st_rows t)),
      update_rows (where_key public_id) [(''rate_limit_rpm'', Integer rpm)] t)"

text \<open>\<open>ORDER BY created_at DESC, public_id ASC\<close>, over integers and texts.\<close>

definition order_key :: "sql_row \<Rightarrow> int \<times> string" where
  "order_key r = (case cell r ''created_at'' of Integer n \<Rightarrow> - n | _ \<Rightarrow> 0, case cell r ''public_id'' of Text s \<Rightarrow> s | _ \<Rightarrow> [])"

definition SQL_SELECT_KEYS :: "bool \<Rightarrow> sql_table \<Rightarrow> sql_row list" where
  "SQL_SELECT_KEYS include_revoked t =
     sort_key order_key (filter (\<lambda>r. include_revoked \<or> cell r ''revoked_at'' = Null) (st_rows t))"

definition where_window :: "string \<Rightarrow> int \<Rightarrow> sql_row \<Rightarrow> bool" where
  "where_window public_id window_start r \<longleftrightarrow> where_key public_id r \<and> cell r ''window_start'' = Integer window_start"

definition SQL_UPSERT_RATE_WINDOW :: "string \<Rightarrow> int \<Rightarrow> sql_table \<Rightarrow> int \<times> sql_table" where
  "SQL_UPSERT_RATE_WINDOW public_id window_start t =
     (case List.find (where_window public_id window_start) (st_rows t) of
        None \<Rightarrow> (1, t\<lparr>st_rows := st_rows t @ [new_row (st_columns t) [(''public_id'', Text public_id),
                     (''window_start'', Integer window_start), (''request_count'', Integer 1)]]\<rparr>)
      | Some r \<Rightarrow> (let n = (case cell r ''request_count'' of Integer n \<Rightarrow> n | _ \<Rightarrow> 0) + 1 in
           (n, update_rows (where_window public_id window_start) [(''request_count'', Integer n)] t)))"

definition SQL_DELETE_OLD_RATE_WINDOWS :: "int \<Rightarrow> sql_table \<Rightarrow> sql_table" where
  "SQL_DELETE_OLD_RATE_WINDOWS cutoff t =
     t\<lparr>st_rows := filter (\<lambda>r. case cell r ''window_start'' of Integer n \<Rightarrow> \<not> n < cutoff | _ \<Rightarrow> True) (st_rows t)\<rparr>"

section \<open>The operations of the store\<close>

record key_db =
  kd_keys :: sql_table
  kd_windows :: sql_table
  kd_next_cleanup :: int

definition open_key_db :: "key_file \<Rightarrow> key_db" where
  "open_key_db f = (let g = ensure_key_db f in
     \<lparr>kd_keys = the (kf_keys g), kd_windows = the (kf_windows g), kd_next_cleanup = 0\<rparr>)"

definition new_issued_key_material :: "(string \<Rightarrow> string) \<Rightarrow> string \<Rightarrow> string \<Rightarrow> string \<Rightarrow> int \<Rightarrow> issued_key_material res" where
  "new_issued_key_material sha label public_id secret now =
     rbind (normalize_label label) (\<lambda>l. Inr
       \<lparr>im_public_id = public_id, im_label = l, im_raw_key = KEY_PREFIX @ public_id @ ''.'' @ secret,
        im_key_prefix = KEY_PREFIX @ public_id @ ''.'', im_secret_hash = hash_secret sha public_id secret,
        im_created_at = now\<rparr>)"

definition db_issue_key :: "(string \<Rightarrow> string) \<Rightarrow> string \<Rightarrow> string \<Rightarrow> string \<Rightarrow> int \<Rightarrow> key_db \<Rightarrow> api_key_issue_result res \<times> key_db" where
  "db_issue_key sha label public_id secret now db =
     (case new_issued_key_material sha label public_id secret now of
        Inl e \<Rightarrow> (Inl e, db)
      | Inr issued \<Rightarrow>
          (case SQL_INSERT_API_KEY issued (kd_keys db) of
             Inl e \<Rightarrow> (Inl e, db)
           | Inr t \<Rightarrow> (Inr \<lparr>ai_public_id = im_public_id issued, ai_label = im_label issued, ai_key = im_raw_key issued,
                         ai_key_prefix = im_key_prefix issued, ai_created_at = im_created_at issued\<rparr>, db\<lparr>kd_keys := t\<rparr>)))"

definition db_auth_row_failure ::
    "(sql_value \<Rightarrow> string) \<Rightarrow> (string \<Rightarrow> string) \<Rightarrow> sql_row \<Rightarrow> int \<Rightarrow> string \<Rightarrow> string \<Rightarrow> auth_failure_reason option res" where
  "db_auth_row_failure repr sha r now public_id secret =
     rbind (to_optional_int (cell r ''revoked_at'')) (\<lambda>revoked_at.
       if revoked_at \<noteq> None then Inr (Some REVOKED)
       else rbind (to_optional_int (cell r ''expires_at'')) (\<lambda>expires_at.
         if expires_at \<noteq> None \<and> now \<ge> the expires_at then Inr (Some EXPIRED)
         else if str_column repr (cell r ''secret_hash'') \<noteq> hash_secret sha public_id secret then Inr (Some INVALID_KEY)
         else Inr None))"

definition db_authenticate_key ::
    "(sql_value \<Rightarrow> string) \<Rightarrow> (string \<Rightarrow> string) \<Rightarrow> string \<Rightarrow> int \<Rightarrow> key_db \<Rightarrow> auth_result res \<times> key_db" where
  "db_authenticate_key repr sha key now db =
     (case parse_key key of
        None \<Rightarrow> (Inr (auth_failure INVALID_KEY), db)
      | Some (public_id, secret) \<Rightarrow>
          (case select_row public_id (kd_keys db) of
             None \<Rightarrow> (Inr (auth_failure INVALID_KEY), db)
           | Some r \<Rightarrow>
               (case db_auth_row_failure repr sha r now public_id secret of
                  Inl e \<Rightarrow> (Inl e, db)
                | Inr (Some reason) \<Rightarrow> (Inr (auth_failure reason), db)
                | Inr None \<Rightarrow>
                    (rbind (to_optional_int (cell r ''rate_limit_rpm'')) (\<lambda>rpm.
                        Inr (auth_success public_id (str_column repr (cell r ''label'')) rpm)),
                     db\<lparr>kd_keys := SQL_TOUCH_LAST_USED now public_id (kd_keys db)\<rparr>))))"

definition db_record_from_row :: "(sql_value \<Rightarrow> string) \<Rightarrow> sql_row \<Rightarrow> api_key_record res" where
  "db_record_from_row repr r =
     rbind (int_column (cell r ''created_at'')) (\<lambda>created_at.
     rbind (to_optional_int (cell r ''rate_limit_rpm'')) (\<lambda>rpm.
     rbind (to_optional_int (cell r ''last_used_at'')) (\<lambda>last_used_at.
     rbind (to_optional_int (cell r ''revoked_at'')) (\<lambda>revoked_at.
     rbind (to_optional_int (cell r ''expires_at'')) (\<lambda>expires_at.
       Inr \<lparr>kr_public_id = str_column repr (cell r ''public_id''), kr_label = str_column repr (cell r ''label''),
            kr_key_prefix = str_column repr (cell r ''key_prefix''), kr_created_at = created_at, kr_rate_limit_rpm = rpm,
            kr_last_used_at = last_used_at, kr_revoked_at = revoked_at,
            kr_revoked_reason = str_or_none repr (cell r ''revoked_reason''), kr_expires_at = expires_at\<rparr>)))))"

definition db_list_keys :: "(sql_value \<Rightarrow> string) \<Rightarrow> bool \<Rightarrow> key_db \<Rightarrow> api_key_record list res" where
  "db_list_keys repr include_revoked db = rmap_list (db_record_from_row repr) (SQL_SELECT_KEYS include_revoked (kd_keys db))"

definition db_delete_key ::
    "(sql_value \<Rightarrow> string) \<Rightarrow> string \<Rightarrow> string option \<Rightarrow> int \<Rightarrow> key_db \<Rightarrow> delete_result res \<times> key_db" where
  "db_delete_key repr public_id reason now db =
     (case select_row public_id (kd_keys db) of
        None \<Rightarrow> (Inr \<lparr>dr_status = NOT_FOUND, dr_public_id = public_id, dr_revoked_at = None, dr_revoked_reason = None\<rparr>, db)
      | Some r \<Rightarrow>
          (case to_optional_int (cell r ''revoked_at'') of
             Inl e \<Rightarrow> (Inl e, db)
           | Inr (Some t) \<Rightarrow> (Inr \<lparr>dr_status = ALREADY_DELETED, dr_public_id = public_id, dr_revoked_at = Some t,
                dr_revoked_reason = str_or_none repr (cell r ''revoked_reason'')\<rparr>, db)
           | Inr None \<Rightarrow> (Inr \<lparr>dr_status = DELETED, dr_public_id = public_id, dr_revoked_at = Some now,
                dr_revoked_reason = normalize_reason reason\<rparr>,
                db\<lparr>kd_keys := SQL_REVOKE_KEY now (normalize_reason reason) public_id (kd_keys db)\<rparr>)))"

definition db_set_key_rate_limit :: "string \<Rightarrow> int \<Rightarrow> key_db \<Rightarrow> bool res \<times> key_db" where
  "db_set_key_rate_limit public_id rpm db =
     (if rpm \<le> 0 then (Inl (ValueError ''rate_limit_rpm must be > 0''), db)
      else let (rowcount, t) = SQL_UPDATE_KEY_RATE_LIMIT rpm public_id (kd_keys db)
           in (Inr (rowcount > 0), db\<lparr>kd_keys := t\<rparr>))"

definition db_consume_rate_limit :: "string \<Rightarrow> int \<Rightarrow> int \<Rightarrow> key_db \<Rightarrow> rate_limit_result res \<times> key_db" where
  "db_consume_rate_limit public_id limit_rpm now db =
     (if limit_rpm \<le> 0 then (Inl (ValueError ''limit_rpm must be > 0''), db)
      else
        let window_start = rate_window now; reset_epoch = window_start + RATE_WINDOW_SECONDS;
            (request_count, t1) = SQL_UPSERT_RATE_WINDOW public_id window_start (kd_windows db);
            (t2, next_cleanup) =
              (if now < kd_next_cleanup db then (t1, kd_next_cleanup db)
               else (SQL_DELETE_OLD_RATE_WINDOWS (window_start - RETENTION_WINDOWS * RATE_WINDOW_SECONDS) t1,
                     now + CLEANUP_INTERVAL_SECONDS))
        in (Inr \<lparr>rl_allowed = (request_count \<le> limit_rpm), rl_limit = limit_rpm,
                rl_remaining = max (limit_rpm - request_count) 0, rl_reset_epoch = reset_epoch,
                rl_retry_after_seconds = max (reset_epoch - now) 0, rl_request_count = request_count\<rparr>,
            db\<lparr>kd_windows := t2, kd_next_cleanup := next_cleanup\<rparr>))"

section \<open>The typed rows a table stands for\<close>

definition text_of :: "sql_value \<Rightarrow> string" where
  "text_of v = (case v of Text s \<Rightarrow> s | _ \<Rightarrow> [])"

definition int_of :: "sql_value \<Rightarrow> int" where
  "int_of v = (case v of Integer n \<Rightarrow> n | _ \<Rightarrow> 0)"

definition optional :: "(sql_value \<Rightarrow> 'a) \<Rightarrow> sql_value \<Rightarrow> 'a option" where
  "optional f v = (if v = Null then None else Some (f v))"

definition key_row :: "sql_row \<Rightarrow> string \<times> api_key_row" where
  "key_row r = (text_of (cell r ''public_id''),
     \<lparr>k_label = text_of (cell r ''label''), k_secret_hash = text_of (cell r ''secret_hash''),
      k_key_prefix = text_of (cell r ''key_prefix''), k_created_at = int_of (cell r ''created_at''),
      k_rate_limit_rpm = optional int_of (cell r ''rate_limit_rpm''), k_last_used_at = optional int_of (cell r ''last_used_at''),
      k_revoked_at = optional int_of (cell r ''revoked_at''), k_revoked_reason = optional text_of (cell r ''revoked_reason''),
      k_expires_at = optional int_of (cell r ''expires_at'')\<rparr>)"

definition is_text :: "sql_value \<Rightarrow> bool" where "is_text v \<longleftrightarrow> (\<exists>s. v = Text s)"
definition is_integer :: "sql_value \<Rightarrow> bool" where "is_integer v \<longleftrightarrow> (\<exists>n. v = Integer n)"

text \<open>What the program writes: texts in the text columns, integers in the others, NULL where it may be.\<close>

definition key_row_ok :: "sql_row \<Rightarrow> bool" where
  "key_row_ok r \<longleftrightarrow> list_all (\<lambda>c. is_text (cell r c)) [''public_id'', ''label'', ''secret_hash'', ''key_prefix'']
     \<and> is_integer (cell r ''created_at'')
     \<and> list_all (\<lambda>c. cell r c = Null \<or> is_integer (cell r c)) [''rate_limit_rpm'', ''last_used_at'', ''revoked_at'', ''expires_at'']
     \<and> (cell r ''revoked_reason'' = Null \<or> is_text (cell r ''revoked_reason''))"

definition keys_ok :: "sql_table \<Rightarrow> bool" where
  "keys_ok t \<longleftrightarrow> set API_KEYS_COLUMNS \<subseteq> set (st_columns t) \<and> list_all key_row_ok (st_rows t)"

definition abs_keys :: "sql_table \<Rightarrow> (string, api_key_row) odict" where
  "abs_keys t = map key_row (st_rows t)"

definition window_row :: "sql_row \<Rightarrow> (string \<times> int) \<times> int" where
  "window_row r = ((text_of (cell r ''public_id''), int_of (cell r ''window_start'')), int_of (cell r ''request_count''))"

definition window_row_ok :: "sql_row \<Rightarrow> bool" where
  "window_row_ok r \<longleftrightarrow> is_text (cell r ''public_id'') \<and> is_integer (cell r ''window_start'') \<and> is_integer (cell r ''request_count'')"

definition abs_windows :: "sql_table \<Rightarrow> (string \<times> int, int) odict" where
  "abs_windows t = map window_row (st_rows t)"

definition windows_ok :: "sql_table \<Rightarrow> bool" where
  "windows_ok t \<longleftrightarrow> set RATE_WINDOWS_COLUMNS \<subseteq> set (st_columns t) \<and> list_all window_row_ok (st_rows t)
     \<and> distinct (map fst (abs_windows t))"

definition abs_db :: "key_db \<Rightarrow> key_store" where
  "abs_db db = \<lparr>ks_keys = abs_keys (kd_keys db), ks_windows = abs_windows (kd_windows db), ks_next_cleanup = kd_next_cleanup db\<rparr>"

definition db_ok :: "key_db \<Rightarrow> bool" where
  "db_ok db \<longleftrightarrow> keys_ok (kd_keys db) \<and> windows_ok (kd_windows db)"

text \<open>The same result, and tables that stand for the new store.\<close>

definition simulates :: "'r \<times> key_db \<Rightarrow> 'r \<times> key_store \<Rightarrow> bool" where
  "simulates c a \<longleftrightarrow> fst c = fst a \<and> db_ok (snd c) \<and> abs_db (snd c) = snd a"

section \<open>Lemmas\<close>

named_theorems sql \<open>values and cells\<close>

lemma value_simps [sql]:
  "text_of (Text s) = s" "int_of (Integer n) = n" "optional f Null = None" "optional int_of (Integer n) = Some n"
  "optional text_of (Text s) = Some s" "to_optional_int Null = Inr None" "to_optional_int (Integer n) = Inr (Some n)"
  "int_column (Integer n) = Inr n" "str_column repr (Text s) = s" "str_or_none repr Null = None"
  "str_or_none repr (Text s) = (if s = [] then None else Some s)" "is_text (Text s)" "is_integer (Integer n)"
  by (simp_all add: text_of_def int_of_def optional_def to_optional_int_def int_column_def str_column_def str_or_none_def
      is_text_def is_integer_def)

lemma cell_update [sql]: "cell (AList.update c v r) c' = (if c = c' then v else cell r c')"
  by (simp add: cell_def update_conv')

lemma cell_new_row [sql]: "cell (new_row columns vals) c = (if c \<in> set columns then cell vals c else Null)"
proof -
  have "map_of (map (\<lambda>c. (c, cell vals c)) columns) c = (if c \<in> set columns then Some (cell vals c) else None)"
    by (induction columns) auto
  then show ?thesis unfolding new_row_def cell_def[of "map (\<lambda>c. (c, cell vals c)) columns"] by simp
qed

lemma cell_append_null [sql]: "cell (r @ [(c, Null)]) c' = cell r c'"
  by (simp add: cell_def map_add_def split: option.split)

lemma key_row_okE:
  assumes "key_row_ok r"
  obtains p l h kp cr where "cell r ''public_id'' = Text p" "cell r ''label'' = Text l" "cell r ''secret_hash'' = Text h"
    "cell r ''key_prefix'' = Text kp" "cell r ''created_at'' = Integer cr"
  using assms by (auto simp: key_row_ok_def is_text_def is_integer_def)

lemma optional_integer: "v = Null \<or> is_integer v \<Longrightarrow> to_optional_int v = Inr (optional int_of v)"
  by (auto simp: is_integer_def sql)

lemma typed_value:
  "is_integer v \<Longrightarrow> int_column v = Inr (int_of v)" "is_text v \<Longrightarrow> str_column repr v = text_of v"
  "v = Null \<or> is_text v \<Longrightarrow> str_or_none repr v = shown_reason (optional text_of v)"
  by (auto simp: is_integer_def is_text_def value_simps shown_reason_def)

lemma where_key_row: "key_row_ok r \<Longrightarrow> where_key p r \<longleftrightarrow> fst (key_row r) = p"
  by (erule key_row_okE) (auto simp: where_key_def key_row_def sql)

lemma select_row_lookup:
  "keys_ok t \<Longrightarrow> map_of (abs_keys t) p = map_option (\<lambda>r. snd (key_row r)) (select_row p t)"
proof -
  have "list_all key_row_ok rows \<Longrightarrow> map_of (map key_row rows) p = map_option (\<lambda>r. snd (key_row r)) (List.find (where_key p) rows)" for rows
  proof (induction rows)
    case (Cons r rows)
    then show ?case using where_key_row[of r p] by (cases "key_row r") auto
  qed simp
  then show "keys_ok t \<Longrightarrow> ?thesis" by (simp add: keys_ok_def abs_keys_def select_row_def)
qed

lemma select_row_ok: "keys_ok t \<Longrightarrow> select_row p t = Some r \<Longrightarrow> key_row_ok r \<and> fst (key_row r) = p"
  using where_key_row[of r p] by (auto simp: keys_ok_def select_row_def list_all_iff find_Some_iff)

lemma update_rows_abs:
  assumes "keys_ok t"
    and "\<And>r. key_row_ok r \<Longrightarrow> key_row_ok (fold (\<lambda>(c, v). AList.update c v) sets r)
      \<and> key_row (fold (\<lambda>(c, v). AList.update c v) sets r) = (fst (key_row r), f (snd (key_row r)))"
  shows "keys_ok (update_rows (where_key p) sets t)"
    "abs_keys (update_rows (where_key p) sets t) = map (\<lambda>(k, row). (k, if k = p then f row else row)) (abs_keys t)"
  using assms where_key_row by (auto simp: keys_ok_def update_rows_def abs_keys_def list_all_iff prod_eq_iff split_beta)

lemma row_ok_cells [sql]:
  "key_row_ok r \<longleftrightarrow> is_text (cell r ''public_id'') \<and> is_text (cell r ''label'') \<and> is_text (cell r ''secret_hash'')
     \<and> is_text (cell r ''key_prefix'') \<and> is_integer (cell r ''created_at'')
     \<and> (cell r ''rate_limit_rpm'' = Null \<or> is_integer (cell r ''rate_limit_rpm''))
     \<and> (cell r ''last_used_at'' = Null \<or> is_integer (cell r ''last_used_at''))
     \<and> (cell r ''revoked_at'' = Null \<or> is_integer (cell r ''revoked_at''))
     \<and> (cell r ''expires_at'' = Null \<or> is_integer (cell r ''expires_at''))
     \<and> (cell r ''revoked_reason'' = Null \<or> is_text (cell r ''revoked_reason''))"
  by (simp add: key_row_ok_def)

lemma optional_of_option [sql]: "optional text_of (case v of None \<Rightarrow> Null | Some s \<Rightarrow> Text s) = v"
  by (simp add: sql split: option.split)

lemma touch_abs:
  assumes "keys_ok t"
  shows "keys_ok (SQL_TOUCH_LAST_USED now p t)"
    "abs_keys (SQL_TOUCH_LAST_USED now p t) = map (\<lambda>(k, row). (k, if k = p then row\<lparr>k_last_used_at := Some now\<rparr> else row)) (abs_keys t)"
  unfolding SQL_TOUCH_LAST_USED_def
  by (rule update_rows_abs[OF assms, where f = "\<lambda>row. row\<lparr>k_last_used_at := Some now\<rparr>"], simp add: sql key_row_def)+

lemma revoke_abs:
  assumes "keys_ok t"
  shows "keys_ok (SQL_REVOKE_KEY now reason p t)"
    "abs_keys (SQL_REVOKE_KEY now reason p t) =
      map (\<lambda>(k, row). (k, if k = p then row\<lparr>k_revoked_at := Some now, k_revoked_reason := reason\<rparr> else row)) (abs_keys t)"
  unfolding SQL_REVOKE_KEY_def
  by (rule update_rows_abs[OF assms, where f = "\<lambda>row. row\<lparr>k_revoked_at := Some now, k_revoked_reason := reason\<rparr>"],
      simp add: sql key_row_def split: option.split)+

lemma rate_limit_abs:
  assumes "keys_ok t" "SQL_UPDATE_KEY_RATE_LIMIT rpm p t = (n, t')"
  shows "keys_ok t'" "abs_keys t' = map (\<lambda>(k, row). (k, if k = p then row\<lparr>k_rate_limit_rpm := Some rpm\<rparr> else row)) (abs_keys t)"
    "n > 0 \<longleftrightarrow> map_of (abs_keys t) p \<noteq> None"
proof -
  have t': "t' = update_rows (where_key p) [(''rate_limit_rpm'', Integer rpm)] t" and n: "n = length (filter (where_key p) (st_rows t))"
    using assms(2) by (auto simp: SQL_UPDATE_KEY_RATE_LIMIT_def)
  show "keys_ok t'" "abs_keys t' = map (\<lambda>(k, row). (k, if k = p then row\<lparr>k_rate_limit_rpm := Some rpm\<rparr> else row)) (abs_keys t)"
    unfolding t' by (rule update_rows_abs[OF assms(1), where f = "\<lambda>row. row\<lparr>k_rate_limit_rpm := Some rpm\<rparr>"], simp add: sql key_row_def)+
  have "n > 0 \<longleftrightarrow> (\<exists>r \<in> set (st_rows t). where_key p r)" by (auto simp: n filter_empty_conv)
  then show "n > 0 \<longleftrightarrow> map_of (abs_keys t) p \<noteq> None" using assms(1)
    by (auto simp: select_row_lookup select_row_def find_None_iff)
qed

lemma known_key: "keys_ok t \<Longrightarrow> list_ex (where_key p) (st_rows t) \<longleftrightarrow> map_of (abs_keys t) p \<noteq> None"
  by (auto simp: select_row_lookup select_row_def find_None_iff list_ex_iff)

lemma insert_abs:
  assumes "keys_ok t"
  shows "SQL_INSERT_API_KEY m t =
     (if map_of (abs_keys t) (im_public_id m) \<noteq> None then Inl (OtherException ''IntegrityError'')
      else Inr (t\<lparr>st_rows := st_rows t @ [new_row (st_columns t) [(''public_id'', Text (im_public_id m)),
            (''label'', Text (im_label m)), (''secret_hash'', Text (im_secret_hash m)), (''key_prefix'', Text (im_key_prefix m)),
            (''created_at'', Integer (im_created_at m))]]\<rparr>))"
proof -
  have "set API_KEYS_COLUMNS \<subseteq> set (st_columns t)" using assms by (simp add: keys_ok_def)
  then show ?thesis
    by (simp add: SQL_INSERT_API_KEY_def known_key[OF assms] API_KEYS_NOT_NULL_def API_KEYS_COLUMNS_def sql cell_def[of "_ # _"] Let_def)
qed

lemma simulate_issue:
  assumes "db_ok db"
  shows "simulates (db_issue_key sha label p secret now db) (issue_key sha label p secret now (abs_db db))"
proof (cases "normalize_label label")
  case (Inl e)
  then show ?thesis using assms by (simp add: db_issue_key_def new_issued_key_material_def issue_key_def simulates_def)
next
  case (Inr l)
  let ?kp = "KEY_PREFIX @ p @ ''.''" and ?t = "kd_keys db"
  let ?vals = "[(''public_id'', Text p), (''label'', Text l), (''secret_hash'', Text (hash_secret sha p secret)),
    (''key_prefix'', Text ?kp), (''created_at'', Integer now)]"
  have ok: "keys_ok ?t" "set API_KEYS_COLUMNS \<subseteq> set (st_columns ?t)" using assms by (simp_all add: db_ok_def keys_ok_def)
  have cells: "cell (new_row (st_columns ?t) ?vals) c = cell ?vals c" if "c \<in> set API_KEYS_COLUMNS" for c
    using that ok(2) by (auto simp: sql)
  have row: "key_row_ok (new_row (st_columns ?t) ?vals)"
    "key_row (new_row (st_columns ?t) ?vals) = (p, \<lparr>k_label = l, k_secret_hash = hash_secret sha p secret, k_key_prefix = ?kp,
        k_created_at = now, k_rate_limit_rpm = None, k_last_used_at = None, k_revoked_at = None, k_revoked_reason = None,
        k_expires_at = None\<rparr>)"
    by (simp_all add: row_ok_cells key_row_def cells API_KEYS_COLUMNS_def cell_def[of "_ # _"] value_simps)
  show ?thesis
  proof (cases "map_of (abs_keys ?t) p")
    case None
    then show ?thesis using assms row
      by (simp add: db_issue_key_def new_issued_key_material_def Inr insert_abs[OF ok(1)] issue_key_def simulates_def abs_db_def
          db_ok_def keys_ok_def abs_keys_def Let_def)
  next
    case (Some x)
    then show ?thesis using assms
      by (simp add: db_issue_key_def new_issued_key_material_def Inr insert_abs[OF ok(1)] issue_key_def simulates_def abs_db_def Let_def)
  qed
qed

lemma row_decodes:
  assumes "key_row_ok r"
  shows "to_optional_int (cell r ''revoked_at'') = Inr (k_revoked_at (snd (key_row r)))"
    "to_optional_int (cell r ''expires_at'') = Inr (k_expires_at (snd (key_row r)))"
    "to_optional_int (cell r ''rate_limit_rpm'') = Inr (k_rate_limit_rpm (snd (key_row r)))"
    "to_optional_int (cell r ''last_used_at'') = Inr (k_last_used_at (snd (key_row r)))"
    "int_column (cell r ''created_at'') = Inr (k_created_at (snd (key_row r)))"
    "str_column repr (cell r ''public_id'') = fst (key_row r)" "str_column repr (cell r ''label'') = k_label (snd (key_row r))"
    "str_column repr (cell r ''secret_hash'') = k_secret_hash (snd (key_row r))"
    "str_column repr (cell r ''key_prefix'') = k_key_prefix (snd (key_row r))"
    "str_or_none repr (cell r ''revoked_reason'') = shown_reason (k_revoked_reason (snd (key_row r)))"
  using assms unfolding row_ok_cells by (simp_all add: key_row_def optional_integer typed_value)

lemma simulate_authenticate:
  assumes "db_ok db"
  shows "simulates (db_authenticate_key repr sha key now db) (apfst Inr (authenticate_key sha key now (abs_db db)))"
proof -
  have ok: "keys_ok (kd_keys db)" using assms by (simp add: db_ok_def)
  show ?thesis
  proof (cases "parse_key key")
    case None
    then show ?thesis using assms by (simp add: db_authenticate_key_def authenticate_key_def simulates_def)
  next
    case (Some ps)
    obtain p secret where ps: "ps = (p, secret)" by fastforce
    show ?thesis
    proof (cases "select_row p (kd_keys db)")
      case None
      then show ?thesis using assms Some ps
        by (simp add: db_authenticate_key_def authenticate_key_def simulates_def abs_db_def select_row_lookup[OF ok])
    next
      case row: (Some r)
      note d = row_decodes[OF select_row_ok[OF ok row, THEN conjunct1]]
      have fail: "db_auth_row_failure repr sha r now p secret = Inr (auth_row_failure_reason sha (snd (key_row r)) now p secret)"
        by (simp add: db_auth_row_failure_def auth_row_failure_reason_def d split: option.split)
      show ?thesis
        using assms Some ps row touch_abs[OF ok, of now p]
        by (simp add: db_authenticate_key_def authenticate_key_def simulates_def abs_db_def select_row_lookup[OF ok] fail d
            db_ok_def update_key_def split: option.split)
    qed
  qed
qed

lemma simulate_delete:
  assumes "db_ok db"
  shows "simulates (db_delete_key repr p reason now db) (apfst Inr (delete_key p reason now (abs_db db)))"
proof -
  have ok: "keys_ok (kd_keys db)" using assms by (simp add: db_ok_def)
  show ?thesis
  proof (cases "select_row p (kd_keys db)")
    case None
    then show ?thesis using assms by (simp add: db_delete_key_def delete_key_def simulates_def abs_db_def select_row_lookup[OF ok])
  next
    case (Some r)
    note d = row_decodes[OF select_row_ok[OF ok Some, THEN conjunct1]]
    show ?thesis using assms Some revoke_abs[OF ok, of now "normalize_reason reason" p]
      by (simp add: db_delete_key_def delete_key_def simulates_def abs_db_def select_row_lookup[OF ok] d db_ok_def update_key_def
          split: option.split)
  qed
qed

lemma simulate_set_rate_limit:
  assumes "db_ok db"
  shows "simulates (db_set_key_rate_limit p rpm db) (set_key_rate_limit p rpm (abs_db db))"
proof -
  have ok: "keys_ok (kd_keys db)" using assms by (simp add: db_ok_def)
  obtain n t where u: "SQL_UPDATE_KEY_RATE_LIMIT rpm p (kd_keys db) = (n, t)" by fastforce
  show ?thesis using assms rate_limit_abs[OF ok u]
    by (simp add: db_set_key_rate_limit_def set_key_rate_limit_def u simulates_def abs_db_def db_ok_def update_key_def)
qed

lemma map_sort_key:
  assumes "\<forall>x \<in> set xs. k x = g (f x)"
  shows "map f (sort_key k xs) = sort_key g (map f xs)"
  using assms
proof (induction xs)
  case (Cons x xs)
  have "map f (insort_key k x ys) = insort_key g (f x) (map f ys)" if "\<forall>y \<in> set ys. k y = g (f y)" for ys
    using that Cons.prems by (induction ys) auto
  then show ?case using Cons by simp
qed simp

lemma simulate_list:
  assumes "db_ok db"
  shows "db_list_keys repr all db = Inr (list_keys all (abs_db db))"
proof -
  have rows: "list_all key_row_ok (st_rows (kd_keys db))" using assms by (simp add: db_ok_def keys_ok_def)
  have decode: "db_record_from_row repr r = Inr (api_key_record_from_row (key_row r))" if "key_row_ok r" for r
    using row_decodes[OF that] by (simp add: db_record_from_row_def api_key_record_from_row_def split_beta)
  have "order_key r = (case key_row r of (p, row) \<Rightarrow> (- k_created_at row, p))" if "key_row_ok r" for r
    using that by (elim key_row_okE) (simp add: order_key_def key_row_def value_simps)
  then have order: "\<forall>r \<in> set rs. order_key r = (case key_row r of (p, row) \<Rightarrow> (- k_created_at row, p))" if "set rs \<subseteq> set (st_rows (kd_keys db))" for rs
    using that rows by (auto simp: list_all_iff)
  have shown: "cell r ''revoked_at'' = Null \<longleftrightarrow> k_revoked_at (snd (key_row r)) = None" for r
    by (simp add: key_row_def optional_def)
  let ?rs = "SQL_SELECT_KEYS all (kd_keys db)" and ?sel = "filter (\<lambda>r. all \<or> cell r ''revoked_at'' = Null) (st_rows (kd_keys db))"
  have "map key_row ?rs = sort_key (\<lambda>(p, row). (- k_created_at row, p)) (map key_row ?sel)"
    unfolding SQL_SELECT_KEYS_def by (rule map_sort_key) (rule order, auto)
  also have "map key_row ?sel = filter (\<lambda>(_, row). all \<or> k_revoked_at row = None) (abs_keys (kd_keys db))"
    by (simp add: abs_keys_def filter_map comp_def shown split_beta)
  finally have rs: "map key_row ?rs = sort_key (\<lambda>(p, row). (- k_created_at row, p))
      (filter (\<lambda>(_, row). all \<or> k_revoked_at row = None) (abs_keys (kd_keys db)))" .
  have "rmap_list (db_record_from_row repr) rs = Inr (map api_key_record_from_row (map key_row rs))" if "set rs \<subseteq> set (st_rows (kd_keys db))" for rs
    using that rows by (induction rs) (auto simp: decode list_all_iff)
  then have "db_list_keys repr all db = Inr (map api_key_record_from_row (map key_row ?rs))"
    by (auto simp: db_list_keys_def SQL_SELECT_KEYS_def)
  then show ?thesis by (simp add: rs list_keys_def abs_db_def)
qed

lemma where_window_row:
  "window_row_ok r \<Longrightarrow> where_window p w r \<longleftrightarrow> fst (window_row r) = (p, w)"
  by (auto simp: window_row_ok_def where_window_def where_key_def window_row_def is_text_def is_integer_def value_simps)

lemma find_window:
  "list_all window_row_ok rows \<Longrightarrow>
     map_of (map window_row rows) (p, w) = map_option (\<lambda>r. snd (window_row r)) (List.find (where_window p w) rows)"
proof (induction rows)
  case (Cons r rows)
  then show ?case using where_window_row[of r p w] by (cases "window_row r") auto
qed simp

lemma update_map:
  "distinct (map fst d) \<Longrightarrow> map_of d k \<noteq> None \<Longrightarrow> AList.update k v d = map (\<lambda>(k', v'). (k', if k' = k then v else v')) d"
proof (induction d)
  case (Cons e d)
  obtain k' v' where e: "e = (k', v')" by fastforce
  show ?case
  proof (cases "k' = k")
    case True
    then have "\<forall>e \<in> set d. fst e \<noteq> k" using Cons.prems(1) e by auto
    then have "map (\<lambda>(k', v'). (k', if k' = k then v else v')) d = d" by (auto intro!: map_idI)
    then show ?thesis using True e by simp
  next
    case False
    then show ?thesis using Cons e by simp
  qed
qed simp

lemma update_fresh: "map_of d k = None \<Longrightarrow> AList.update k v d = d @ [(k, v)]"
  by (induction d) (auto split: if_splits)

lemma upsert_abs:
  assumes "windows_ok t" "SQL_UPSERT_RATE_WINDOW p w t = (n, t')"
  shows "windows_ok t' \<and> n = (case map_of (abs_windows t) (p, w) of None \<Rightarrow> 1 | Some c \<Rightarrow> c + 1)
    \<and> abs_windows t' = AList.update (p, w) n (abs_windows t)"
proof -
  have rows: "list_all window_row_ok (st_rows t)" and dist: "distinct (map fst (abs_windows t))"
    and cols: "set RATE_WINDOWS_COLUMNS \<subseteq> set (st_columns t)" using assms(1) by (simp_all add: windows_ok_def)
  note look = find_window[OF rows, of p w, folded abs_windows_def]
  show ?thesis
  proof (cases "List.find (where_window p w) (st_rows t)")
    case None
    let ?r = "new_row (st_columns t) [(''public_id'', Text p), (''window_start'', Integer w), (''request_count'', Integer 1)]"
    have "window_row_ok ?r \<and> window_row ?r = ((p, w), 1)" using cols
      by (simp add: window_row_ok_def window_row_def RATE_WINDOWS_COLUMNS_def sql cell_def[of "_ # _"])
    moreover have "(p, w) \<notin> fst ` set (abs_windows t)" using look None by (simp add: map_of_eq_None_iff)
    ultimately show ?thesis using assms None look
      by (auto simp: SQL_UPSERT_RATE_WINDOW_def windows_ok_def abs_windows_def update_fresh)
  next
    case (Some r)
    let ?t = "update_rows (where_window p w) [(''request_count'', Integer n)] t"
    have n: "n = int_of (cell r ''request_count'') + 1" and t': "t' = ?t"
      using assms(2) Some by (auto simp: SQL_UPSERT_RATE_WINDOW_def Let_def int_of_def)
    have "map window_row (st_rows ?t) = map (\<lambda>(k', v'). (k', if k' = (p, w) then n else v')) (map window_row (st_rows t))"
      using rows where_window_row by (auto simp: update_rows_def list_all_iff sql window_row_def split_beta)
    then have a: "abs_windows ?t = AList.update (p, w) n (abs_windows t)"
      using look Some by (simp add: abs_windows_def update_map[OF dist[unfolded abs_windows_def]])
    have "list_all window_row_ok (st_rows ?t)" using rows by (auto simp: update_rows_def list_all_iff window_row_ok_def sql)
    moreover have "distinct (map fst (abs_windows ?t))" unfolding a using dist by (simp add: distinct_update)
    ultimately have "windows_ok ?t" using cols unfolding windows_ok_def by (simp add: update_rows_def)
    moreover have "n = (case map_of (abs_windows t) (p, w) of None \<Rightarrow> 1 | Some c \<Rightarrow> c + 1)"
      using look Some n by (simp add: window_row_def)
    ultimately show ?thesis unfolding t' using a by blast
  qed
qed

lemma delete_old_abs:
  assumes "windows_ok t"
  shows "windows_ok (SQL_DELETE_OLD_RATE_WINDOWS cutoff t)"
    "abs_windows (SQL_DELETE_OLD_RATE_WINDOWS cutoff t) = filter (\<lambda>((_, w), _). \<not> w < cutoff) (abs_windows t)"
proof -
  have "list_all window_row_ok rows \<Longrightarrow> filter (\<lambda>((_, w), _). \<not> w < cutoff) (map window_row rows)
      = map window_row (filter (\<lambda>r. case cell r ''window_start'' of Integer n \<Rightarrow> \<not> n < cutoff | _ \<Rightarrow> True) rows)" for rows
    by (induction rows) (auto simp: window_row_def window_row_ok_def is_integer_def value_simps)
  moreover have "list_all window_row_ok (st_rows t)" using assms by (simp add: windows_ok_def)
  ultimately have "filter (\<lambda>((_, w), _). \<not> w < cutoff) (map window_row (st_rows t))
      = map window_row (filter (\<lambda>r. case cell r ''window_start'' of Integer n \<Rightarrow> \<not> n < cutoff | _ \<Rightarrow> True) (st_rows t))" by blast
  then show "abs_windows (SQL_DELETE_OLD_RATE_WINDOWS cutoff t) = filter (\<lambda>((_, w), _). \<not> w < cutoff) (abs_windows t)"
    by (simp add: abs_windows_def SQL_DELETE_OLD_RATE_WINDOWS_def)
  then show "windows_ok (SQL_DELETE_OLD_RATE_WINDOWS cutoff t)" using assms
    by (simp add: windows_ok_def distinct_map_filter) (auto simp: SQL_DELETE_OLD_RATE_WINDOWS_def list_all_iff)
qed

lemma simulate_consume:
  assumes "db_ok db"
  shows "simulates (db_consume_rate_limit p limit now db) (consume_rate_limit p limit now (abs_db db))"
proof -
  have ok: "windows_ok (kd_windows db)" using assms by (simp add: db_ok_def)
  obtain n t1 where u: "SQL_UPSERT_RATE_WINDOW p (rate_window now) (kd_windows db) = (n, t1)" by fastforce
  note up = upsert_abs[OF ok u]
  note del = delete_old_abs[OF up[THEN conjunct1], of "rate_window now - RETENTION_WINDOWS * RATE_WINDOW_SECONDS"]
  show ?thesis using assms up del
    by (simp add: db_consume_rate_limit_def consume_rate_limit_def u simulates_def abs_db_def db_ok_def
        cleanup_rate_windows_if_due_def Let_def)
qed

section \<open>Files\<close>

text \<open>A file the program has written: of the present schema, of the one before rate limits, or empty.\<close>

definition OLD_API_KEYS_COLUMNS :: "string list" where
  "OLD_API_KEYS_COLUMNS = filter (\<lambda>c. c \<noteq> ''rate_limit_rpm'') API_KEYS_COLUMNS"

definition key_file_ok :: "key_file \<Rightarrow> bool" where
  "key_file_ok f \<longleftrightarrow>
     (case kf_keys f of None \<Rightarrow> True
      | Some t \<Rightarrow> set OLD_API_KEYS_COLUMNS \<subseteq> set (st_columns t) \<and> list_all key_row_ok (st_rows t)
          \<and> (\<forall>r \<in> set (st_rows t). \<forall>c. c \<notin> set (st_columns t) \<longrightarrow> cell r c = Null))
   \<and> (case kf_windows f of None \<Rightarrow> True | Some t \<Rightarrow> windows_ok t)"

definition file_keys :: "key_file \<Rightarrow> (string, api_key_row) odict" where
  "file_keys f = (case kf_keys f of None \<Rightarrow> [] | Some t \<Rightarrow> abs_keys t)"

definition file_windows :: "key_file \<Rightarrow> (string \<times> int, int) odict" where
  "file_windows f = (case kf_windows f of None \<Rightarrow> [] | Some t \<Rightarrow> abs_windows t)"

lemma key_row_append_null: "key_row (r @ [(c, Null)]) = key_row r" "key_row_ok (r @ [(c, Null)]) = key_row_ok r"
  by (simp_all add: key_row_def row_ok_cells cell_append_null)

lemma migrated_keys:
  assumes "key_file_ok f"
  shows "keys_ok (ensure_api_keys_columns (create_table API_KEYS_COLUMNS (kf_keys f)))"
    "abs_keys (ensure_api_keys_columns (create_table API_KEYS_COLUMNS (kf_keys f))) = file_keys f"
proof -
  have cols: "set API_KEYS_COLUMNS \<subseteq> insert ''rate_limit_rpm'' (set OLD_API_KEYS_COLUMNS)"
    by (auto simp: OLD_API_KEYS_COLUMNS_def)
  show "keys_ok (ensure_api_keys_columns (create_table API_KEYS_COLUMNS (kf_keys f)))"
    using assms cols by (cases "kf_keys f") (auto simp: key_file_ok_def keys_ok_def create_table_def ensure_api_keys_columns_def
        add_column_def key_row_append_null list_all_iff API_KEYS_COLUMNS_def)
  show "abs_keys (ensure_api_keys_columns (create_table API_KEYS_COLUMNS (kf_keys f))) = file_keys f"
    by (auto simp: file_keys_def abs_keys_def create_table_def ensure_api_keys_columns_def add_column_def key_row_append_null
        split: option.splits)
qed

lemma ensure_twice: "ensure_key_db (ensure_key_db f) = ensure_key_db f"
  by (simp add: ensure_key_db_def create_table_def ensure_api_keys_columns_def add_column_def)

lemma opened_file:
  assumes "key_file_ok f"
  shows "db_ok (open_key_db f)" "abs_db (open_key_db f) = ApiKeyStore (file_keys f) (file_windows f)"
proof -
  have "windows_ok (create_table RATE_WINDOWS_COLUMNS (kf_windows f))"
    "abs_windows (create_table RATE_WINDOWS_COLUMNS (kf_windows f)) = file_windows f"
    using assms by (auto simp: key_file_ok_def create_table_def file_windows_def windows_ok_def abs_windows_def split: option.splits)
  then show "db_ok (open_key_db f)" "abs_db (open_key_db f) = ApiKeyStore (file_keys f) (file_windows f)"
    using migrated_keys[OF assms] by (simp_all add: open_key_db_def ensure_key_db_def db_ok_def abs_db_def ApiKeyStore_def)
qed

text \<open>A file from before the rate limits, with one key.\<close>

definition example_old_file :: key_file where
  "example_old_file = \<lparr>kf_keys = Some \<lparr>st_columns = OLD_API_KEYS_COLUMNS,
       st_rows = [[(''public_id'', Text example_id), (''label'', Text ''ops''), (''secret_hash'', Text (example_id @ '':s3cret'')),
         (''key_prefix'', Text (KEY_PREFIX @ example_id @ ''.'')), (''created_at'', Integer 5), (''last_used_at'', Null),
         (''revoked_at'', Null), (''revoked_reason'', Null), (''expires_at'', Null)]]\<rparr>,
     kf_windows = None, kf_index = False\<rparr>"

lemma example_old_file_ok: "key_file_ok example_old_file"
  by (auto simp: key_file_ok_def example_old_file_def key_row_ok_def cell_def value_simps OLD_API_KEYS_COLUMNS_def API_KEYS_COLUMNS_def)

section \<open>Properties\<close>

text \<open>C36: The statements implement the store: on tables the program wrote, every operation over SQL has the same result as the
  operation over typed rows, and the tables it leaves stand for the store the other leaves.\<close>

theorem sql_implements_store:
  assumes "db_ok db"
  shows "simulates (db_issue_key sha label p secret now db) (issue_key sha label p secret now (abs_db db))
    \<and> simulates (db_authenticate_key repr sha key now db) (apfst Inr (authenticate_key sha key now (abs_db db)))
    \<and> simulates (db_delete_key repr p reason now db) (apfst Inr (delete_key p reason now (abs_db db)))
    \<and> simulates (db_set_key_rate_limit p rpm db) (set_key_rate_limit p rpm (abs_db db))
    \<and> simulates (db_consume_rate_limit p rpm now db) (consume_rate_limit p rpm now (abs_db db))
    \<and> db_list_keys repr include_revoked db = Inr (list_keys include_revoked (abs_db db))"
  using assms by (intro conjI simulate_issue simulate_authenticate simulate_delete simulate_set_rate_limit simulate_consume simulate_list)

theorem sql_implements_store_witness:
  "simulates (db_delete_key (\<lambda>_. []) example_id None 9 (open_key_db example_old_file))
     (apfst Inr (delete_key example_id None 9 (abs_db (open_key_db example_old_file))))
   \<and> map_of (ks_keys (abs_db (open_key_db example_old_file))) example_id \<noteq> None"
proof -
  have "map_of (file_keys example_old_file) example_id \<noteq> None"
    by (simp add: file_keys_def example_old_file_def abs_keys_def key_row_def cell_def value_simps)
  then show ?thesis using sql_implements_store[OF opened_file(1)[OF example_old_file_ok], where repr = "\<lambda>_. []" and p = example_id and reason = None and now = 9]
    unfolding opened_file(2)[OF example_old_file_ok] by (simp only: ApiKeyStore_def key_store.simps) blast
qed

text \<open>C37: Opening a file of the present schema, of the one before rate limits, or none, keeps every key and every count, with no
  limit on keys from before; the tables then have the present schema, and opening again changes nothing.\<close>

theorem migration_keeps_keys:
  assumes "key_file_ok f"
  shows "db_ok (open_key_db f) \<and> abs_db (open_key_db f) = ApiKeyStore (file_keys f) (file_windows f)
    \<and> set API_KEYS_COLUMNS \<subseteq> set (st_columns (kd_keys (open_key_db f)))
    \<and> open_key_db (ensure_key_db f) = open_key_db f \<and> ensure_key_db (ensure_key_db f) = ensure_key_db f"
  using opened_file[OF assms] by (auto simp: db_ok_def keys_ok_def open_key_db_def ensure_twice)

theorem migration_keeps_keys_witness:
  "''rate_limit_rpm'' \<notin> set (st_columns (the (kf_keys example_old_file)))
   \<and> db_ok (open_key_db example_old_file)
   \<and> abs_db (open_key_db example_old_file) = ApiKeyStore (file_keys example_old_file) []"
proof -
  have "''rate_limit_rpm'' \<notin> set (st_columns (the (kf_keys example_old_file)))" "file_windows example_old_file = []"
    by (simp_all add: file_windows_def example_old_file_def OLD_API_KEYS_COLUMNS_def)
  then show ?thesis using migration_keeps_keys[OF example_old_file_ok] by simp
qed

end
