(* ===== verification/Decimals.thy ===== *)
theory Decimals
  imports Prelude
begin

text \<open>
  Python's \<open>decimal\<close> arithmetic in the default context (28 significant digits,
  \<open>ROUND_HALF_EVEN\<close>), as far as the program uses it. A finite \<open>Decimal\<close> is the
  rational number it denotes; \<open>dec_add\<close>, \<open>dec_mul\<close> and \<open>dec_div\<close> round the
  exact result to 28 digits, as the standard library does (a result outside the exponent
  range of \<open>10 ** 999999\<close>, which the program's bounds exclude, is not modelled).
  Comparisons are exact.
\<close>

named_theorems dec_defs \<open>unfolding rules of the decimal operations\<close>

section \<open>Rounding to an integer\<close>

text \<open>\<open>x.to_integral_value()\<close>: half to even.\<close>

definition round_half_even :: "rat \<Rightarrow> int" where
  "round_half_even x =
     (let f = \<lfloor>x\<rfloor>; d = x - of_int f in
      if d < 1 / 2 then f else if d > 1 / 2 then f + 1 else if even f then f else f + 1)"

text \<open>\<open>int(x)\<close> of a \<open>Decimal\<close>, and \<open>ROUND_DOWN\<close>: towards zero.\<close>

definition trunc_rat :: "rat \<Rightarrow> int" where
  "trunc_rat x = (if x < 0 then - \<lfloor>- x\<rfloor> else \<lfloor>x\<rfloor>)"

lemma round_half_even_int [simp]: "round_half_even (of_int n) = n"
  by (simp add: round_half_even_def)

lemma round_half_even_bounds: "\<lfloor>x\<rfloor> \<le> round_half_even x \<and> round_half_even x \<le> \<lfloor>x\<rfloor> + 1"
  by (simp add: round_half_even_def Let_def)

lemma round_half_even_close: "\<bar>of_int (round_half_even x) - x\<bar> \<le> 1 / 2"
proof -
  have "of_int \<lfloor>x\<rfloor> \<le> x" "x < of_int \<lfloor>x\<rfloor> + 1" by linarith+
  then show ?thesis unfolding round_half_even_def Let_def by (simp add: abs_if) linarith
qed

lemma round_half_even_mono:
  assumes "x \<le> y"
  shows "round_half_even x \<le> round_half_even y"
proof (cases "\<lfloor>x\<rfloor> = \<lfloor>y\<rfloor>")
  case True
  with assms show ?thesis by (auto simp: round_half_even_def Let_def)
next
  case False
  with floor_mono[OF assms] have "\<lfloor>x\<rfloor> + 1 \<le> \<lfloor>y\<rfloor>" by linarith
  with round_half_even_bounds[of x] round_half_even_bounds[of y] show ?thesis by linarith
qed

lemma round_half_even_le_int: "x \<le> of_int n \<Longrightarrow> round_half_even x \<le> n"
  using round_half_even_mono[of x "of_int n"] by simp

lemma round_half_even_ge_int: "of_int n \<le> x \<Longrightarrow> n \<le> round_half_even x"
  using round_half_even_mono[of "of_int n" x] by simp

section \<open>Number of decimal digits and the adjusted exponent\<close>

fun num_digits :: "nat \<Rightarrow> nat" where
  "num_digits n = (if n < 10 then 1 else Suc (num_digits (n div 10)))"

declare num_digits.simps [simp del]

lemma num_digits_pos: "0 < num_digits n"
  by (subst num_digits.simps) simp

lemma num_digits_bounds: "0 < n \<Longrightarrow> 10 ^ (num_digits n - 1) \<le> n \<and> n < 10 ^ num_digits n"
proof (induction n rule: num_digits.induct)
  case (1 n)
  show ?case
  proof (cases "n < 10")
    case True
    with "1.prems" show ?thesis by (simp add: num_digits.simps[of n])
  next
    case False
    let ?k = "num_digits (n div 10)"
    from False have "0 < n div 10" by auto
    with 1(1) False have IH: "10 ^ (?k - 1) \<le> n div 10" "n div 10 < 10 ^ ?k" by auto
    have "num_digits n = Suc ?k" using False by (simp add: num_digits.simps[of n])
    moreover have "10 ^ ?k = 10 * (10::nat) ^ (?k - 1)"
      using num_digits_pos[of "n div 10"] by (cases ?k) auto
    moreover have "10 * (n div 10) \<le> n" "n < 10 * (n div 10) + 10" by linarith+
    ultimately show ?thesis using IH by (simp; linarith)
  qed
qed

text \<open>
  \<open>x.adjusted()\<close> of a positive value: the exponent of its leading digit, counted on the
  integer part, or for a value below one on the integer part of its inverse.
\<close>

definition adjusted :: "rat \<Rightarrow> int" where
  "adjusted x =
     (if x = 0 then 0
      else let a = \<bar>x\<bar> in
        if 1 \<le> a then int (num_digits (nat \<lfloor>a\<rfloor>)) - 1
        else - int (num_digits (nat (\<lceil>1 / a\<rceil> - 1))))"

abbreviation pow10 :: "int \<Rightarrow> rat" where "pow10 k \<equiv> (10::rat) powi k"

lemma pow10_pos [simp]: "0 < pow10 k" by simp

lemma pow10_add: "pow10 (a + b) = pow10 a * pow10 b"
  by (simp add: power_int_add)

lemma pow10_mono: "a \<le> b \<Longrightarrow> pow10 a \<le> pow10 b"
  by (rule power_int_increasing) auto

lemma pow10_nat: "pow10 (int n) = 10 ^ n"
  by simp

lemma pow10_minus: "pow10 (- int n) = 1 / 10 ^ n"
  by (simp add: power_int_minus field_simps)

lemma adjusted_bounds:
  assumes "0 < x"
  shows "pow10 (adjusted x) \<le> x" "x < pow10 (adjusted x + 1)"
proof -
  have "pow10 (adjusted x) \<le> x \<and> x < pow10 (adjusted x + 1)"
  proof (cases "1 \<le> x")
    case True
    let ?n = "nat \<lfloor>x\<rfloor>" let ?d = "num_digits ?n"
    have n: "0 < ?n" using True by simp
    have "of_nat ?n \<le> x" "x < of_nat ?n + 1" using True by linarith+
    moreover have "(10::rat) ^ (?d - 1) \<le> of_nat ?n"
      using num_digits_bounds[OF n] by (metis of_nat_le_iff of_nat_numeral of_nat_power)
    moreover have "of_nat ?n + 1 \<le> (10::rat) ^ ?d"
    proof -
      have "?n + 1 \<le> 10 ^ ?d" using num_digits_bounds[OF n] by linarith
      then have "of_nat (?n + 1) \<le> (of_nat (10 ^ ?d) :: rat)" by (simp only: of_nat_le_iff)
      then show ?thesis by simp
    qed
    moreover have "adjusted x = int (?d - 1)" "adjusted x + 1 = int ?d"
      using True num_digits_pos[of ?n] by (auto simp: adjusted_def)
    ultimately show ?thesis by (simp only: pow10_nat) linarith
  next
    case False
    let ?m = "nat (\<lceil>1 / x\<rceil> - 1)" let ?d = "num_digits ?m"
    have inv: "1 < 1 / x" using assms False by (simp add: field_simps)
    then have "2 \<le> \<lceil>1 / x\<rceil>" by linarith
    then have m: "0 < ?m" by simp
    have mi: "of_nat ?m = of_int \<lceil>1 / x\<rceil> - (1::rat)"
      using of_nat_nat[of "\<lceil>1 / x\<rceil> - 1", where 'a = rat] \<open>2 \<le> \<lceil>1 / x\<rceil>\<close> by linarith
    have "of_nat ?m < 1 / x" "1 / x \<le> of_nat ?m + 1" unfolding mi by linarith+
    moreover have "(10::rat) ^ (?d - 1) \<le> of_nat ?m"
      using num_digits_bounds[OF m] by (metis of_nat_le_iff of_nat_numeral of_nat_power)
    moreover have "of_nat ?m + 1 \<le> (10::rat) ^ ?d"
    proof -
      have "?m + 1 \<le> 10 ^ ?d" using num_digits_bounds[OF m] by linarith
      then have "of_nat (?m + 1) \<le> (of_nat (10 ^ ?d) :: rat)" by (simp only: of_nat_le_iff)
      then show ?thesis by simp
    qed
    ultimately have "(10::rat) ^ (?d - 1) < 1 / x" "1 / x \<le> 10 ^ ?d" by linarith+
    then have "x < 1 / 10 ^ (?d - 1)" "1 / 10 ^ ?d \<le> x" using assms by (auto simp: field_simps)
    moreover have "adjusted x = - int ?d" "adjusted x + 1 = - int (?d - 1)"
      using False assms num_digits_pos[of ?m] by (auto simp: adjusted_def Let_def)
    ultimately show ?thesis by (simp only: pow10_minus)
  qed
  then show "pow10 (adjusted x) \<le> x" "x < pow10 (adjusted x + 1)" by auto
qed

lemma adjusted_unique:
  assumes "pow10 k \<le> x" "x < pow10 (k + 1)"
  shows "adjusted x = k"
proof -
  have "0 < x" using assms(1) pow10_pos[of k] by linarith
  note b = adjusted_bounds[OF this]
  have "\<not> adjusted x + 1 \<le> k"
    using pow10_mono[of "adjusted x + 1" k] assms b by linarith
  moreover have "\<not> k + 1 \<le> adjusted x"
    using pow10_mono[of "k + 1" "adjusted x"] assms b by linarith
  ultimately show ?thesis by linarith
qed

lemma adjusted_mono:
  assumes "0 < x" "x \<le> y"
  shows "adjusted x \<le> adjusted y"
proof (rule ccontr)
  assume "\<not> adjusted x \<le> adjusted y"
  then have "pow10 (adjusted y + 1) \<le> pow10 (adjusted x)" by (intro pow10_mono) linarith
  with adjusted_bounds[of x] adjusted_bounds[of y] assms show False by linarith
qed

section \<open>Rounding to significant digits\<close>

definition round_sig :: "nat \<Rightarrow> rat \<Rightarrow> rat" where
  "round_sig p x =
     (if x = 0 then 0
      else let e = adjusted x - int p + 1; r = of_int (round_half_even (\<bar>x\<bar> / pow10 e)) * pow10 e
           in if x < 0 then - r else r)"

text \<open>Values with at most \<open>p\<close> significant digits: an integer below \<open>10 ^ p\<close>, scaled.\<close>

definition fits :: "nat \<Rightarrow> rat \<Rightarrow> bool" where
  "fits p x \<longleftrightarrow> (\<exists>c k. \<bar>c\<bar> < 10 ^ p \<and> x = of_int c * pow10 k)"

lemma round_sig_pos_def:
  "0 < x \<Longrightarrow> round_sig p x =
     of_int (round_half_even (x / pow10 (adjusted x - int p + 1))) * pow10 (adjusted x - int p + 1)"
  by (simp add: round_sig_def Let_def)

lemma scaled_bounds:
  assumes "0 < x" "0 < p"
  defines "q \<equiv> x / pow10 (adjusted x - int p + 1)"
  shows "10 ^ (p - 1) \<le> q" "q < 10 ^ p"
proof -
  let ?e = "adjusted x - int p + 1"
  have e: "adjusted x = ?e + int (p - 1)" "adjusted x + 1 = ?e + int p" using assms(2) by auto
  have "pow10 ?e * 10 ^ (p - 1) \<le> x" "x < pow10 ?e * 10 ^ p"
    using adjusted_bounds[OF assms(1)] unfolding e(2) by (subst (asm) (1) e(1), simp_all only: pow10_add pow10_nat)
  then show "10 ^ (p - 1) \<le> q" "q < 10 ^ p" unfolding q_def by (simp_all add: field_simps)
qed

lemma round_sig_between:
  assumes "0 < x" "0 < p"
  shows "pow10 (adjusted x) \<le> round_sig p x" "round_sig p x \<le> pow10 (adjusted x + 1)"
proof -
  let ?e = "adjusted x - int p + 1" let ?q = "x / pow10 ?e"
  have lo: "of_int (10 ^ (p - 1)) \<le> ?q" and hi: "?q \<le> of_int (10 ^ p)"
    using scaled_bounds[OF assms] by auto
  have "(10 ^ (p - 1) :: rat) \<le> of_int (round_half_even ?q)"
    using round_half_even_ge_int[OF lo] by (metis of_int_le_iff of_int_numeral of_int_power)
  moreover have "of_int (round_half_even ?q) \<le> (10 ^ p :: rat)"
    using round_half_even_le_int[OF hi] by (metis of_int_le_iff of_int_numeral of_int_power)
  moreover have "pow10 (adjusted x) = 10 ^ (p - 1) * pow10 ?e"
  proof -
    have "adjusted x = int (p - 1) + ?e" using assms(2) by simp
    then show ?thesis by (metis pow10_add pow10_nat)
  qed
  moreover have "pow10 (adjusted x + 1) = 10 ^ p * pow10 ?e"
  proof -
    have "adjusted x + 1 = int p + ?e" by simp
    then show ?thesis by (metis pow10_add pow10_nat)
  qed
  ultimately show "pow10 (adjusted x) \<le> round_sig p x" "round_sig p x \<le> pow10 (adjusted x + 1)"
    by (simp_all add: round_sig_pos_def[OF assms(1)])
qed

lemma round_sig_pos: "0 < x \<Longrightarrow> 0 < p \<Longrightarrow> 0 < round_sig p x"
  using round_sig_between(1)[of x p] pow10_pos[of "adjusted x"] by linarith

lemma round_sig_mono:
  assumes "0 < x" "x \<le> y" "0 < p"
  shows "round_sig p x \<le> round_sig p y"
proof (cases "adjusted x = adjusted y")
  case True
  have "x / pow10 (adjusted y - int p + 1) \<le> y / pow10 (adjusted y - int p + 1)"
    using assms by (intro divide_right_mono) auto
  with round_half_even_mono[OF this] assms True show ?thesis
    by (simp add: round_sig_pos_def)
next
  case False
  with adjusted_mono[OF assms(1,2)] have "adjusted x + 1 \<le> adjusted y" by linarith
  then have "pow10 (adjusted x + 1) \<le> pow10 (adjusted y)" by (rule pow10_mono)
  with round_sig_between[of x p] round_sig_between[of y p] assms show ?thesis by linarith
qed

lemma round_sig_fits_id:
  assumes "fits p x" "0 < x" "0 < p"
  shows "round_sig p x = x"
proof -
  from assms(1) obtain c k where c: "\<bar>c\<bar> < 10 ^ p" and x: "x = of_int c * pow10 k"
    by (auto simp: fits_def)
  define e where "e = adjusted x - int p + 1"
  have cpos: "0 < c" using assms(2) unfolding x using pow10_pos[of k]
    by (metis zero_less_mult_pos2 of_int_0_less_iff)
  have "x < pow10 (int p + k)"
  proof -
    have "of_int c < (of_int (10 ^ p) :: rat)" using c cpos by (subst of_int_less_iff) auto
    then show ?thesis unfolding x by (simp only: pow10_add pow10_nat) simp
  qed
  moreover have "pow10 (adjusted x) \<le> x" by (rule adjusted_bounds[OF assms(2)])
  ultimately have "pow10 (adjusted x) < pow10 (int p + k)" by linarith
  then have "\<not> int p + k \<le> adjusted x" using pow10_mono[of "int p + k" "adjusted x"] by linarith
  then have "e \<le> k" unfolding e_def by linarith
  then obtain n where n: "k = e + int n" by (metis zle_iff_zadd)
  have xe: "x = of_int (c * 10 ^ n) * pow10 e" unfolding x n by (simp add: pow10_add)
  then have "x / pow10 e = of_int (c * 10 ^ n)" by simp
  then have "round_half_even (x / pow10 e) = c * 10 ^ n" by (metis round_half_even_int)
  then have "of_int (round_half_even (x / pow10 e)) * pow10 e = x" using xe by metis
  then show ?thesis unfolding round_sig_pos_def[OF assms(2)] e_def .
qed

lemma round_sig_err:
  assumes "0 < x" "0 < p"
  shows "\<bar>round_sig p x - x\<bar> \<le> pow10 (adjusted x - int p + 1) / 2"
proof -
  let ?e = "adjusted x - int p + 1" let ?q = "x / pow10 ?e"
  have "round_sig p x - x = (of_int (round_half_even ?q) - ?q) * pow10 ?e"
    by (simp add: round_sig_pos_def[OF assms(1)] field_simps)
  then have "\<bar>round_sig p x - x\<bar> = \<bar>of_int (round_half_even ?q) - ?q\<bar> * pow10 ?e"
    by (simp add: abs_mult)
  also have "\<dots> \<le> (1 / 2) * pow10 ?e"
    by (intro mult_right_mono round_half_even_close) simp
  finally show ?thesis by simp
qed

section \<open>Operations in the default context\<close>

definition dec_add :: "rat \<Rightarrow> rat \<Rightarrow> rat" where [dec_defs]: "dec_add x y = round_sig 28 (x + y)"
definition dec_sub :: "rat \<Rightarrow> rat \<Rightarrow> rat" where [dec_defs]: "dec_sub x y = round_sig 28 (x - y)"
definition dec_mul :: "rat \<Rightarrow> rat \<Rightarrow> rat" where [dec_defs]: "dec_mul x y = round_sig 28 (x * y)"
definition dec_div :: "rat \<Rightarrow> rat \<Rightarrow> rat" where [dec_defs]: "dec_div x y = round_sig 28 (x / y)"

lemma fits_mono: "fits p x \<Longrightarrow> p \<le> q \<Longrightarrow> fits q x"
proof -
  assume "fits p x" "p \<le> q"
  then obtain c k where c: "\<bar>c\<bar> < 10 ^ p" "x = of_int c * pow10 k" by (auto simp: fits_def)
  have "(10::int) ^ p \<le> 10 ^ q" using \<open>p \<le> q\<close> by (rule power_increasing) simp
  with c have "\<bar>c\<bar> < 10 ^ q \<and> x = of_int c * pow10 k" by linarith
  then show "fits q x" unfolding fits_def by blast
qed

lemma fits_numeral_mult: "fits p x \<Longrightarrow> fits (Suc p) (2 * x)"
proof -
  assume "fits p x"
  then obtain c k where "\<bar>c\<bar> < 10 ^ p" "x = of_int c * pow10 k" by (auto simp: fits_def)
  then have "\<bar>2 * c\<bar> < 10 ^ Suc p \<and> 2 * x = of_int (2 * c) * pow10 k" by auto
  then show ?thesis unfolding fits_def by blast
qed

lemma round_sig_0 [simp]: "round_sig p 0 = 0" by (simp add: round_sig_def)

lemma dec_mul_pos: "0 < x \<Longrightarrow> 0 < y \<Longrightarrow> 0 < dec_mul x y"
  by (simp add: dec_mul_def round_sig_pos)

lemma dec_div_pos: "0 < x \<Longrightarrow> 0 < y \<Longrightarrow> 0 < dec_div x y"
  by (simp add: dec_div_def round_sig_pos)

lemma dec_mul_one: "fits 28 x \<Longrightarrow> 0 < x \<Longrightarrow> dec_mul x 1 = x"
  by (simp add: dec_mul_def round_sig_fits_id)

text \<open>The average of two values of at most 27 digits, as \<open>(a + b) / 2\<close> computes it, lies between them.\<close>

lemma dec_average_between:
  assumes "fits 27 a" "fits 27 b" "0 < a" "a \<le> b"
  shows "a \<le> dec_div (dec_add a b) 2 \<and> dec_div (dec_add a b) 2 \<le> b"
proof -
  have f2: "fits 28 (2 * a)" "fits 28 (2 * b)"
    using fits_numeral_mult[OF assms(1)] fits_numeral_mult[OF assms(2)] by simp_all
  have lo: "2 * a \<le> dec_add a b"
    using round_sig_mono[of "2 * a" "a + b" 28] round_sig_fits_id[OF f2(1)] assms
    by (simp add: dec_add_def)
  have hi: "dec_add a b \<le> 2 * b"
    using round_sig_mono[of "a + b" "2 * b" 28] round_sig_fits_id[OF f2(2)] assms
    by (simp add: dec_add_def)
  have f1: "fits 28 a" "fits 28 b" using assms(1,2) by (auto intro: fits_mono)
  have "a \<le> dec_div (dec_add a b) 2"
    using round_sig_mono[of a "dec_add a b / 2" 28] round_sig_fits_id[OF f1(1)] lo assms
    by (simp add: dec_div_def)
  moreover have "dec_div (dec_add a b) 2 \<le> b"
    using round_sig_mono[of "dec_add a b / 2" b 28] round_sig_fits_id[OF f1(2)] lo hi assms
    by (simp add: dec_div_def)
  ultimately show ?thesis by simp
qed

text \<open>With 28 digits it need not: the sum of two equal values is rounded below twice the value.\<close>

lemma dec_average_escapes:
  "dec_div (dec_add (of_int (10 ^ 28 - 3) / 10 ^ 28) (of_int (10 ^ 28 - 3) / 10 ^ 28)) 2
     < of_int (10 ^ 28 - 3) / 10 ^ 28"
  by code_simp

end
