(* ===== verification/Domain.thy ===== *)
theory Domain
  imports Decimals
begin

text \<open>
  The data model: \<open>chains.py\<close>, \<open>core/errors.py\<close>, \<open>core/validator.py\<close>,
  \<open>core/address_remap.py\<close> and \<open>core/models.py\<close>. A pydantic model is a record and its
  validators are the bool-valued \<open>valid_*\<close> predicates, which the constructors
  \<open>mk_*\<close> apply, raising \<open>ValueError\<close> (pydantic's \<open>ValidationError\<close> is one) when
  they fail. Left out of the records: \<open>retrieved_at\<close> (the wall clock) and \<open>raw\<close>
  (never set by the code). Instants (\<open>as_of\<close>) are Unix seconds.

  The third-party \<open>eth_utils\<close> functions are a parameter, the record \<open>eth_lib\<close>;
  \<open>eth_ok\<close> states what the code relies on in their documentation.
\<close>

section \<open>Networks\<close>

record chain =
  ch_name :: string
  native_symbol :: string
  defillama_name :: string
  curve_name :: string

definition CHAINS :: "(int, chain) odict" where
  "CHAINS =
    [(1, \<lparr>ch_name = ''ethereum'', native_symbol = ''ETH'', defillama_name = ''ethereum'', curve_name = ''ethereum''\<rparr>),
     (10, \<lparr>ch_name = ''optimism'', native_symbol = ''ETH'', defillama_name = ''optimism'', curve_name = ''optimism''\<rparr>),
     (100, \<lparr>ch_name = ''gnosis'', native_symbol = ''XDAI'', defillama_name = ''xdai'', curve_name = ''xdai''\<rparr>),
     (137, \<lparr>ch_name = ''polygon'', native_symbol = ''POL'', defillama_name = ''polygon'', curve_name = ''polygon''\<rparr>),
     (42161, \<lparr>ch_name = ''arbitrum'', native_symbol = ''ETH'', defillama_name = ''arbitrum'', curve_name = ''arbitrum''\<rparr>),
     (43114, \<lparr>ch_name = ''avalanche'', native_symbol = ''AVAX'', defillama_name = ''avax'', curve_name = ''avalanche''\<rparr>)]"

definition MULTICALL3_ADDRESS :: string where
  "MULTICALL3_ADDRESS = ''0xcA11bde05977b3631167028862bE2a173976CA11''"

definition MULTICALL3_BY_CHAIN :: "(int, string) odict" where
  "MULTICALL3_BY_CHAIN = map (\<lambda>c. (fst c, MULTICALL3_ADDRESS)) CHAINS"

section \<open>Statuses and errors\<close>

datatype provider_status = OK | NO_ROUTE | ERROR | BAD_REQUEST

text \<open>\<open>ErrorType\<close>; its member \<open>NO_ROUTE\<close> is \<open>NO_ROUTE_ERROR\<close> here.\<close>

datatype error_type =
    TIMEOUT | RATE_LIMITED | UPSTREAM_HTTP | UPSTREAM_PARSE | INTERNAL_TRANSPORT_TIMEOUT
  | NO_ROUTE_ERROR | UNSUPPORTED_OPERATION | UNSUPPORTED_CHAIN | PROVIDER_UNAVAILABLE
  | DEADLINE_EXCEEDED | INTERNAL | VAULT_RESOLUTION_FAILED | INVALID_VAULT_CONVERSION

record error_info =
  ei_type :: error_type
  ei_message :: string
  ei_code :: "int option"
  ei_retry_after_ms :: "int option"

definition mk_error :: "error_type \<Rightarrow> string \<Rightarrow> error_info" where
  "mk_error t m = \<lparr>ei_type = t, ei_message = m, ei_code = None, ei_retry_after_ms = None\<rparr>"

lemma mk_error_sel [simp]:
  "ei_type (mk_error t m) = t" "ei_message (mk_error t m) = m"
  "ei_code (mk_error t m) = None" "ei_retry_after_ms (mk_error t m) = None"
  by (simp_all add: mk_error_def)

section \<open>JSON values, as \<open>json.loads\<close> returns them\<close>

text \<open>
  A finite float carries its exact value and the value of its shortest decimal
  representation (what \<open>str(x)\<close> shows); \<open>NaN\<close> and the infinities are \<open>JNonFinite\<close>.
\<close>

datatype json =
    JNull | JBool bool | JInt int | JFloat rat rat | JNonFinite
  | JStr string | JList "json list" | JObj "(string \<times> json) list"

section \<open>Addresses and amounts (\<open>core/validator.py\<close>)\<close>

record eth_lib =
  is_address :: "string \<Rightarrow> bool"
  to_checksum_address :: "string \<Rightarrow> string option"

text \<open>
  Documented behaviour of \<open>eth_utils\<close>: a valid address has a checksummed form, the
  checksummed form is valid, 42 characters long and its own checksummed form, checksumming
  ignores letter case, and it changes nothing but letter case in a 42-character
  (\<open>0x\<close>-prefixed) input.
\<close>

definition eth_ok :: "eth_lib \<Rightarrow> bool" where
  "eth_ok eth \<longleftrightarrow>
     (\<forall>a. is_address eth a \<longrightarrow> to_checksum_address eth a \<noteq> None)
   \<and> (\<forall>a c. to_checksum_address eth a = Some c \<longrightarrow>
        is_address eth c \<and> to_checksum_address eth c = Some c \<and> length c = 42)
   \<and> (\<forall>a b. py_lower a = py_lower b \<longrightarrow> to_checksum_address eth a = to_checksum_address eth b)
   \<and> (\<forall>a c. to_checksum_address eth a = Some c \<longrightarrow> length a = 42 \<longrightarrow> py_lower c = py_lower a)"

definition NATIVE_TOKEN_ALIAS :: string where
  "NATIVE_TOKEN_ALIAS = ''0xEeeeeEeeeEeEeeEeEeEeeEEEeeeeEeeeeeeeEEeE''"

definition ZERO_ADDRESS :: string where
  "ZERO_ADDRESS = ''0x0000000000000000000000000000000000000000''"

definition is_native_alias :: "string \<Rightarrow> bool" where
  "is_native_alias address =
     (let lowered = py_lower address in
      lowered = py_lower NATIVE_TOKEN_ALIAS \<or> lowered = py_lower ZERO_ADDRESS)"

definition normalize_address :: "eth_lib \<Rightarrow> string \<Rightarrow> string res" where
  "normalize_address eth address =
     (if is_native_alias address then Inr NATIVE_TOKEN_ALIAS
      else if \<not> is_address eth address
        then Inl (InvalidRequestError ''INVALID_ADDRESS'' (''Invalid EVM address: '' @ address))
      else (case to_checksum_address eth address of
              Some c \<Rightarrow> Inr c | None \<Rightarrow> Inl (ValueError ''invalid address'')))"

definition MAX_POSITIVE_INT_DIGITS :: nat where "MAX_POSITIVE_INT_DIGITS = 78"
definition MAX_UINT256 :: int where "MAX_UINT256 = 2 ^ 256 - 1"

text \<open>
  \<open>re.match(r"^[1-9][0-9]*$", v)\<close>: the dollar also matches before a final newline.
\<close>

definition positive_int_re :: "string \<Rightarrow> bool" where
  "positive_int_re v =
     (case v of [] \<Rightarrow> False
      | c # cs \<Rightarrow> is_dec_digit c \<and> c \<noteq> CHR ''0'' \<and> dropWhile is_dec_digit cs \<in> {[], [CHR 0x0A]})"

definition quoted :: "string \<Rightarrow> string" where
  "quoted s = CHR 0x27 # s @ [CHR 0x27]"

definition parse_positive_int :: "string \<Rightarrow> string \<Rightarrow> int res" where
  "parse_positive_int v field_name =
     (let not_positive = InvalidRequestError ''INVALID_AMOUNT''
            (''Field '' @ quoted field_name @ '' must be a positive integer string'')
      in if length v > MAX_POSITIVE_INT_DIGITS \<or> \<not> positive_int_re v then Inl not_positive
         else case py_int_of_str v of
           None \<Rightarrow> Inl not_positive
         | Some parsed \<Rightarrow>
             if parsed > MAX_UINT256
               then Inl (InvalidRequestError ''INVALID_AMOUNT''
                      (''Field '' @ quoted field_name @ '' exceeds the uint256 maximum''))
             else Inr parsed)"

section \<open>Remapped tokens (\<open>core/address_remap.py\<close>)\<close>

definition REMAP_TABLE :: "((int \<times> string) \<times> string) list" where
  "REMAP_TABLE =
    [((1, ''0xa3cc91589feedbbee0cfdc7404041e19cb00f110''), ''0x4e3FBD56CD56c3e72c1403e103b45Db9da5B9D2B''),
     ((1, ''0x857ecd3faeac083303858167662c734f085c8c95''), ''0x6B175474E89094C44Da98b954EedeAC495271d0F'')]"

definition resolve_remap :: "int \<Rightarrow> string \<Rightarrow> string option" where
  "resolve_remap chain_id address = map_of REMAP_TABLE (chain_id, py_lower address)"

section \<open>Models (\<open>core/models.py\<close>)\<close>

definition MAX_NORMALIZED_DECIMAL_EXPONENT :: int where "MAX_NORMALIZED_DECIMAL_EXPONENT = 100"

record token_ref =
  tr_chain_id :: int
  tr_address :: string
  tr_symbol :: "string option"
  tr_decimals :: "int option"
  tr_logo_url :: "string option"

definition mk_token_ref ::
    "eth_lib \<Rightarrow> int \<Rightarrow> string \<Rightarrow> string option \<Rightarrow> int option \<Rightarrow> string option \<Rightarrow> token_ref res" where
  "mk_token_ref eth chain_id address symbol decimals logo_url =
     rbind (normalize_address eth address) (\<lambda>normalized.
       case decimals of
         None \<Rightarrow> Inr \<lparr>tr_chain_id = chain_id, tr_address = normalized, tr_symbol = symbol,
                     tr_decimals = None, tr_logo_url = logo_url\<rparr>
       | Some d \<Rightarrow> if d < 0 \<or> d > 255 then Inl (ValueError ''decimals'')
           else Inr \<lparr>tr_chain_id = chain_id, tr_address = normalized, tr_symbol = symbol,
                     tr_decimals = Some d, tr_logo_url = logo_url\<rparr>)"

datatype vault_type = ERC4626 | YEARN_V2

record vault_context =
  vc_vault_type :: "vault_type option"
  vc_underlying_token :: "string option"
  vc_underlying_token_in :: "string option"
  vc_underlying_token_out :: "string option"
  vc_price_per_share :: "rat option"
  vc_price_per_share_token_in :: "rat option"
  vc_price_per_share_token_out :: "rat option"
  vc_block_number :: int

fun normalize_underlying :: "eth_lib \<Rightarrow> string option \<Rightarrow> string option res" where
  "normalize_underlying eth None = Inr None"
| "normalize_underlying eth (Some v) = rbind (normalize_address eth v) (\<lambda>a. Inr (Some a))"

definition valid_rate :: "rat option \<Rightarrow> bool" where
  "valid_rate value = (case value of None \<Rightarrow> True | Some r \<Rightarrow> r > 0)"

definition mk_vault_context :: "eth_lib \<Rightarrow> vault_context \<Rightarrow> vault_context res" where
  "mk_vault_context eth v =
     rbind (normalize_underlying eth (vc_underlying_token v)) (\<lambda>u.
     rbind (normalize_underlying eth (vc_underlying_token_in v)) (\<lambda>ui.
     rbind (normalize_underlying eth (vc_underlying_token_out v)) (\<lambda>uo.
       if valid_rate (vc_price_per_share v) \<and> valid_rate (vc_price_per_share_token_in v)
          \<and> valid_rate (vc_price_per_share_token_out v) \<and> vc_block_number v \<ge> 0
       then Inr (v\<lparr>vc_underlying_token := u, vc_underlying_token_in := ui, vc_underlying_token_out := uo\<rparr>)
       else Inl (ValueError ''vault conversion rate must be finite and positive''))))"

record price_request =
  pr_chain_id :: int
  pr_token :: token_ref
  pr_timeout_ms :: "int option"

record quote_request =
  qr_chain_id :: int
  qr_token_in :: token_ref
  qr_token_out :: token_ref
  qr_amount_in :: int
  qr_timeout_ms :: "int option"

record price_result =
  p_provider :: string
  p_status :: provider_status
  p_token :: "token_ref option"
  p_price_usd :: "rat option"
  p_latency_ms :: int
  p_as_of :: "rat option"
  p_error :: "error_info option"
  p_vault_context :: "vault_context option"

definition valid_price :: "rat option \<Rightarrow> bool" where
  "valid_price value =
     (case value of None \<Rightarrow> True
      | Some v \<Rightarrow> \<not> (v \<le> 0 \<or> \<bar>adjusted v\<bar> > MAX_NORMALIZED_DECIMAL_EXPONENT))"

definition valid_price_result :: "price_result \<Rightarrow> bool" where
  "valid_price_result r \<longleftrightarrow>
     valid_price (p_price_usd r) \<and> p_latency_ms r \<ge> 0
   \<and> \<not> (p_status r = OK \<and> p_price_usd r = None)
   \<and> \<not> (p_status r = OK \<and> p_error r \<noteq> None)"

definition mk_price_result :: "price_result \<Rightarrow> price_result res" where
  "mk_price_result r = (if valid_price_result r then Inr r else Inl (ValueError ''PriceResult''))"

record quote_result =
  q_provider :: string
  q_status :: provider_status
  q_token_in :: "token_ref option"
  q_token_out :: "token_ref option"
  q_amount_in :: "int option"
  q_amount_out :: "int option"
  q_amount_out_min :: "int option"
  q_price_impact_bps :: "int option"
  q_estimated_gas :: "int option"
  q_latency_ms :: int
  q_as_of :: "rat option"
  q_error :: "error_info option"
  q_route :: "(string \<times> json) list option"
  q_vault_context :: "vault_context option"

definition uint256_field :: "int option \<Rightarrow> bool" where
  "uint256_field v = (case v of None \<Rightarrow> True | Some n \<Rightarrow> 0 \<le> n \<and> n \<le> MAX_UINT256)"

definition valid_quote_result :: "quote_result \<Rightarrow> bool" where
  "valid_quote_result r \<longleftrightarrow>
     uint256_field (q_amount_in r) \<and> uint256_field (q_amount_out r)
   \<and> uint256_field (q_amount_out_min r) \<and> uint256_field (q_estimated_gas r) \<and> q_latency_ms r \<ge> 0
   \<and> \<not> (q_status r = OK \<and> (case q_amount_out r of None \<Rightarrow> True | Some a \<Rightarrow> a \<le> 0))
   \<and> \<not> (q_status r = OK \<and> q_error r \<noteq> None)
   \<and> \<not> (case (q_amount_out_min r, q_amount_out r) of (Some m, Some a) \<Rightarrow> m > a | _ \<Rightarrow> False)"

definition mk_quote_result :: "quote_result \<Rightarrow> quote_result res" where
  "mk_quote_result r = (if valid_quote_result r then Inr r else Inl (ValueError ''QuoteResult''))"

definition success :: "provider_status \<Rightarrow> bool" where
  "success st \<longleftrightarrow> st = OK"

record token_metadata =
  tm_chain_id :: int
  tm_address :: string
  tm_symbol :: "string option"
  tm_decimals :: "int option"
  tm_logo_url :: "string option"
  tm_source :: "string option"

record price_summary =
  ps_requested :: int
  ps_successful :: int
  ps_failed :: int
  ps_high_price :: "rat option"
  ps_low_price :: "rat option"
  ps_median_price :: "rat option"
  ps_deviation_bps :: "int option"

record quote_summary =
  qs_requested :: int
  qs_successful :: int
  qs_failed :: int
  qs_high_amount_out :: "int option"
  qs_low_amount_out :: "int option"
  qs_median_amount_out :: "int option"

section \<open>Lemmas on addresses\<close>

lemma mk_price_result_Inr [simp]: "mk_price_result r = Inr r' \<longleftrightarrow> r' = r \<and> valid_price_result r"
  by (auto simp: mk_price_result_def)

lemma mk_quote_result_Inr [simp]: "mk_quote_result r = Inr r' \<longleftrightarrow> r' = r \<and> valid_quote_result r"
  by (auto simp: mk_quote_result_def)

lemma is_native_alias_constants: "is_native_alias NATIVE_TOKEN_ALIAS" "is_native_alias ZERO_ADDRESS"
  by (simp_all add: is_native_alias_def)

lemma is_native_alias_lower: "py_lower a = py_lower b \<Longrightarrow> is_native_alias a = is_native_alias b"
  by (simp add: is_native_alias_def)

lemma normalize_address_native [simp]: "is_native_alias a \<Longrightarrow> normalize_address eth a = Inr NATIVE_TOKEN_ALIAS"
  by (simp add: normalize_address_def)

lemma normalize_address_Inr_cases:
  assumes "normalize_address eth a = Inr b"
  obtains "is_native_alias a" "b = NATIVE_TOKEN_ALIAS"
  | "\<not> is_native_alias a" "is_address eth a" "to_checksum_address eth a = Some b"
  using assms by (auto simp: normalize_address_def split: if_splits option.splits)

lemma normalize_address_idem:
  assumes "eth_ok eth" "normalize_address eth a = Inr b" "length a = 42"
  shows "normalize_address eth b = Inr b"
  using assms(2)
proof (cases rule: normalize_address_Inr_cases)
  case 1
  then show ?thesis by (simp add: is_native_alias_constants)
next
  case 2
  with assms(1,3) have "is_address eth b" "to_checksum_address eth b = Some b" "py_lower b = py_lower a"
    unfolding eth_ok_def by blast+
  with 2 is_native_alias_lower[of b a] show ?thesis by (simp add: normalize_address_def)
qed

lemma normalize_address_case:
  assumes "eth_ok eth" "py_lower a = py_lower b"
    "normalize_address eth a = Inr x" "normalize_address eth b = Inr y"
  shows "x = y"
proof -
  have "is_native_alias a = is_native_alias b" by (rule is_native_alias_lower[OF assms(2)])
  moreover have "to_checksum_address eth a = to_checksum_address eth b"
    using assms(1,2) unfolding eth_ok_def by blast
  ultimately show ?thesis using assms(3,4)
    by (auto elim!: normalize_address_Inr_cases)
qed

section \<open>Lemmas on amounts\<close>

lemma positive_int_re_digits:
  "list_all is_dec_digit v \<Longrightarrow> v \<noteq> [] \<Longrightarrow> hd v \<noteq> CHR ''0'' \<Longrightarrow> positive_int_re v"
  by (cases v) (auto simp: positive_int_re_def list_all_iff)

lemma nat_str_hd: "0 < n \<Longrightarrow> hd (nat_str n) \<noteq> CHR ''0''"
proof (induction n rule: nat_str.induct)
  case (1 n)
  show ?case
  proof (cases "n < 10")
    case True
    then have "char_code (char_of (n + 48) :: char) = n + 48" by (rule char_code_digit)
    moreover have "char_code CHR ''0'' = 48" by simp
    ultimately have "char_of (n + 48) \<noteq> CHR ''0''" using "1.prems" by (metis add_cancel_left_left less_irrefl)
    with True show ?thesis by (simp add: nat_str.simps[of n])
  next
    case False
    then have "0 < n div 10" by auto
    with 1(1) False show ?thesis by (simp add: nat_str.simps[of n])
  qed
qed

lemma length_nat_str: "length (nat_str n) = num_digits n"
proof (induction n rule: nat_str.induct)
  case (1 n)
  then show ?case by (cases "n < 10") (simp_all add: nat_str.simps[of n] num_digits.simps[of n])
qed

lemma num_digits_le:
  assumes "0 < n" "n < 10 ^ k"
  shows "num_digits n \<le> k"
proof -
  have "10 ^ (num_digits n - 1) < (10::nat) ^ k" using num_digits_bounds[OF assms(1)] assms(2) by linarith
  then have "num_digits n - 1 < k" by (rule power_less_imp_less_exp[rotated]) simp
  then show ?thesis by linarith
qed

lemma parse_positive_int_Inr:
  "parse_positive_int v f = Inr n \<Longrightarrow> n \<le> MAX_UINT256 \<and> length v \<le> 78"
  by (auto simp: parse_positive_int_def MAX_POSITIVE_INT_DIGITS_def Let_def split: if_splits option.splits)

end
