(* ===== verification/MetadataCache.thy ===== *)
theory MetadataCache
  imports Domain
begin

text \<open>
  The SQLite store of token metadata and token logos (\<open>token_metadata/cache.py\<close>). A table is a dictionary
  from its primary key; each operation is one transaction under the store's lock. A statement that breaks a
  \<open>CHECK\<close> or a primary key raises \<open>sqlite3.IntegrityError\<close> and the transaction leaves no trace. Clock readings
  are arguments; the hash of a list of source rows is the parameter \<open>revision\<close>. Bytes are numbers below 256.
\<close>

section \<open>Tables\<close>

record metadata_row =
  mr_symbol :: "string option"
  mr_decimals :: "int option"
  mr_source :: "string option"
  mr_updated_at :: int

record logo_row =
  lg_image_bytes :: "nat list option"
  lg_content_hash :: "string option"
  lg_mime_type :: "string option"
  lg_source :: "string option"
  lg_last_success_at :: "int option"
  lg_last_attempt_at :: "int option"
  lg_next_attempt_at :: "int option"
  lg_last_outcome :: "string option"
  lg_failure_count :: int
  lg_last_http_status :: "int option"
  lg_last_error_code :: "string option"

type_synonym identity = "int \<times> string"

record metadata_db =
  db_metadata :: "(identity, metadata_row) odict"
  db_logos :: "(identity, logo_row) odict"
  db_entries :: "(string \<times> identity, string \<times> int) odict"
  db_sync :: "(string \<times> int, int \<times> string) odict"

definition empty_db :: metadata_db where
  "empty_db = \<lparr>db_metadata = [], db_logos = [], db_entries = [], db_sync = []\<rparr>"

abbreviation IntegrityError :: exc where "IntegrityError \<equiv> OtherException ''IntegrityError''"

text \<open>The \<open>CHECK\<close> constraints of \<open>token_logos\<close>.\<close>

definition between :: "nat \<Rightarrow> nat \<Rightarrow> nat \<Rightarrow> bool" where "between a b n \<longleftrightarrow> a \<le> n \<and> n \<le> b"

definition opt_all :: "('a \<Rightarrow> bool) \<Rightarrow> 'a option \<Rightarrow> bool" where
  "opt_all P v = (case v of None \<Rightarrow> True | Some x \<Rightarrow> P x)"

definition LOGO_MIME_TYPES :: "string list" where
  "LOGO_MIME_TYPES = [''image/png'', ''image/jpeg'', ''image/webp'']"

definition logo_row_ok :: "logo_row \<Rightarrow> bool" where
  "logo_row_ok r \<longleftrightarrow>
     opt_all (\<lambda>x. List.member [''success'', ''unavailable'', ''transient''] x) (lg_last_outcome r)
   \<and> ((lg_image_bytes r = None \<and> lg_content_hash r = None \<and> lg_mime_type r = None \<and> lg_source r = None
         \<and> lg_last_success_at r = None)
       \<or> (lg_image_bytes r \<noteq> None \<and> lg_content_hash r \<noteq> None \<and> lg_mime_type r \<noteq> None \<and> lg_source r \<noteq> None
         \<and> lg_last_success_at r \<noteq> None))
   \<and> opt_all (\<lambda>b. between 1 262144 (length b)) (lg_image_bytes r)
   \<and> opt_all (\<lambda>h. length h = 64) (lg_content_hash r)
   \<and> opt_all (List.member LOGO_MIME_TYPES) (lg_mime_type r)
   \<and> opt_all (\<lambda>s. between 1 64 (length s)) (lg_source r)
   \<and> lg_failure_count r \<ge> 0
   \<and> opt_all (\<lambda>s. 100 \<le> s \<and> s \<le> 599) (lg_last_http_status r)
   \<and> opt_all (\<lambda>c. between 1 64 (length c)) (lg_last_error_code r)"

text \<open>A row inserted with its key and a next attempt only: the defaults of the other columns.\<close>

definition enrolled_row :: logo_row where
  "enrolled_row = \<lparr>lg_image_bytes = None, lg_content_hash = None, lg_mime_type = None, lg_source = None,
     lg_last_success_at = None, lg_last_attempt_at = None, lg_next_attempt_at = Some 0, lg_last_outcome = None,
     lg_failure_count = 0, lg_last_http_status = None, lg_last_error_code = None\<rparr>"

definition put_logo :: "identity \<Rightarrow> logo_row \<Rightarrow> metadata_db \<Rightarrow> unit res \<times> metadata_db" where
  "put_logo k r db =
     (if logo_row_ok r then (Inr (), db\<lparr>db_logos := AList.update k r (db_logos db)\<rparr>) else (Inl IntegrityError, db))"

section \<open>Metadata\<close>

definition mk_token_metadata ::
    "eth_lib \<Rightarrow> int \<Rightarrow> string \<Rightarrow> string option \<Rightarrow> int option \<Rightarrow> string option \<Rightarrow> string option \<Rightarrow> token_metadata res" where
  "mk_token_metadata eth chain_id address symbol decimals logo_url source =
     rbind (normalize_address eth address) (\<lambda>a.
       Inr \<lparr>tm_chain_id = chain_id, tm_address = a, tm_symbol = symbol, tm_decimals = decimals,
            tm_logo_url = logo_url, tm_source = source\<rparr>)"

definition normalize_addresses :: "eth_lib \<Rightarrow> string list \<Rightarrow> string list res" where
  "normalize_addresses eth addresses = rbind (rmap_list (normalize_address eth) addresses) (\<lambda>xs. Inr (dedup xs))"

definition get_many ::
    "eth_lib \<Rightarrow> int \<Rightarrow> string list \<Rightarrow> metadata_db \<Rightarrow> (string, token_metadata) odict res" where
  "get_many eth chain_id addresses db =
     rbind (normalize_addresses eth addresses) (\<lambda>normalized.
       if normalized = [] then Inr []
       else
         let rows = filter (\<lambda>((c, a), r). c = chain_id \<and> a \<in> set normalized) (db_metadata db)
         in rbind (rmap_list (\<lambda>((c, a), r).
                mk_token_metadata eth c a (mr_symbol r) (mr_decimals r) None (mr_source r)) rows) (\<lambda>ms.
              Inr (foldl (\<lambda>out m. AList.update (tm_address m) m out) [] ms)))"

definition upsert_many :: "eth_lib \<Rightarrow> int \<Rightarrow> token_metadata list \<Rightarrow> metadata_db \<Rightarrow> unit res \<times> metadata_db" where
  "upsert_many eth now items db =
     (if items = [] then (Inr (), db)
      else case rmap_list (\<lambda>m. rbind (normalize_address eth (tm_address m)) (\<lambda>a.
               Inr ((tm_chain_id m, a), \<lparr>mr_symbol = tm_symbol m, mr_decimals = tm_decimals m, mr_source = tm_source m,
                     mr_updated_at = now\<rparr>))) items of
        Inl e \<Rightarrow> (Inl e, db)
      | Inr rows \<Rightarrow> (Inr (), db\<lparr>db_metadata := foldl (\<lambda>t (k, r). AList.update k r t) (db_metadata db) rows\<rparr>))"

section \<open>Enrolment of logos\<close>

definition enroll_new :: "identity \<Rightarrow> (identity, logo_row) odict \<Rightarrow> (identity, logo_row) odict" where
  "enroll_new k t = (case map_of t k of None \<Rightarrow> AList.update k enrolled_row t | Some r \<Rightarrow> t)"

definition enroll_observed :: "eth_lib \<Rightarrow> int \<Rightarrow> string list \<Rightarrow> metadata_db \<Rightarrow> unit res \<times> metadata_db" where
  "enroll_observed eth chain_id addresses db =
     (case normalize_addresses eth addresses of
        Inl e \<Rightarrow> (Inl e, db)
      | Inr xs \<Rightarrow> (Inr (), db\<lparr>db_logos := foldl (\<lambda>t a. enroll_new (chain_id, a) t) (db_logos db) xs\<rparr>))"

definition enroll_due :: "bool \<Rightarrow> identity \<Rightarrow> (identity, logo_row) odict \<Rightarrow> (identity, logo_row) odict" where
  "enroll_due force k t =
     (case map_of t k of
        None \<Rightarrow> AList.update k enrolled_row t
      | Some r \<Rightarrow> AList.update k (r\<lparr>lg_next_attempt_at :=
            if force \<or> lg_image_bytes r = None then Some 0 else lg_next_attempt_at r\<rparr>) t)"

definition enroll_identities ::
    "eth_lib \<Rightarrow> int \<Rightarrow> identity list \<Rightarrow> bool \<Rightarrow> metadata_db \<Rightarrow> int res \<times> metadata_db" where
  "enroll_identities eth now identities force db =
     (case rmap_list (\<lambda>(c, a). rbind (normalize_address eth a) (\<lambda>n. Inr (c, n))) (filter (\<lambda>(c, a). c > 0) identities) of
        Inl e \<Rightarrow> (Inl e, db)
      | Inr ks \<Rightarrow>
          if list_ex (\<lambda>(c, a). c \<le> 0) identities then (Inl (ValueError ''chain_id must be positive''), db)
          else (Inr now, db\<lparr>db_logos := foldl (\<lambda>t k. enroll_due force k t) (db_logos db) (sort (dedup ks))\<rparr>))"

section \<open>Images and the schedule\<close>

record logo_asset =
  as_image_bytes :: "nat list"
  as_content_hash :: string
  as_mime_type :: string

definition opt_or_empty :: "'a list option \<Rightarrow> 'a list" where
  "opt_or_empty v = (case v of None \<Rightarrow> [] | Some x \<Rightarrow> x)"

definition get_logo_asset :: "eth_lib \<Rightarrow> int \<Rightarrow> string \<Rightarrow> metadata_db \<Rightarrow> logo_asset option res" where
  "get_logo_asset eth chain_id address db =
     rbind (normalize_address eth address) (\<lambda>a.
       Inr (case map_of (db_logos db) (chain_id, a) of
              None \<Rightarrow> None
            | Some r \<Rightarrow> (case lg_image_bytes r of None \<Rightarrow> None
                | Some b \<Rightarrow> Some \<lparr>as_image_bytes = b, as_content_hash = opt_or_empty (lg_content_hash r),
                                as_mime_type = opt_or_empty (lg_mime_type r)\<rparr>)))"

record due_logo =
  du_chain_id :: int
  du_address :: string
  du_failure_count :: int

definition is_due :: "int \<Rightarrow> logo_row \<Rightarrow> bool" where
  "is_due now_ms r = (case lg_next_attempt_at r of None \<Rightarrow> False | Some t \<Rightarrow> t \<le> now_ms)"

definition due_rows :: "int \<Rightarrow> metadata_db \<Rightarrow> (identity \<times> logo_row) list" where
  "due_rows now_ms db = filter (\<lambda>(k, r). is_due now_ms r) (db_logos db)"

definition due_time :: "logo_row \<Rightarrow> int" where
  "due_time r = (case lg_next_attempt_at r of None \<Rightarrow> 0 | Some t \<Rightarrow> t)"

definition get_due_logos :: "int \<Rightarrow> nat \<Rightarrow> metadata_db \<Rightarrow> due_logo list" where
  "get_due_logos now_ms limit db =
     map (\<lambda>((c, a), r). \<lparr>du_chain_id = c, du_address = a, du_failure_count = lg_failure_count r\<rparr>)
       (take limit (sort_key (\<lambda>(k, r). (due_time r, k)) (due_rows now_ms db)))"

definition count_due_logos :: "int \<Rightarrow> metadata_db \<Rightarrow> nat" where
  "count_due_logos now_ms db = length (due_rows now_ms db)"

definition record_logo_success ::
    "eth_lib \<Rightarrow> int \<Rightarrow> string \<Rightarrow> nat list \<Rightarrow> string \<Rightarrow> string \<Rightarrow> string \<Rightarrow> int \<Rightarrow> int option \<Rightarrow> metadata_db
     \<Rightarrow> unit res \<times> metadata_db" where
  "record_logo_success eth chain_id address image_bytes content_hash mime_type source attempted_at http_status db =
     (case normalize_address eth address of
        Inl e \<Rightarrow> (Inl e, db)
      | Inr a \<Rightarrow>
          let k = (chain_id, a);
              fresh = \<lparr>lg_image_bytes = Some image_bytes, lg_content_hash = Some content_hash,
                lg_mime_type = Some mime_type, lg_source = Some source, lg_last_success_at = Some attempted_at,
                lg_last_attempt_at = Some attempted_at, lg_next_attempt_at = None, lg_last_outcome = Some ''success'',
                lg_failure_count = 0, lg_last_http_status = http_status, lg_last_error_code = None\<rparr>
          in case map_of (db_logos db) k of
               None \<Rightarrow> put_logo k fresh db
             | Some r \<Rightarrow>
                 if lg_content_hash r = Some content_hash
                 then put_logo k (fresh\<lparr>lg_image_bytes := lg_image_bytes r\<rparr>) db
                 else put_logo k fresh db)"

definition record_logo_failure ::
    "eth_lib \<Rightarrow> int \<Rightarrow> string \<Rightarrow> string \<Rightarrow> int \<Rightarrow> int \<Rightarrow> int \<Rightarrow> int option \<Rightarrow> string \<Rightarrow> metadata_db
     \<Rightarrow> unit res \<times> metadata_db" where
  "record_logo_failure eth chain_id address outcome attempted_at next_attempt_at failure_count http_status error_code db =
     (if outcome \<noteq> ''unavailable'' \<and> outcome \<noteq> ''transient''
        then (Inl (ValueError ''invalid logo acquisition failure outcome''), db)
      else case normalize_address eth address of
        Inl e \<Rightarrow> (Inl e, db)
      | Inr a \<Rightarrow>
          let k = (chain_id, a); r = (case map_of (db_logos db) k of None \<Rightarrow> enrolled_row | Some r \<Rightarrow> r)
          in put_logo k (r\<lparr>lg_last_attempt_at := Some attempted_at, lg_next_attempt_at := Some next_attempt_at,
                 lg_last_outcome := Some outcome, lg_failure_count := failure_count,
                 lg_last_http_status := http_status, lg_last_error_code := Some error_code\<rparr>) db)"

section \<open>Sources\<close>

record source_entry =
  se_source :: string
  se_chain_id :: int
  se_address :: string
  se_logo_url :: string

definition get_logo_source_entries ::
    "eth_lib \<Rightarrow> int \<Rightarrow> string list \<Rightarrow> metadata_db \<Rightarrow> (string, source_entry list) odict res" where
  "get_logo_source_entries eth chain_id addresses db =
     rbind (normalize_addresses eth addresses) (\<lambda>normalized.
       let rows = filter (\<lambda>((s, c, a), _). c = chain_id \<and> a \<in> set normalized) (db_entries db);
           entries = map (\<lambda>((s, c, a), (url, _)).
             \<lparr>se_source = s, se_chain_id = c, se_address = a, se_logo_url = url\<rparr>) rows
       in Inr (foldl (\<lambda>out e. AList.update (se_address e)
              ((case map_of out (se_address e) of None \<Rightarrow> [] | Some es \<Rightarrow> es) @ [e]) out) [] entries))"

text \<open>The rows of one source and chain, inserted one by one: a repeated address breaks the primary key.\<close>

fun insert_entries ::
    "string \<Rightarrow> int \<Rightarrow> int \<Rightarrow> (string \<times> string) list \<Rightarrow> (string \<times> identity, string \<times> int) odict
     \<Rightarrow> (string \<times> identity, string \<times> int) odict option" where
  "insert_entries source chain_id synced_at [] t = Some t"
| "insert_entries source chain_id synced_at ((a, url) # rows) t =
     (if map_of t (source, chain_id, a) \<noteq> None then None
      else insert_entries source chain_id synced_at rows (AList.update (source, chain_id, a) (url, synced_at) t))"

definition replace_logo_source_entries ::
    "eth_lib \<Rightarrow> ((string \<times> string) list \<Rightarrow> string) \<Rightarrow> string \<Rightarrow> int \<Rightarrow> source_entry list \<Rightarrow> int \<Rightarrow> metadata_db
     \<Rightarrow> bool res \<times> metadata_db" where
  "replace_logo_source_entries eth revision source chain_id entries synced_at db =
     (case rmap_list (\<lambda>e. rbind (normalize_address eth (se_address e)) (\<lambda>a. Inr (a, se_logo_url e)))
             (filter (\<lambda>e. se_source e = source \<and> se_chain_id e = chain_id) entries) of
        Inl e \<Rightarrow> (Inl e, db)
      | Inr rows \<Rightarrow>
          let normalized_rows = sort (dedup rows); revision_hash = revision normalized_rows;
              previous = map_of (db_sync db) (source, chain_id);
              changed = (case previous of None \<Rightarrow> True | Some (_, h) \<Rightarrow> h \<noteq> revision_hash);
              kept = filter (\<lambda>((s, c, a), _). \<not> (s = source \<and> c = chain_id)) (db_entries db);
              synced = (\<lambda>d. d\<lparr>db_sync := AList.update (source, chain_id) (synced_at, revision_hash) (db_sync d)\<rparr>)
          in if length revision_hash \<noteq> 64 then (Inl IntegrityError, db)
             else if \<not> changed then (Inr False, synced db)
             else case insert_entries source chain_id synced_at normalized_rows kept of
               None \<Rightarrow> (Inl IntegrityError, db)
             | Some entries' \<Rightarrow>
                 (Inr True, synced (db\<lparr>db_entries := entries',
                    db_logos := map (\<lambda>(k, r). (k,
                      if fst k = chain_id \<and> lg_image_bytes r = None then r\<lparr>lg_next_attempt_at := Some 0\<rparr> else r)) (db_logos db)\<rparr>)))"

definition get_logo_source_sync_state :: "string \<Rightarrow> int \<Rightarrow> metadata_db \<Rightarrow> (int \<times> string) option" where
  "get_logo_source_sync_state source chain_id db = map_of (db_sync db) (source, chain_id)"

section \<open>Statuses and the schema\<close>

record logo_status =
  ls_chain_id :: int
  ls_address :: string
  ls_has_image :: bool
  ls_last_attempt_at :: "int option"
  ls_next_attempt_at :: "int option"
  ls_last_outcome :: "string option"

definition logo_status_of :: "metadata_db \<Rightarrow> identity \<Rightarrow> logo_status" where
  "logo_status_of db k =
     (case map_of (db_logos db) k of
        None \<Rightarrow> \<lparr>ls_chain_id = fst k, ls_address = snd k, ls_has_image = False, ls_last_attempt_at = None,
                 ls_next_attempt_at = None, ls_last_outcome = None\<rparr>
      | Some r \<Rightarrow> \<lparr>ls_chain_id = fst k, ls_address = snd k, ls_has_image = (lg_image_bytes r \<noteq> None),
                 ls_last_attempt_at = lg_last_attempt_at r, ls_next_attempt_at = lg_next_attempt_at r,
                 ls_last_outcome = lg_last_outcome r\<rparr>)"

definition get_logo_statuses :: "eth_lib \<Rightarrow> identity list \<Rightarrow> metadata_db \<Rightarrow> logo_status list res" where
  "get_logo_statuses eth identities db =
     rmap_list (\<lambda>(c, a). rbind (normalize_address eth a) (\<lambda>n. Inr (logo_status_of db (c, n)))) identities"

definition TOKEN_METADATA_SCHEMA_VERSION :: int where "TOKEN_METADATA_SCHEMA_VERSION = 2"

definition EXPECTED_TABLE_COLUMNS :: "(string, string list) odict" where
  "EXPECTED_TABLE_COLUMNS =
    [(''token_metadata'', [''chain_id'', ''address'', ''symbol'', ''decimals'', ''source'', ''updated_at'']),
     (''token_logos'', [''chain_id'', ''address'', ''image_bytes'', ''content_hash'', ''mime_type'', ''source'',
        ''last_success_at'', ''last_attempt_at'', ''next_attempt_at'', ''last_outcome'', ''failure_count'',
        ''last_http_status'', ''last_error_code'']),
     (''token_logo_source_entries'', [''source'', ''chain_id'', ''address'', ''logo_url'', ''updated_at'']),
     (''token_logo_source_sync'', [''source'', ''chain_id'', ''synced_at'', ''revision_hash''])]"

definition EXPECTED_INDEXES :: "string list" where
  "EXPECTED_INDEXES = [''idx_token_logos_due'', ''idx_token_logo_source_entries_lookup'']"

text \<open>What \<open>sqlite_master\<close>, \<open>PRAGMA table_info\<close> and \<open>PRAGMA user_version\<close> say of a file.\<close>

record sqlite_schema =
  sq_tables :: "(string, string list) odict"
  sq_indexes :: "string list"
  sq_version :: int

abbreviation IncompatibleCache :: exc where "IncompatibleCache \<equiv> OtherException ''IncompatibleTokenMetadataCache''"

definition create_schema :: sqlite_schema where
  "create_schema = \<lparr>sq_tables = EXPECTED_TABLE_COLUMNS, sq_indexes = EXPECTED_INDEXES,
     sq_version = TOKEN_METADATA_SCHEMA_VERSION\<rparr>"

definition validate_current_schema :: "sqlite_schema \<Rightarrow> unit res" where
  "validate_current_schema sq =
     (if set (map fst (sq_tables sq)) \<noteq> set (map fst EXPECTED_TABLE_COLUMNS) then Inl IncompatibleCache
      else if \<not> list_all (\<lambda>(t, cs). map_of (sq_tables sq) t = Some cs) EXPECTED_TABLE_COLUMNS then Inl IncompatibleCache
      else if \<not> list_all (\<lambda>i. i \<in> set (sq_indexes sq)) EXPECTED_INDEXES then Inl IncompatibleCache
      else Inr ())"

definition ensure_db :: "sqlite_schema \<Rightarrow> sqlite_schema res" where
  "ensure_db sq =
     (if sq_tables sq \<noteq> [] \<and> sq_version sq \<noteq> TOKEN_METADATA_SCHEMA_VERSION then Inl IncompatibleCache
      else if sq_tables sq = [] then Inr create_schema
      else rbind (validate_current_schema sq) (\<lambda>_. Inr sq))"

definition read_logo_statuses ::
    "eth_lib \<Rightarrow> sqlite_schema \<Rightarrow> identity list \<Rightarrow> metadata_db \<Rightarrow> logo_status list res" where
  "read_logo_statuses eth sq identities db =
     (if sq_version sq \<noteq> TOKEN_METADATA_SCHEMA_VERSION then Inl IncompatibleCache
      else rbind (validate_current_schema sq) (\<lambda>_. get_logo_statuses eth identities db))"

section \<open>Sequences of operations\<close>

record success_record =
  su_chain_id :: int
  su_address :: string
  su_image_bytes :: "nat list"
  su_content_hash :: string
  su_mime_type :: string
  su_source :: string
  su_attempted_at :: int
  su_http_status :: "int option"

datatype cache_op =
    Op_upsert int "token_metadata list"
  | Op_observe int "string list"
  | Op_enroll int "identity list" bool
  | Op_success success_record
  | Op_failure int string string int int int "int option" string
  | Op_replace string int "source_entry list" int

fun apply_op :: "eth_lib \<Rightarrow> ((string \<times> string) list \<Rightarrow> string) \<Rightarrow> cache_op \<Rightarrow> metadata_db \<Rightarrow> metadata_db" where
  "apply_op eth revision (Op_upsert now items) db = snd (upsert_many eth now items db)"
| "apply_op eth revision (Op_observe c xs) db = snd (enroll_observed eth c xs db)"
| "apply_op eth revision (Op_enroll now ks force) db = snd (enroll_identities eth now ks force db)"
| "apply_op eth revision (Op_success x) db = snd (record_logo_success eth (su_chain_id x) (su_address x) (su_image_bytes x)
     (su_content_hash x) (su_mime_type x) (su_source x) (su_attempted_at x) (su_http_status x) db)"
| "apply_op eth revision (Op_failure c a outcome t next n status code) db =
     snd (record_logo_failure eth c a outcome t next n status code db)"
| "apply_op eth revision (Op_replace source c entries t) db = snd (replace_logo_source_entries eth revision source c entries t db)"

definition apply_ops ::
    "eth_lib \<Rightarrow> ((string \<times> string) list \<Rightarrow> string) \<Rightarrow> cache_op list \<Rightarrow> metadata_db \<Rightarrow> metadata_db" where
  "apply_ops eth revision ops db = fold (apply_op eth revision) ops db"

section \<open>Lemmas on the table of logos\<close>

named_theorems logo_simps \<open>lookups in the table of logos after an operation\<close>

text \<open>A row that satisfies the constraints, and is scheduled when it has no image.\<close>

definition sound_row :: "logo_row \<Rightarrow> bool" where
  "sound_row r \<longleftrightarrow> logo_row_ok r \<and> (lg_image_bytes r = None \<longrightarrow> lg_next_attempt_at r \<noteq> None)"

definition logos_sound :: "(identity, logo_row) odict \<Rightarrow> bool" where
  "logos_sound t \<longleftrightarrow> distinct (map fst t) \<and> (\<forall>k r. map_of t k = Some r \<longrightarrow> sound_row r)"

lemma enrolled_row_sound: "sound_row enrolled_row"
  by (simp add: sound_row_def logo_row_ok_def enrolled_row_def opt_all_def)

lemma sound_row_rescheduled: "sound_row r \<Longrightarrow> sound_row (r\<lparr>lg_next_attempt_at := Some t\<rparr>)"
  by (simp add: sound_row_def logo_row_ok_def)

lemma logos_sound_update: "logos_sound t \<Longrightarrow> sound_row r \<Longrightarrow> logos_sound (AList.update k r t)"
  by (auto simp: logos_sound_def distinct_update od_get_set)

lemma logos_sound_enroll_new: "logos_sound t \<Longrightarrow> logos_sound (enroll_new k t)"
  by (auto simp: enroll_new_def enrolled_row_sound intro: logos_sound_update split: option.splits)

lemma logos_sound_enroll_due: "logos_sound t \<Longrightarrow> logos_sound (enroll_due force k t)"
proof -
  assume t: "logos_sound t"
  show ?thesis
  proof (cases "map_of t k")
    case None
    then show ?thesis using t by (simp add: enroll_due_def enrolled_row_sound logos_sound_update)
  next
    case (Some r)
    then have "sound_row r" using t unfolding logos_sound_def by blast
    then have "sound_row (r\<lparr>lg_next_attempt_at := if force \<or> lg_image_bytes r = None then Some 0 else lg_next_attempt_at r\<rparr>)"
      by (auto simp: sound_row_def logo_row_ok_def)
    with Some t show ?thesis by (simp add: enroll_due_def logos_sound_update)
  qed
qed

lemma logos_sound_foldl:
  "logos_sound t \<Longrightarrow> (\<And>k t. logos_sound t \<Longrightarrow> logos_sound (f t k)) \<Longrightarrow> logos_sound (foldl f t ks)"
  by (induction ks arbitrary: t) auto

lemma logos_sound_map:
  assumes "logos_sound t" "\<And>k r. sound_row r \<Longrightarrow> sound_row (f k r)"
  shows "logos_sound (map (\<lambda>(k, r). (k, f k r)) t)"
proof -
  have m: "map_of (map (\<lambda>(k, r). (k, f k r)) t) k = map_option (f k) (map_of t k)" for k
    by (induction t) auto
  have ks: "map fst (map (\<lambda>(k, r). (k, f k r)) t) = map fst t" by (induction t) auto
  show ?thesis
    unfolding logos_sound_def ks m
  proof (intro conjI allI impI)
    show "distinct (map fst t)" using assms(1) by (simp add: logos_sound_def)
    fix k r' assume "map_option (f k) (map_of t k) = Some r'"
    then obtain r where "map_of t k = Some r" "r' = f k r" by blast
    with assms show "sound_row r'" unfolding logos_sound_def by blast
  qed
qed

lemma put_logo_sound:
  assumes "logos_sound (db_logos db)" "logo_row_ok r \<Longrightarrow> lg_image_bytes r = None \<Longrightarrow> lg_next_attempt_at r \<noteq> None"
  shows "logos_sound (db_logos (snd (put_logo k r db)))"
  using assms by (auto simp: put_logo_def sound_row_def intro: logos_sound_update)

lemma success_sound: "logos_sound (db_logos db) \<Longrightarrow>
   logos_sound (db_logos (snd (record_logo_success eth c a b h m src t st db)))"
  by (auto simp: record_logo_success_def Let_def logo_row_ok_def split: sum.splits option.splits intro!: put_logo_sound)

lemma failure_sound: "logos_sound (db_logos db) \<Longrightarrow>
   logos_sound (db_logos (snd (record_logo_failure eth c a outcome t nx n st code db)))"
  by (auto simp: record_logo_failure_def Let_def split: sum.splits option.splits intro!: put_logo_sound)

lemma replace_sound:
  assumes "logos_sound (db_logos db)"
  shows "logos_sound (db_logos (snd (replace_logo_source_entries eth revision src c es t db)))"
proof -
  let ?f = "\<lambda>k r. if fst k = c \<and> lg_image_bytes r = None then r\<lparr>lg_next_attempt_at := Some 0\<rparr> else r"
  have "logos_sound (map (\<lambda>(k, r). (k, ?f k r)) (db_logos db))"
    using assms by (rule logos_sound_map) (simp add: sound_row_rescheduled)
  with assms show ?thesis
    unfolding replace_logo_source_entries_def Let_def
    by (simp split: sum.split option.split)
qed

lemma apply_op_sound: "logos_sound (db_logos db) \<Longrightarrow> logos_sound (db_logos (apply_op eth revision op db))"
proof (cases op)
  case (Op_observe c xs)
  moreover assume "logos_sound (db_logos db)"
  ultimately show ?thesis
    by (auto simp: enroll_observed_def split: sum.splits intro!: logos_sound_foldl logos_sound_enroll_new)
next
  case (Op_enroll now ks force)
  moreover assume "logos_sound (db_logos db)"
  ultimately show ?thesis
    by (auto simp: enroll_identities_def split: sum.splits intro!: logos_sound_foldl logos_sound_enroll_due)
qed (auto simp: upsert_many_def success_sound failure_sound replace_sound split: sum.splits)

section \<open>Lemmas on images\<close>

definition image_of :: "metadata_db \<Rightarrow> identity \<Rightarrow> logo_asset option" where
  "image_of db k =
     (case map_of (db_logos db) k of
        None \<Rightarrow> None
      | Some r \<Rightarrow> (case lg_image_bytes r of None \<Rightarrow> None
          | Some b \<Rightarrow> Some \<lparr>as_image_bytes = b, as_content_hash = opt_or_empty (lg_content_hash r),
                          as_mime_type = opt_or_empty (lg_mime_type r)\<rparr>))"

lemma get_logo_asset_image: "normalize_address eth a = Inr n \<Longrightarrow> get_logo_asset eth c a db = Inr (image_of db (c, n))"
  by (simp add: get_logo_asset_def image_of_def)

text \<open>The operations that store an image for an identity.\<close>

definition stores_image :: "eth_lib \<Rightarrow> identity \<Rightarrow> cache_op \<Rightarrow> bool" where
  "stores_image eth k op =
     (case op of
        Op_success x \<Rightarrow> su_chain_id x = fst k \<and> normalize_address eth (su_address x) = Inr (snd k)
      | _ \<Rightarrow> False)"

lemma image_of_put:
  "image_of (snd (put_logo k' r db)) k =
     (if k' = k \<and> logo_row_ok r then (case lg_image_bytes r of None \<Rightarrow> None
        | Some b \<Rightarrow> Some \<lparr>as_image_bytes = b, as_content_hash = opt_or_empty (lg_content_hash r),
                        as_mime_type = opt_or_empty (lg_mime_type r)\<rparr>)
      else image_of db k)"
  by (auto simp: put_logo_def image_of_def od_get_set)

lemma image_of_logos_cong: "db_logos db = db_logos db' \<Longrightarrow> image_of db k = image_of db' k"
  by (simp add: image_of_def)

text \<open>Rewriting rows without touching their images.\<close>

definition same_images :: "(identity, logo_row) odict \<Rightarrow> (identity, logo_row) odict \<Rightarrow> bool" where
  "same_images t t' \<longleftrightarrow> (\<forall>db k. image_of (db\<lparr>db_logos := t'\<rparr>) k = image_of (db\<lparr>db_logos := t\<rparr>) k)"

lemma same_images_trans: "same_images t t' \<Longrightarrow> same_images t' t'' \<Longrightarrow> same_images t t''"
  by (simp add: same_images_def)

lemma same_images_foldl: "(\<And>k t. same_images t (f t k)) \<Longrightarrow> same_images t (foldl f t ks)"
proof (induction ks arbitrary: t)
  case (Cons k ks)
  then show ?case using same_images_trans[of t "f t k"] by simp
qed (simp add: same_images_def)

lemma same_images_enroll_new: "same_images t (enroll_new k t)"
  by (auto simp: same_images_def enroll_new_def image_of_def od_get_set enrolled_row_def split: option.splits)

lemma same_images_enroll_due: "same_images t (enroll_due force k t)"
  by (auto simp: same_images_def enroll_due_def image_of_def od_get_set enrolled_row_def split: option.splits)

lemma same_images_map:
  assumes "\<And>k r. lg_image_bytes (f k r) = lg_image_bytes r \<and> lg_content_hash (f k r) = lg_content_hash r
    \<and> lg_mime_type (f k r) = lg_mime_type r"
  shows "same_images t (map (\<lambda>(k, r). (k, f k r)) t)"
proof -
  have "map_of (map (\<lambda>(k, r). (k, f k r)) t) k = map_option (f k) (map_of t k)" for k
    by (induction t) auto
  with assms show ?thesis by (simp add: same_images_def image_of_def split: option.split)
qed

lemma same_images_use: "same_images (db_logos db) t \<Longrightarrow> image_of (db\<lparr>db_logos := t\<rparr>) k = image_of db k"
proof -
  assume "same_images (db_logos db) t"
  then have "image_of (db\<lparr>db_logos := t\<rparr>) k = image_of (db\<lparr>db_logos := db_logos db\<rparr>) k"
    unfolding same_images_def by blast
  also have "\<dots> = image_of db k" by (rule image_of_logos_cong) simp
  finally show ?thesis .
qed

lemma apply_op_keeps_image:
  assumes "\<not> stores_image eth k op"
  shows "image_of (apply_op eth revision op db) k = image_of db k"
proof (cases op)
  case (Op_upsert now items)
  then show ?thesis by (auto simp: upsert_many_def image_of_def split: sum.splits)
next
  case (Op_observe c xs)
  then show ?thesis
    by (auto simp: enroll_observed_def split: sum.splits
        intro!: same_images_use same_images_foldl same_images_enroll_new)
next
  case (Op_enroll now ks force)
  then show ?thesis
    by (auto simp: enroll_identities_def split: sum.splits
        intro!: same_images_use same_images_foldl same_images_enroll_due)
next
  case (Op_success x)
  with assms show ?thesis
    by (cases k) (auto simp: record_logo_success_def Let_def stores_image_def image_of_put split: sum.splits option.splits)
next
  case (Op_failure c a outcome t nx n status code)
  have keep: "image_of (snd (put_logo k' (r\<lparr>lg_last_attempt_at := x1, lg_next_attempt_at := x2, lg_last_outcome := x3,
      lg_failure_count := x4, lg_last_http_status := x5, lg_last_error_code := x6\<rparr>) db)) k = image_of db k"
    if "r = (case map_of (db_logos db) k' of None \<Rightarrow> enrolled_row | Some r \<Rightarrow> r)" for k' r x1 x2 x3 x4 x5 x6
    using that unfolding image_of_put by (auto simp: image_of_def enrolled_row_def split: option.splits)
  with Op_failure show ?thesis by (simp add: record_logo_failure_def Let_def split: sum.split)
next
  case (Op_replace src c es t)
  let ?f = "\<lambda>k r. if fst k = c \<and> lg_image_bytes r = None then r\<lparr>lg_next_attempt_at := Some 0\<rparr> else r"
  have "same_images (db_logos db) (map (\<lambda>(k, r). (k, ?f k r)) (db_logos db))" by (rule same_images_map) simp
  from same_images_use[OF this] have im: "image_of (db\<lparr>db_logos := map (\<lambda>(k, r). (k, ?f k r)) (db_logos db)\<rparr>) k = image_of db k" .
  show ?thesis
    unfolding Op_replace apply_op.simps replace_logo_source_entries_def Let_def
    using im by (auto split: sum.splits option.splits simp: image_of_def)
qed

lemma apply_ops_keeps_image:
  "list_all (\<lambda>op. \<not> stores_image eth k op) ops \<Longrightarrow> image_of (apply_ops eth revision ops db) k = image_of db k"
  unfolding apply_ops_def
proof (induction ops arbitrary: db)
  case (Cons op ops)
  then show ?case using apply_op_keeps_image[of eth k op] by simp
qed simp

lemma success_image:
  assumes "record_logo_success eth c a b h m src t st db = (Inr (), db1)" "normalize_address eth a = Inr n"
    "\<forall>r. map_of (db_logos db) (c, n) = Some r \<longrightarrow> lg_content_hash r = Some h \<longrightarrow> lg_image_bytes r = Some b"
  shows "image_of db1 (c, n) = Some \<lparr>as_image_bytes = b, as_content_hash = h, as_mime_type = m\<rparr>"
  using assms
  by (auto simp: record_logo_success_def Let_def put_logo_def image_of_def od_get_set opt_or_empty_def
      split: option.splits if_splits)

section \<open>Properties\<close>

text \<open>C26: After any sequence of operations on a new cache every logo row satisfies the constraints of its table,
  and no identity without an image ever leaves the schedule: it has a time for its next attempt.\<close>

theorem logo_table_invariant:
  fixes eth :: eth_lib and revision :: "(string \<times> string) list \<Rightarrow> string" and ops :: "cache_op list"
  defines "db \<equiv> apply_ops eth revision ops empty_db"
  shows "distinct (map fst (db_logos db)) \<and> (\<forall>k r. map_of (db_logos db) k = Some r \<longrightarrow>
    logo_row_ok r \<and> (lg_image_bytes r = None \<longrightarrow> lg_next_attempt_at r \<noteq> None))"
proof -
  have "logos_sound (db_logos (fold (apply_op eth revision) ops d))" if "logos_sound (db_logos d)" for d
    using that by (induction ops arbitrary: d) (auto simp: apply_op_sound)
  moreover have "logos_sound (db_logos empty_db)" by (simp add: logos_sound_def empty_db_def)
  ultimately have "logos_sound (db_logos db)" unfolding db_def apply_ops_def by blast
  then show ?thesis unfolding logos_sound_def sound_row_def by blast
qed

definition example_eth :: eth_lib where
  "example_eth = \<lparr>is_address = (\<lambda>a. length a = 42), to_checksum_address = (\<lambda>a. Some a)\<rparr>"

definition example_address :: string where
  "example_address = ''0xa3cc91589feedbbee0cfdc7404041e19cb00f110''"

lemma example_normalize: "normalize_address example_eth example_address = Inr example_address"
  by (simp add: normalize_address_def example_eth_def example_address_def is_native_alias_def py_str Let_def
      NATIVE_TOKEN_ALIAS_def ZERO_ADDRESS_def)

theorem logo_table_invariant_witness:
  "\<exists>r. map_of (db_logos (apply_ops example_eth (\<lambda>rows. []) [Op_observe 1 [example_address],
       Op_failure 1 example_address ''unavailable'' 5 9 0 None ''no_candidate''] empty_db)) (1, example_address) = Some r
     \<and> lg_next_attempt_at r \<noteq> None"
proof -
  let ?ops = "[Op_observe 1 [example_address], Op_failure 1 example_address ''unavailable'' 5 9 0 None ''no_candidate'']"
  have "map_of (db_logos (apply_ops example_eth (\<lambda>rows. []) ?ops empty_db)) (1, example_address) \<noteq> None
     \<and> map_option lg_image_bytes (map_of (db_logos (apply_ops example_eth (\<lambda>rows. []) ?ops empty_db)) (1, example_address)) = Some None"
    by (simp add: apply_ops_def enroll_observed_def normalize_addresses_def example_normalize enroll_new_def empty_db_def
        record_logo_failure_def put_logo_def logo_row_ok_def enrolled_row_def opt_all_def between_def Let_def)
  then show ?thesis using logo_table_invariant[of example_eth "\<lambda>rows. []" ?ops] by auto
qed

text \<open>A stored image is found again under any spelling of its address, with its hash and type, whatever is
  recorded afterwards, until another image is stored for the same token. The hash identifies the bytes.\<close>

theorem stored_image_survives:
  assumes "record_logo_success eth c a b h m src t st db = (Inr (), db1)"
    and "normalize_address eth a = Inr n" "normalize_address eth a2 = Inr n"
    and "\<forall>r. map_of (db_logos db) (c, n) = Some r \<longrightarrow> lg_content_hash r = Some h \<longrightarrow> lg_image_bytes r = Some b"
    and "list_all (\<lambda>op. \<not> stores_image eth (c, n) op) ops"
  shows "get_logo_asset eth c a2 (apply_ops eth revision ops db1) =
    Inr (Some \<lparr>as_image_bytes = b, as_content_hash = h, as_mime_type = m\<rparr>)"
proof -
  have "image_of db1 (c, n) = Some \<lparr>as_image_bytes = b, as_content_hash = h, as_mime_type = m\<rparr>"
    by (rule success_image[OF assms(1,2,4)])
  then show ?thesis
    using apply_ops_keeps_image[OF assms(5)] get_logo_asset_image[OF assms(3)] by simp
qed

theorem stored_image_survives_witness:
  "\<exists>db1. record_logo_success example_eth 1 example_address [1, 2] (replicate 64 (CHR ''a'')) ''image/png'' ''override'' 7 None empty_db
       = (Inr (), db1)
     \<and> get_logo_asset example_eth 1 example_address (apply_ops example_eth (\<lambda>rows. [])
         [Op_failure 1 example_address ''transient'' 8 9 1 None ''network_error''] db1)
       = Inr (Some \<lparr>as_image_bytes = [1, 2], as_content_hash = replicate 64 (CHR ''a''), as_mime_type = ''image/png''\<rparr>)"
proof -
  obtain db1 where s: "record_logo_success example_eth 1 example_address [1, 2] (replicate 64 (CHR ''a'')) ''image/png''
      ''override'' 7 None empty_db = (Inr (), db1)"
    by (simp add: record_logo_success_def example_normalize empty_db_def put_logo_def logo_row_ok_def opt_all_def
        between_def LOGO_MIME_TYPES_def Let_def)
  from stored_image_survives[OF s example_normalize example_normalize] show ?thesis using s
    by (simp add: stores_image_def empty_db_def)
qed

end
