(* ===== verification/Parsing.thy ===== *)
theory Parsing
  imports Domain
begin

text \<open>
  Reading the JSON payloads of the providers (\<open>providers/parsing.py\<close>, \<open>providers/common.py\<close>). A
  \<open>Decimal\<close> read from text keeps its coefficient until its number of digits has been checked; after
  that it is the rational number it denotes. The parts of \<open>datetime\<close> that turn a time stamp or an
  ISO text into a point in time are the parameter \<open>time_lib\<close>.
\<close>

section \<open>Decimals\<close>

definition MAX_DECIMAL_DIGITS :: nat where "MAX_DECIMAL_DIGITS = 100"
definition MAX_ABS_DECIMAL_EXPONENT :: int where "MAX_ABS_DECIMAL_EXPONENT = 100"

text \<open>
  \<open>Decimal(s)\<close>: surrounding white space and underscores are dropped, then an optional sign, digits with
  at most one point, and an optional exponent. The texts of NaN and the infinities are the others the
  constructor takes; no caller distinguishes them from a text it rejects.
\<close>

definition split_sign :: "string \<Rightarrow> bool \<times> string" where
  "split_sign s =
     (case s of [] \<Rightarrow> (False, [])
      | c # cs \<Rightarrow> if c = CHR ''-'' then (True, cs) else if c = CHR ''+'' then (False, cs) else (False, s))"

definition decimal_mantissa :: "string \<Rightarrow> (nat \<times> nat) option" where
  "decimal_mantissa s =
     (let ip = takeWhile is_dec_digit s in
      case drop (length ip) s of
        [] \<Rightarrow> if ip = [] then None else Some (digits_val ip, 0)
      | c # fp \<Rightarrow> if c = CHR ''.'' \<and> list_all is_dec_digit fp \<and> ip @ fp \<noteq> []
          then Some (digits_val (ip @ fp), length fp) else None)"

definition decimal_exponent :: "string \<Rightarrow> int option" where
  "decimal_exponent s =
     (case split_sign s of (neg, ds) \<Rightarrow>
        if ds \<noteq> [] \<and> list_all is_dec_digit ds
        then Some (if neg then - int (digits_val ds) else int (digits_val ds)) else None)"

definition exponent_mark :: "char \<Rightarrow> bool" where
  "exponent_mark c \<longleftrightarrow> c = CHR ''e'' \<or> c = CHR ''E''"

definition number_of_str :: "string \<Rightarrow> (bool \<times> nat \<times> int) option" where
  "number_of_str s =
     (case split_sign s of (neg, body) \<Rightarrow>
        let m = takeWhile (\<lambda>c. \<not> exponent_mark c) body in
        case (decimal_mantissa m,
              (case drop (length m) body of [] \<Rightarrow> Some 0 | _ # e \<Rightarrow> decimal_exponent e)) of
          (Some (coefficient, places), Some e) \<Rightarrow> Some (neg, coefficient, e - int places)
        | _ \<Rightarrow> None)"

definition decimal_of_str :: "string \<Rightarrow> (bool \<times> nat \<times> int) option" where
  "decimal_of_str s = number_of_str (filter (\<lambda>c. c \<noteq> CHR ''_'') (py_strip s))"

text \<open>The checks on a finite decimal, given the number of digits of its coefficient.\<close>

definition check_decimal :: "nat \<Rightarrow> rat \<Rightarrow> rat option" where
  "check_decimal digits v =
     (if digits > MAX_DECIMAL_DIGITS then None
      else if v \<noteq> 0 \<and> \<bar>adjusted v\<bar> > MAX_ABS_DECIMAL_EXPONENT then None
      else Some v)"

text \<open>
  A decimal with sign, coefficient and exponent. The exponent is only applied when the adjusted exponent
  is small, so that the value is never larger than the checks allow.
\<close>

definition check_parts :: "bool \<times> nat \<times> int \<Rightarrow> rat option" where
  "check_parts d =
     (case d of (neg, coefficient, e) \<Rightarrow>
        if num_digits coefficient > MAX_DECIMAL_DIGITS then None
        else if coefficient = 0 then Some 0
        else if \<bar>int (num_digits coefficient) - 1 + e\<bar> > MAX_ABS_DECIMAL_EXPONENT then None
        else Some ((if neg then - 1 else 1) * of_nat coefficient * pow10 e))"

definition parse_decimal :: "json \<Rightarrow> rat option" where
  "parse_decimal v =
     (case v of
        JInt n \<Rightarrow> check_decimal (num_digits (nat \<bar>n\<bar>)) (of_int n)
      | JFloat exact shown \<Rightarrow> check_decimal 1 shown
      | JStr s \<Rightarrow> (case decimal_of_str s of None \<Rightarrow> None | Some d \<Rightarrow> check_parts d)
      | _ \<Rightarrow> None)"

definition parse_positive_decimal :: "json \<Rightarrow> rat option" where
  "parse_positive_decimal v = (case parse_decimal v of None \<Rightarrow> None | Some d \<Rightarrow> if d > 0 then Some d else None)"

section \<open>Floats\<close>

text \<open>
  Rounding to a double: 53 bits, half to even, with the spacing of the subnormal numbers at the bottom;
  no value stands for an infinity.
\<close>

fun num_bits :: "nat \<Rightarrow> nat" where
  "num_bits n = (if n < 2 then 1 else Suc (num_bits (n div 2)))"

declare num_bits.simps [simp del]

definition floor_log2 :: "rat \<Rightarrow> int" where
  "floor_log2 a =
     (if 1 \<le> a then int (num_bits (nat \<lfloor>a\<rfloor>)) - 1 else - int (num_bits (nat (\<lceil>1 / a\<rceil> - 1))))"

definition round_double :: "rat \<Rightarrow> rat option" where
  "round_double x =
     (if x = 0 then Some 0
      else let ulp = 2 powi max (floor_log2 \<bar>x\<bar> - 52) (- 1074); r = of_int (round_half_even (x / ulp)) * ulp
           in if \<bar>r\<bar> \<ge> 2 ^ 1024 then None else Some r)"

text \<open>\<open>float(s)\<close>: underscores are allowed between digits only.\<close>

fun without_underscores :: "bool \<Rightarrow> string \<Rightarrow> string option" where
  "without_underscores digit [] = Some []"
| "without_underscores digit (c # cs) =
     (if c = CHR ''_'' then
        (if digit \<and> cs \<noteq> [] \<and> is_dec_digit (hd cs) then without_underscores False cs else None)
      else map_option ((#) c) (without_underscores (is_dec_digit c) cs))"

datatype py_float = Finite rat | Infinite_or_nan

definition float_of_str :: "string \<Rightarrow> py_float option" where
  "float_of_str s =
     (let t = py_strip s in
      if py_lower (snd (split_sign t)) \<in> {''inf'', ''infinity'', ''nan''} then Some Infinite_or_nan
      else case Option.bind (without_underscores False t) number_of_str of
        None \<Rightarrow> None
      | Some (neg, coefficient, e) \<Rightarrow>
          Some (case round_double ((if neg then - 1 else 1) * of_nat coefficient * pow10 e) of
                  None \<Rightarrow> Infinite_or_nan | Some x \<Rightarrow> Finite x))"

section \<open>Amounts\<close>

definition in_uint256 :: "int \<Rightarrow> int option" where
  "in_uint256 n = (if 0 \<le> n \<and> n \<le> MAX_UINT256 then Some n else None)"

text \<open>\<open>int\<close> of a text that \<open>isdigit\<close> accepts raises when it holds a superscript digit.\<close>

definition parse_int :: "json \<Rightarrow> int option res" where
  "parse_int v =
     (case v of
        JInt n \<Rightarrow> Inr (in_uint256 n)
      | JStr s \<Rightarrow>
          if py_isdigit s then
            (if length s > MAX_POSITIVE_INT_DIGITS then Inr None
             else case py_int_of_str s of
                 None \<Rightarrow> Inl (ValueError ''invalid literal for int() with base 10'')
               | Some n \<Rightarrow> Inr (if n \<le> MAX_UINT256 then Some n else None))
          else Inr None
      | JFloat exact shown \<Rightarrow> Inr (if exact = of_int \<lfloor>exact\<rfloor> then in_uint256 \<lfloor>exact\<rfloor> else None)
      | _ \<Rightarrow> Inr None)"

definition base_units_of_decimal :: "rat \<Rightarrow> int option \<Rightarrow> int option" where
  "base_units_of_decimal d token_decimals =
     (if d < 0 then None
      else if d = of_int (round_half_even d)
        then (if trunc_rat d \<le> MAX_UINT256 then Some (trunc_rat d) else None)
      else case token_decimals of
        None \<Rightarrow> None
      | Some k \<Rightarrow> if k < 0 then None
          else let n = trunc_rat (dec_mul d (10 ^ nat k)) in if n \<le> MAX_UINT256 then Some n else None)"

definition parse_base_unit_amount :: "json \<Rightarrow> int option \<Rightarrow> int option res" where
  "parse_base_unit_amount v token_decimals =
     rbind (parse_int v) (\<lambda>n. case n of
         Some i \<Rightarrow> Inr (Some i)
       | None \<Rightarrow> Inr (case parse_decimal v of None \<Rightarrow> None | Some d \<Rightarrow> base_units_of_decimal d token_decimals))"

section \<open>Points in time\<close>

text \<open>
  \<open>tl_scaled d v\<close> is \<open>datetime.fromtimestamp(v / d)\<close> for a float \<open>v\<close>, \<open>tl_iso\<close> is \<open>datetime.fromisoformat\<close>
  with UTC as the default zone; both give no value where the code catches their exception.
\<close>

record time_lib =
  tl_scaled :: "int \<Rightarrow> rat \<Rightarrow> rat option"
  tl_iso :: "string \<Rightarrow> rat option"

definition MILLISECONDS_CUTOFF :: rat where "MILLISECONDS_CUTOFF = 1000000000000"
definition MICROSECONDS_CUTOFF :: rat where "MICROSECONDS_CUTOFF = 1000000000000000"
definition NANOSECONDS_CUTOFF :: rat where "NANOSECONDS_CUTOFF = 1000000000000000000"

definition timestamp_divisor :: "rat \<Rightarrow> int" where
  "timestamp_divisor v =
     (if \<bar>v\<bar> \<ge> NANOSECONDS_CUTOFF then 1000000000
      else if \<bar>v\<bar> \<ge> MICROSECONDS_CUTOFF then 1000000
      else if \<bar>v\<bar> \<ge> MILLISECONDS_CUTOFF then 1000 else 1)"

definition from_unix_timestamp :: "time_lib \<Rightarrow> int \<Rightarrow> rat option res" where
  "from_unix_timestamp clk n =
     (case round_double (of_int n) of
        None \<Rightarrow> Inl (OtherException ''OverflowError'')
      | Some x \<Rightarrow> Inr (tl_scaled clk (timestamp_divisor x) x))"

text \<open>\<open>value.replace("Z", "+00:00")\<close>.\<close>

definition replace_zulu :: "string \<Rightarrow> string" where
  "replace_zulu s = concat (map (\<lambda>c. if c = CHR ''Z'' then ''+00:00'' else [c]) s)"

definition parse_datetime :: "time_lib \<Rightarrow> json \<Rightarrow> rat option res" where
  "parse_datetime clk v =
     (case v of
        JInt n \<Rightarrow> from_unix_timestamp clk n
      | JBool b \<Rightarrow> from_unix_timestamp clk (if b then 1 else 0)
      | JFloat exact shown \<Rightarrow> Inr (tl_scaled clk (timestamp_divisor exact) exact)
      | JStr s \<Rightarrow> rbind (parse_int (JStr s)) (\<lambda>n. case n of
            Some i \<Rightarrow> from_unix_timestamp clk i
          | None \<Rightarrow> Inr (tl_iso clk (replace_zulu s)))
      | _ \<Rightarrow> Inr None)"

section \<open>Objects\<close>

definition parse_str :: "json \<Rightarrow> string option" where
  "parse_str v = (case v of JStr s \<Rightarrow> let t = py_strip s in if t = [] then None else Some t | _ \<Rightarrow> None)"

text \<open>An absent key and a null are the same \<open>None\<close> to every caller.\<close>

fun get_first :: "(string \<times> json) list \<Rightarrow> string list \<Rightarrow> json" where
  "get_first d [] = JNull"
| "get_first d (k # ks) = (case map_of d k of Some v \<Rightarrow> v | None \<Rightarrow> get_first d ks)"

fun get_nested :: "json \<Rightarrow> string list \<Rightarrow> json" where
  "get_nested v [] = v"
| "get_nested v (k # ks) =
     (case v of JObj d \<Rightarrow> (case map_of d k of None \<Rightarrow> JNull | Some w \<Rightarrow> get_nested w ks) | _ \<Rightarrow> JNull)"

definition json_get :: "(string \<times> json) list \<Rightarrow> string \<Rightarrow> json" where
  "json_get d k = (case map_of d k of None \<Rightarrow> JNull | Some v \<Rightarrow> v)"

definition parse_token_metadata_fields ::
    "(string \<times> json) list \<Rightarrow> (string option \<times> int option \<times> string option) res" where
  "parse_token_metadata_fields d =
     (let symbol = parse_str (get_first d [''symbol'', ''ticker'']) in
      rbind (parse_int (get_first d [''decimals'', ''tokenDecimals'', ''precision''])) (\<lambda>n.
        let decimals = (case n of None \<Rightarrow> None | Some k \<Rightarrow> if k < 0 \<or> k > 255 then None else Some k);
            logo_url = parse_str (get_first d [''logoURI'', ''logoUri'', ''logo_url'', ''logoUrl'', ''logo'', ''icon'',
              ''iconUrl'', ''image''])
        in Inr (symbol, decimals, logo_url)))"

definition or_else :: "'a option \<Rightarrow> 'a option \<Rightarrow> 'a option" where
  "or_else a b = (case a of None \<Rightarrow> b | Some _ \<Rightarrow> a)"

definition with_token_metadata :: "token_ref \<Rightarrow> json \<Rightarrow> token_ref res" where
  "with_token_metadata base payload =
     (case payload of
        JObj d \<Rightarrow> rbind (parse_token_metadata_fields d) (\<lambda>(symbol, decimals, logo_url).
          Inr (base\<lparr>tr_symbol := or_else symbol (tr_symbol base), tr_decimals := or_else decimals (tr_decimals base),
                 tr_logo_url := or_else logo_url (tr_logo_url base)\<rparr>))
      | _ \<Rightarrow> Inr base)"

definition decimal_to_bps :: "rat option \<Rightarrow> int option" where
  "decimal_to_bps v = map_option (\<lambda>d. round_half_even (dec_mul d 10000)) v"

text \<open>\<open>providers/common.py\<close>.\<close>

definition payload_data_or_root :: "(string \<times> json) list \<Rightarrow> (string \<times> json) list" where
  "payload_data_or_root payload = (case json_get payload ''data'' of JObj d \<Rightarrow> d | _ \<Rightarrow> payload)"

fun first_nested_dict :: "(string \<times> json) list \<Rightarrow> string list list \<Rightarrow> json" where
  "first_nested_dict payload [] = JNull"
| "first_nested_dict payload (path # paths) =
     (case get_nested (JObj payload) path of JObj d \<Rightarrow> JObj d | _ \<Rightarrow> first_nested_dict payload paths)"

declare get_first.simps [simp del] get_nested.simps [simp del] first_nested_dict.simps [simp del]

lemmas payload_simps = get_first.simps get_nested.simps first_nested_dict.simps json_get_def

section \<open>Lemmas on decimals\<close>

lemma adjusted_scaled:
  assumes "0 < n"
  shows "adjusted (of_nat n * pow10 e) = int (num_digits n) - 1 + e"
proof (rule adjusted_unique)
  note b = num_digits_bounds[OF assms]
  have "(10::rat) ^ (num_digits n - 1) \<le> of_nat n"
    using b by (metis of_nat_le_iff of_nat_numeral of_nat_power)
  moreover have "int (num_digits n) - 1 + e = int (num_digits n - 1) + e" using num_digits_pos[of n] by simp
  ultimately show "pow10 (int (num_digits n) - 1 + e) \<le> of_nat n * pow10 e"
    by (simp only: pow10_add pow10_nat) simp
  have "of_nat n < (10::rat) ^ num_digits n"
    using b by (metis of_nat_less_iff of_nat_numeral of_nat_power)
  moreover have "int (num_digits n) - 1 + e + 1 = int (num_digits n) + e" by simp
  ultimately show "of_nat n * pow10 e < pow10 (int (num_digits n) - 1 + e + 1)"
    by (simp only: pow10_add pow10_nat) simp
qed

lemma adjusted_uminus [simp]: "adjusted (- x) = adjusted x"
  by (simp add: adjusted_def)

lemma check_parts_bounds: "check_parts d = Some v \<Longrightarrow> v = 0 \<or> \<bar>adjusted v\<bar> \<le> MAX_ABS_DECIMAL_EXPONENT"
  by (auto simp: check_parts_def adjusted_scaled split: prod.splits if_splits)

lemma parse_decimal_bounds:
  "parse_decimal v = Some d \<Longrightarrow> d = 0 \<or> \<bar>adjusted d\<bar> \<le> MAX_ABS_DECIMAL_EXPONENT"
  by (auto simp: parse_decimal_def check_decimal_def split: json.splits if_splits option.splits
      dest: check_parts_bounds)

lemma parse_positive_decimal_valid: "valid_price (parse_positive_decimal v)"
  using parse_decimal_bounds[of v]
  by (auto simp: valid_price_def parse_positive_decimal_def MAX_NORMALIZED_DECIMAL_EXPONENT_def
      MAX_ABS_DECIMAL_EXPONENT_def split: option.splits)

section \<open>Lemmas on amounts\<close>

lemma in_uint256_Some [simp]: "in_uint256 n = Some m \<longleftrightarrow> m = n \<and> 0 \<le> n \<and> n \<le> MAX_UINT256"
  by (auto simp: in_uint256_def)

lemma py_int_of_str_digits_nonneg:
  assumes "py_isdigit s" "py_int_of_str s = Some n"
  shows "0 \<le> n"
proof -
  have "py_strip s = s"
  proof (rule py_strip_id)
    have "\<not> py_isspace c" if "py_isdigit_char c" for c
      using that by (auto simp: py_isdigit_char_def is_dec_digit_def py_isspace_def Let_def)
    then show "s = [] \<or> \<not> py_isspace (hd s) \<and> \<not> py_isspace (last s)"
      using assms(1) by (cases s) (auto simp: py_isdigit_def list_all_iff)
  qed
  moreover have "hd s \<noteq> CHR ''-''"
    using assms(1) by (cases s) (auto simp: py_isdigit_def py_isdigit_char_def is_dec_digit_def)
  ultimately show ?thesis using assms(2)
    by (auto simp: py_int_of_str_def Let_def split: option.splits if_splits)
qed

lemma parse_int_bounds: "parse_int v = Inr (Some n) \<Longrightarrow> 0 \<le> n \<and> n \<le> MAX_UINT256"
  by (auto simp: parse_int_def split: json.splits if_splits option.splits dest: py_int_of_str_digits_nonneg)

lemma trunc_rat_of_int: "trunc_rat (of_int n) = n"
  by (simp add: trunc_rat_def flip: of_int_minus)

lemma trunc_rat_nonneg: "0 \<le> x \<Longrightarrow> 0 \<le> trunc_rat x"
  by (simp add: trunc_rat_def)

lemma round_sig_nonneg: "0 \<le> x \<Longrightarrow> 0 < p \<Longrightarrow> 0 \<le> round_sig p x"
  using round_sig_pos[of x p] by (cases "x = 0") auto

lemma base_units_bounds: "base_units_of_decimal d k = Some n \<Longrightarrow> 0 \<le> n \<and> n \<le> MAX_UINT256"
  by (auto simp: base_units_of_decimal_def Let_def dec_mul_def split: if_splits option.splits
      intro!: trunc_rat_nonneg round_sig_nonneg)

lemma parse_base_unit_amount_bounds:
  "parse_base_unit_amount v k = Inr (Some n) \<Longrightarrow> 0 \<le> n \<and> n \<le> MAX_UINT256"
  by (auto simp: parse_base_unit_amount_def split: option.splits dest: parse_int_bounds base_units_bounds)

lemma parse_metadata_decimals:
  "parse_token_metadata_fields d = Inr (s, Some k, l) \<Longrightarrow> 0 \<le> k \<and> k \<le> 255"
  unfolding parse_token_metadata_fields_def Let_def rbind_Inr_iff
  by (elim exE conjE) (auto split: option.splits if_split_asm)

lemma with_token_metadata_identity:
  "with_token_metadata t v = Inr t' \<Longrightarrow> tr_chain_id t' = tr_chain_id t \<and> tr_address t' = tr_address t"
  by (auto simp: with_token_metadata_def split: json.splits prod.splits)

section \<open>Lemmas on texts\<close>

lemma digits_val_append: "digits_val (a @ b) = digits_val a * 10 ^ length b + digits_val b"
proof (induction b rule: rev_induct)
  case (snoc c b)
  have "digits_val (a @ b @ [c]) = digits_val (a @ b) * 10 + digit_val c"
    using digits_val_snoc[of "a @ b" c] by simp
  with snoc show ?case by (simp add: digits_val_snoc algebra_simps)
qed (simp add: digits_val_def)

lemma digits_val_less: "list_all is_dec_digit s \<Longrightarrow> digits_val s < 10 ^ length s"
proof (induction s rule: rev_induct)
  case (snoc c s)
  then have "digit_val c \<le> 9" unfolding digit_val_def by (simp add: is_dec_digit_def; linarith)
  with snoc show ?case by (simp add: digits_val_snoc)
qed (simp add: digits_val_def)

lemma digit_chars:
  "is_dec_digit c \<Longrightarrow> c \<noteq> CHR ''_'' \<and> c \<noteq> CHR ''-'' \<and> c \<noteq> CHR ''+'' \<and> c \<noteq> CHR ''.'' \<and> \<not> exponent_mark c"
  by (auto simp: is_dec_digit_def exponent_mark_def)

lemma decimal_of_point:
  assumes "list_all is_dec_digit ip" "list_all is_dec_digit fp" "fp \<noteq> []"
  shows "decimal_of_str (ip @ CHR ''.'' # fp) = Some (False, digits_val (ip @ fp), - int (length fp))"
proof -
  let ?s = "ip @ CHR ''.'' # fp"
  have cs: "c \<noteq> CHR ''_'' \<and> \<not> exponent_mark c \<and> \<not> py_isspace c" if "c \<in> set ?s" for c
    using that assms digit_chars[of c] digit_not_space[of c]
    by (auto simp: list_all_iff exponent_mark_def py_isspace_def)
  have "hd ?s \<in> set ?s" "last ?s \<in> set ?s" by (rule hd_in_set last_in_set; simp)+
  then have strip: "py_strip ?s = ?s" using cs by (intro py_strip_id) blast
  have filt: "filter (\<lambda>c. c \<noteq> CHR ''_'') ?s = ?s" using cs by (intro filter_True) blast
  have sign: "split_sign ?s = (False, ?s)"
    using assms(1) digit_chars by (cases ip) (auto simp: split_sign_def)
  have m: "takeWhile (\<lambda>c. \<not> exponent_mark c) ?s = ?s" using cs by (intro takeWhile_eq_all_conv[THEN iffD2]) blast
  have ip: "takeWhile is_dec_digit ?s = ip"
    using assms(1) by (simp add: takeWhile_append list_all_iff is_dec_digit_def)
  have "decimal_mantissa ?s = Some (digits_val (ip @ fp), length fp)"
    unfolding decimal_mantissa_def ip Let_def using assms by simp
  then show ?thesis unfolding decimal_of_str_def strip filt number_of_str_def sign by (simp add: m Let_def)
qed

lemma point_not_int: "parse_int (JStr (ip @ CHR ''.'' # fp)) = Inr None"
  by (simp add: parse_int_def py_isdigit_def py_isdigit_char_def is_dec_digit_def)

lemma scaled_not_int:
  fixes m :: int
  assumes "0 < f" "f < 10 ^ k"
  shows "of_nat (w * 10 ^ k + f) * pow10 (- int k) \<noteq> of_int m"
proof
  assume eq: "of_nat (w * 10 ^ k + f) * pow10 (- int k) = of_int m"
  have "of_nat (w * 10 ^ k + f) = (of_int m * 10 ^ k :: rat)"
    using eq by (simp only: pow10_minus) (simp add: field_simps)
  then have "of_int (int (w * 10 ^ k + f)) = (of_int (m * 10 ^ k) :: rat)" by simp
  then have "int (w * 10 ^ k + f) = m * 10 ^ k" by (simp only: of_int_eq_iff)
  then have "int f = (m - int w) * 10 ^ k" by (simp add: algebra_simps)
  then have "int f mod 10 ^ k = 0" by simp
  moreover have "int f mod 10 ^ k = int f" using assms by (intro mod_pos_pos_trivial) (auto simp flip: of_nat_power)
  ultimately show False using assms(1) by simp
qed

lemma human_amount:
  assumes "list_all is_dec_digit ip" "list_all is_dec_digit fp" "0 < digits_val fp"
    and "length (ip @ fp) \<le> 28" "length fp \<le> k"
    and "int (digits_val (ip @ fp)) * 10 ^ (k - length fp) \<le> MAX_UINT256"
  shows "parse_base_unit_amount (JStr (ip @ CHR ''.'' # fp)) (Some (int k))
    = Inr (Some (int (digits_val (ip @ fp)) * 10 ^ (k - length fp)))"
proof -
  let ?c = "digits_val (ip @ fp)" let ?e = "- int (length fp)"
  define d where "d = of_nat ?c * pow10 ?e"
  have fp: "fp \<noteq> []" using assms(3) by (auto simp: digits_val_def)
  have c: "0 < ?c" "?c < 10 ^ 28"
    using assms(3) digits_val_less[of "ip @ fp"] assms(1,2,4) power_increasing[of "length (ip @ fp)" 28 "10::nat"]
    by (auto simp: digits_val_append)
  have nd: "num_digits ?c \<le> 28" by (rule num_digits_le[OF c])
  have "parse_decimal (JStr (ip @ CHR ''.'' # fp)) = Some d"
    using nd num_digits_pos[of ?c] c(1) assms(4)
    by (simp add: parse_decimal_def decimal_of_point[OF assms(1,2) fp] check_parts_def MAX_DECIMAL_DIGITS_def
        MAX_ABS_DECIMAL_EXPONENT_def d_def)
  moreover have "d \<noteq> of_int (round_half_even d)"
    unfolding d_def digits_val_append by (rule scaled_not_int[OF assms(3) digits_val_less[OF assms(2)]])
  moreover have "trunc_rat (dec_mul d (10 ^ k)) = int ?c * 10 ^ (k - length fp)"
  proof -
    have "d * 10 ^ k = of_nat ?c * pow10 (?e + int k)"
      unfolding d_def by (simp only: pow10_add pow10_nat mult.assoc)
    also have "?e + int k = int (k - length fp)" using assms(5) by simp
    finally have eq: "d * 10 ^ k = of_int (int ?c) * pow10 (int (k - length fp))" by simp
    have "fits 28 (d * 10 ^ k)" unfolding eq fits_def using c(2)
      by (intro exI[of _ "int ?c"] exI[of _ "int (k - length fp)"]) (simp flip: of_nat_power)
    moreover have "0 < d * 10 ^ k" using c(1) by (simp add: d_def)
    ultimately have "dec_mul d (10 ^ k) = d * 10 ^ k" by (simp add: dec_mul_def round_sig_fits_id)
    also have "\<dots> = of_int (int ?c * 10 ^ (k - length fp))" by (simp add: eq)
    finally show ?thesis by (simp only: trunc_rat_of_int)
  qed
  moreover have "0 \<le> d" by (simp add: d_def)
  ultimately show ?thesis using assms(6)
    by (simp add: parse_base_unit_amount_def point_not_int base_units_of_decimal_def)
qed

lemma int_str_digits:
  assumes "0 \<le> n"
  shows "list_all is_dec_digit (int_str n)" "int_str n \<noteq> []" "digits_val (int_str n) = nat n"
    "py_strip (int_str n) = int_str n"
  using assms by (simp_all add: int_str_def nat_str_digits digits_val_nat_str py_strip_digits)

lemma length_int_str:
  assumes "0 \<le> n" "n \<le> MAX_UINT256"
  shows "length (int_str n) \<le> 78"
proof (cases "n = 0")
  case True
  then show ?thesis by (simp add: int_str_def length_nat_str num_digits.simps[of 0])
next
  case False
  with assms have "nat n < 10 ^ 78" by (simp add: MAX_UINT256_def nat_less_iff)
  then show ?thesis using num_digits_le[of "nat n" 78] False assms(1) by (simp add: int_str_def length_nat_str)
qed

lemma py_int_of_int_str: "0 \<le> n \<Longrightarrow> n \<le> MAX_UINT256 \<Longrightarrow> py_int_of_str (int_str n) = Some n"
  using py_int_of_digits[OF int_str_digits(2,1)[of n]] length_int_str[of n] by (simp add: int_str_digits(3))

section \<open>Properties\<close>

text \<open>A human-readable amount with a fractional part is read exactly: digits around a point, at most 28
  of them and no more after the point than the token has decimals, give the base units they denote.\<close>

theorem human_amount_exact:
  assumes "list_all is_dec_digit ip" "list_all is_dec_digit fp" "0 < digits_val fp"
    and "length (ip @ fp) \<le> 28" "length fp \<le> k"
    and "int (digits_val (ip @ fp)) * 10 ^ (k - length fp) \<le> MAX_UINT256"
  shows "parse_base_unit_amount (JStr (ip @ CHR ''.'' # fp)) (Some (int k))
    = Inr (Some (int (digits_val (ip @ fp)) * 10 ^ (k - length fp)))"
  by (rule human_amount[OF assms])

theorem human_amount_exact_witness:
  "parse_base_unit_amount (JStr ''2125.893537'') (Some 6) = Inr (Some 2125893537)"
proof -
  have "digits_val ''2125893537'' = 2125893537" "digits_val ''893537'' = 893537"
    "list_all is_dec_digit ''2125''" "list_all is_dec_digit ''893537''"
    by (simp_all add: digits_val_def digit_val_def is_dec_digit_def)
  then show ?thesis using human_amount_exact[of "''2125''" "''893537''" 6]
    by (simp add: MAX_UINT256_def)
qed

text \<open>The same amount written without a fractional part (or with a zero one) is taken for base units
  already, whatever the decimals of the token, so that a larger amount can be read as a smaller one.\<close>

theorem whole_amount_read_as_base_units:
  "parse_base_unit_amount (JStr ''2125.893537'') (Some 6) = Inr (Some 2125893537)
   \<and> parse_base_unit_amount (JStr ''2126.000000'') (Some 6) = Inr (Some 2126)"
proof
  have ds: "digits_val ''2125893537'' = 2125893537" "digits_val ''893537'' = 893537"
    "list_all is_dec_digit ''2125''" "list_all is_dec_digit ''893537''"
    by (simp_all add: digits_val_def digit_val_def is_dec_digit_def)
  then show "parse_base_unit_amount (JStr ''2125.893537'') (Some 6) = Inr (Some 2125893537)"
    using human_amount[of "''2125''" "''893537''" 6] by (simp add: MAX_UINT256_def)
  have d: "digits_val ''2126000000'' = 2126000000" "num_digits 2126000000 = 10"
    "list_all is_dec_digit ''2126''" "list_all is_dec_digit ''000000''"
    by (simp_all add: digits_val_def digit_val_def is_dec_digit_def num_digits.simps)
  have "decimal_of_str ''2126.000000'' = Some (False, 2126000000, - 6)"
    using decimal_of_point[of "''2126''" "''000000''"] d by (simp)
  then have "parse_decimal (JStr ''2126.000000'') = Some 2126"
    using d(2) by (simp add: parse_decimal_def check_parts_def MAX_DECIMAL_DIGITS_def MAX_ABS_DECIMAL_EXPONENT_def
        power_int_minus)
  moreover have "parse_int (JStr ''2126.000000'') = Inr None" using point_not_int[of "''2126''" "''000000''"] by simp
  moreover have "round_half_even 2126 = 2126" "trunc_rat 2126 = 2126"
    using round_half_even_int[of 2126] by (simp_all add: trunc_rat_def)
  ultimately show "parse_base_unit_amount (JStr ''2126.000000'') (Some 6) = Inr (Some 2126)"
    by (simp add: parse_base_unit_amount_def base_units_of_decimal_def MAX_UINT256_def)
qed

text \<open>An amount in base units survives printing and parsing, as a number and as a text, and what is read
  as an amount at all fits into 256 bits.\<close>

theorem base_units_round_trip:
  assumes "0 \<le> n" "n \<le> MAX_UINT256"
  shows "parse_base_unit_amount (JInt n) k = Inr (Some n) \<and> parse_base_unit_amount (JStr (int_str n)) k = Inr (Some n)
    \<and> (\<forall>v m. parse_base_unit_amount v k = Inr (Some m) \<longrightarrow> 0 \<le> m \<and> m \<le> MAX_UINT256)"
proof -
  note digits = int_str_digits[OF assms(1)] and len = length_int_str[OF assms]
  have "py_isdigit (int_str n)"
    using digits by (auto simp: py_isdigit_def py_isdigit_char_def list_all_iff)
  moreover note py_int_of_int_str[OF assms]
  ultimately have "parse_int (JStr (int_str n)) = Inr (Some n)" using len assms(2)
    by (simp add: parse_int_def MAX_POSITIVE_INT_DIGITS_def)
  moreover have "parse_int (JInt n) = Inr (Some n)" using assms by (simp add: parse_int_def in_uint256_def)
  ultimately show ?thesis by (auto simp: parse_base_unit_amount_def[of "JInt n"] parse_base_unit_amount_def[of "JStr (int_str n)"]
      dest: parse_base_unit_amount_bounds)
qed

theorem base_units_round_trip_witness:
  "parse_base_unit_amount (JStr (int_str 1500)) None = Inr (Some 1500)"
  using base_units_round_trip[of 1500 None] by (simp add: MAX_UINT256_def)

lemma num_bits_power2: "num_bits (2 ^ n) = Suc n"
proof (induction n)
  case (Suc n)
  then show ?case by (subst num_bits.simps) simp
qed (simp add: num_bits.simps)

lemma floor_log2_power2: "floor_log2 (2 ^ n) = int n"
proof -
  have nat2: "nat (2 ^ n) = 2 ^ n" by (simp add: nat_power_eq)
  have "floor_log2 (2 ^ n) = int (num_bits (nat (2 ^ n))) - 1" by (simp add: floor_log2_def)
  then show ?thesis unfolding nat2 num_bits_power2 by simp
qed

lemma round_double_overflow:
  assumes "1024 \<le> n"
  shows "round_double (2 ^ n) = None"
proof -
  have m: "max (floor_log2 \<bar>2 ^ n\<bar> - 52) (- 1074) = int (n - 52)" using assms by (simp add: floor_log2_power2)
  have "(2 ^ n :: rat) = 2 ^ 52 * 2 ^ (n - 52)"
    using power_add[of "2::rat" 52 "n - 52"] assms by simp
  then have q: "(2 ^ n :: rat) / 2 ^ (n - 52) = of_int (2 ^ 52)" by simp
  have le: "(2::rat) ^ 1024 \<le> 2 ^ n" using assms by (rule power_increasing) simp
  show ?thesis
    unfolding round_double_def Let_def m power_int_of_nat q round_half_even_int
    using le \<open>2 ^ n = 2 ^ 52 * 2 ^ (n - 52)\<close> by (simp del: power_numeral)
qed

text \<open>Two inputs a provider may send make the parsers raise instead of reporting no value: a text of
  superscript digits, which \<open>isdigit\<close> accepts and \<open>int\<close> does not, and an integer too large for a float.\<close>

theorem parsers_raise:
  "parse_int (JStr [CHR 0xB2]) = Inl (ValueError ''invalid literal for int() with base 10'')
   \<and> parse_datetime clk (JInt (2 ^ 1024)) = Inl (OtherException ''OverflowError'')"
proof
  show "parse_int (JStr [CHR 0xB2]) = Inl (ValueError ''invalid literal for int() with base 10'')"
    by (simp add: parse_int_def py_isdigit_def py_isdigit_char_def is_dec_digit_def MAX_POSITIVE_INT_DIGITS_def
        py_int_of_str_def py_strip_def py_lstrip_def py_isspace_def Let_def)
  have "of_int (2 ^ 1024) = (2 ^ 1024 :: rat)" by (simp only: of_int_power of_int_numeral)
  then show "parse_datetime clk (JInt (2 ^ 1024)) = Inl (OtherException ''OverflowError'')"
    using round_double_overflow[of 1024] unfolding parse_datetime_def json.case from_unix_timestamp_def by simp
qed

end
