(* ===== verification/LogoRoute.thy ===== *)
theory LogoRoute
  imports MetadataCache Parsing
begin

text \<open>
  The public route of the logos (\<open>api/routes/token_logos.py\<close>): the identity in the path, the conditional request
  and its parser of entity tags. The parser works on positions of the header as the code does; its loop ends
  because every member it reads moves the position forward.
\<close>

section \<open>Entity tags\<close>

function skip_characters :: "string \<Rightarrow> nat \<Rightarrow> string \<Rightarrow> nat" where
  "skip_characters raw index characters =
     (if index < length raw \<and> raw ! index \<in> set characters
      then skip_characters raw (index + 1) characters else index)"
  by auto
termination by (relation "measure (\<lambda>(raw, index, _). length raw - index)") auto

function skip_to_comma :: "string \<Rightarrow> nat \<Rightarrow> nat" where
  "skip_to_comma raw index =
     (if index < length raw \<and> raw ! index \<noteq> CHR '','' then skip_to_comma raw (index + 1) else index)"
  by auto
termination by (relation "measure (\<lambda>(raw, index). length raw - index)") auto

declare skip_characters.simps [simp del] skip_to_comma.simps [simp del]

text \<open>\<open>value.find(c, index)\<close>.\<close>

definition find_from :: "string \<Rightarrow> char \<Rightarrow> nat \<Rightarrow> nat option" where
  "find_from raw c index =
     (let n = length (takeWhile (\<lambda>x. x \<noteq> c) (drop index raw)) in
      if index + n < length raw then Some (index + n) else None)"

definition parse_etag_member :: "string \<Rightarrow> nat \<Rightarrow> string option \<times> nat" where
  "parse_etag_member raw index =
     (if raw ! index = CHR ''*'' then
        let end_at = skip_characters raw (index + 1) [CHR '' '', CHR 0x09] in
        if end_at = length raw \<or> raw ! end_at = CHR '','' then (Some ''*'', end_at)
        else (None, skip_to_comma raw end_at)
      else
        let start = (if py_startswith (drop index raw) ''W/'' then index + 2 else index) in
        if start \<ge> length raw \<or> raw ! start \<noteq> CHR 0x22 then (None, skip_to_comma raw start)
        else case find_from raw (CHR 0x22) (start + 1) of
          None \<Rightarrow> (None, length raw)
        | Some end_quote \<Rightarrow>
            let member = take (end_quote - (start + 1)) (drop (start + 1) raw);
                end_at = skip_characters raw (end_quote + 1) [CHR '' '', CHR 0x09] in
            if end_at = length raw \<or> raw ! end_at = CHR '','' then (Some member, end_at)
            else (None, skip_to_comma raw end_at))"

lemma skip_characters_mono: "index \<le> skip_characters raw index cs"
  by (induction raw index cs rule: skip_characters.induct) (subst skip_characters.simps, auto)

lemma skip_characters_stop:
  "skip_characters raw index cs < length raw \<Longrightarrow> raw ! skip_characters raw index cs \<notin> set cs"
proof (induction raw index cs rule: skip_characters.induct)
  case (1 raw index cs)
  then show ?case by (subst (asm) skip_characters.simps, subst skip_characters.simps) (auto split: if_splits)
qed

lemma skip_to_comma_mono: "index \<le> skip_to_comma raw index"
  by (induction raw index rule: skip_to_comma.induct) (subst skip_to_comma.simps, auto)

lemma skip_to_comma_progress:
  "index < length raw \<Longrightarrow> raw ! index \<noteq> CHR '','' \<Longrightarrow> index < skip_to_comma raw index"
  using skip_to_comma_mono[of "index + 1" raw] by (subst skip_to_comma.simps) simp

lemma find_from_ge: "find_from raw c index = Some n \<Longrightarrow> index \<le> n"
  by (auto simp: find_from_def Let_def split: if_splits)

lemma parse_etag_member_progress:
  assumes "index < length raw" "raw ! index \<noteq> CHR '',''"
  shows "index < snd (parse_etag_member raw index)"
proof -
  define start where "start = (if py_startswith (drop index raw) ''W/'' then index + 2 else index)"
  have le: "index \<le> start" by (simp add: start_def)
  have star: "index < skip_characters raw (index + 1) [CHR '' '', CHR 0x09]"
  proof -
    have "index + 1 \<le> skip_characters raw (index + 1) [CHR '' '', CHR 0x09]" by (rule skip_characters_mono)
    then show ?thesis by linarith
  qed
  have sc: "index < skip_to_comma raw start"
    using skip_to_comma_mono[of start raw] skip_to_comma_progress[OF assms] by (auto simp: start_def)
  have quoted: "index < skip_characters raw (e + 1) [CHR '' '', CHR 0x09]" if "find_from raw (CHR 0x22) (start + 1) = Some e" for e
  proof -
    have "e + 1 \<le> skip_characters raw (e + 1) [CHR '' '', CHR 0x09]" by (rule skip_characters_mono)
    then show ?thesis using find_from_ge[OF that] le by linarith
  qed
  have tail: "index < skip_to_comma raw n" if "index < n" for n
    using skip_to_comma_mono[of n raw] that by simp
  show ?thesis
    using star sc quoted tail assms(1)
    by (auto simp: parse_etag_member_def Let_def start_def[symmetric] split: option.splits)
qed

function matches_from :: "string \<Rightarrow> string \<Rightarrow> nat \<Rightarrow> bool" where
  "matches_from raw content_hash index =
     (if index < length raw then
        let start = skip_characters raw index [CHR '' '', CHR 0x09, CHR '',''] in
        if start \<ge> length raw then False
        else let (member, after) = parse_etag_member raw start in
          if member = Some ''*'' \<or> member = Some content_hash then True
          else matches_from raw content_hash after
      else False)"
  by auto
termination
proof (relation "measure (\<lambda>(raw, _, index). length raw - index)")
  fix raw content_hash :: string and index start :: nat and x member after
  assume a: "index < length raw" "start = skip_characters raw index [CHR '' '', CHR 0x09, CHR '','']"
    "\<not> length raw \<le> start" "x = parse_etag_member raw start" "(member, after) = x"
  have "raw ! start \<noteq> CHR '',''" using skip_characters_stop[of raw index "[CHR '' '', CHR 0x09, CHR '','']"] a(2,3) by auto
  from parse_etag_member_progress[OF _ this] a(3-5) have "start < after" by (metis not_le snd_conv)
  moreover have "index \<le> start" using skip_characters_mono a(2) by blast
  ultimately show "((raw, content_hash, after), raw, content_hash, index) \<in> measure (\<lambda>(raw, _, index). length raw - index)"
    using a(1) by simp
qed simp

declare matches_from.simps [simp del]

definition if_none_match_matches :: "string option \<Rightarrow> string \<Rightarrow> bool" where
  "if_none_match_matches raw content_hash =
     (case raw of None \<Rightarrow> False | Some v \<Rightarrow> matches_from v content_hash 0)"

section \<open>The route\<close>

definition MAX_EVM_CHAIN_ID :: int where "MAX_EVM_CHAIN_ID = 2 ^ 256 - 1"
definition MAX_SQLITE_INTEGER :: int where "MAX_SQLITE_INTEGER = 2 ^ 63 - 1"

definition positive_chain_id :: "string \<Rightarrow> bool" where
  "positive_chain_id s = (case s of [] \<Rightarrow> False | c # cs \<Rightarrow> is_dec_digit c \<and> c \<noteq> CHR ''0'' \<and> list_all is_dec_digit cs)"

datatype logo_body = Body_empty | Body_error string string | Body_image "nat list" string

record logo_response =
  lo_status :: int
  lo_headers :: "(string \<times> string) list"
  lo_body :: logo_body

definition invalid_identity :: "string \<Rightarrow> logo_response" where
  "invalid_identity message =
     \<lparr>lo_status = 400, lo_headers = [(''Cache-Control'', ''no-store'')],
      lo_body = Body_error ''INVALID_TOKEN_LOGO_IDENTITY'' message\<rparr>"

definition asset_headers :: "int \<Rightarrow> (string \<times> string) list" where
  "asset_headers max_age =
     [(''Cache-Control'', ''public, max-age='' @ int_str max_age), (''X-Content-Type-Options'', ''nosniff''),
      (''Cross-Origin-Resource-Policy'', ''cross-origin''), (''Access-Control-Allow-Origin'', ''*'')]"

definition etag_of :: "string \<Rightarrow> string" where "etag_of content_hash = [CHR 0x22] @ content_hash @ [CHR 0x22]"

definition token_logo :: "eth_lib \<Rightarrow> string \<Rightarrow> string \<Rightarrow> string option \<Rightarrow> metadata_db \<Rightarrow> logo_response res" where
  "token_logo eth chain_id address if_none_match db =
     (if length chain_id > 78 \<or> \<not> positive_chain_id chain_id then Inr (invalid_identity ''chain_id must be a positive integer'')
      else let parsed_chain_id = int (digits_val chain_id) in
        if parsed_chain_id > MAX_EVM_CHAIN_ID then Inr (invalid_identity ''chain_id is out of range'')
        else case normalize_address eth address of
          Inl (InvalidRequestError _ _) \<Rightarrow> Inr (invalid_identity ''address must be a valid EVM token address'')
        | Inl e \<Rightarrow> Inl e
        | Inr normalized \<Rightarrow>
            rbind (if parsed_chain_id \<le> MAX_SQLITE_INTEGER then get_logo_asset eth parsed_chain_id normalized db else Inr None)
              (\<lambda>asset. case asset of
                 None \<Rightarrow> Inr \<lparr>lo_status = 404, lo_headers = asset_headers 300, lo_body = Body_empty\<rparr>
               | Some a \<Rightarrow>
                   let headers = asset_headers 86400 @ [(''ETag'', etag_of (as_content_hash a))] in
                   if if_none_match_matches if_none_match (as_content_hash a)
                   then Inr \<lparr>lo_status = 304, lo_headers = headers, lo_body = Body_empty\<rparr>
                   else Inr \<lparr>lo_status = 200, lo_headers = headers, lo_body = Body_image (as_image_bytes a) (as_mime_type a)\<rparr>))"

section \<open>Lemmas on the parser\<close>

lemma skip_characters_append:
  "skip_characters (pre @ s) (length pre) cs = length pre + length (takeWhile (\<lambda>c. c \<in> set cs) s)"
proof (induction s arbitrary: pre)
  case (Cons c s)
  show ?case
  proof (cases "c \<in> set cs")
    case True
    then have "skip_characters (pre @ c # s) (length pre) cs = skip_characters ((pre @ [c]) @ s) (length (pre @ [c])) cs"
      by (subst skip_characters.simps) simp
    then show ?thesis using Cons[of "pre @ [c]"] True by simp
  qed (subst skip_characters.simps, simp)
qed (subst skip_characters.simps, simp)

lemma skip_within:
  "raw = pre @ s \<Longrightarrow> n = length pre \<Longrightarrow> skip_characters raw n cs = n + length (takeWhile (\<lambda>c. c \<in> set cs) s)"
  by (simp add: skip_characters_append)

lemma find_from_append: "CHR 0x22 \<notin> set t \<Longrightarrow> find_from (pre @ t @ CHR 0x22 # rest) (CHR 0x22) (length pre) = Some (length pre + length t)"
proof -
  assume "CHR 0x22 \<notin> set t"
  then have "takeWhile (\<lambda>x. x \<noteq> CHR 0x22) (t @ CHR 0x22 # rest) = t" by (induction t) auto
  then show ?thesis by (simp add: find_from_def Let_def)
qed

definition etag_text :: "bool \<times> string \<Rightarrow> string" where
  "etag_text t = (if fst t then ''W/'' else []) @ etag_of (snd t)"

fun etag_list :: "(bool \<times> string) list \<Rightarrow> string" where
  "etag_list [] = []"
| "etag_list [t] = etag_text t"
| "etag_list (t # u # ts) = etag_text t @ '', '' @ etag_list (u # ts)"

lemma parse_quoted_member:
  assumes "raw ! index \<noteq> CHR ''*''" "(if py_startswith (drop index raw) ''W/'' then index + 2 else index) = start"
    "start < length raw" "raw ! start = CHR 0x22" "find_from raw (CHR 0x22) (start + 1) = Some e"
    "skip_characters raw (e + 1) [CHR '' '', CHR 0x09] = end_at" "end_at = length raw \<or> raw ! end_at = CHR '',''"
  shows "parse_etag_member raw index = (Some (take (e - (start + 1)) (drop (start + 1) raw)), end_at)"
  unfolding parse_etag_member_def Let_def assms(2)
  using assms(1,3-7) by simp

lemma parse_etag_text:
  assumes "CHR 0x22 \<notin> set (snd t)" "rest = [] \<or> hd rest = CHR '',''"
  shows "parse_etag_member (pre @ etag_text t @ rest) (length pre) = (Some (snd t), length (pre @ etag_text t))"
proof -
  obtain weak tag where t: "t = (weak, tag)" by (cases t)
  let ?w = "if weak then ''W/'' else []"
  let ?raw = "pre @ etag_text t @ rest"
  have raw: "?raw = (pre @ ?w @ [CHR 0x22]) @ tag @ CHR 0x22 # rest" by (simp add: etag_text_def etag_of_def t)
  have start: "(if py_startswith (drop (length pre) ?raw) ''W/'' then length pre + 2 else length pre) = length (pre @ ?w)"
    by (cases weak) (simp_all add: etag_text_def etag_of_def t py_startswith_def)
  have first: "?raw ! length pre \<noteq> CHR ''*''" "?raw ! length (pre @ ?w) = CHR 0x22"
    by (cases weak; simp add: etag_text_def etag_of_def t nth_append)+
  have find: "find_from ?raw (CHR 0x22) (length (pre @ ?w) + 1) = Some (length (pre @ ?w @ [CHR 0x22]) + length tag)"
    using find_from_append[of tag "pre @ ?w @ [CHR 0x22]" rest] assms(1) t unfolding raw by simp
  have skip: "skip_characters ?raw (length (pre @ etag_text t)) [CHR '' '', CHR 0x09] = length (pre @ etag_text t)"
  proof -
    have "takeWhile (\<lambda>c. c \<in> set [CHR '' '', CHR 0x09]) rest = []" using assms(2) by (cases rest) auto
    then show ?thesis by (subst skip_within[of _ "pre @ etag_text t" rest]) simp_all
  qed
  have e: "length (pre @ ?w @ [CHR 0x22]) + length tag + 1 = length (pre @ etag_text t)"
    by (simp add: etag_text_def etag_of_def t)
  have member: "take (length (pre @ ?w @ [CHR 0x22]) + length tag - (length (pre @ ?w) + 1)) (drop (length (pre @ ?w) + 1) ?raw) = tag"
    unfolding raw by simp
  have last: "length (pre @ etag_text t) = length ?raw \<or> ?raw ! length (pre @ etag_text t) = CHR '',''"
    using assms(2) by (cases rest) (auto simp: nth_append)
  have lt: "\<not> length ?raw \<le> length (pre @ ?w)" by (simp add: etag_text_def etag_of_def t)
  have start': "length (pre @ ?w) < length ?raw" using lt by simp
  have skip': "skip_characters ?raw (length (pre @ ?w @ [CHR 0x22]) + length tag + 1) [CHR '' '', CHR 0x09] = length (pre @ etag_text t)"
    unfolding e by (rule skip)
  show ?thesis using parse_quoted_member[OF first(1) start start' first(2) find skip' last] unfolding member by (simp add: t)
qed

lemma matches_from_list:
  assumes "list_all (\<lambda>t. CHR 0x22 \<notin> set (snd t)) tags" "set sep \<subseteq> {CHR '' '', CHR 0x09, CHR '',''}"
  shows "matches_from (pre @ sep @ etag_list tags) h (length pre) \<longleftrightarrow> h \<in> snd ` set tags \<or> ''*'' \<in> snd ` set tags"
  using assms
proof (induction tags arbitrary: pre sep)
  case Nil
  have "takeWhile (\<lambda>c. c \<in> set [CHR '' '', CHR 0x09, CHR '','']) sep = sep" using Nil(2) by (induction sep) auto
  then have "skip_characters (pre @ sep) (length pre) [CHR '' '', CHR 0x09, CHR '',''] = length (pre @ sep)"
    by (simp only: skip_characters_append length_append)
  then show ?case by (subst matches_from.simps) (simp add: Let_def)
next
  case (Cons t ts)
  define sep' where "sep' = (if ts = [] then [] else '', '')"
  have l: "etag_list (t # ts) = etag_text t @ sep' @ etag_list ts" by (cases ts) (simp_all add: sep'_def)
  let ?raw = "pre @ sep @ etag_list (t # ts)"
  have "takeWhile (\<lambda>c. c \<in> set [CHR '' '', CHR 0x09, CHR '','']) (sep @ etag_list (t # ts)) = sep"
    using Cons.prems(2) unfolding l
    by (induction sep) (auto simp: etag_text_def etag_of_def)
  then have s: "skip_characters ?raw (length pre) [CHR '' '', CHR 0x09, CHR '',''] = length (pre @ sep)"
    by (simp only: skip_characters_append length_append)
  have p: "parse_etag_member ?raw (length (pre @ sep)) = (Some (snd t), length (pre @ sep @ etag_text t))"
    using parse_etag_text[of t "sep' @ etag_list ts" "pre @ sep"] Cons.prems(1) unfolding l by (simp add: sep'_def)
  have "length (pre @ sep) < length ?raw" "length pre < length ?raw" unfolding l by (simp_all add: etag_text_def etag_of_def)
  then have m: "matches_from ?raw h (length pre) \<longleftrightarrow> snd t = ''*'' \<or> snd t = h
      \<or> matches_from ?raw h (length (pre @ sep @ etag_text t))"
    using s p by (subst matches_from.simps) (simp add: Let_def)
  have "set sep' \<subseteq> {CHR '' '', CHR 0x09, CHR '',''}" by (simp add: sep'_def)
  from Cons.IH[OF _ this, of "pre @ sep @ etag_text t"] Cons.prems(1) m show ?case unfolding l by auto
qed

section \<open>Lemmas on the route\<close>

lemma positive_chain_id_str:
  assumes "0 < n"
  shows "positive_chain_id (int_str n)" "int (digits_val (int_str n)) = n"
proof -
  have s: "int_str n = nat_str (nat n)" using assms by (simp add: int_str_def)
  have first: "hd (nat_str k) \<noteq> CHR ''0''" if "0 < k" for k
    using that
  proof (induction k rule: nat_str.induct)
    case (1 k)
    show ?case
    proof (cases "k < 10")
      case True
      then have "char_code (char_of (k + 48) :: char) = k + 48" by simp
      then show ?thesis using True 1(2) by (subst nat_str.simps) (auto dest: arg_cong[of _ _ char_code])
    next
      case False
      then show ?thesis using 1 by (subst nat_str.simps) (simp add: hd_append)
    qed
  qed
  show "positive_chain_id (int_str n)" using assms first[of "nat n"] nat_str_digits[of "nat n"] nat_str_nonempty[of "nat n"] unfolding s
    by (cases "nat_str (nat n)") (auto simp: positive_chain_id_def)
  show "int (digits_val (int_str n)) = n" unfolding s using assms by (simp add: digits_val_nat_str)
qed

section \<open>Properties\<close>

text \<open>C10: A conditional request is answered exactly by its list of entity tags: for any list of strong and weak tags, printed as a
  header, the parser ends and finds the current image exactly when its hash is one of the tags (or a tag is a star).\<close>

theorem conditional_request_exact:
  assumes "list_all (\<lambda>t. CHR 0x22 \<notin> set (snd t)) tags"
  shows "if_none_match_matches (Some (etag_list tags)) h \<longleftrightarrow> h \<in> snd ` set tags \<or> ''*'' \<in> snd ` set tags"
  using matches_from_list[OF assms, of "[]" "[]" h] by (simp add: if_none_match_matches_def)

text \<open>A quoted star is an ordinary tag in HTTP; here it matches every image.\<close>

lemma quoted_star_matches_everything: "if_none_match_matches (Some (etag_of ''*'')) h"
  using matches_from_list[of "[(False, ''*'')]" "[]" "[]" h] by (simp add: if_none_match_matches_def etag_text_def etag_of_def)

lemma token_logo_stored:
  assumes "0 < c" "c \<le> MAX_SQLITE_INTEGER" "normalize_address eth a = Inr n" "normalize_address eth n = Inr n"
    "image_of db (c, n) = Some asset"
  shows "token_logo eth (int_str c) a inm db = Inr (let headers = asset_headers 86400 @ [(''ETag'', etag_of (as_content_hash asset))] in
    if if_none_match_matches inm (as_content_hash asset)
    then \<lparr>lo_status = 304, lo_headers = headers, lo_body = Body_empty\<rparr>
    else \<lparr>lo_status = 200, lo_headers = headers, lo_body = Body_image (as_image_bytes asset) (as_mime_type asset)\<rparr>)"
proof -
  have "length (int_str c) \<le> 78" using assms(1,2) by (intro length_int_str) (simp_all add: MAX_SQLITE_INTEGER_def MAX_UINT256_def)
  moreover have "c \<le> MAX_EVM_CHAIN_ID" using assms(2) by (simp add: MAX_SQLITE_INTEGER_def MAX_EVM_CHAIN_ID_def)
  ultimately show ?thesis
    using assms positive_chain_id_str[OF assms(1)] get_logo_asset_image[OF assms(4)]
    by (simp add: token_logo_def Let_def)
qed

text \<open>A logo, once stored, is served: the public route gives its bytes, type and tag for any spelling of the address and whatever
  is recorded later, and a client that sends the tag back (among any others) is told that its copy is current.\<close>

theorem stored_logo_served:
  assumes "record_logo_success eth c a b h m src t st db = (Inr (), db1)"
    and "normalize_address eth a = Inr n" "normalize_address eth a2 = Inr n" "normalize_address eth n = Inr n"
    and "0 < c" "c \<le> MAX_SQLITE_INTEGER"
    and "\<forall>r. map_of (db_logos db) (c, n) = Some r \<longrightarrow> lg_content_hash r = Some h \<longrightarrow> lg_image_bytes r = Some b"
    and "list_all (\<lambda>op. \<not> stores_image eth (c, n) op) ops"
    and "list_all (\<lambda>t. CHR 0x22 \<notin> set (snd t)) tags" "h \<in> snd ` set tags"
  shows "let db2 = apply_ops eth revision ops db1; headers = asset_headers 86400 @ [(''ETag'', etag_of h)] in
    token_logo eth (int_str c) a2 None db2 = Inr \<lparr>lo_status = 200, lo_headers = headers, lo_body = Body_image b m\<rparr>
    \<and> token_logo eth (int_str c) a2 (Some (etag_list tags)) db2 = Inr \<lparr>lo_status = 304, lo_headers = headers, lo_body = Body_empty\<rparr>"
proof -
  have "image_of db1 (c, n) = Some \<lparr>as_image_bytes = b, as_content_hash = h, as_mime_type = m\<rparr>"
    by (rule success_image[OF assms(1,2,7)])
  then have "image_of (apply_ops eth revision ops db1) (c, n) = Some \<lparr>as_image_bytes = b, as_content_hash = h, as_mime_type = m\<rparr>"
    using apply_ops_keeps_image[OF assms(8)] by simp
  from token_logo_stored[OF assms(5,6,3,4) this] show ?thesis
    using matches_from_list[OF assms(9), of "[]" "[]" h] assms(10) by (simp add: Let_def if_none_match_matches_def)
qed

section \<open>Witnesses\<close>

theorem conditional_request_exact_witness:
  "\<not> if_none_match_matches (Some (etag_list [(True, ''a,b''), (False, ''c'')])) ''a''
   \<and> if_none_match_matches (Some (etag_list [(True, ''a,b''), (False, ''c'')])) ''c''"
  using conditional_request_exact[of "[(True, ''a,b''), (False, ''c'')]"] by simp

theorem stored_logo_served_witness:
  "\<exists>db1. record_logo_success example_eth 1 example_address [1, 2] (replicate 64 (CHR ''a'')) ''image/png'' ''override'' 7 None empty_db
       = (Inr (), db1)
     \<and> token_logo example_eth (int_str 1) example_address (Some (etag_list [(True, ''b''), (False, replicate 64 (CHR ''a''))]))
         (apply_ops example_eth (\<lambda>rows. []) [Op_failure 1 example_address ''transient'' 8 9 1 None ''network_error''] db1)
       = Inr \<lparr>lo_status = 304, lo_headers = asset_headers 86400 @ [(''ETag'', etag_of (replicate 64 (CHR ''a'')))], lo_body = Body_empty\<rparr>"
proof -
  obtain db1 where s: "record_logo_success example_eth 1 example_address [1, 2] (replicate 64 (CHR ''a'')) ''image/png''
      ''override'' 7 None empty_db = (Inr (), db1)"
    by (simp add: record_logo_success_def example_normalize empty_db_def put_logo_def logo_row_ok_def opt_all_def
        between_def LOGO_MIME_TYPES_def Let_def)
  from stored_logo_served[OF s example_normalize example_normalize example_normalize, of
      "[Op_failure 1 example_address ''transient'' 8 9 1 None ''network_error'']" "[(True, ''b''), (False, replicate 64 (CHR ''a''))]"]
  show ?thesis using s by (simp add: stores_image_def empty_db_def MAX_SQLITE_INTEGER_def Let_def)
qed

end
