(* ===== verification/ApiKeyTool.thy ===== *)
theory ApiKeyTool
  imports ApiKeys Domain
begin

text \<open>
  The command-line tool for API keys (\<open>tools/api_key.py\<close>): its four commands over the store. The command is what
  \<open>argparse\<close> makes of the arguments; the clock, the random parts of a key and the line typed at the prompt are the
  record \<open>tool_env\<close>. What is printed is kept as values, texts as they are and JSON as what \<open>json.dumps\<close> is given.
\<close>

section \<open>Commands and output\<close>

datatype command =
    Generate (arg_label: "string option") (arg_json: bool)
  | List_keys (arg_all: bool) (arg_json: bool)
  | Delete (arg_key_id: string) (arg_reason: "string option") (arg_json: bool)
  | Set_rate_limit (arg_key_id: string) (arg_rpm: int) (arg_json: bool)

datatype printed = Line string | Json json | Prompt string

record tool_env =
  te_now :: int
  te_public_id :: string
  te_secret :: string
  te_entered :: "string option"

text \<open>What a handler prints, and whether it returns 0 or raises.\<close>

type_synonym handled = "printed list \<times> unit res \<times> key_store"

section \<open>Time stamps\<close>

text \<open>\<open>datetime.fromtimestamp(value, tz=UTC)\<close>: the date in the proleptic Gregorian calendar from the days since 1970,
  counted from the first of March of a year divisible by 400. The year less 1900 is an \<open>int\<close> of 32 bits in C.\<close>

definition civil_date :: "int \<Rightarrow> int \<times> int \<times> int" where
  "civil_date days =
     (let z = days + 719468; era = z div 146097; doe = z mod 146097;
          yoe = (doe - doe div 1460 + doe div 36524 - doe div 146096) div 365;
          doy = doe - (365 * yoe + yoe div 4 - yoe div 100);
          mp = (5 * doy + 2) div 153;
          m = (if mp < 10 then mp + 3 else mp - 9)
      in (yoe + era * 400 + (if m \<le> 2 then 1 else 0), m, doy - (153 * mp + 2) div 5 + 1))"

definition zero_padded :: "nat \<Rightarrow> int \<Rightarrow> string" where
  "zero_padded w n = replicate (w - length (int_str n)) CHR ''0'' @ int_str n"

definition epoch_to_iso :: "int \<Rightarrow> string res" where
  "epoch_to_iso t =
     (let days = t div 86400; s = t mod 86400; (y, m, d) = civil_date days in
      if y < 1900 - 2 ^ 31 \<or> y \<ge> 1900 + 2 ^ 31 then Inl (OtherException ''OSError'')
      else if y < 1 \<or> y > 9999 then Inl (ValueError (''year '' @ int_str y @ '' is out of range''))
      else Inr (zero_padded 4 y @ ''-'' @ zero_padded 2 m @ ''-'' @ zero_padded 2 d @ ''T'' @ zero_padded 2 (s div 3600)
             @ '':'' @ zero_padded 2 (s div 60 mod 60) @ '':'' @ zero_padded 2 (s mod 60) @ ''+00:00''))"

definition optional_iso :: "int option \<Rightarrow> string option res" where
  "optional_iso v = (case v of None \<Rightarrow> Inr None | Some t \<Rightarrow> rbind (epoch_to_iso t) (\<lambda>s. Inr (Some s)))"

section \<open>Values as printed\<close>

definition json_of :: "('a \<Rightarrow> json) \<Rightarrow> 'a option \<Rightarrow> json" where
  "json_of f v = (case v of None \<Rightarrow> JNull | Some x \<Rightarrow> f x)"

text \<open>\<open>f"{value}"\<close> of a value that may be \<open>None\<close>.\<close>

definition shown :: "string option \<Rightarrow> string" where
  "shown v = (case v of None \<Rightarrow> ''None'' | Some s \<Rightarrow> s)"

definition record_to_json :: "api_key_record \<Rightarrow> json res" where
  "record_to_json row =
     rbind (optional_iso (Some (kr_created_at row))) (\<lambda>created.
     rbind (optional_iso (kr_last_used_at row)) (\<lambda>last_used.
     rbind (optional_iso (kr_revoked_at row)) (\<lambda>revoked.
     rbind (optional_iso (kr_expires_at row)) (\<lambda>expires.
       Inr (JObj [(''id'', JStr (kr_public_id row)), (''label'', JStr (kr_label row)), (''key_prefix'', JStr (kr_key_prefix row)),
         (''created_at'', JInt (kr_created_at row)), (''created_at_iso'', json_of JStr created),
         (''rate_limit_rpm'', json_of JInt (kr_rate_limit_rpm row)),
         (''last_used_at'', json_of JInt (kr_last_used_at row)), (''last_used_at_iso'', json_of JStr last_used),
         (''revoked_at'', json_of JInt (kr_revoked_at row)), (''revoked_at_iso'', json_of JStr revoked),
         (''revoked_reason'', json_of JStr (kr_revoked_reason row)),
         (''expires_at'', json_of JInt (kr_expires_at row)), (''expires_at_iso'', json_of JStr expires)])))))"

section \<open>The handlers\<close>

text \<open>The prompt goes to the standard output, before whatever the command prints.\<close>

definition resolve_label :: "string option \<Rightarrow> string option \<Rightarrow> printed list \<times> string res" where
  "resolve_label label entered =
     (if label \<noteq> None \<and> py_strip (the label) \<noteq> [] then ([], Inr (py_strip (the label)))
      else ([Prompt ''Label: ''],
            case entered of
              None \<Rightarrow> Inl (ValueError ''label is required (set --label for non-interactive usage)'')
            | Some t \<Rightarrow> if py_strip t = [] then Inl (ValueError ''label is required'') else Inr (py_strip t)))"

definition generated_output :: "bool \<Rightarrow> api_key_issue_result \<Rightarrow> string option \<Rightarrow> printed list" where
  "generated_output as_json issued created =
     (if as_json
      then [Json (JObj [(''ok'', JBool True), (''id'', JStr (ai_public_id issued)), (''label'', JStr (ai_label issued)),
              (''key_prefix'', JStr (ai_key_prefix issued)), (''created_at'', JInt (ai_created_at issued)),
              (''created_at_iso'', json_of JStr created), (''key'', JStr (ai_key issued))])]
      else [Line ''Generated API key'', Line (''id: '' @ ai_public_id issued), Line (''label: '' @ ai_label issued),
            Line (''created_at: '' @ shown created), Line (''key: '' @ ai_key issued),
            Line ''Store this key now; it will not be shown again.''])"

definition handle_generate :: "(string \<Rightarrow> string) \<Rightarrow> tool_env \<Rightarrow> string option \<Rightarrow> bool \<Rightarrow> key_store \<Rightarrow> handled" where
  "handle_generate sha env label as_json st =
     (case resolve_label label (te_entered env) of
        (shown_prompt, Inl e) \<Rightarrow> (shown_prompt, Inl e, st)
      | (shown_prompt, Inr l) \<Rightarrow>
          (case issue_key sha l (te_public_id env) (te_secret env) (te_now env) st of
             (Inl e, st1) \<Rightarrow> (shown_prompt, Inl e, st1)
           | (Inr issued, st1) \<Rightarrow>
               (case optional_iso (Some (ai_created_at issued)) of
                  Inl e \<Rightarrow> (shown_prompt, Inl e, st1)
                | Inr created \<Rightarrow> (shown_prompt @ generated_output as_json issued created, Inr (), st1))))"

definition list_line :: "api_key_record \<Rightarrow> string res" where
  "list_line row =
     rbind (optional_iso (Some (kr_created_at row))) (\<lambda>created.
     rbind (optional_iso (kr_last_used_at row)) (\<lambda>last_used.
       Inr (''id='' @ kr_public_id row @ '' status='' @ (if kr_revoked_at row \<noteq> None then ''deleted'' else ''active'')
         @ '' label='' @ kr_label row @ '' created='' @ shown created @ '' last_used='' @ shown last_used
         @ '' rate_limit_rpm='' @ (case kr_rate_limit_rpm row of Some n \<Rightarrow> int_str n | None \<Rightarrow> ''default''))))"

fun list_lines :: "api_key_record list \<Rightarrow> printed list \<times> unit res" where
  "list_lines [] = ([], Inr ())"
| "list_lines (row # rows) =
     (case list_line row of
        Inl e \<Rightarrow> ([], Inl e)
      | Inr line \<Rightarrow> (let (printed, r) = list_lines rows in (Line line # printed, r)))"

definition handle_list :: "bool \<Rightarrow> bool \<Rightarrow> key_store \<Rightarrow> handled" where
  "handle_list include_all as_json st =
     (let rows = list_keys include_all st in
      if as_json then
        (case rmap_list record_to_json rows of
           Inl e \<Rightarrow> ([], Inl e, st)
         | Inr keys \<Rightarrow> ([Json (JObj [(''ok'', JBool True), (''count'', JInt (int (length rows))), (''keys'', JList keys)])], Inr (), st))
      else if rows = [] then ([Line ''No API keys found.''], Inr (), st)
      else (let (printed, r) = list_lines rows in (printed, r, st)))"

fun delete_status_value :: "delete_status \<Rightarrow> string" where
  "delete_status_value DELETED = ''deleted''"
| "delete_status_value ALREADY_DELETED = ''already_deleted''"
| "delete_status_value NOT_FOUND = ''not_found''"

fun deletion_line :: "delete_status \<Rightarrow> string \<Rightarrow> string" where
  "deletion_line DELETED p = ''Deleted API key '' @ p @ ''.''"
| "deletion_line ALREADY_DELETED p = ''API key '' @ p @ '' is already deleted.''"
| "deletion_line NOT_FOUND p = ''API key '' @ p @ '' not found.''"

definition handle_delete :: "tool_env \<Rightarrow> string \<Rightarrow> string option \<Rightarrow> bool \<Rightarrow> key_store \<Rightarrow> handled" where
  "handle_delete env key_id reason as_json st =
     (let (result, st1) = delete_key (py_strip key_id) reason (te_now env) st in
      case optional_iso (dr_revoked_at result) of
        Inl e \<Rightarrow> ([], Inl e, st1)
      | Inr revoked \<Rightarrow>
          ([if as_json
            then Json (JObj [(''ok'', JBool True), (''id'', JStr (dr_public_id result)),
              (''status'', JStr (delete_status_value (dr_status result))), (''revoked_at'', json_of JInt (dr_revoked_at result)),
              (''revoked_at_iso'', json_of JStr revoked), (''reason'', json_of JStr (dr_revoked_reason result))])
            else Line (deletion_line (dr_status result) (dr_public_id result))], Inr (), st1))"

definition handle_set_rate_limit :: "string \<Rightarrow> int \<Rightarrow> bool \<Rightarrow> key_store \<Rightarrow> handled" where
  "handle_set_rate_limit arg rpm as_json st =
     (let key_id = py_strip arg in
      case set_key_rate_limit key_id rpm st of
        (Inl e, st1) \<Rightarrow> ([], Inl e, st1)
      | (Inr updated, st1) \<Rightarrow>
          ([if as_json
            then Json (JObj [(''ok'', JBool True), (''id'', JStr key_id),
              (''status'', JStr (if updated then ''updated'' else ''not_found'')),
              (''rate_limit_rpm'', if updated then JInt rpm else JNull)])
            else if updated then Line (''Set API key '' @ key_id @ '' rate limit override to '' @ int_str rpm @ '' rpm.'')
            else Line (''API key '' @ key_id @ '' not found.'')], Inr (), st1))"

fun handle :: "(string \<Rightarrow> string) \<Rightarrow> tool_env \<Rightarrow> command \<Rightarrow> key_store \<Rightarrow> handled" where
  "handle sha env (Generate label j) st = handle_generate sha env label j st"
| "handle sha env (List_keys a j) st = handle_list a j st"
| "handle sha env (Delete key_id reason j) st = handle_delete env key_id reason j st"
| "handle sha env (Set_rate_limit key_id rpm j) st = handle_set_rate_limit key_id rpm j st"

text \<open>The exit code, or the exception that ends the program; standard output, standard error and the store.\<close>

record tool_run =
  tl_exit :: "int res"
  tl_out :: "printed list"
  tl_err :: "string list"
  tl_store :: key_store

definition api_key_main :: "(string \<Rightarrow> string) \<Rightarrow> tool_env \<Rightarrow> command \<Rightarrow> key_store \<Rightarrow> tool_run" where
  "api_key_main sha env cmd st =
     (let (printed, r, st1) = handle sha env cmd (ApiKeyStore (ks_keys st) (ks_windows st)) in
      case r of
        Inr _ \<Rightarrow> \<lparr>tl_exit = Inr 0, tl_out = printed, tl_err = [], tl_store = st1\<rparr>
      | Inl (ValueError m) \<Rightarrow>
          if arg_json cmd
          then \<lparr>tl_exit = Inr 1,
                tl_out = printed @ [Json (JObj [(''ok'', JBool False), (''error'', JStr ''VALUE_ERROR''), (''message'', JStr m)])],
                tl_err = [], tl_store = st1\<rparr>
          else \<lparr>tl_exit = Inr 1, tl_out = printed, tl_err = [m], tl_store = st1\<rparr>
      | Inl e \<Rightarrow> \<lparr>tl_exit = Inl e, tl_out = printed, tl_err = [], tl_store = st1\<rparr>)"

section \<open>Lemmas\<close>

lemma resolved_label:
  "resolve_label label entered = (pre, Inr l) \<Longrightarrow> l \<noteq> [] \<and> (\<exists>t. l = py_strip t)"
  by (auto simp: resolve_label_def split: if_splits option.splits)

text \<open>Every command is at most one operation of the store.\<close>

inductive handled_store :: "(string \<Rightarrow> string) \<Rightarrow> tool_env \<Rightarrow> key_store \<Rightarrow> key_store \<Rightarrow> bool" for sha env st where
  unchanged: "handled_store sha env st st"
| issued: "handled_store sha env st (snd (issue_key sha l (te_public_id env) (te_secret env) (te_now env) st))"
| deleted: "handled_store sha env st (snd (delete_key p reason (te_now env) st))"
| limited: "handled_store sha env st (snd (set_key_rate_limit p n st))"

lemma handle_store: "handled_store sha env st (snd (snd (handle sha env cmd st)))"
proof (cases cmd)
  case (Generate label j)
  obtain pre r where r: "resolve_label label (te_entered env) = (pre, r)" by fastforce
  have "handled_store sha env st (snd (snd (handle_generate sha env label j st)))"
  proof (cases r)
    case (Inr l)
    have "snd (snd (handle_generate sha env label j st)) = snd (issue_key sha l (te_public_id env) (te_secret env) (te_now env) st)"
      by (simp add: handle_generate_def r Inr split: prod.splits sum.splits)
    then show ?thesis using issued[of sha env st l] by simp
  qed (simp add: handle_generate_def r unchanged)
  then show ?thesis using Generate by simp
next
  case (List_keys a j)
  then show ?thesis by (auto simp: handle_list_def Let_def split: prod.splits sum.splits intro: unchanged)
next
  case (Delete p reason j)
  have "snd (snd (handle_delete env p reason j st)) = snd (delete_key (py_strip p) reason (te_now env) st)"
    by (simp add: handle_delete_def split: prod.splits sum.splits)
  then show ?thesis using Delete deleted[of sha env st] by simp
next
  case (Set_rate_limit p n j)
  have "snd (snd (handle_set_rate_limit p n j st)) = snd (set_key_rate_limit (py_strip p) n st)"
    by (simp add: handle_set_rate_limit_def Let_def split: prod.splits sum.splits)
  then show ?thesis using Set_rate_limit limited[of sha env st] by simp
qed

lemma main_store [simp]:
  "tl_store (api_key_main sha env cmd st) = snd (snd (handle sha env cmd (ApiKeyStore (ks_keys st) (ks_windows st))))"
  by (simp add: api_key_main_def Let_def split: prod.splits sum.splits exc.splits)

lemma handled_step: "handled_store sha env st st' \<Longrightarrow> (store_step sha)\<^sup>*\<^sup>* st st'"
  by (induction rule: handled_store.induct) (auto intro: store_step.intros)

lemma main_steps: "(store_step sha)\<^sup>*\<^sup>* st (tl_store (api_key_main sha env cmd st))"
  using handled_step[OF handle_store] store_step.reopen[of sha st] by (auto intro: converse_rtranclp_into_rtranclp)

text \<open>A key, once in the table, stays there, and no id is there twice.\<close>

lemma store_step_known:
  "store_step sha st st' \<Longrightarrow> map_of (ks_keys st) p \<noteq> None \<Longrightarrow> map_of (ks_keys st') p \<noteq> None"
  by (induction rule: store_step.induct)
     (auto simp: issue_key_def delete_key_def set_key_rate_limit_def authenticate_request_headers_def authenticate_key_def
        ApiKeyStore_def map_of_update_key Let_def map_add_def split: sum.splits option.splits)

lemma store_step_distinct: "store_step sha st st' \<Longrightarrow> distinct (map fst (ks_keys st)) \<Longrightarrow> distinct (map fst (ks_keys st'))"
  by (induction rule: store_step.induct)
     (auto simp: issue_key_def delete_key_def set_key_rate_limit_def authenticate_request_headers_def authenticate_key_def
        ApiKeyStore_def Let_def map_of_eq_None_iff split: sum.splits option.splits)

lemma store_steps_known:
  "(store_step sha)\<^sup>*\<^sup>* st st' \<Longrightarrow> map_of (ks_keys st) p \<noteq> None \<Longrightarrow> map_of (ks_keys st') p \<noteq> None"
  by (induction rule: rtranclp_induct) (blast dest: store_step_known)+

lemma store_steps_distinct:
  "(store_step sha)\<^sup>*\<^sup>* st st' \<Longrightarrow> distinct (map fst (ks_keys st)) \<Longrightarrow> distinct (map fst (ks_keys st'))"
  by (induction rule: rtranclp_induct) (blast dest: store_step_distinct)+

lemma store_steps_revoked: "(store_step sha)\<^sup>*\<^sup>* st st' \<Longrightarrow> revoked_key st p \<Longrightarrow> revoked_key st' p"
  by (induction rule: rtranclp_induct) (blast dest: store_step_revoked)+

lemma revoked_key_rejected:
  assumes "revoked_key st p" "parse_key key = Some (p, secret)"
  shows "authenticate_key sha key now st = (auth_failure REVOKED, st)"
  using assms by (auto simp: revoked_key_def authenticate_key_def auth_row_failure_reason_def)

lemma delete_key_revokes: "map_of (ks_keys st) p \<noteq> None \<Longrightarrow> revoked_key (snd (delete_key p reason now st)) p"
  by (auto simp: revoked_key_def delete_key_def map_of_update_key split: option.splits)

text \<open>The key a run shows.\<close>

definition shows_key :: "printed list \<Rightarrow> string \<Rightarrow> bool" where
  "shows_key out key \<longleftrightarrow>
     Line (''key: '' @ key) \<in> set out \<or> (\<exists>fields. Json (JObj fields) \<in> set out \<and> map_of fields ''key'' = Some (JStr key))"

lemma exit_zero:
  "tl_exit (api_key_main sha env cmd st) = Inr 0 \<longleftrightarrow>
     fst (snd (handle sha env cmd (ApiKeyStore (ks_keys st) (ks_windows st)))) = Inr ()"
  by (auto simp: api_key_main_def Let_def split: prod.splits sum.splits exc.splits)

lemma exit_zero_out:
  "tl_exit (api_key_main sha env cmd st) = Inr 0 \<Longrightarrow>
     tl_out (api_key_main sha env cmd st) = fst (handle sha env cmd (ApiKeyStore (ks_keys st) (ks_windows st)))"
  by (auto simp: api_key_main_def Let_def split: prod.splits sum.splits exc.splits if_splits)

lemma generated_shown: "shows_key (pre @ generated_output j issued created) (ai_key issued)"
proof (cases j)
  case True
  let ?fields = "[(''ok'', JBool True), (''id'', JStr (ai_public_id issued)), (''label'', JStr (ai_label issued)),
              (''key_prefix'', JStr (ai_key_prefix issued)), (''created_at'', JInt (ai_created_at issued)),
              (''created_at_iso'', json_of JStr created), (''key'', JStr (ai_key issued))]"
  have "Json (JObj ?fields) \<in> set (pre @ generated_output j issued created)" "map_of ?fields ''key'' = Some (JStr (ai_key issued))"
    using True by (simp_all add: generated_output_def)
  then show ?thesis unfolding shows_key_def by blast
qed (simp add: shows_key_def generated_output_def)

lemma issue_key_outcome:
  "issue_key sha l p secret now st = (Inr issued, st') \<Longrightarrow>
     map_of (ks_keys st') p \<noteq> None \<and> ai_key issued = KEY_PREFIX @ p @ ''.'' @ secret"
  by (auto simp: issue_key_def Let_def map_add_def split: sum.splits if_splits option.splits)

lemma generate_outcome:
  assumes "tl_exit (api_key_main sha env (Generate label j) st) = Inr 0"
  obtains l issued where
    "issue_key sha l (te_public_id env) (te_secret env) (te_now env) (ApiKeyStore (ks_keys st) (ks_windows st))
       = (Inr issued, tl_store (api_key_main sha env (Generate label j) st))"
    "shows_key (tl_out (api_key_main sha env (Generate label j) st)) (ai_key issued)"
proof -
  let ?st = "ApiKeyStore (ks_keys st) (ks_windows st)"
  obtain pre r where r: "resolve_label label (te_entered env) = (pre, r)" by fastforce
  have ok: "fst (snd (handle_generate sha env label j ?st)) = Inr ()" using assms by (simp add: exit_zero)
  then obtain l where l: "r = Inr l" by (cases r) (auto simp: handle_generate_def r)
  obtain q st1 where i: "issue_key sha l (te_public_id env) (te_secret env) (te_now env) ?st = (q, st1)" by fastforce
  obtain issued where q: "q = Inr issued" using ok by (cases q) (auto simp: handle_generate_def r l i)
  obtain created where c: "optional_iso (Some (ai_created_at issued)) = Inr created"
    using ok by (auto simp: handle_generate_def r l i q split: sum.splits)
  have h: "handle_generate sha env label j ?st = (pre @ generated_output j issued created, Inr (), st1)"
    by (simp add: handle_generate_def r l i q c)
  have "shows_key (tl_out (api_key_main sha env (Generate label j) st)) (ai_key issued)"
    by (simp add: exit_zero_out[OF assms] h generated_shown)
  with i q h that show thesis by simp
qed

lemma delete_store:
  "tl_store (api_key_main sha env (Delete arg reason j) st)
     = snd (delete_key (py_strip arg) reason (te_now env) (ApiKeyStore (ks_keys st) (ks_windows st)))"
  by (simp add: handle_delete_def split: prod.splits sum.splits)

lemma reopened_known [simp]: "ks_keys (ApiKeyStore keys windows) = keys"
  by (simp add: ApiKeyStore_def)

text \<open>The dates of the years 1970 to 8307 can be printed.\<close>

definition datable :: "int \<Rightarrow> bool" where
  "datable t \<longleftrightarrow> 0 \<le> t \<and> t < 200000000000"

definition datable_opt :: "int option \<Rightarrow> bool" where
  "datable_opt v \<longleftrightarrow> (case v of None \<Rightarrow> True | Some t \<Rightarrow> datable t)"

lemma year_of_era:
  fixes doe :: int
  assumes "0 \<le> doe" "doe < 146097"
  shows "0 \<le> (doe - doe div 1460 + doe div 36524 - doe div 146096) div 365"
    "(doe - doe div 1460 + doe div 36524 - doe div 146096) div 365 \<le> 400"
proof -
  have "doe div 1460 * 1460 \<le> doe" by (metis div_mult_mod_eq add.commute le_add_same_cancel1 pos_mod_sign zero_less_numeral)
  moreover have "doe div 36524 \<ge> 0" "doe div 146096 * 146096 \<le> doe" "doe div 1460 \<ge> 0" "doe div 146096 \<ge> 0"
    using assms by linarith+
  ultimately have "0 \<le> doe - doe div 1460 + doe div 36524 - doe div 146096" by linarith
  then show "0 \<le> (doe - doe div 1460 + doe div 36524 - doe div 146096) div 365" by (simp add: pos_imp_zdiv_nonneg_iff)
  have "doe div 1460 \<ge> 0" "doe div 146096 \<ge> 0" "doe div 36524 \<le> 4" using assms by linarith+
  then have "doe - doe div 1460 + doe div 36524 - doe div 146096 \<le> 146101" using assms by linarith
  then show "(doe - doe div 1460 + doe div 36524 - doe div 146096) div 365 \<le> 400" by linarith
qed

lemma add_flag: "x + (if c then 1 else 0) = x \<or> x + (if c then 1 else 0) = x + (1 :: int)"
  by simp

lemma civil_year:
  fixes days :: int
  assumes "0 \<le> days" "days < 2314815"
  shows "1 \<le> fst (civil_date days)" "fst (civil_date days) \<le> 9999"
proof -
  define z where "z = days + 719468"
  define doe where "doe = z mod 146097"
  define yoe where "yoe = (doe - doe div 1460 + doe div 36524 - doe div 146096) div 365"
  have y: "fst (civil_date days) = yoe + z div 146097 * 400 \<or> fst (civil_date days) = yoe + z div 146097 * 400 + 1"
    unfolding civil_date_def Let_def z_def[symmetric] doe_def[symmetric] yoe_def[symmetric] fst_conv by (rule add_flag)
  have "0 \<le> doe" "doe < 146097" by (simp_all add: doe_def)
  note yoe = year_of_era[OF this, folded yoe_def]
  have "4 \<le> z div 146097" "z div 146097 \<le> 20" using assms unfolding z_def by linarith+
  then show "1 \<le> fst (civil_date days)" "fst (civil_date days) \<le> 9999" using y yoe by linarith+
qed

lemma datable_iso:
  assumes "datable t"
  shows "\<exists>s. epoch_to_iso t = Inr s"
proof -
  have "0 \<le> t div 86400" "t div 86400 < 2314815" using assms unfolding datable_def by linarith+
  from civil_year[OF this] show ?thesis
    by (cases "civil_date (t div 86400)") (simp add: epoch_to_iso_def Let_def)
qed

lemma datable_optional: "datable_opt v \<Longrightarrow> \<exists>s. optional_iso v = Inr s"
  using datable_iso by (auto simp: datable_opt_def optional_iso_def split: option.splits)

text \<open>All dates of a row.\<close>

definition row_datable :: "api_key_row \<Rightarrow> bool" where
  "row_datable row \<longleftrightarrow> datable (k_created_at row) \<and> datable_opt (k_last_used_at row) \<and> datable_opt (k_revoked_at row)
     \<and> datable_opt (k_expires_at row)"

text \<open>\<open>o[name]\<close> of an object.\<close>

definition json_item :: "string \<Rightarrow> json \<Rightarrow> json option" where
  "json_item name v = (case v of JObj items \<Rightarrow> map_of items name | _ \<Rightarrow> None)"

lemma record_to_json_id:
  assumes "row_datable row"
  shows "\<exists>v. record_to_json (api_key_record_from_row (p, row)) = Inr v \<and> json_item ''id'' v = Some (JStr p)"
proof -
  have "datable_opt (Some (k_created_at row))" using assms by (simp add: row_datable_def datable_opt_def)
  then show ?thesis using assms
    by (auto simp: row_datable_def record_to_json_def api_key_record_from_row_def json_item_def dest!: datable_optional)
qed

lemma records_to_json:
  assumes "\<forall>(p, row) \<in> set rows. row_datable row"
  shows "\<exists>objs. rmap_list record_to_json (map api_key_record_from_row rows) = Inr objs
    \<and> map (json_item ''id'') objs = map (\<lambda>(p, _). Some (JStr p)) rows"
  using assms
proof (induction rows)
  case (Cons e rows)
  obtain p row where e: "e = (p, row)" by fastforce
  then show ?case using Cons record_to_json_id[of row p] by auto
qed simp

text \<open>The rows \<open>list\<close> shows, in its order.\<close>

lemma listed_rows:
  obtains rows where "list_keys False st = map api_key_record_from_row rows"
    "mset rows = mset (filter (\<lambda>(_, row). k_revoked_at row = None) (ks_keys st))"
    "sorted (map (\<lambda>(_, row). - k_created_at row) rows)"
proof -
  let ?rows = "sort_key (\<lambda>(p, row). (- k_created_at row, p)) (filter (\<lambda>(_, row). False \<or> k_revoked_at row = None) (ks_keys st))"
  have "sorted (map (\<lambda>(p, row). (- k_created_at row, p)) ?rows)" by simp
  then have "sorted (map (\<lambda>(_, row). - k_created_at row) ?rows)"
    unfolding sorted_map by (rule sorted_wrt_mono_rel[rotated]) (auto simp: less_eq_prod_def split: prod.splits)
  then show thesis by (intro that[of ?rows]) (simp_all add: list_keys_def)
qed

lemma live_dom:
  assumes "distinct (map fst (ks_keys st))"
  shows "dom (live_keys st) = fst ` set (filter (\<lambda>(_, row). k_revoked_at row = None) (ks_keys st))"
proof -
  have "p \<in> dom (live_keys st) \<longleftrightarrow> (\<exists>row. map_of (ks_keys st) p = Some row \<and> k_revoked_at row = None)" for p
    by (simp add: domIff live_keys_def split: option.split)
  then have "p \<in> dom (live_keys st) \<longleftrightarrow> (\<exists>row. (p, row) \<in> set (ks_keys st) \<and> k_revoked_at row = None)" for p
    by (simp only: map_of_eq_Some_iff[OF assms])
  then show ?thesis by (intro set_eqI) (simp add: image_iff Bex_def)
qed

lemma distinct_filtered: "distinct (map fst d) \<Longrightarrow> distinct (map fst (filter P d))"
  by (rule distinct_map_filter)

text \<open>Deletion and generation under a datable clock end well once the store has done its part.\<close>

lemma delete_key_stamp:
  "datable now \<Longrightarrow> delete_key p reason now st = (r, st') \<Longrightarrow> st' \<noteq> st \<Longrightarrow> datable_opt (dr_revoked_at r)"
  by (auto simp: delete_key_def datable_opt_def split: option.splits)

lemma failed_handle:
  assumes "datable (te_now env)" "fst (snd (handle sha env cmd st)) = Inl e"
  shows "snd (snd (handle sha env cmd st)) = st"
proof (cases cmd)
  case (Generate label j)
  obtain pre r where r: "resolve_label label (te_entered env) = (pre, r)" by fastforce
  obtain created where c: "optional_iso (Some (te_now env)) = Inr created"
    using datable_optional[of "Some (te_now env)"] assms(1) by (auto simp: datable_opt_def)
  show ?thesis
  proof (cases r)
    case (Inr l)
    obtain q st1 where i: "issue_key sha l (te_public_id env) (te_secret env) (te_now env) st = (q, st1)" by fastforce
    show ?thesis
    proof (cases q)
      case (Inl e)
      then have "st1 = st" using i by (auto simp: issue_key_def Let_def split: sum.splits if_splits)
      then show ?thesis using Generate Inl by (simp add: handle_generate_def r Inr i)
    next
      case issued: (Inr issued)
      then have "ai_created_at issued = te_now env" using i by (auto simp: issue_key_def Let_def split: sum.splits if_splits)
      then show ?thesis using assms(2) Generate by (simp add: handle_generate_def r Inr i issued c)
    qed
  qed (simp add: Generate handle_generate_def r)
next
  case (List_keys a j)
  then show ?thesis by (auto simp: handle_list_def Let_def split: prod.splits sum.splits)
next
  case (Delete p reason j)
  obtain r st1 where d: "delete_key (py_strip p) reason (te_now env) st = (r, st1)" by fastforce
  show ?thesis
  proof (rule ccontr)
    assume "snd (snd (handle sha env cmd st)) \<noteq> st"
    then have "st1 \<noteq> st" using Delete d by (auto simp: handle_delete_def split: sum.splits)
    from datable_optional[OF delete_key_stamp[OF assms(1) d this]]
    show False using assms(2) Delete d by (auto simp: handle_delete_def)
  qed
next
  case (Set_rate_limit p n j)
  then show ?thesis using assms(2)
    by (auto simp: handle_set_rate_limit_def set_key_rate_limit_def Let_def split: if_splits)
qed

section \<open>Properties\<close>

text \<open>C39: The life of a key made with the tool: the key a successful \<open>generate\<close> prints is accepted as a bearer token
  and in the \<open>x-api-key\<close> header by the server on the same store, under the id of the key; and after \<open>delete\<close> was run on
  that id, whatever was done to the store before and is done afterwards, it is rejected as revoked for ever.\<close>

theorem generated_key_life_cycle:
  assumes "tl_exit (api_key_main sha env (Generate label j) st) = Inr 0"
    and "public_id_pattern (te_public_id env)" "te_secret env \<noteq> []" "list_all (\<lambda>c. \<not> py_isspace c) (te_secret env)"
    and "(store_step sha)\<^sup>*\<^sup>* (tl_store (api_key_main sha env (Generate label j) st)) st1"
    and "py_strip arg = te_public_id env"
    and "(store_step sha)\<^sup>*\<^sup>* (tl_store (api_key_main sha env' (Delete arg reason j') st1)) st2"
  shows "\<exists>key l. shows_key (tl_out (api_key_main sha env (Generate label j) st)) key
    \<and> fst (authenticate_request_headers sha (Some (''Bearer '' @ key)) x now (tl_store (api_key_main sha env (Generate label j) st)))
        = auth_success (te_public_id env) l None
    \<and> fst (authenticate_request_headers sha None (Some key) now (tl_store (api_key_main sha env (Generate label j) st)))
        = auth_success (te_public_id env) l None
    \<and> authenticate_key sha key later st2 = (auth_failure REVOKED, st2)"
proof -
  let ?p = "te_public_id env"
  let ?run = "api_key_main sha env (Generate label j) st"
  obtain l issued where i: "issue_key sha l ?p (te_secret env) (te_now env) (ApiKeyStore (ks_keys st) (ks_windows st)) = (Inr issued, tl_store ?run)"
    and out: "shows_key (tl_out ?run) (ai_key issued)" by (rule generate_outcome[OF assms(1)])
  have key: "parse_key (ai_key issued) = Some (?p, te_secret env)" and known: "map_of (ks_keys (tl_store ?run)) ?p \<noteq> None"
    using issue_key_outcome[OF i] parse_key_issued[OF assms(2,3)] by simp_all
  have "map_of (ks_keys st1) ?p \<noteq> None" using store_steps_known[OF assms(5) known] .
  then have "revoked_key (tl_store (api_key_main sha env' (Delete arg reason j') st1)) ?p"
    unfolding delete_store assms(6) by (intro delete_key_revokes) simp
  then have "authenticate_key sha (ai_key issued) later st2 = (auth_failure REVOKED, st2)"
    using store_steps_revoked[OF assms(7)] revoked_key_rejected[OF _ key] by blast
  then show ?thesis using issued_key_authenticates[OF i assms(2-4), of x now] out by blast
qed

definition example_tool_env :: tool_env where
  "example_tool_env = \<lparr>te_now = 1700000000, te_public_id = example_id, te_secret = ''s3cret'', te_entered = None\<rparr>"

definition example_generated :: tool_run where
  "example_generated = api_key_main (\<lambda>x. x) example_tool_env (Generate (Some '' ops '') False) example_store"

definition example_deleted :: tool_run where
  "example_deleted = api_key_main (\<lambda>x. x) example_tool_env (Delete ('' '' @ example_id) None True) (tl_store example_generated)"

lemma example_generated_exit: "tl_exit example_generated = Inr 0"
  by code_simp

theorem generated_key_life_cycle_witness:
  "\<exists>key. shows_key (tl_out example_generated) key
    \<and> authenticate_key (\<lambda>x. x) key 1700000009 (tl_store example_deleted) = (auth_failure REVOKED, tl_store example_deleted)"
proof -
  have h: "public_id_pattern (te_public_id example_tool_env)" "te_secret example_tool_env \<noteq> []"
    "list_all (\<lambda>c. \<not> py_isspace c) (te_secret example_tool_env)" "py_strip ('' '' @ example_id) = te_public_id example_tool_env"
    by code_simp+
  from generated_key_life_cycle[OF example_generated_exit[unfolded example_generated_def] h(1-3) rtranclp.rtrancl_refl h(4)
      rtranclp.rtrancl_refl, folded example_generated_def, of None 0 1700000009 example_tool_env None True]
  show ?thesis unfolding example_deleted_def by blast
qed

text \<open>A command that fails changes nothing: when the exit code is not 0, the tables are what they were, whatever the
  command; and the program exits with 1 only with the message of the mistake, as JSON when that was asked for.\<close>

theorem failed_command_changes_nothing:
  assumes "datable (te_now env)" "tl_exit (api_key_main sha env cmd st) \<noteq> Inr 0"
  shows "ks_keys (tl_store (api_key_main sha env cmd st)) = ks_keys st
    \<and> ks_windows (tl_store (api_key_main sha env cmd st)) = ks_windows st
    \<and> (\<forall>n. tl_exit (api_key_main sha env cmd st) = Inr n \<longrightarrow> n = 1
        \<and> (\<exists>m. if arg_json cmd
              then last (tl_out (api_key_main sha env cmd st))
                = Json (JObj [(''ok'', JBool False), (''error'', JStr ''VALUE_ERROR''), (''message'', JStr m)])
              else tl_err (api_key_main sha env cmd st) = [m]))"
proof -
  let ?h = "handle sha env cmd (ApiKeyStore (ks_keys st) (ks_windows st))"
  obtain e where e: "fst (snd ?h) = Inl e" using assms(2) by (cases "fst (snd ?h)") (simp_all add: exit_zero)
  have store: "tl_store (api_key_main sha env cmd st) = ApiKeyStore (ks_keys st) (ks_windows st)"
    using failed_handle[OF assms(1) e] by simp
  obtain printed st1 where h: "?h = (printed, Inl e, st1)" using e by (metis prod.collapse)
  show ?thesis unfolding store
    by (cases e) (auto simp: ApiKeyStore_def api_key_main_def h[unfolded ApiKeyStore_def])
qed

theorem failed_command_changes_nothing_witness:
  "let run = api_key_main (\<lambda>x. x) example_tool_env (Set_rate_limit example_id 0 False) (tl_store example_generated) in
   tl_exit run = Inr 1 \<and> ks_keys (tl_store run) = ks_keys (tl_store example_generated)"
proof -
  have h: "datable (te_now example_tool_env)"
    "tl_exit (api_key_main (\<lambda>x. x) example_tool_env (Set_rate_limit example_id 0 False) (tl_store example_generated)) = Inr 1"
    by (simp add: datable_def example_tool_env_def, code_simp)
  then show ?thesis
    using failed_command_changes_nothing[of example_tool_env "\<lambda>x. x" "Set_rate_limit example_id 0 False" "tl_store example_generated"]
    by (simp add: Let_def)
qed

text \<open>On every store the operations can reach, with dates of the years 1970 to 8307, \<open>list --json\<close> succeeds and shows
  each key that is not deleted exactly once, the newest first, and nothing else; their number is the count, and the tables
  are left as they are.\<close>

theorem list_shows_live_keys:
  assumes "(store_step sha)\<^sup>*\<^sup>* (ApiKeyStore [] []) st" "\<forall>(p, row) \<in> set (ks_keys st). row_datable row"
  shows "\<exists>ids objs. tl_exit (api_key_main sha env (List_keys False True) st) = Inr 0
    \<and> tl_out (api_key_main sha env (List_keys False True) st)
        = [Json (JObj [(''ok'', JBool True), (''count'', JInt (int (card (dom (live_keys st))))), (''keys'', JList objs)])]
    \<and> map (json_item ''id'') objs = map (\<lambda>p. Some (JStr p)) ids \<and> distinct ids \<and> set ids = dom (live_keys st)
    \<and> sorted (map (\<lambda>p. - k_created_at (the (map_of (ks_keys st) p))) ids)
    \<and> ks_keys (tl_store (api_key_main sha env (List_keys False True) st)) = ks_keys st"
proof -
  let ?st = "ApiKeyStore (ks_keys st) (ks_windows st)" and ?live = "filter (\<lambda>(_, row). k_revoked_at row = None) (ks_keys st)"
  have d: "distinct (map fst (ks_keys st))" using store_steps_distinct[OF assms(1)] by simp
  obtain rows where rows: "list_keys False ?st = map api_key_record_from_row rows" "mset rows = mset ?live"
    "sorted (map (\<lambda>(_, row). - k_created_at row) rows)" using listed_rows[of ?st] by auto
  have set_rows: "set rows = set ?live" using rows(2) by (metis set_mset_mset)
  then have "\<forall>(p, row) \<in> set rows. row_datable row" using assms(2) by auto
  from records_to_json[OF this] obtain objs where objs: "rmap_list record_to_json (list_keys False ?st) = Inr objs"
    "map (json_item ''id'') objs = map (\<lambda>(p, _). Some (JStr p)) rows" by (auto simp: rows(1))
  have "mset (map fst rows) = mset (map fst ?live)" using rows(2) by simp
  then have ids: "distinct (map fst rows)" using distinct_filtered[OF d] by (metis mset_eq_imp_distinct_iff)
  have dom: "set (map fst rows) = dom (live_keys st)" using live_dom[OF d] set_rows by simp
  then have card: "length rows = card (dom (live_keys st))" using distinct_card[OF ids] by simp
  have "map_of (ks_keys st) p = Some row" if "(p, row) \<in> set rows" for p row
    using that set_rows d by (auto intro: map_of_is_SomeI)
  then have eq: "map (\<lambda>p. - k_created_at (the (map_of (ks_keys st) p))) (map fst rows) = map (\<lambda>(_, row). - k_created_at row) rows"
    by auto
  then have srt: "sorted (map (\<lambda>p. - k_created_at (the (map_of (ks_keys st) p))) (map fst rows))" by (simp only: eq rows(3))
  have h: "handle sha env (List_keys False True) ?st
      = ([Json (JObj [(''ok'', JBool True), (''count'', JInt (int (card (dom (live_keys st))))), (''keys'', JList objs)])], Inr (), ?st)"
    using objs(1) rows(1) card by (simp add: handle_list_def)
  then have z: "tl_exit (api_key_main sha env (List_keys False True) st) = Inr 0" by (simp add: exit_zero)
  show ?thesis
    by (intro exI[of _ "map fst rows"] exI[of _ objs] conjI z) (use h exit_zero_out[OF z] objs(2) ids dom srt in \<open>auto simp: comp_def split_beta\<close>)
qed

theorem list_shows_live_keys_witness:
  "tl_exit (api_key_main (\<lambda>x. x) example_tool_env (List_keys False True) (tl_store example_generated)) = Inr 0
   \<and> (\<exists>objs. tl_out (api_key_main (\<lambda>x. x) example_tool_env (List_keys False True) (tl_store example_generated))
      = [Json (JObj [(''ok'', JBool True), (''count'', JInt (int (card (dom (live_keys (tl_store example_generated)))))), (''keys'', JList objs)])])"
proof -
  have "(store_step (\<lambda>x. x))\<^sup>*\<^sup>* (ApiKeyStore [] []) (tl_store example_generated)"
    unfolding example_generated_def example_store_def by (rule main_steps)
  moreover have "list_all (\<lambda>(p, row). row_datable row) (ks_keys (tl_store example_generated))" by code_simp
  then have "\<forall>(p, row) \<in> set (ks_keys (tl_store example_generated)). row_datable row" by (simp add: list_all_iff)
  ultimately show ?thesis using list_shows_live_keys[of "\<lambda>x. x" "tl_store example_generated" example_tool_env] by blast
qed

text \<open>The prompt of \<open>generate --json\<close> without a label stands on the standard output before the JSON.\<close>

lemma prompt_before_json:
  "handle sha env (Generate None True) st = (out, r, st') \<Longrightarrow> out \<noteq> [] \<and> hd out = Prompt ''Label: ''"
  by (auto simp: handle_generate_def resolve_label_def split: option.splits if_splits prod.splits sum.splits)

end
