(* ===== verification/Adapters.thy ===== *)
theory Adapters
  imports Domain "HOL-Library.Sublist"
begin

text \<open>
  Reading vaults from a chain: the RPC client (\<open>web3/client.py\<close>) and the ERC-4626 and Yearn v2
  adapters (\<open>vault/adapters\<close>). An RPC computation is a function of the client's state that
  returns a value or an exception and the new state (\<open>'a rpc\<close>). What the nodes answer is the
  environment's: \<open>ans\<close> gets the questions asked so far and the question. The ABI decoder of
  \<open>eth_abi\<close> is the parameter \<open>abi_lib\<close>. Bytes are numbers below 256.
\<close>

section \<open>The RPC client\<close>

text \<open>Values as \<open>web3\<close> returns them.\<close>

datatype rpc_value =
    RNone | RBool bool | RInt int | RStr string | RBytes "nat list"
  | RList "rpc_value list" | RDict "(string \<times> rpc_value) list" | ROther

datatype rpc_query =
    Q_chain_id int
  | Q_block_number int
  | Q_call (q_chain: int) (q_address: string) (q_abi: string) (q_fn: string) (q_args: "rpc_value list")

type_synonym rpc_answer = "rpc_query list \<Rightarrow> rpc_query \<Rightarrow> rpc_value res"

record rpc_client =
  rpc_clients :: "int list"
  rpc_verified :: "int list"
  rpc_history :: "rpc_query list"

type_synonym 'a rpc = "rpc_client \<Rightarrow> 'a res \<times> rpc_client"

record abi_lib =
  abi_decode_address :: "nat list \<Rightarrow> string option"
  abi_decode_uint256 :: "nat list \<Rightarrow> int option"

definition rpc_return :: "'a \<Rightarrow> 'a rpc" where "rpc_return x = (\<lambda>c. (Inr x, c))"
definition rpc_raise :: "exc \<Rightarrow> 'a rpc" where "rpc_raise e = (\<lambda>c. (Inl e, c))"
definition rpc_lift :: "'a res \<Rightarrow> 'a rpc" where "rpc_lift r = (\<lambda>c. (r, c))"

definition rpc_bind :: "'a rpc \<Rightarrow> ('a \<Rightarrow> 'b rpc) \<Rightarrow> 'b rpc" where
  "rpc_bind m f = (\<lambda>c. case m c of (Inl e, c') \<Rightarrow> (Inl e, c') | (Inr x, c') \<Rightarrow> f x c')"

text \<open>\<open>try: m except: handler\<close>; the handler says which exceptions it takes by re-raising the others.\<close>

definition rpc_try :: "'a rpc \<Rightarrow> (exc \<Rightarrow> 'a rpc) \<Rightarrow> 'a rpc" where
  "rpc_try m h = (\<lambda>c. case m c of (Inl e, c') \<Rightarrow> h e c' | (Inr x, c') \<Rightarrow> (Inr x, c'))"

definition AsyncRpcClient :: "(int, string) odict \<Rightarrow> rpc_client" where
  "AsyncRpcClient rpc_urls = \<lparr>rpc_clients = map fst rpc_urls, rpc_verified = [], rpc_history = []\<rparr>"

definition configured :: "rpc_client \<Rightarrow> int \<Rightarrow> bool" where
  "configured c chain_id = (chain_id \<in> set (rpc_clients c))"

definition ask :: "rpc_answer \<Rightarrow> rpc_query \<Rightarrow> rpc_value rpc" where
  "ask ans q = (\<lambda>c. (ans (rpc_history c) q, c\<lparr>rpc_history := q # rpc_history c\<rparr>))"

definition verify_client :: "rpc_answer \<Rightarrow> int \<Rightarrow> unit rpc" where
  "verify_client ans chain_id = (\<lambda>c.
     if \<not> configured c chain_id then
       (Inl (InvalidRequestError ''RPC_NOT_CONFIGURED'' (''No RPC configured for chain '' @ int_str chain_id)), c)
     else if chain_id \<in> set (rpc_verified c) then (Inr (), c)
     else case ask ans (Q_chain_id chain_id) c of
       (Inl e, c') \<Rightarrow>
         (Inl (if e = CancelledError then e
               else InvalidRequestError ''RPC_UNAVAILABLE'' (''RPC unavailable for chain '' @ int_str chain_id)), c')
     | (Inr actual, c') \<Rightarrow>
         if actual \<noteq> RInt chain_id then
           (Inl (InvalidRequestError ''RPC_CHAIN_MISMATCH'' (''RPC does not serve chain '' @ int_str chain_id)), c')
         else (Inr (), c'\<lparr>rpc_verified := chain_id # rpc_verified c'\<rparr>))"

definition rpc_call ::
    "eth_lib \<Rightarrow> rpc_answer \<Rightarrow> int \<Rightarrow> string \<Rightarrow> string \<Rightarrow> string \<Rightarrow> rpc_value list \<Rightarrow> rpc_value rpc" where
  "rpc_call eth ans chain_id address abi fn_name args =
     rpc_bind (verify_client ans chain_id) (\<lambda>_.
       case to_checksum_address eth address of
         None \<Rightarrow> rpc_raise (ValueError ''invalid address'')
       | Some checksum \<Rightarrow> ask ans (Q_call chain_id checksum abi fn_name args))"

definition block_number :: "rpc_answer \<Rightarrow> int \<Rightarrow> rpc_value rpc" where
  "block_number ans chain_id =
     rpc_bind (verify_client ans chain_id) (\<lambda>_. ask ans (Q_block_number chain_id))"

section \<open>Decoding\<close>

definition MAX_SAFE_TOKEN_DECIMALS :: int where "MAX_SAFE_TOKEN_DECIMALS = 77"

definition decode_token_decimals :: "nat list \<Rightarrow> int option" where
  "decode_token_decimals data =
     (if length data \<noteq> 32 \<or> list_ex (\<lambda>b. b \<noteq> 0) (butlast data) then None
      else let v = int (last data) in if v \<le> MAX_SAFE_TOKEN_DECIMALS then Some v else None)"

definition validate_token_decimals :: "rpc_value \<Rightarrow> int option" where
  "validate_token_decimals v =
     (case v of RInt n \<Rightarrow> if 0 \<le> n \<and> n \<le> MAX_SAFE_TOKEN_DECIMALS then Some n else None | _ \<Rightarrow> None)"

definition hex_val :: "char \<Rightarrow> nat option" where
  "hex_val c = (let n = char_code c in
     if is_dec_digit c then Some (n - 48)
     else if 97 \<le> n \<and> n \<le> 102 then Some (n - 87)
     else if 65 \<le> n \<and> n \<le> 70 then Some (n - 55) else None)"

definition ascii_space :: "char \<Rightarrow> bool" where
  "ascii_space c \<longleftrightarrow> char_code c \<in> {9, 10, 11, 12, 13, 32}"

text \<open>\<open>bytes.fromhex\<close>: pairs of hex digits, spaces between pairs.\<close>

fun bytes_fromhex :: "string \<Rightarrow> nat list option" where
  "bytes_fromhex [] = Some []"
| "bytes_fromhex [c] = (if ascii_space c then Some [] else None)"
| "bytes_fromhex (c # d # cs) =
     (if ascii_space c then bytes_fromhex (d # cs)
      else case (hex_val c, hex_val d) of
        (Some a, Some b) \<Rightarrow> map_option ((#) (16 * a + b)) (bytes_fromhex cs)
      | _ \<Rightarrow> None)"

text \<open>\<open>n.to_bytes(k, "big")\<close> for \<open>n < 256 ^ k\<close>.\<close>

fun to_bytes_be :: "nat \<Rightarrow> nat \<Rightarrow> nat list" where
  "to_bytes_be 0 n = []"
| "to_bytes_be (Suc k) n = to_bytes_be k (n div 256) @ [n mod 256]"

fun truthy :: "rpc_value \<Rightarrow> bool" where
  "truthy RNone = False"
| "truthy (RBool b) = b"
| "truthy (RInt n) = (n \<noteq> 0)"
| "truthy (RStr s) = (s \<noteq> [])"
| "truthy (RBytes b) = (b \<noteq> [])"
| "truthy (RList l) = (l \<noteq> [])"
| "truthy (RDict d) = (d \<noteq> [])"
| "truthy ROther = True"

definition rpc_get :: "(string \<times> rpc_value) list \<Rightarrow> string \<Rightarrow> rpc_value" where
  "rpc_get d k = (case map_of d k of None \<Rightarrow> RNone | Some v \<Rightarrow> v)"

definition return_data :: "rpc_value \<Rightarrow> nat list option" where
  "return_data v =
     (case v of
        RStr s \<Rightarrow> bytes_fromhex (if py_startswith s ''0x'' then drop 2 s else s)
      | RBytes b \<Rightarrow> Some b
      | _ \<Rightarrow> None)"

fun normalize_multicall_items :: "rpc_value list \<Rightarrow> (bool \<times> nat list option) list" where
  "normalize_multicall_items [] = []"
| "normalize_multicall_items (RDict d # vs) =
     (truthy (rpc_get d ''success''), return_data (rpc_get d ''returnData'')) # normalize_multicall_items vs"
| "normalize_multicall_items (RList (s # r # rest) # vs) =
     (truthy s, return_data r) # normalize_multicall_items vs"
| "normalize_multicall_items (v # vs) = normalize_multicall_items vs"

definition normalize_multicall_result :: "rpc_value \<Rightarrow> (bool \<times> nat list option) list" where
  "normalize_multicall_result v = (case v of RList vs \<Rightarrow> normalize_multicall_items vs | _ \<Rightarrow> [])"

definition normalize_vault_address :: "eth_lib \<Rightarrow> rpc_value \<Rightarrow> string option" where
  "normalize_vault_address eth v = (case v of RStr s \<Rightarrow> to_checksum_address eth s | _ \<Rightarrow> None)"

text \<open>\<open>Web3.to_checksum_address(vault_address)\<close> raises when the vault's address has no checksum form.\<close>

definition normalize_underlying_address :: "eth_lib \<Rightarrow> rpc_value \<Rightarrow> string \<Rightarrow> string option res" where
  "normalize_underlying_address eth v vault_address =
     (case normalize_vault_address eth v of
        None \<Rightarrow> Inr None
      | Some u \<Rightarrow> (case to_checksum_address eth vault_address of
            None \<Rightarrow> Inl (ValueError ''invalid address'')
          | Some a \<Rightarrow> Inr (if u = a then None else Some u)))"

definition decode_address :: "eth_lib \<Rightarrow> abi_lib \<Rightarrow> nat list \<Rightarrow> rpc_value" where
  "decode_address eth abi data =
     (case abi_decode_address abi data of
        None \<Rightarrow> RNone
      | Some a \<Rightarrow> (case normalize_vault_address eth (RStr a) of None \<Rightarrow> RNone | Some c \<Rightarrow> RStr c))"

definition decode_uint256 :: "abi_lib \<Rightarrow> nat list \<Rightarrow> int option" where
  "decode_uint256 abi data =
     (case abi_decode_uint256 abi data of None \<Rightarrow> None | Some v \<Rightarrow> if v \<ge> 0 then Some v else None)"

abbreviation vault_data_error :: "string \<Rightarrow> exc" where
  "vault_data_error m \<equiv> InvalidRequestError ''INVALID_VAULT_DATA'' m"

definition decode_interface_address ::
    "eth_lib \<Rightarrow> abi_lib \<Rightarrow> string \<Rightarrow> (bool \<times> nat list option) list \<Rightarrow> string \<Rightarrow> string option res" where
  "decode_interface_address eth abi who decoded vault_address =
     (case decoded of
        [] \<Rightarrow> Inl (vault_data_error (who @ '' detection returned an invalid multicall response''))
      | (good, data) # _ \<Rightarrow>
          (case data of
             None \<Rightarrow> Inr None
           | Some d \<Rightarrow> if \<not> good then Inr None
               else normalize_underlying_address eth (decode_address eth abi d) vault_address))"

text \<open>\<open>int(v)\<close> of a value returned by a contract call.\<close>

definition int_of_rpc :: "rpc_value \<Rightarrow> int res" where
  "int_of_rpc v =
     (case v of
        RInt n \<Rightarrow> Inr n
      | RBool b \<Rightarrow> Inr (if b then 1 else 0)
      | RStr s \<Rightarrow> (case py_int_of_str s of None \<Rightarrow> Inl (ValueError s) | Some n \<Rightarrow> Inr n)
      | RBytes b \<Rightarrow> (if list_all (\<lambda>x. x < 128) b
          then (case py_int_of_str (map char_of b) of None \<Rightarrow> Inl (ValueError []) | Some n \<Rightarrow> Inr n)
          else Inl (ValueError []))
      | _ \<Rightarrow> Inl (TypeError ''int''))"

definition multicall_call :: "string \<Rightarrow> nat list \<Rightarrow> rpc_value" where
  "multicall_call target data = RList [RStr target, RBool True, RBytes data]"

abbreviation MulticallUnavailable :: exc where "MulticallUnavailable \<equiv> OtherException ''_MulticallUnavailable''"
abbreviation VaultInterfaceNotSupported :: exc where
  "VaultInterfaceNotSupported \<equiv> OtherException ''_VaultInterfaceNotSupported''"

definition aggregate3 :: "eth_lib \<Rightarrow> rpc_answer \<Rightarrow> int \<Rightarrow> string \<Rightarrow> rpc_value list \<Rightarrow> rpc_value rpc" where
  "aggregate3 eth ans chain_id multicall_address calls =
     rpc_call eth ans chain_id multicall_address ''multicall3.json'' ''aggregate3'' [RList calls]"

text \<open>
  \<open>detect\<close>, the same in both adapters: the multicall path first, single calls when it is
  unavailable or failed for a reason other than the vault's own data.
\<close>

definition detect_with_fallback :: "'v option rpc \<Rightarrow> 'v option rpc \<Rightarrow> 'v option rpc" where
  "detect_with_fallback multicall calls =
     rpc_try multicall (\<lambda>e.
       case e of
         InvalidRequestError t m \<Rightarrow> rpc_raise e
       | _ \<Rightarrow>
           if e = MulticallUnavailable then
             rpc_try calls (\<lambda>e2. if e2 = VaultInterfaceNotSupported then rpc_return None else rpc_raise e2)
           else if e = CancelledError then rpc_raise e
           else rpc_try calls (\<lambda>e2. if e2 = VaultInterfaceNotSupported then rpc_raise e else rpc_raise e2))"

text \<open>\<open>except InvalidRequestError: raise; except Exception: raise InvalidRequestError(...)\<close>.\<close>

definition wrap_vault_errors :: "string \<Rightarrow> 'v rpc \<Rightarrow> 'v rpc" where
  "wrap_vault_errors m body =
     rpc_try body (\<lambda>e. case e of
         InvalidRequestError t x \<Rightarrow> rpc_raise e
       | _ \<Rightarrow> if e = CancelledError then rpc_raise e else rpc_raise (vault_data_error m))"

definition interface_call :: "rpc_value rpc \<Rightarrow> rpc_value rpc" where
  "interface_call m =
     rpc_try m (\<lambda>e. if e = CancelledError then rpc_raise e else rpc_raise VaultInterfaceNotSupported)"

section \<open>ERC-4626\<close>

record erc4626_info =
  e4_vault_address :: string
  e4_underlying_token :: string
  e4_share_decimals :: int
  e4_underlying_decimals :: int
  e4_assets_per_share_unit :: int

definition e4_convert_shares_to_assets :: "erc4626_info \<Rightarrow> int \<Rightarrow> int" where
  "e4_convert_shares_to_assets v shares =
     (shares * e4_assets_per_share_unit v) div 10 ^ nat (e4_share_decimals v)"

definition e4_share_to_asset_rate_str :: "erc4626_info \<Rightarrow> string" where
  "e4_share_to_asset_rate_str v =
     int_str (e4_assets_per_share_unit v) @ ''/'' @ int_str (10 ^ nat (e4_underlying_decimals v))"

definition ERC4626_ASSET_SELECTOR :: "nat list" where "ERC4626_ASSET_SELECTOR = [0x38, 0xd5, 0x2e, 0x0f]"
definition ERC20_DECIMALS_SELECTOR :: "nat list" where "ERC20_DECIMALS_SELECTOR = [0x31, 0x3c, 0xe5, 0x67]"
definition ERC4626_CONVERT_TO_ASSETS_SELECTOR :: "nat list" where
  "ERC4626_CONVERT_TO_ASSETS_SELECTOR = [0x07, 0xa2, 0xd1, 0x3a]"
definition ERC4626_PREVIEW_REDEEM_SELECTOR :: "nat list" where
  "ERC4626_PREVIEW_REDEEM_SELECTOR = [0x4c, 0xda, 0xd5, 0x06]"

definition e4_detect_with_calls ::
    "eth_lib \<Rightarrow> rpc_answer \<Rightarrow> string \<Rightarrow> int \<Rightarrow> erc4626_info option rpc" where
  "e4_detect_with_calls eth ans vault_address chain_id =
     rpc_bind (interface_call (rpc_call eth ans chain_id vault_address ''erc4626.json'' ''asset'' [])) (\<lambda>raw.
     rpc_bind (rpc_lift (normalize_underlying_address eth raw vault_address)) (\<lambda>u.
     case u of
       None \<Rightarrow> rpc_raise VaultInterfaceNotSupported
     | Some underlying \<Rightarrow>
         wrap_vault_errors ''ERC-4626 vault data could not be resolved''
          (rpc_bind (rpc_call eth ans chain_id vault_address ''erc4626.json'' ''decimals'' []) (\<lambda>sraw.
           case validate_token_decimals sraw of
             None \<Rightarrow> rpc_raise (vault_data_error ''ERC-4626 vault returned invalid share decimals'')
           | Some share_decimals \<Rightarrow>
           rpc_bind (rpc_call eth ans chain_id underlying ''erc20.json'' ''decimals'' []) (\<lambda>uraw.
           let one_share = RInt (10 ^ nat share_decimals) in
           rpc_bind (rpc_try (rpc_call eth ans chain_id vault_address ''erc4626.json'' ''convertToAssets'' [one_share])
             (\<lambda>e. if e = CancelledError then rpc_raise e
                  else rpc_call eth ans chain_id vault_address ''erc4626.json'' ''previewRedeem'' [one_share])) (\<lambda>araw.
           rpc_bind (rpc_lift (int_of_rpc araw)) (\<lambda>assets_per_share.
           case validate_token_decimals uraw of
             None \<Rightarrow> rpc_raise (vault_data_error ''ERC-4626 vault returned invalid conversion data'')
           | Some underlying_decimals \<Rightarrow>
               if assets_per_share \<le> 0
               then rpc_raise (vault_data_error ''ERC-4626 vault returned invalid conversion data'')
               else rpc_return (Some \<lparr>e4_vault_address = vault_address, e4_underlying_token = underlying,
                      e4_share_decimals = share_decimals, e4_underlying_decimals = underlying_decimals,
                      e4_assets_per_share_unit = assets_per_share\<rparr>))))))))"

fun first_rate :: "abi_lib \<Rightarrow> (bool \<times> nat list option) list \<Rightarrow> int option" where
  "first_rate abi [] = None"
| "first_rate abi ((good, data) # rest) =
     (if \<not> good then first_rate abi rest
      else case data of
        None \<Rightarrow> first_rate abi rest
      | Some d \<Rightarrow> (case decode_uint256 abi d of
            Some v \<Rightarrow> if v > 0 then Some v else first_rate abi rest
          | None \<Rightarrow> first_rate abi rest))"

definition e4_conversion :: "abi_lib \<Rightarrow> string \<Rightarrow> string \<Rightarrow> int
    \<Rightarrow> (bool \<times> nat list option) list \<Rightarrow> erc4626_info option res" where
  "e4_conversion abi vault_address underlying share_decimals conversion =
     (if length conversion < 3
        then Inl (vault_data_error ''ERC-4626 conversion returned an invalid multicall response'')
      else case hd conversion of
        (True, Some data) \<Rightarrow>
          (case decode_token_decimals data of
             None \<Rightarrow> Inl (vault_data_error ''ERC-4626 underlying token returned malformed decimals'')
           | Some underlying_decimals \<Rightarrow>
               (case first_rate abi (tl conversion) of
                  None \<Rightarrow> Inl (vault_data_error ''ERC-4626 vault returned no valid share conversion'')
                | Some assets_per_share \<Rightarrow>
                    Inr (Some \<lparr>e4_vault_address = vault_address, e4_underlying_token = underlying,
                      e4_share_decimals = share_decimals, e4_underlying_decimals = underlying_decimals,
                      e4_assets_per_share_unit = assets_per_share\<rparr>)))
      | _ \<Rightarrow> Inl (vault_data_error ''ERC-4626 underlying token returned invalid decimals''))"

definition e4_detect_with_multicall ::
    "eth_lib \<Rightarrow> abi_lib \<Rightarrow> rpc_answer \<Rightarrow> string \<Rightarrow> int \<Rightarrow> erc4626_info option rpc" where
  "e4_detect_with_multicall eth abi ans vault_address chain_id =
     (case map_of MULTICALL3_BY_CHAIN chain_id of
        None \<Rightarrow> rpc_raise MulticallUnavailable
      | Some multicall_address \<Rightarrow>
        case to_checksum_address eth vault_address of
          None \<Rightarrow> rpc_raise (ValueError ''invalid address'')
        | Some checksum \<Rightarrow>
        rpc_bind (aggregate3 eth ans chain_id multicall_address
           [multicall_call checksum ERC4626_ASSET_SELECTOR, multicall_call checksum ERC20_DECIMALS_SELECTOR]) (\<lambda>raw.
        let decoded = normalize_multicall_result raw in
        rpc_bind (rpc_lift (decode_interface_address eth abi ''ERC-4626'' decoded checksum)) (\<lambda>u.
        case u of
          None \<Rightarrow> rpc_return None
        | Some underlying \<Rightarrow>
            if length decoded < 2
            then rpc_raise (vault_data_error ''ERC-4626 detection returned an invalid multicall response'')
            else case decoded ! 1 of
              (True, Some decimals_data) \<Rightarrow>
                (case decode_token_decimals decimals_data of
                   None \<Rightarrow> rpc_raise (vault_data_error ''ERC-4626 vault returned malformed metadata'')
                 | Some share_decimals \<Rightarrow>
                     let one_share = to_bytes_be 32 (10 ^ nat share_decimals) in
                     rpc_bind (aggregate3 eth ans chain_id multicall_address
                        [multicall_call underlying ERC20_DECIMALS_SELECTOR,
                         multicall_call checksum (ERC4626_CONVERT_TO_ASSETS_SELECTOR @ one_share),
                         multicall_call checksum (ERC4626_PREVIEW_REDEEM_SELECTOR @ one_share)]) (\<lambda>craw.
                     rpc_lift (e4_conversion abi vault_address underlying share_decimals
                       (normalize_multicall_result craw))))
            | _ \<Rightarrow> rpc_raise (vault_data_error ''ERC-4626 vault returned incomplete metadata''))))"

definition e4_detect :: "eth_lib \<Rightarrow> abi_lib \<Rightarrow> rpc_answer \<Rightarrow> string \<Rightarrow> int \<Rightarrow> erc4626_info option rpc" where
  "e4_detect eth abi ans vault_address chain_id =
     detect_with_fallback (e4_detect_with_multicall eth abi ans vault_address chain_id)
       (e4_detect_with_calls eth ans vault_address chain_id)"

section \<open>Yearn v2\<close>

record yearn_info =
  y2_vault_address :: string
  y2_underlying_token :: string
  y2_share_decimals :: int
  y2_underlying_decimals :: int
  y2_price_per_share :: int

definition y2_convert_shares_to_assets :: "yearn_info \<Rightarrow> int \<Rightarrow> int" where
  "y2_convert_shares_to_assets v shares =
     (shares * y2_price_per_share v) div 10 ^ nat (y2_share_decimals v)"

definition y2_share_to_asset_rate_str :: "yearn_info \<Rightarrow> string" where
  "y2_share_to_asset_rate_str v =
     int_str (y2_price_per_share v) @ ''/'' @ int_str (10 ^ nat (y2_underlying_decimals v))"

definition YEARN_TOKEN_SELECTOR :: "nat list" where "YEARN_TOKEN_SELECTOR = [0xfc, 0x0c, 0x54, 0x6a]"
definition YEARN_PRICE_PER_SHARE_SELECTOR :: "nat list" where
  "YEARN_PRICE_PER_SHARE_SELECTOR = [0x99, 0x53, 0x0b, 0x06]"

definition y2_detect_with_calls ::
    "eth_lib \<Rightarrow> rpc_answer \<Rightarrow> string \<Rightarrow> int \<Rightarrow> yearn_info option rpc" where
  "y2_detect_with_calls eth ans vault_address chain_id =
     rpc_bind (interface_call (rpc_call eth ans chain_id vault_address ''yearn_v2_vault.json'' ''token'' [])) (\<lambda>raw.
     rpc_bind (rpc_lift (normalize_underlying_address eth raw vault_address)) (\<lambda>u.
     case u of
       None \<Rightarrow> rpc_raise VaultInterfaceNotSupported
     | Some underlying \<Rightarrow>
         wrap_vault_errors ''Yearn v2 vault data could not be resolved''
          (rpc_bind (rpc_call eth ans chain_id vault_address ''yearn_v2_vault.json'' ''decimals'' []) (\<lambda>sraw.
           rpc_bind (rpc_call eth ans chain_id underlying ''erc20.json'' ''decimals'' []) (\<lambda>uraw.
           rpc_bind (rpc_call eth ans chain_id vault_address ''yearn_v2_vault.json'' ''pricePerShare'' []) (\<lambda>praw.
           rpc_bind (rpc_lift (int_of_rpc praw)) (\<lambda>price_per_share.
           case (validate_token_decimals sraw, validate_token_decimals uraw) of
             (Some share_decimals, Some underlying_decimals) \<Rightarrow>
               if price_per_share \<le> 0
               then rpc_raise (vault_data_error ''Yearn v2 vault returned invalid conversion data'')
               else rpc_return (Some \<lparr>y2_vault_address = vault_address, y2_underlying_token = underlying,
                      y2_share_decimals = share_decimals, y2_underlying_decimals = underlying_decimals,
                      y2_price_per_share = price_per_share\<rparr>)
           | _ \<Rightarrow> rpc_raise (vault_data_error ''Yearn v2 vault returned invalid conversion data''))))))))"

definition y2_underlying_decimals_of :: "(bool \<times> nat list option) list \<Rightarrow> int res" where
  "y2_underlying_decimals_of r =
     (case r of
        [] \<Rightarrow> Inl (vault_data_error ''Yearn v2 underlying returned an invalid multicall response'')
      | (True, Some data) # _ \<Rightarrow>
          (case decode_token_decimals data of
             None \<Rightarrow> Inl (vault_data_error ''Yearn v2 underlying token returned malformed decimals'')
           | Some d \<Rightarrow> Inr d)
      | _ \<Rightarrow> Inl (vault_data_error ''Yearn v2 underlying token returned invalid decimals''))"

definition y2_detect_with_multicall ::
    "eth_lib \<Rightarrow> abi_lib \<Rightarrow> rpc_answer \<Rightarrow> string \<Rightarrow> int \<Rightarrow> yearn_info option rpc" where
  "y2_detect_with_multicall eth abi ans vault_address chain_id =
     (case map_of MULTICALL3_BY_CHAIN chain_id of
        None \<Rightarrow> rpc_raise MulticallUnavailable
      | Some multicall_address \<Rightarrow>
        case to_checksum_address eth vault_address of
          None \<Rightarrow> rpc_raise (ValueError ''invalid address'')
        | Some checksum \<Rightarrow>
        rpc_bind (aggregate3 eth ans chain_id multicall_address
           [multicall_call checksum YEARN_TOKEN_SELECTOR, multicall_call checksum ERC20_DECIMALS_SELECTOR,
            multicall_call checksum YEARN_PRICE_PER_SHARE_SELECTOR]) (\<lambda>raw.
        let decoded = normalize_multicall_result raw in
        rpc_bind (rpc_lift (decode_interface_address eth abi ''Yearn v2'' decoded checksum)) (\<lambda>u.
        case u of
          None \<Rightarrow> rpc_return None
        | Some underlying \<Rightarrow>
            if length decoded < 3
            then rpc_raise (vault_data_error ''Yearn v2 detection returned an invalid multicall response'')
            else case (decoded ! 1, decoded ! 2) of
              ((True, Some decimals_data), (True, Some pps_data)) \<Rightarrow>
                (case (decode_token_decimals decimals_data, decode_uint256 abi pps_data) of
                   (Some share_decimals, Some price_per_share) \<Rightarrow>
                     if price_per_share \<le> 0
                     then rpc_raise (vault_data_error ''Yearn v2 vault returned malformed metadata'')
                     else
                       rpc_bind (aggregate3 eth ans chain_id multicall_address
                         [multicall_call underlying ERC20_DECIMALS_SELECTOR]) (\<lambda>draw.
                       rpc_bind (rpc_lift (y2_underlying_decimals_of (normalize_multicall_result draw))) (\<lambda>underlying_decimals.
                       rpc_return (Some \<lparr>y2_vault_address = vault_address, y2_underlying_token = underlying,
                         y2_share_decimals = share_decimals, y2_underlying_decimals = underlying_decimals,
                         y2_price_per_share = price_per_share\<rparr>)))
                 | _ \<Rightarrow> rpc_raise (vault_data_error ''Yearn v2 vault returned malformed metadata''))
            | _ \<Rightarrow> rpc_raise (vault_data_error ''Yearn v2 vault returned incomplete metadata''))))"

definition y2_detect :: "eth_lib \<Rightarrow> abi_lib \<Rightarrow> rpc_answer \<Rightarrow> string \<Rightarrow> int \<Rightarrow> yearn_info option rpc" where
  "y2_detect eth abi ans vault_address chain_id =
     detect_with_fallback (y2_detect_with_multicall eth abi ans vault_address chain_id)
       (y2_detect_with_calls eth ans vault_address chain_id)"

section \<open>Reasoning about RPC computations\<close>

text \<open>\<open>rpc_post m P\<close>: whatever \<open>m\<close> returns satisfies \<open>P\<close>; \<open>rpc_keeps I m\<close>: \<open>m\<close> keeps the invariant \<open>I\<close>
  of the client, whether it returns or raises.\<close>

named_theorems rpc_rules \<open>rules for results of RPC computations\<close>
named_theorems keep_rules \<open>rules for invariants of the RPC client\<close>

definition rpc_post :: "'a rpc \<Rightarrow> ('a \<Rightarrow> bool) \<Rightarrow> bool" where
  "rpc_post m P \<longleftrightarrow> (\<forall>c x c'. m c = (Inr x, c') \<longrightarrow> P x)"

definition rpc_keeps :: "(rpc_client \<Rightarrow> bool) \<Rightarrow> 'a rpc \<Rightarrow> bool" where
  "rpc_keeps I m \<longleftrightarrow> (\<forall>c. I c \<longrightarrow> I (snd (m c)))"

lemma rpc_postD: "rpc_post m P \<Longrightarrow> m c = (Inr x, c') \<Longrightarrow> P x"
  by (auto simp: rpc_post_def)

lemma post_return [rpc_rules]: "P x \<Longrightarrow> rpc_post (rpc_return x) P"
  by (simp add: rpc_post_def rpc_return_def)

lemma post_raise [rpc_rules]: "rpc_post (rpc_raise e) P"
  by (simp add: rpc_post_def rpc_raise_def)

lemma post_lift [rpc_rules]: "(\<And>x. r = Inr x \<Longrightarrow> P x) \<Longrightarrow> rpc_post (rpc_lift r) P"
  by (auto simp: rpc_post_def rpc_lift_def)

lemma post_bind_lift: "(\<And>x. r = Inr x \<Longrightarrow> rpc_post (f x) P) \<Longrightarrow> rpc_post (rpc_bind (rpc_lift r) f) P"
  by (auto simp: rpc_post_def rpc_bind_def rpc_lift_def split: sum.splits)

lemma post_bind: "(\<And>x. rpc_post (f x) P) \<Longrightarrow> rpc_post (rpc_bind m f) P"
  by (fastforce simp: rpc_post_def rpc_bind_def split: sum.splits prod.splits)

lemma post_try [rpc_rules]: "rpc_post m P \<Longrightarrow> (\<And>e. rpc_post (h e) P) \<Longrightarrow> rpc_post (rpc_try m h) P"
  by (fastforce simp: rpc_post_def rpc_try_def split: sum.splits prod.splits)

lemma post_wrap [rpc_rules]: "rpc_post m P \<Longrightarrow> rpc_post (wrap_vault_errors t m) P"
  by (auto simp: wrap_vault_errors_def intro!: rpc_rules split: exc.splits)

lemma post_detect: "rpc_post m P \<Longrightarrow> rpc_post k P \<Longrightarrow> P None \<Longrightarrow> rpc_post (detect_with_fallback m k) P"
  by (auto simp: detect_with_fallback_def intro!: rpc_rules split: exc.splits if_splits)

lemma keep_return [keep_rules]: "rpc_keeps I (rpc_return x)"
  by (simp add: rpc_keeps_def rpc_return_def)

lemma keep_raise [keep_rules]: "rpc_keeps I (rpc_raise e)"
  by (simp add: rpc_keeps_def rpc_raise_def)

lemma keep_lift [keep_rules]: "rpc_keeps I (rpc_lift r)"
  by (simp add: rpc_keeps_def rpc_lift_def)

lemma keep_bind [keep_rules]: "rpc_keeps I m \<Longrightarrow> (\<And>x. rpc_keeps I (f x)) \<Longrightarrow> rpc_keeps I (rpc_bind m f)"
  by (fastforce simp: rpc_keeps_def rpc_bind_def split: sum.splits prod.splits)

lemma keep_try [keep_rules]: "rpc_keeps I m \<Longrightarrow> (\<And>e. rpc_keeps I (h e)) \<Longrightarrow> rpc_keeps I (rpc_try m h)"
  by (fastforce simp: rpc_keeps_def rpc_try_def split: sum.splits prod.splits)

lemma keep_wrap [keep_rules]: "rpc_keeps I m \<Longrightarrow> rpc_keeps I (wrap_vault_errors t m)"
  by (auto simp: wrap_vault_errors_def intro!: keep_rules split: exc.splits)

lemma keep_detect [keep_rules]: "rpc_keeps I m \<Longrightarrow> rpc_keeps I k \<Longrightarrow> rpc_keeps I (detect_with_fallback m k)"
  by (auto simp: detect_with_fallback_def intro!: keep_rules split: exc.splits if_splits)

lemma keep_interface [keep_rules]: "rpc_keeps I m \<Longrightarrow> rpc_keeps I (interface_call m)"
  by (auto simp: interface_call_def intro!: keep_rules)

section \<open>What detection returns\<close>

definition sound_vault :: "eth_lib \<Rightarrow> string \<Rightarrow> string \<Rightarrow> int \<Rightarrow> int \<Rightarrow> int \<Rightarrow> bool" where
  "sound_vault eth vault underlying share_decimals underlying_decimals rate \<longleftrightarrow>
     is_address eth underlying \<and> to_checksum_address eth underlying = Some underlying
   \<and> to_checksum_address eth vault \<noteq> Some underlying
   \<and> 0 \<le> share_decimals \<and> share_decimals \<le> 77 \<and> 0 \<le> underlying_decimals \<and> underlying_decimals \<le> 77 \<and> 0 < rate"

lemma decode_token_decimals_range: "decode_token_decimals d = Some n \<Longrightarrow> 0 \<le> n \<and> n \<le> 77"
  by (auto simp: decode_token_decimals_def MAX_SAFE_TOKEN_DECIMALS_def Let_def split: if_splits)

lemma validate_token_decimals_range: "validate_token_decimals v = Some n \<Longrightarrow> 0 \<le> n \<and> n \<le> 77"
  by (auto simp: validate_token_decimals_def MAX_SAFE_TOKEN_DECIMALS_def split: rpc_value.splits if_splits)

lemma first_rate_pos: "first_rate abi r = Some v \<Longrightarrow> 0 < v"
  by (induction abi r rule: first_rate.induct) (auto split: if_splits option.splits)

lemma normalize_underlying_sound:
  assumes "eth_ok eth" "normalize_underlying_address eth v vault = Inr (Some u)"
  shows "is_address eth u \<and> to_checksum_address eth u = Some u \<and> to_checksum_address eth vault \<noteq> Some u"
proof -
  obtain a where a: "to_checksum_address eth a = Some u"
    using assms(2) by (auto simp: normalize_underlying_address_def normalize_vault_address_def
        split: option.splits rpc_value.splits if_splits)
  then have "is_address eth u" "to_checksum_address eth u = Some u" using assms(1) unfolding eth_ok_def by blast+
  with assms(2) show ?thesis
    by (auto simp: normalize_underlying_address_def split: option.splits if_splits)
qed

lemma decode_interface_sound:
  assumes "eth_ok eth" "decode_interface_address eth abi who decoded checksum = Inr (Some u)"
    "to_checksum_address eth vault = Some checksum"
  shows "is_address eth u \<and> to_checksum_address eth u = Some u \<and> to_checksum_address eth vault \<noteq> Some u"
proof -
  have "to_checksum_address eth checksum = Some checksum" using assms(1,3) unfolding eth_ok_def by blast
  moreover obtain v where "normalize_underlying_address eth v checksum = Inr (Some u)"
    using assms(2) by (auto simp: decode_interface_address_def split: list.splits option.splits if_splits)
  ultimately show ?thesis using normalize_underlying_sound[OF assms(1)] assms(3) by fastforce
qed

lemma e4_calls_sound:
  assumes "eth_ok eth"
  shows "rpc_post (e4_detect_with_calls eth ans vault chain_id) (\<lambda>r. \<forall>v. r = Some v \<longrightarrow>
    sound_vault eth vault (e4_underlying_token v) (e4_share_decimals v) (e4_underlying_decimals v) (e4_assets_per_share_unit v))"
  unfolding e4_detect_with_calls_def Let_def
  by (rule post_bind, rule post_bind_lift)
     (auto intro!: rpc_rules post_bind split: option.splits
       simp: sound_vault_def dest!: normalize_underlying_sound[OF assms] validate_token_decimals_range)

lemma e4_conversion_sound:
  assumes "e4_conversion abi vault u sd conv = Inr (Some v)" "0 \<le> sd" "sd \<le> 77"
    "is_address eth u \<and> to_checksum_address eth u = Some u \<and> to_checksum_address eth vault \<noteq> Some u"
  shows "sound_vault eth vault (e4_underlying_token v) (e4_share_decimals v) (e4_underlying_decimals v) (e4_assets_per_share_unit v)"
  using assms
  by (auto simp: e4_conversion_def sound_vault_def
      dest: decode_token_decimals_range first_rate_pos split: if_splits prod.splits option.splits bool.splits)

lemma e4_multicall_sound:
  assumes "eth_ok eth"
  shows "rpc_post (e4_detect_with_multicall eth abi ans vault chain_id) (\<lambda>r. \<forall>v. r = Some v \<longrightarrow>
    sound_vault eth vault (e4_underlying_token v) (e4_share_decimals v) (e4_underlying_decimals v) (e4_assets_per_share_unit v))"
  unfolding e4_detect_with_multicall_def Let_def
  by (auto intro!: rpc_rules post_bind post_bind_lift split: option.splits prod.splits bool.splits
       dest!: decode_interface_sound[OF assms] decode_token_decimals_range intro!: e4_conversion_sound)

lemma y2_calls_sound:
  assumes "eth_ok eth"
  shows "rpc_post (y2_detect_with_calls eth ans vault chain_id) (\<lambda>r. \<forall>v. r = Some v \<longrightarrow>
    sound_vault eth vault (y2_underlying_token v) (y2_share_decimals v) (y2_underlying_decimals v) (y2_price_per_share v))"
  unfolding y2_detect_with_calls_def Let_def
  by (rule post_bind, rule post_bind_lift)
     (auto intro!: rpc_rules post_bind split: option.splits
       simp: sound_vault_def dest!: normalize_underlying_sound[OF assms] validate_token_decimals_range)

lemma y2_underlying_decimals_range: "y2_underlying_decimals_of r = Inr d \<Longrightarrow> 0 \<le> d \<and> d \<le> 77"
  by (auto simp: y2_underlying_decimals_of_def dest: decode_token_decimals_range
      split: list.splits option.splits bool.splits prod.splits)

lemma y2_multicall_sound:
  assumes "eth_ok eth"
  shows "rpc_post (y2_detect_with_multicall eth abi ans vault chain_id) (\<lambda>r. \<forall>v. r = Some v \<longrightarrow>
    sound_vault eth vault (y2_underlying_token v) (y2_share_decimals v) (y2_underlying_decimals v) (y2_price_per_share v))"
  unfolding y2_detect_with_multicall_def Let_def
  by (auto intro!: rpc_rules post_bind post_bind_lift split: option.splits prod.splits bool.splits
       simp: sound_vault_def
       dest!: decode_interface_sound[OF assms] decode_token_decimals_range y2_underlying_decimals_range)

section \<open>The client's invariant\<close>

fun query_chain :: "rpc_query \<Rightarrow> int" where
  "query_chain (Q_chain_id k) = k"
| "query_chain (Q_block_number k) = k"
| "query_chain (Q_call k _ _ _ _) = k"

fun is_chain_query :: "rpc_query \<Rightarrow> bool" where
  "is_chain_query (Q_chain_id _) = True"
| "is_chain_query _ = False"

text \<open>Only configured chains are asked, and anything but its id only after the node said it serves the chain.\<close>

definition client_inv :: "rpc_answer \<Rightarrow> rpc_client \<Rightarrow> bool" where
  "client_inv ans c \<longleftrightarrow>
     (\<forall>q \<in> set (rpc_history c). configured c (query_chain q)
        \<and> (is_chain_query q \<or> query_chain q \<in> set (rpc_verified c)))
   \<and> (\<forall>k \<in> set (rpc_verified c). \<exists>h. suffix (Q_chain_id k # h) (rpc_history c) \<and> ans h (Q_chain_id k) = Inr (RInt k))"

lemma client_inv_ask:
  assumes "client_inv ans c" "configured c (query_chain q)" "is_chain_query q \<or> query_chain q \<in> set (rpc_verified c)"
  shows "client_inv ans (snd (ask ans q c))"
  using assms by (fastforce simp: client_inv_def ask_def configured_def intro: suffix_ConsI)

lemma verify_client_inv:
  assumes "client_inv ans c"
  shows "client_inv ans (snd (verify_client ans k c))"
    "fst (verify_client ans k c) = Inr u \<Longrightarrow> configured (snd (verify_client ans k c)) k \<and> k \<in> set (rpc_verified (snd (verify_client ans k c)))"
proof -
  obtain r c' where a: "ask ans (Q_chain_id k) c = (r, c')" by fastforce
  then have c': "c' = c\<lparr>rpc_history := Q_chain_id k # rpc_history c\<rparr>" "r = ans (rpc_history c) (Q_chain_id k)"
    by (auto simp: ask_def)
  have i: "configured c k \<Longrightarrow> client_inv ans c'" using client_inv_ask[OF assms, of "Q_chain_id k"] a by simp
  show "client_inv ans (snd (verify_client ans k c))"
  proof (cases "configured c k \<and> k \<notin> set (rpc_verified c) \<and> r = Inr (RInt k)")
    case True
    then have v: "snd (verify_client ans k c) = c'\<lparr>rpc_verified := k # rpc_verified c'\<rparr>"
      using a by (simp add: verify_client_def)
    show ?thesis unfolding v using i True c'
      by (auto simp: client_inv_def configured_def intro!: exI[of _ "rpc_history c"])
  next
    case False
    then show ?thesis using a i assms by (auto simp: verify_client_def split: sum.splits)
  qed
  show "fst (verify_client ans k c) = Inr u \<Longrightarrow>
      configured (snd (verify_client ans k c)) k \<and> k \<in> set (rpc_verified (snd (verify_client ans k c)))"
    using a c' by (auto simp: verify_client_def configured_def split: sum.splits if_splits)
qed

lemma keep_call [keep_rules]: "rpc_keeps (client_inv ans) (rpc_call eth ans k address abi fn args)"
proof -
  have "client_inv ans (snd (rpc_call eth ans k address abi fn args c))" if "client_inv ans c" for c
    using verify_client_inv[OF that, of k]
    by (auto simp: rpc_call_def rpc_bind_def rpc_raise_def intro!: client_inv_ask split: prod.splits sum.splits option.splits)
  then show ?thesis by (simp add: rpc_keeps_def)
qed

lemma keep_block_number [keep_rules]: "rpc_keeps (client_inv ans) (block_number ans k)"
proof -
  have "client_inv ans (snd (block_number ans k c))" if "client_inv ans c" for c
    using verify_client_inv[OF that, of k]
    by (auto simp: block_number_def rpc_bind_def intro!: client_inv_ask split: prod.splits sum.splits)
  then show ?thesis by (simp add: rpc_keeps_def)
qed

lemma keep_e4_detect [keep_rules]: "rpc_keeps (client_inv ans) (e4_detect eth abi ans vault chain_id)"
  unfolding e4_detect_def e4_detect_with_multicall_def e4_detect_with_calls_def aggregate3_def Let_def
  by (auto intro!: keep_rules split: option.splits prod.splits bool.splits)

lemma keep_y2_detect [keep_rules]: "rpc_keeps (client_inv ans) (y2_detect eth abi ans vault chain_id)"
  unfolding y2_detect_def y2_detect_with_multicall_def y2_detect_with_calls_def aggregate3_def Let_def
  by (auto intro!: keep_rules split: option.splits prod.splits bool.splits)

section \<open>Properties\<close>

text \<open>A vault the ERC-4626 or the Yearn v2 adapter reports, over the multicall or over single
  calls and whatever the node answers, is usable: its underlying token is a checksummed address
  other than the vault's own, both decimals lie between 0 and 77, and its rate is positive.\<close>

theorem detected_vaults_sound:
  assumes "eth_ok eth"
  shows "(e4_detect eth abi ans vault chain_id c = (Inr (Some v), c1) \<longrightarrow>
      sound_vault eth vault (e4_underlying_token v) (e4_share_decimals v) (e4_underlying_decimals v) (e4_assets_per_share_unit v))
    \<and> (y2_detect eth abi ans vault chain_id c = (Inr (Some w), c2) \<longrightarrow>
      sound_vault eth vault (y2_underlying_token w) (y2_share_decimals w) (y2_underlying_decimals w) (y2_price_per_share w))"
  unfolding e4_detect_def y2_detect_def
  using rpc_postD[OF post_detect[OF e4_multicall_sound[OF assms] e4_calls_sound[OF assms]]]
    rpc_postD[OF post_detect[OF y2_multicall_sound[OF assms] y2_calls_sound[OF assms]]]
  by fastforce

text \<open>
  A concrete \<open>eth_utils\<close>: addresses are 42 characters starting with \<open>0x\<close>, in lower case when
  checksummed.
\<close>

definition lower_eth :: eth_lib where
  "lower_eth = \<lparr>is_address = (\<lambda>a. length a = 42 \<and> take 2 (py_lower a) = ''0x''),
     to_checksum_address = (\<lambda>a. if length a = 42 \<and> take 2 (py_lower a) = ''0x'' then Some (py_lower a) else None)\<rparr>"

lemma lower_eth_ok: "eth_ok lower_eth"
  unfolding eth_ok_def
proof (intro conjI allI impI)
  fix a b assume eq: "py_lower a = py_lower b"
  have "length a = length b" using arg_cong[OF eq, of length] by simp
  with eq show "to_checksum_address lower_eth a = to_checksum_address lower_eth b"
    by (simp add: lower_eth_def)
qed (auto simp: lower_eth_def split: if_splits)

abbreviation addr :: "char \<Rightarrow> string" where "addr x \<equiv> ''0x'' @ replicate 40 x"

text \<open>A node that serves chain 1 and answers the single calls for one vault.\<close>

fun example_answers :: rpc_answer where
  "example_answers h (Q_chain_id k) = Inr (RInt 1)"
| "example_answers h (Q_block_number k) = Inr (RInt 9)"
| "example_answers h (Q_call k a abi fn args) =
     (if fn = ''asset'' then Inr (RStr (addr (CHR ''b'')))
      else if fn = ''decimals'' then Inr (RInt 6)
      else if fn = ''convertToAssets'' then Inr (RInt 1500000)
      else Inl (OtherException ''ContractLogicError''))"

definition no_abi :: abi_lib where
  "no_abi = \<lparr>abi_decode_address = (\<lambda>d. None), abi_decode_uint256 = (\<lambda>d. None)\<rparr>"

abbreviation example_client :: rpc_client where
  "example_client \<equiv> \<lparr>rpc_clients = [1], rpc_verified = [], rpc_history = []\<rparr>"

lemma example_detect:
  "fst (e4_detect lower_eth no_abi example_answers (addr (CHR ''a'')) 1 example_client) =
   Inr (Some \<lparr>e4_vault_address = addr (CHR ''a''), e4_underlying_token = addr (CHR ''b''), e4_share_decimals = 6,
     e4_underlying_decimals = 6, e4_assets_per_share_unit = 1500000\<rparr>)"
  by code_simp

theorem detected_vaults_sound_witness:
  "sound_vault lower_eth (addr (CHR ''a'')) (addr (CHR ''b'')) 6 6 1500000"
proof -
  let ?v = "\<lparr>e4_vault_address = addr (CHR ''a''), e4_underlying_token = addr (CHR ''b''), e4_share_decimals = 6,
        e4_underlying_decimals = 6, e4_assets_per_share_unit = 1500000\<rparr>"
  obtain c where "e4_detect lower_eth no_abi example_answers (addr (CHR ''a'')) 1 example_client = (Inr (Some ?v), c)"
    using example_detect by (metis prod.collapse)
  with detected_vaults_sound[OF lower_eth_ok, of no_abi example_answers "addr (CHR ''a'')" 1 example_client ?v c]
  show ?thesis by simp
qed

text \<open>The RPC client never mixes networks: whatever vault is looked up and however the lookup
  ends, only configured chains are asked, and a contract call or block number is asked only of
  a node that has said before that it serves the requested chain.\<close>

theorem rpc_never_mixes_networks:
  assumes "client_inv ans c"
  shows "client_inv ans (snd (e4_detect eth abi ans vault chain_id c))
    \<and> client_inv ans (snd (y2_detect eth abi ans vault chain_id c))
    \<and> client_inv ans (snd (block_number ans chain_id c))"
  using assms keep_e4_detect[of ans eth abi vault chain_id] keep_y2_detect[of ans eth abi vault chain_id]
    keep_block_number[of ans chain_id]
  by (simp add: rpc_keeps_def)

theorem rpc_never_mixes_networks_witness:
  "client_inv example_answers (snd (e4_detect lower_eth no_abi example_answers (addr (CHR ''a'')) 1 example_client))
   \<and> length (rpc_history (snd (e4_detect lower_eth no_abi example_answers (addr (CHR ''a'')) 1 example_client))) > 3"
proof -
  have "client_inv example_answers example_client" by (simp add: client_inv_def)
  moreover have "length (rpc_history (snd (e4_detect lower_eth no_abi example_answers (addr (CHR ''a'')) 1 example_client))) > 3"
    by code_simp
  ultimately show ?thesis using rpc_never_mixes_networks by blast
qed

end
