(* ===== verification/TextLines.thy ===== *)
theory TextLines
  imports Prelude
begin

text \<open>
  Lines and words of texts, as \<open>str.splitlines\<close>, \<open>str.split\<close>, \<open>in\<close>, \<open>str.replace\<close>, \<open>str.removeprefix\<close> and
  \<open>str.removesuffix\<close> give them, for the readers of files and the redaction of logs.
\<close>

definition is_line_break :: "char \<Rightarrow> bool" where
  "is_line_break c \<longleftrightarrow> char_code c \<in> {10, 11, 12, 13, 28, 29, 30, 133}"

fun py_splitlines :: "string \<Rightarrow> string list" where
  "py_splitlines [] = []"
| "py_splitlines [c] = (if is_line_break c then [[]] else [[c]])"
| "py_splitlines (c # d # cs) =
     (if c = CHR 0x0D \<and> d = CHR 0x0A then [] # py_splitlines cs
      else if is_line_break c then [] # py_splitlines (d # cs)
      else (case py_splitlines (d # cs) of [] \<Rightarrow> [[c]] | l # ls \<Rightarrow> (c # l) # ls))"

function py_words :: "string \<Rightarrow> string list" where
  "py_words s =
     (let t = dropWhile py_isspace s in
      if t = [] then [] else takeWhile (\<lambda>c. \<not> py_isspace c) t # py_words (dropWhile (\<lambda>c. \<not> py_isspace c) t))"
  by auto
termination
proof (relation "measure length")
  fix s t :: string
  assume t: "t = dropWhile py_isspace s" "t \<noteq> []"
  then have "\<not> py_isspace (hd t)" using hd_dropWhile[of py_isspace s] by simp
  then have "length (dropWhile (\<lambda>c. \<not> py_isspace c) t) < length t" using t(2)
    by (cases t) (auto simp: le_imp_less_Suc length_dropWhile_le)
  also have "length t \<le> length s" by (simp add: t(1) length_dropWhile_le)
  finally show "(dropWhile (\<lambda>c. \<not> py_isspace c) t, s) \<in> measure length" by simp
qed simp

declare py_words.simps [simp del]

text \<open>\<open>sub in s\<close>.\<close>

fun py_contains :: "string \<Rightarrow> string \<Rightarrow> bool" where
  "py_contains sub [] = (sub = [])"
| "py_contains sub (c # cs) = (py_startswith (c # cs) sub \<or> py_contains sub cs)"

definition py_endswith :: "string \<Rightarrow> string \<Rightarrow> bool" where
  "py_endswith s p \<longleftrightarrow> py_startswith (rev s) (rev p)"

definition py_removeprefix :: "string \<Rightarrow> string \<Rightarrow> string" where
  "py_removeprefix p s = (if py_startswith s p then drop (length p) s else s)"

definition py_removesuffix :: "string \<Rightarrow> string \<Rightarrow> string" where
  "py_removesuffix p s = (if py_endswith s p then take (length s - length p) s else s)"

section \<open>Lemmas\<close>

lemma is_line_break_space: "is_line_break c \<Longrightarrow> py_isspace c"
  by (auto simp: is_line_break_def py_isspace_def Let_def)

lemma splitlines_nonempty: "s \<noteq> [] \<Longrightarrow> py_splitlines s \<noteq> []"
  by (induction s rule: py_splitlines.induct) (auto split: list.splits)

text \<open>Lines ended by line feeds are read back.\<close>

lemma splitlines_line:
  assumes "list_all (\<lambda>c. \<not> is_line_break c) l"
  shows "py_splitlines (l @ CHR 0x0A # rest) = l # py_splitlines rest"
  using assms
proof (induction l)
  case Nil
  show ?case by (cases rest) (simp_all add: is_line_break_def)
next
  case (Cons c l)
  then have c: "\<not> is_line_break c" "c \<noteq> CHR 0x0D" by (auto simp: is_line_break_def)
  obtain d ds where "l @ CHR 0x0A # rest = d # ds" by (cases l) auto
  with Cons c show ?case by simp
qed

lemma splitlines_lines:
  assumes "\<forall>l \<in> set ls. list_all (\<lambda>c. \<not> is_line_break c) l"
  shows "py_splitlines (concat (map (\<lambda>l. l @ [CHR 0x0A]) ls)) = ls"
  using assms by (induction ls) (simp_all add: splitlines_line)

lemma contains_append: "py_contains sub s \<longleftrightarrow> (\<exists>a b. s = a @ sub @ b)"
proof (induction s)
  case (Cons c s)
  have "py_startswith (c # s) sub \<longleftrightarrow> (\<exists>b. c # s = sub @ b)"
    by (metis append_eq_conv_conj append_take_drop_id py_startswith_def)
  then show ?case unfolding py_contains.simps Cons.IH
    by (auto simp: append_eq_Cons_conv Cons_eq_append_conv)
qed auto

lemma contains_length: "py_contains sub s \<Longrightarrow> length sub \<le> length s"
  by (auto simp: contains_append)

end
