(* ===== verification/LogoSources.thy ===== *)
theory LogoSources
  imports MetadataCache Parsing
begin

text \<open>
  The sources of token logos (\<open>token_metadata/logo_sources.py\<close>): the reviewed list of sources, the policy on
  image URLs, the candidates of a token and the refresh of the token lists. \<open>urllib.parse.urlsplit\<close> is modelled
  as far as the policy looks at its result; \<open>ip_literal\<close> says what \<open>ipaddress\<close> accepts between brackets. What the
  network answers is a parameter, the URLs asked for are kept in a log.
\<close>

section \<open>\<open>urlsplit\<close>\<close>

record split_result =
  sp_scheme :: string
  sp_netloc :: string
  sp_path :: string
  sp_query :: string
  sp_fragment :: string

definition is_ascii_alpha :: "char \<Rightarrow> bool" where
  "is_ascii_alpha c = (let n = char_code c in 65 \<le> n \<and> n \<le> 90 \<or> 97 \<le> n \<and> n \<le> 122)"

definition is_scheme_char :: "char \<Rightarrow> bool" where
  "is_scheme_char c \<longleftrightarrow> is_ascii_alpha c \<or> is_dec_digit c \<or> List.member ''+-.'' c"

definition clean_url :: "string \<Rightarrow> string" where
  "clean_url url = filter (\<lambda>c. \<not> List.member [CHR 0x09, CHR 0x0D, CHR 0x0A] c) (dropWhile (\<lambda>c. char_code c \<le> 32) url)"

definition split_scheme :: "string \<Rightarrow> string \<times> string" where
  "split_scheme url =
     (let before = takeWhile (\<lambda>c. c \<noteq> CHR '':'') url in
      case before of
        [] \<Rightarrow> ([], url)
      | c # cs \<Rightarrow> if length before < length url \<and> is_ascii_alpha c \<and> list_all is_scheme_char before
                then (py_lower before, drop (length before + 1) url) else ([], url))"

text \<open>\<open>netloc.rpartition("@")\<close>: what is before the last separator, if there is one, and after it.\<close>

definition rpartition_at :: "string \<Rightarrow> string option \<times> string" where
  "rpartition_at s =
     (let after = rev (takeWhile (\<lambda>c. c \<noteq> CHR ''@'') (rev s)) in
      if length after < length s then (Some (take (length s - length after - 1) s), after) else (None, s))"

definition netloc_ok :: "(string \<Rightarrow> bool) \<Rightarrow> string \<Rightarrow> bool" where
  "netloc_ok ip_literal netloc =
     (let opens = List.member netloc (CHR ''[''); closes = List.member netloc (CHR '']'') in
      if opens \<noteq> closes then False
      else if \<not> opens then True
      else
        let hostinfo = snd (rpartition_at netloc) in
        if List.member hostinfo (CHR ''['') then
          let (before, bracketed) = py_partition (CHR ''['') hostinfo;
              (host, rest) = py_partition (CHR '']'') bracketed
          in before = [] \<and> (rest = [] \<or> py_startswith rest '':'') \<and> ip_literal host
        else ip_literal (fst (py_partition (CHR '':'') hostinfo)))"

definition urlsplit :: "(string \<Rightarrow> bool) \<Rightarrow> string \<Rightarrow> split_result option" where
  "urlsplit ip_literal url =
     (let (scheme, rest) = split_scheme (clean_url url);
          has_netloc = py_startswith rest ''//'';
          netloc = (if has_netloc then takeWhile (\<lambda>c. \<not> List.member ''/?#'' c) (drop 2 rest) else []);
          path = (if has_netloc then dropWhile (\<lambda>c. \<not> List.member ''/?#'' c) (drop 2 rest) else rest);
          (path, fragment) = py_partition (CHR ''#'') path;
          (path, query) = py_partition (CHR ''?'') path
      in if netloc_ok ip_literal netloc
         then Some \<lparr>sp_scheme = scheme, sp_netloc = netloc, sp_path = path, sp_query = query, sp_fragment = fragment\<rparr>
         else None)"

definition sp_username :: "split_result \<Rightarrow> string option" where
  "sp_username u = map_option (\<lambda>i. fst (py_partition (CHR '':'') i)) (fst (rpartition_at (sp_netloc u)))"

definition sp_password :: "split_result \<Rightarrow> string option" where
  "sp_password u = (case fst (rpartition_at (sp_netloc u)) of None \<Rightarrow> None
     | Some i \<Rightarrow> if List.member i (CHR '':'') then Some (snd (py_partition (CHR '':'') i)) else None)"

definition hostinfo :: "split_result \<Rightarrow> string \<times> string" where
  "hostinfo u =
     (let info = snd (rpartition_at (sp_netloc u)) in
      if List.member info (CHR ''['') then
        let (host, rest) = py_partition (CHR '']'') (snd (py_partition (CHR ''['') info))
        in (host, snd (py_partition (CHR '':'') rest))
      else py_partition (CHR '':'') info)"

definition sp_hostname :: "split_result \<Rightarrow> string option" where
  "sp_hostname u =
     (let host = fst (hostinfo u); name = takeWhile (\<lambda>c. c \<noteq> CHR ''%'') host in
      if host = [] then None else Some (py_lower name @ drop (length name) host))"

text \<open>\<open>parsed.port\<close>; the outer \<open>None\<close> is the \<open>ValueError\<close>.\<close>

definition sp_port :: "split_result \<Rightarrow> int option option" where
  "sp_port u =
     (let port = snd (hostinfo u) in
      if port = [] then Some None
      else if list_all is_dec_digit port then
        (case py_int_of_str port of None \<Rightarrow> None | Some n \<Rightarrow> if n \<le> 65535 then Some (Some n) else None)
      else None)"

definition safe_https_url :: "(string \<Rightarrow> bool) \<Rightarrow> string \<Rightarrow> split_result option" where
  "safe_https_url ip_literal url =
     (case urlsplit ip_literal url of
        None \<Rightarrow> None
      | Some parsed \<Rightarrow>
        (case sp_port parsed of
           None \<Rightarrow> None
         | Some port \<Rightarrow>
             if sp_scheme parsed \<noteq> ''https'' \<or> sp_hostname parsed = None \<or> sp_username parsed \<noteq> None
                \<or> sp_password parsed \<noteq> None \<or> \<not> List.member [None, Some 443] port \<or> sp_fragment parsed \<noteq> []
             then None else Some parsed))"

definition matches_exact_url :: "(string \<Rightarrow> bool) \<Rightarrow> string \<Rightarrow> string \<Rightarrow> bool" where
  "matches_exact_url ip_literal actual expected =
     (case safe_https_url ip_literal actual of None \<Rightarrow> False
      | Some parsed \<Rightarrow> actual = expected \<and> sp_query parsed = [])"

section \<open>The sources\<close>

datatype logo_source = YearnTokenAssetsSource | TrustWalletSource | CoinGeckoSource | SmolDappSource

fun source_id :: "logo_source \<Rightarrow> string" where
  "source_id YearnTokenAssetsSource = ''yearn_tokenassets''"
| "source_id TrustWalletSource = ''trustwallet''"
| "source_id CoinGeckoSource = ''coingecko''"
| "source_id SmolDappSource = ''smoldapp''"

fun metadata_url :: "logo_source \<Rightarrow> string option" where
  "metadata_url CoinGeckoSource = Some ''https://tokens.coingecko.com/ethereum/all.json''"
| "metadata_url source = None"

fun supports_chain :: "logo_source \<Rightarrow> int \<Rightarrow> bool" where
  "supports_chain YearnTokenAssetsSource chain_id = (chain_id > 0)"
| "supports_chain TrustWalletSource chain_id = (chain_id = 1)"
| "supports_chain CoinGeckoSource chain_id = (chain_id = 1)"
| "supports_chain SmolDappSource chain_id = (chain_id > 0)"

fun deterministic_candidate :: "eth_lib \<Rightarrow> logo_source \<Rightarrow> int \<Rightarrow> string \<Rightarrow> string option res" where
  "deterministic_candidate eth YearnTokenAssetsSource chain_id address =
     rbind (normalize_address eth address) (\<lambda>a.
       Inr (Some (''https://raw.githubusercontent.com/yearn/tokenAssets/main/'' @
         ''tokens/'' @ int_str chain_id @ ''/'' @ py_lower a @ ''/logo-128.png'')))"
| "deterministic_candidate eth TrustWalletSource chain_id address =
     (if \<not> supports_chain TrustWalletSource chain_id then Inr None
      else rbind (normalize_address eth address) (\<lambda>a.
        Inr (Some (''https://raw.githubusercontent.com/trustwallet/assets/master/'' @
          ''blockchains/ethereum/assets/'' @ a @ ''/logo.png''))))"
| "deterministic_candidate eth CoinGeckoSource chain_id address = Inr None"
| "deterministic_candidate eth SmolDappSource chain_id address =
     rbind (normalize_address eth address) (\<lambda>a.
       Inr (Some (''https://cdn.jsdelivr.net/gh/SmolDapp/tokenAssets@main/'' @
         ''tokens/'' @ int_str chain_id @ ''/'' @ py_lower a @ ''/logo-128.png'')))"

definition IMAGE_HOSTS :: "string list" where
  "IMAGE_HOSTS = [''assets.coingecko.com'', ''coin-images.coingecko.com'']"

definition is_image_path_char :: "char \<Rightarrow> bool" where
  "is_image_path_char c \<longleftrightarrow> is_ascii_alpha c \<or> is_dec_digit c \<or> List.member ''_./%-'' c"

text \<open>\<open>_IMAGE_PATH.fullmatch\<close>, which ignores case.\<close>

definition image_path_match :: "string \<Rightarrow> bool" where
  "image_path_match path =
     (let lowered = py_lower path; rest = drop 14 lowered in
      py_startswith lowered ''/coins/images/'' \<and>
      list_ex (\<lambda>ext. length rest > length ext \<and> drop (length rest - length ext) rest = ext
          \<and> list_all is_image_path_char (take (length rest - length ext) rest))
        [''.png'', ''.jpg'', ''.jpeg'', ''.webp''])"

fun allows_image_url :: "eth_lib \<Rightarrow> (string \<Rightarrow> bool) \<Rightarrow> logo_source \<Rightarrow> int \<Rightarrow> string \<Rightarrow> string \<Rightarrow> bool res" where
  "allows_image_url eth ip_literal CoinGeckoSource chain_id address url =
     (if \<not> supports_chain CoinGeckoSource chain_id then Inr False
      else Inr (case safe_https_url ip_literal url of
        None \<Rightarrow> False
      | Some parsed \<Rightarrow>
          (case sp_hostname parsed of None \<Rightarrow> False | Some h \<Rightarrow> List.member IMAGE_HOSTS h)
          \<and> image_path_match (sp_path parsed) \<and> \<not> List.member (sp_path parsed) (CHR ''%'')
          \<and> list_all (\<lambda>segment. segment \<noteq> ''.'' \<and> segment \<noteq> ''..'') (py_split_on (CHR ''/'') (sp_path parsed))))"
| "allows_image_url eth ip_literal source chain_id address url =
     rbind (deterministic_candidate eth source chain_id address) (\<lambda>expected.
       Inr (case expected of None \<Rightarrow> False | Some e \<Rightarrow> matches_exact_url ip_literal url e))"

text \<open>\<open>_parse_int\<close>: \<open>int\<close> raises on the digits it does not take and on more than 4300 of them.\<close>

definition parse_chain_id :: "json \<Rightarrow> int option res" where
  "parse_chain_id v =
     (case v of
        JInt n \<Rightarrow> Inr (Some n)
      | JStr s \<Rightarrow> if py_isdigit s then (case py_int_of_str s of None \<Rightarrow> Inl (ValueError s) | Some n \<Rightarrow> Inr (Some n))
                 else Inr None
      | _ \<Rightarrow> Inr None)"

text \<open>One entry of the token list: the identity and URL it contributes, if any.\<close>

definition read_token_entry ::
    "eth_lib \<Rightarrow> (string \<Rightarrow> bool) \<Rightarrow> int \<Rightarrow> string list \<Rightarrow> json \<Rightarrow> (string \<times> string) option res" where
  "read_token_entry eth ip_literal chain_id seen raw_token =
     (case raw_token of
        JObj d \<Rightarrow>
          rbind (parse_chain_id (json_get d ''chainId'')) (\<lambda>raw_chain_id.
            if (case raw_chain_id of None \<Rightarrow> False | Some n \<Rightarrow> n \<noteq> chain_id) then Inr None
            else case (parse_str (json_get d ''address''), parse_str (json_get d ''logoURI'')) of
              (Some raw_address, Some raw_url) \<Rightarrow>
                (case normalize_address eth raw_address of
                   Inl e \<Rightarrow> Inr None
                 | Inr address \<Rightarrow>
                     if List.member seen address then Inr None
                     else rbind (allows_image_url eth ip_literal CoinGeckoSource chain_id address raw_url) (\<lambda>allowed.
                       Inr (if allowed then Some (address, raw_url) else None)))
            | _ \<Rightarrow> Inr None)
      | _ \<Rightarrow> Inr None)"

fun read_token_entries ::
    "eth_lib \<Rightarrow> (string \<Rightarrow> bool) \<Rightarrow> int \<Rightarrow> json list \<Rightarrow> string list \<Rightarrow> source_entry list res" where
  "read_token_entries eth ip_literal chain_id [] seen = Inr []"
| "read_token_entries eth ip_literal chain_id (raw # raws) seen =
     rbind (read_token_entry eth ip_literal chain_id seen raw) (\<lambda>r.
       case r of
         None \<Rightarrow> read_token_entries eth ip_literal chain_id raws seen
       | Some (address, url) \<Rightarrow>
           rbind (read_token_entries eth ip_literal chain_id raws (address # seen)) (\<lambda>es.
             Inr (\<lparr>se_source = source_id CoinGeckoSource, se_chain_id = chain_id, se_address = address,
                   se_logo_url = url\<rparr> # es)))"

fun parse_metadata ::
    "eth_lib \<Rightarrow> (string \<Rightarrow> bool) \<Rightarrow> logo_source \<Rightarrow> int \<Rightarrow> json \<Rightarrow> source_entry list res" where
  "parse_metadata eth ip_literal CoinGeckoSource chain_id payload =
     (case payload of
        JObj d \<Rightarrow> (case json_get d ''tokens'' of
            JList raws \<Rightarrow> read_token_entries eth ip_literal chain_id raws []
          | _ \<Rightarrow> Inl (ValueError ''CoinGecko token list payload is missing its tokens array''))
      | _ \<Rightarrow> Inl (ValueError ''CoinGecko token list payload is missing its tokens array''))"
| "parse_metadata eth ip_literal source chain_id payload = Inr []"

definition LOGO_SOURCES :: "logo_source list" where
  "LOGO_SOURCES = [YearnTokenAssetsSource, TrustWalletSource, CoinGeckoSource, SmolDappSource]"

section \<open>The manager\<close>

record logo_candidate =
  lc_source :: string
  lc_url :: string

definition TokenLogoSourceManager :: "logo_source list \<Rightarrow> logo_source list res" where
  "TokenLogoSourceManager sources =
     (if \<not> distinct (map source_id sources) then Inl (ValueError ''logo source IDs must be unique'') else Inr sources)"

definition source_for_id :: "logo_source list \<Rightarrow> string \<Rightarrow> logo_source option" where
  "source_for_id sources i = map_of (map (\<lambda>s. (source_id s, s)) sources) i"

text \<open>The URLs of one source that are new and allowed, the new ones seen afterwards.\<close>

fun source_candidates ::
    "eth_lib \<Rightarrow> (string \<Rightarrow> bool) \<Rightarrow> logo_source \<Rightarrow> int \<Rightarrow> string \<Rightarrow> string option list \<Rightarrow> string list
     \<Rightarrow> (logo_candidate list \<times> string list) res" where
  "source_candidates eth ip_literal source chain_id address [] seen = Inr ([], seen)"
| "source_candidates eth ip_literal source chain_id address (None # urls) seen =
     source_candidates eth ip_literal source chain_id address urls seen"
| "source_candidates eth ip_literal source chain_id address (Some url # urls) seen =
     (if List.member seen url then source_candidates eth ip_literal source chain_id address urls seen
      else rbind (allows_image_url eth ip_literal source chain_id address url) (\<lambda>allowed.
        if \<not> allowed then source_candidates eth ip_literal source chain_id address urls seen
        else rbind (source_candidates eth ip_literal source chain_id address urls (url # seen)) (\<lambda>(cs, seen').
          Inr (\<lparr>lc_source = source_id source, lc_url = url\<rparr> # cs, seen'))))"

fun all_candidates ::
    "eth_lib \<Rightarrow> (string \<Rightarrow> bool) \<Rightarrow> int \<Rightarrow> string \<Rightarrow> (string, string) odict \<Rightarrow> logo_source list \<Rightarrow> string list
     \<Rightarrow> logo_candidate list res" where
  "all_candidates eth ip_literal chain_id address stored [] seen = Inr []"
| "all_candidates eth ip_literal chain_id address stored (source # sources) seen =
     (if \<not> supports_chain source chain_id then all_candidates eth ip_literal chain_id address stored sources seen
      else rbind (deterministic_candidate eth source chain_id address) (\<lambda>fixed.
        rbind (source_candidates eth ip_literal source chain_id address [fixed, map_of stored (source_id source)] seen)
          (\<lambda>(cs, seen'). rbind (all_candidates eth ip_literal chain_id address stored sources seen') (\<lambda>rest.
            Inr (cs @ rest)))))"

definition get_candidates ::
    "eth_lib \<Rightarrow> (string \<Rightarrow> bool) \<Rightarrow> logo_source list \<Rightarrow> int \<Rightarrow> string \<Rightarrow> metadata_db \<Rightarrow> logo_candidate list res" where
  "get_candidates eth ip_literal sources chain_id address db =
     rbind (normalize_address eth address) (\<lambda>normalized.
     rbind (get_logo_source_entries eth chain_id [normalized] db) (\<lambda>found.
       let stored = (case map_of found normalized of None \<Rightarrow> [] | Some es \<Rightarrow> es);
           stored_by_source = foldl (\<lambda>d e. AList.update (se_source e) (se_logo_url e) d) [] stored
       in all_candidates eth ip_literal chain_id normalized stored_by_source sources []))"

section \<open>Responses of the network\<close>

text \<open>A streamed response: the chunks of its body and the exception that ends it early, if any.\<close>

datatype fetch_error =
  Fetch_timeout | Fetch_remote_protocol | Fetch_network | Fetch_other_http | Fetch_exception exc

record stream_response =
  sr_status :: int
  sr_headers :: "(string \<times> string) list"
  sr_chunks :: "nat list list"
  sr_broken :: "fetch_error option"

datatype fetch = Responds stream_response | Fails fetch_error

text \<open>What a URL gives, the log of the URLs asked before (latest first) given.\<close>

type_synonym web = "string list \<Rightarrow> string \<Rightarrow> fetch"

fun fetch_exc :: "fetch_error \<Rightarrow> exc" where
  "fetch_exc Fetch_timeout = OtherException ''TimeoutException''"
| "fetch_exc Fetch_remote_protocol = OtherException ''RemoteProtocolError''"
| "fetch_exc Fetch_network = OtherException ''NetworkError''"
| "fetch_exc Fetch_other_http = OtherException ''HTTPError''"
| "fetch_exc (Fetch_exception e) = e"

text \<open>The body, \<open>None\<close> as soon as it is longer than the limit.\<close>

fun read_body :: "nat \<Rightarrow> nat list \<Rightarrow> nat list list \<Rightarrow> nat list option" where
  "read_body limit body [] = Some body"
| "read_body limit body (chunk # chunks) =
     (if length (body @ chunk) > limit then None else read_body limit (body @ chunk) chunks)"

section \<open>The refresh\<close>

definition MAX_METADATA_BYTES :: nat where "MAX_METADATA_BYTES = 8 * 1024 * 1024"

definition fetch_metadata ::
    "(string \<Rightarrow> bool) \<Rightarrow> (nat list \<Rightarrow> json option) \<Rightarrow> web \<Rightarrow> logo_source \<Rightarrow> string list \<Rightarrow> json res \<times> string list" where
  "fetch_metadata ip_literal loads web source asked =
     (case metadata_url source of
        None \<Rightarrow> (Inl (ValueError ''invalid fixed logo metadata endpoint''), asked)
      | Some url \<Rightarrow>
        if safe_https_url ip_literal url = None then (Inl (ValueError ''invalid fixed logo metadata endpoint''), asked)
        else
          (case web asked url of
             Fails e \<Rightarrow> Inl (fetch_exc e)
           | Responds r \<Rightarrow>
               if sr_status r \<noteq> 200 then Inl (ValueError (''metadata_http_'' @ int_str (sr_status r)))
               else if (case map_of (sr_headers r) ''content-length'' of None \<Rightarrow> False
                    | Some v \<Rightarrow> (case py_int_of_str v of None \<Rightarrow> False | Some n \<Rightarrow> n > int MAX_METADATA_BYTES))
                 then Inl (ValueError ''metadata_too_large'')
               else case read_body MAX_METADATA_BYTES [] (sr_chunks r) of
                   None \<Rightarrow> Inl (ValueError ''metadata_too_large'')
                 | Some body \<Rightarrow>
                     (case sr_broken r of
                        Some e \<Rightarrow> Inl (fetch_exc e)
                      | None \<Rightarrow> (case loads body of None \<Rightarrow> Inl (ValueError ''json'') | Some v \<Rightarrow> Inr v)),
           url # asked))"

record source_state =
  st_db :: metadata_db
  st_log :: "string list"

text \<open>
  One source on one chain: the number of entries when it was refreshed. \<open>others\<close> is what else happens to the
  store while the list is fetched. Only a cancellation leaves the method.
\<close>

definition refresh_source ::
    "eth_lib \<Rightarrow> (string \<Rightarrow> bool) \<Rightarrow> (nat list \<Rightarrow> json option) \<Rightarrow> ((string \<times> string) list \<Rightarrow> string) \<Rightarrow> web
     \<Rightarrow> (metadata_db \<Rightarrow> metadata_db) \<Rightarrow> int \<Rightarrow> int \<Rightarrow> bool \<Rightarrow> int \<Rightarrow> logo_source \<Rightarrow> source_state
     \<Rightarrow> nat option res \<times> source_state" where
  "refresh_source eth ip_literal loads revision web others now refresh_interval_ms force chain_id source st =
     (if metadata_url source = None \<or> \<not> supports_chain source chain_id then (Inr None, st)
      else if \<not> force \<and> (case get_logo_source_sync_state (source_id source) chain_id (st_db st) of
            None \<Rightarrow> False | Some (synced_at, _) \<Rightarrow> now - synced_at < refresh_interval_ms)
        then (Inr None, st)
      else
        let (payload, asked) = fetch_metadata ip_literal loads web source (st_log st);
            db1 = others (st_db st)
        in case rbind payload (parse_metadata eth ip_literal source chain_id) of
             Inl e \<Rightarrow> (if e = CancelledError then Inl e else Inr None, \<lparr>st_db = db1, st_log = asked\<rparr>)
           | Inr entries \<Rightarrow>
               (case replace_logo_source_entries eth revision (source_id source) chain_id entries now db1 of
                  (Inl e, db2) \<Rightarrow> (if e = CancelledError then Inl e else Inr None, \<lparr>st_db = db2, st_log = asked\<rparr>)
                | (Inr _, db2) \<Rightarrow> (Inr (Some (length entries)), \<lparr>st_db = db2, st_log = asked\<rparr>)))"

fun refresh_chain ::
    "(logo_source \<Rightarrow> source_state \<Rightarrow> nat option res \<times> source_state) \<Rightarrow> logo_source list \<Rightarrow> (string, nat) odict
     \<Rightarrow> source_state \<Rightarrow> (string, nat) odict res \<times> source_state" where
  "refresh_chain one [] out st = (Inr out, st)"
| "refresh_chain one (source # sources) out st =
     (case one source st of
        (Inl e, st') \<Rightarrow> (Inl e, st')
      | (Inr None, st') \<Rightarrow> refresh_chain one sources out st'
      | (Inr (Some n), st') \<Rightarrow> refresh_chain one sources (AList.update (source_id source) n out) st')"

fun refresh_sources ::
    "(int \<Rightarrow> logo_source \<Rightarrow> source_state \<Rightarrow> nat option res \<times> source_state) \<Rightarrow> logo_source list \<Rightarrow> int list
     \<Rightarrow> (int, (string, nat) odict) odict \<Rightarrow> source_state \<Rightarrow> (int, (string, nat) odict) odict res \<times> source_state" where
  "refresh_sources one sources [] out st = (Inr out, st)"
| "refresh_sources one sources (chain_id # chain_ids) out st =
     (case refresh_chain (one chain_id) sources [] st of
        (Inl e, st') \<Rightarrow> (Inl e, st')
      | (Inr r, st') \<Rightarrow>
          refresh_sources one sources chain_ids (if r = [] then out else AList.update chain_id r out) st')"

section \<open>Lemmas on URLs\<close>

definition LOGO_HOSTS :: "string list" where
  "LOGO_HOSTS = [''raw.githubusercontent.com'', ''assets.coingecko.com'', ''coin-images.coingecko.com'', ''cdn.jsdelivr.net'']"

text \<open>What the policy promises of a URL.\<close>

definition within_boundary :: "(string \<Rightarrow> bool) \<Rightarrow> string \<Rightarrow> bool" where
  "within_boundary ip_literal url \<longleftrightarrow>
     (case urlsplit ip_literal url of
        None \<Rightarrow> False
      | Some u \<Rightarrow> sp_scheme u = ''https''
          \<and> (case sp_hostname u of None \<Rightarrow> False | Some h \<Rightarrow> List.member LOGO_HOSTS h)
          \<and> sp_username u = None \<and> sp_password u = None \<and> sp_fragment u = []
          \<and> (sp_port u = Some None \<or> sp_port u = Some (Some 443)))"

lemma safe_https_url_Some:
  "safe_https_url ip url = Some u \<Longrightarrow> urlsplit ip url = Some u \<and> sp_scheme u = ''https'' \<and> sp_username u = None
     \<and> sp_password u = None \<and> sp_fragment u = [] \<and> (sp_port u = Some None \<or> sp_port u = Some (Some 443))"
  by (auto simp: safe_https_url_def split: option.splits if_splits)

lemma takeWhile_prefix: "\<not> list_all P xs \<Longrightarrow> takeWhile P (xs @ ys) = takeWhile P xs"
  by (induction xs) auto

lemma dropWhile_prefix: "\<not> list_all P xs \<Longrightarrow> dropWhile P (xs @ ys) = dropWhile P xs @ ys"
  by (induction xs) auto

text \<open>The host of a URL that begins with a fixed host.\<close>

definition url_origin :: "string \<Rightarrow> string" where "url_origin host = ''https://'' @ host @ ''/''"

definition host_char :: "char \<Rightarrow> bool" where
  "host_char c \<longleftrightarrow> 97 \<le> char_code c \<and> char_code c \<le> 122 \<or> is_dec_digit c \<or> c = CHR ''.'' \<or> c = CHR ''-''"

lemma host_char_not: "host_char c \<Longrightarrow> c \<notin> set ''@:[]%/?#'' \<and> py_lower_char c = c \<and> char_code c > 32"
  by (auto simp: host_char_def is_dec_digit_def py_lower_char_def Let_def)

lemma split_scheme_https: "split_scheme (''https:'' @ rest) = (''https'', rest)"
  by (simp add: split_scheme_def Let_def is_ascii_alpha_def is_scheme_char_def py_lower_def py_lower_char_def)

lemma host_chars:
  assumes "list_all host_char host"
  shows "CHR ''@'' \<notin> set host" "CHR '':'' \<notin> set host" "CHR ''['' \<notin> set host" "CHR '']'' \<notin> set host"
    "CHR ''%'' \<notin> set host" "map py_lower_char host = host" "list_all (\<lambda>c. c \<notin> set ''/?#'') host"
    "filter (\<lambda>c. c \<noteq> CHR 0x09 \<and> c \<noteq> CHR 0x0D \<and> c \<noteq> CHR 0x0A) host = host"
proof -
  have h: "c \<notin> set ''@:[]%/?#''" "py_lower_char c = c" "char_code c > 32" if "c \<in> set host" for c
    using host_char_not[of c] assms that by (auto simp: list_all_iff)
  show "CHR ''@'' \<notin> set host" "CHR '':'' \<notin> set host" "CHR ''['' \<notin> set host" "CHR '']'' \<notin> set host"
    "CHR ''%'' \<notin> set host" using h(1) by fastforce+
  show "map py_lower_char host = host" using h(2) by (simp add: map_idI)
  show "list_all (\<lambda>c. c \<notin> set ''/?#'') host" using h(1) by (auto simp: list_all_iff)
  show "filter (\<lambda>c. c \<noteq> CHR 0x09 \<and> c \<noteq> CHR 0x0D \<and> c \<noteq> CHR 0x0A) host = host"
    using h(3)[of "CHR 0x09"] h(3)[of "CHR 0x0D"] h(3)[of "CHR 0x0A"] by (auto simp: filter_id_conv)
qed

lemma takeWhile_absent: "x \<notin> set xs \<Longrightarrow> takeWhile (\<lambda>c. c \<noteq> x) xs = xs"
  by (induction xs) auto

lemma hostname_plain:
  assumes "sp_netloc u = host" "list_all host_char host" "host \<noteq> []"
  shows "sp_hostname u = Some host"
proof -
  note c = host_chars[OF assms(2)]
  have "rpartition_at host = (None, host)" using c(1) by (simp add: rpartition_at_def Let_def takeWhile_absent)
  then have "fst (hostinfo u) = host" using c(2,3) assms(1)
    by (simp add: hostinfo_def py_partition_def takeWhile_absent)
  then show ?thesis using c(5,6) assms(3) by (simp add: sp_hostname_def takeWhile_absent py_lower_def Let_def)
qed

lemma urlsplit_origin:
  assumes "list_all host_char host" "urlsplit ip (url_origin host @ rest) = Some u"
  shows "sp_netloc u = host"
proof -
  note c = host_chars[OF assms(1)]
  define rest' where "rest' = filter (\<lambda>c. c \<noteq> CHR 0x09 \<and> c \<noteq> CHR 0x0D \<and> c \<noteq> CHR 0x0A) rest"
  have "clean_url (url_origin host @ rest) = ''https:'' @ ''//'' @ host @ ''/'' @ rest'"
    using c(8) by (simp add: clean_url_def url_origin_def rest'_def)
  then have "split_scheme (clean_url (url_origin host @ rest)) = (''https'', ''//'' @ host @ ''/'' @ rest')"
    by (simp only: split_scheme_https)
  moreover have "takeWhile (\<lambda>c. c \<notin> set ''/?#'') (host @ CHR ''/'' # rest') = host"
    using c(7) by (induction host) auto
  ultimately show ?thesis using assms(2)
    by (auto simp: urlsplit_def Let_def py_startswith_def split: prod.splits if_splits)
qed

lemma exact_url_within:
  assumes "matches_exact_url ip url (url_origin host @ rest)" "host \<in> set LOGO_HOSTS" "list_all host_char host" "host \<noteq> []"
  shows "within_boundary ip url"
proof -
  from assms(1) obtain u where u: "safe_https_url ip url = Some u" "url = url_origin host @ rest"
    by (auto simp: matches_exact_url_def split: option.splits)
  note s = safe_https_url_Some[OF u(1)]
  have "urlsplit ip (url_origin host @ rest) = Some u" using s u(2) by simp
  from hostname_plain[OF urlsplit_origin[OF assms(3) this] assms(3,4)] s assms(2)
  show ?thesis by (auto simp: within_boundary_def)
qed

lemma fixed_hosts:
  "''raw.githubusercontent.com'' \<in> set LOGO_HOSTS" "''cdn.jsdelivr.net'' \<in> set LOGO_HOSTS"
  "list_all host_char ''raw.githubusercontent.com''" "list_all host_char ''cdn.jsdelivr.net''"
  by (simp_all add: LOGO_HOSTS_def host_char_def is_dec_digit_def)

lemma fixed_origins:
  "''https://raw.githubusercontent.com/'' @ rest = url_origin ''raw.githubusercontent.com'' @ rest"
  "''https://cdn.jsdelivr.net/'' @ rest = url_origin ''cdn.jsdelivr.net'' @ rest"
  by (simp_all add: url_origin_def)

lemma allowed_within_boundary:
  assumes "allows_image_url eth ip source chain_id address url = Inr True"
  shows "within_boundary ip url"
proof -
  have git: "within_boundary ip url" if "matches_exact_url ip url (''https://raw.githubusercontent.com/'' @ rest)" for rest
    using exact_url_within[OF that[unfolded fixed_origins] fixed_hosts(1,3)] by simp
  have cdn: "within_boundary ip url" if "matches_exact_url ip url (''https://cdn.jsdelivr.net/'' @ rest)" for rest
    using exact_url_within[OF that[unfolded fixed_origins] fixed_hosts(2,4)] by simp
  show ?thesis
  proof (cases source)
    case YearnTokenAssetsSource
    then obtain a where "matches_exact_url ip url (''https://raw.githubusercontent.com/'' @
        (''yearn/tokenAssets/main/tokens/'' @ int_str chain_id @ ''/'' @ py_lower a @ ''/logo-128.png''))"
      using assms by auto
    then show ?thesis by (rule git)
  next
    case TrustWalletSource
    then obtain a where "matches_exact_url ip url (''https://raw.githubusercontent.com/'' @
        (''trustwallet/assets/master/blockchains/ethereum/assets/'' @ a @ ''/logo.png''))"
      using assms by (auto split: if_splits)
    then show ?thesis by (rule git)
  next
    case CoinGeckoSource
    then show ?thesis using assms safe_https_url_Some[of ip url]
      by (auto simp: within_boundary_def IMAGE_HOSTS_def LOGO_HOSTS_def split: if_splits option.splits)
  next
    case SmolDappSource
    then obtain a where "matches_exact_url ip url (''https://cdn.jsdelivr.net/'' @
        (''gh/SmolDapp/tokenAssets@main/tokens/'' @ int_str chain_id @ ''/'' @ py_lower a @ ''/logo-128.png''))"
      using assms by auto
    then show ?thesis by (rule cdn)
  qed
qed

text \<open>Control characters pass: \<open>urlsplit\<close> drops tabs and line ends, the URL keeps them, and \<open>httpx\<close> refuses it.\<close>

lemma policy_admits_control_characters:
  "allows_image_url eth ip CoinGeckoSource 1 a (''https://assets.coingecko.com/coins/images/'' @ [CHR 0x09] @ ''1.png'') = Inr True"
proof -
  let ?u = "\<lparr>sp_scheme = ''https'', sp_netloc = ''assets.coingecko.com'', sp_path = ''/coins/images/1.png'', sp_query = [], sp_fragment = []\<rparr>"
  have "clean_url (''https://assets.coingecko.com/coins/images/'' @ [CHR 0x09] @ ''1.png'')
      = ''https:'' @ ''//assets.coingecko.com/coins/images/1.png''" by (simp add: clean_url_def)
  then have "urlsplit ip (''https://assets.coingecko.com/coins/images/'' @ [CHR 0x09] @ ''1.png'') = Some ?u"
    by (simp only: urlsplit_def split_scheme_https) (simp add: Let_def py_startswith_def py_partition_def netloc_ok_def)
  moreover have h: "sp_hostname ?u = Some ''assets.coingecko.com''"
    by (rule hostname_plain) (simp_all add: host_char_def is_dec_digit_def)
  moreover have "sp_username ?u = None" "sp_password ?u = None" "sp_port ?u = Some None"
    by (simp_all add: sp_username_def sp_password_def sp_port_def hostinfo_def rpartition_at_def py_partition_def)
  ultimately have "safe_https_url ip (''https://assets.coingecko.com/coins/images/'' @ [CHR 0x09] @ ''1.png'') = Some ?u"
    by (simp add: safe_https_url_def)
  moreover have "image_path_match ''/coins/images/1.png''"
    by (simp add: image_path_match_def py_lower_def py_lower_char_def py_startswith_def is_image_path_char_def is_ascii_alpha_def is_dec_digit_def)
  ultimately show ?thesis using h by (simp add: IMAGE_HOSTS_def)
qed

section \<open>Lemmas on candidates and token lists\<close>

definition candidate_ok :: "eth_lib \<Rightarrow> (string \<Rightarrow> bool) \<Rightarrow> logo_source list \<Rightarrow> int \<Rightarrow> string \<Rightarrow> logo_candidate \<Rightarrow> bool" where
  "candidate_ok eth ip sources chain_id address c \<longleftrightarrow>
     list_ex (\<lambda>s. source_id s = lc_source c \<and> supports_chain s chain_id \<and> allows_image_url eth ip s chain_id address (lc_url c) = Inr True)
       sources"

lemma source_candidates_ok:
  "source_candidates eth ip source chain_id address urls seen = Inr (cs, seen') \<Longrightarrow>
   list_all (\<lambda>c. lc_source c = source_id source \<and> allows_image_url eth ip source chain_id address (lc_url c) = Inr True) cs
   \<and> distinct (map lc_url cs) \<and> set (map lc_url cs) \<inter> set seen = {} \<and> set seen' = set seen \<union> set (map lc_url cs)"
proof (induction eth ip source chain_id address urls seen arbitrary: cs seen' rule: source_candidates.induct)
  case (3 eth ip source chain_id address url urls seen)
  show ?case
  proof (cases "url \<in> set seen")
    case True
    then show ?thesis using "3.IH"(1)[of cs seen'] "3.prems" by simp
  next
    case new: False
    obtain allowed where al: "allows_image_url eth ip source chain_id address url = Inr allowed"
      using "3.prems" new by (auto simp del: allows_image_url.simps)
    show ?thesis
    proof (cases allowed)
      case False
      then show ?thesis using "3.IH"(2)[of allowed cs seen'] "3.prems" al new
        by (simp del: allows_image_url.simps)
    next
      case True
      then obtain cs' where c: "source_candidates eth ip source chain_id address urls (url # seen) = Inr (cs', seen')"
        "cs = \<lparr>lc_source = source_id source, lc_url = url\<rparr> # cs'"
        using "3.prems" al new by (auto simp del: allows_image_url.simps)
      show ?thesis using "3.IH"(3)[of allowed cs' seen'] c al new True by (simp del: allows_image_url.simps)
    qed
  qed
qed auto

lemma all_candidates_ok:
  "all_candidates eth ip chain_id address stored sources seen = Inr cs \<Longrightarrow>
   list_all (candidate_ok eth ip sources chain_id address) cs
   \<and> distinct (map lc_url cs) \<and> set (map lc_url cs) \<inter> set seen = {}"
proof (induction sources arbitrary: cs seen)
  case (Cons s sources)
  show ?case
  proof (cases "supports_chain s chain_id")
    case False
    then show ?thesis using Cons by (fastforce simp: list_all_iff candidate_ok_def)
  next
    case True
    then obtain fixed cs1 seen1 cs2 where
      a: "source_candidates eth ip s chain_id address [fixed, map_of stored (source_id s)] seen = Inr (cs1, seen1)"
      and b: "all_candidates eth ip chain_id address stored sources seen1 = Inr cs2" and cs: "cs = cs1 @ cs2"
      using Cons.prems by auto
    note ca = source_candidates_ok[OF a] and cb = Cons.IH[OF b]
    have "list_all (candidate_ok eth ip (s # sources) chain_id address) cs1"
      using ca True by (auto simp: list_all_iff candidate_ok_def)
    moreover have "list_all (candidate_ok eth ip (s # sources) chain_id address) cs2"
      using cb by (auto simp: list_all_iff candidate_ok_def)
    ultimately show ?thesis using ca cb cs by auto
  qed
qed simp

lemma get_candidates_ok:
  assumes "get_candidates eth ip sources chain_id address db = Inr cs"
  obtains a where "normalize_address eth address = Inr a" "list_all (candidate_ok eth ip sources chain_id a) cs"
    "distinct (map lc_url cs)"
  using assms all_candidates_ok by (fastforce simp: get_candidates_def Let_def)

lemma candidate_within_boundary: "candidate_ok eth ip sources chain_id a c \<Longrightarrow> within_boundary ip (lc_url c)"
  by (auto simp: candidate_ok_def list_ex_iff allowed_within_boundary)

definition entry_of_list :: "eth_lib \<Rightarrow> (string \<Rightarrow> bool) \<Rightarrow> int \<Rightarrow> source_entry \<Rightarrow> bool" where
  "entry_of_list eth ip chain_id e \<longleftrightarrow> se_source e = ''coingecko'' \<and> se_chain_id e = chain_id
     \<and> allows_image_url eth ip CoinGeckoSource chain_id (se_address e) (se_logo_url e) = Inr True"

lemma read_token_entry_Some:
  "read_token_entry eth ip chain_id seen raw = Inr (Some (a, url)) \<Longrightarrow>
   a \<notin> set seen \<and> allows_image_url eth ip CoinGeckoSource chain_id a url = Inr True"
  unfolding read_token_entry_def
  by (cases raw) (auto simp del: allows_image_url.simps split: option.splits if_splits sum.splits)

lemma read_token_entries_ok:
  "read_token_entries eth ip chain_id raws seen = Inr es \<Longrightarrow>
   list_all (entry_of_list eth ip chain_id) es \<and> distinct (map se_address es) \<and> set (map se_address es) \<inter> set seen = {}"
proof (induction raws arbitrary: es seen)
  case (Cons raw raws)
  then obtain r where r: "read_token_entry eth ip chain_id seen raw = Inr r" by auto
  show ?case
  proof (cases r)
    case None
    then show ?thesis using Cons r by simp
  next
    case (Some p)
    obtain a url where p: "p = (a, url)" by (cases p)
    note n = read_token_entry_Some[OF r[unfolded Some p]]
    obtain es' where e: "read_token_entries eth ip chain_id raws (a # seen) = Inr es'"
      "es = \<lparr>se_source = ''coingecko'', se_chain_id = chain_id, se_address = a, se_logo_url = url\<rparr> # es'"
      using Cons.prems r Some p by auto
    show ?thesis using Cons.IH[OF e(1)] n e(2) by (auto simp: entry_of_list_def simp del: allows_image_url.simps)
  qed
qed simp

lemma parse_metadata_ok:
  "parse_metadata eth ip CoinGeckoSource chain_id payload = Inr es \<Longrightarrow>
   list_all (entry_of_list eth ip chain_id) es \<and> distinct (map se_address es)"
  using read_token_entries_ok[of eth ip chain_id _ "[]" es] by (auto split: json.splits)

lemma map_of_filter_key: "map_of (filter (\<lambda>(k, v). P k) t) k = (if P k then map_of t k else None)"
  by (induction t) auto

lemma insert_entries_spec:
  "distinct (map fst rows) \<Longrightarrow> (\<And>a. a \<in> set (map fst rows) \<Longrightarrow> map_of t (src, c, a) = None) \<Longrightarrow>
   \<exists>t'. insert_entries src c now rows t = Some t'
     \<and> (\<forall>(a, url) \<in> set rows. map_of t' (src, c, a) = Some (url, now))
     \<and> (\<forall>k. k \<notin> (\<lambda>a. (src, c, a)) ` set (map fst rows) \<longrightarrow> map_of t' k = map_of t k)"
proof (induction rows arbitrary: t)
  case (Cons r rows)
  obtain a url where r: "r = (a, url)" by (cases r)
  let ?t = "AList.update (src, c, a) (url, now) t"
  have fresh: "a \<notin> set (map fst rows)" "map_of t (src, c, a) = None" using Cons.prems r by auto
  have "distinct (map fst rows)" "\<And>b. b \<in> set (map fst rows) \<Longrightarrow> map_of ?t (src, c, b) = None"
    using Cons.prems r by (auto simp: od_get_set)
  from Cons.IH[OF this] obtain t' where t': "insert_entries src c now rows ?t = Some t'"
    "\<forall>(a, url) \<in> set rows. map_of t' (src, c, a) = Some (url, now)"
    "\<forall>k. k \<notin> (\<lambda>a. (src, c, a)) ` set (map fst rows) \<longrightarrow> map_of t' k = map_of ?t k" by blast
  have "map_of t' (src, c, a) = Some (url, now)" using t'(3)[rule_format, of "(src, c, a)"] fresh(1) by (auto simp: od_get_set)
  moreover have "map_of t' k = map_of t k" if "k \<notin> (\<lambda>a. (src, c, a)) ` set (map fst (r # rows))" for k
    using that t'(3)[rule_format, of k] r by (auto simp: od_get_set)
  ultimately show ?case using t'(1,2) fresh(2) r by auto
qed simp

lemma replace_entries_spec:
  assumes "list_all (\<lambda>e. se_source e = src \<and> se_chain_id e = c \<and> normalize_address eth (se_address e) = Inr (se_address e)) es"
    "distinct (map se_address es)" "\<forall>rows. length (revision rows) = 64"
  shows "\<exists>changed db'. replace_logo_source_entries eth revision src c es now db = (Inr changed, db')
    \<and> (\<not> changed \<longrightarrow> db_entries db' = db_entries db)
    \<and> (changed \<longrightarrow> (\<forall>e \<in> set es. map_of (db_entries db') (src, c, se_address e) = Some (se_logo_url e, now))
        \<and> (\<forall>a. a \<notin> set (map se_address es) \<longrightarrow> map_of (db_entries db') (src, c, a) = None))
    \<and> (\<forall>s' c' a. (s', c') \<noteq> (src, c) \<longrightarrow> map_of (db_entries db') (s', c', a) = map_of (db_entries db) (s', c', a))"
proof -
  define rows where "rows = map (\<lambda>e. (se_address e, se_logo_url e)) es"
  have f: "filter (\<lambda>e. se_source e = src \<and> se_chain_id e = c) es = es"
    using assms(1) by (auto simp: filter_id_conv list_all_iff)
  have m: "rmap_list (\<lambda>e. rbind (normalize_address eth (se_address e)) (\<lambda>a. Inr (a, se_logo_url e))) es = Inr rows"
    unfolding rows_def using assms(1) by (intro rmap_list_all_Inr) (auto simp: list_all_iff)
  have dr: "distinct (map fst rows)" using assms(2) by (simp add: rows_def comp_def)
  then have dd: "dedup rows = rows" by (simp add: dedup_from_id distinct_map)
  let ?rows = "sort rows"
  define kept where "kept = filter (\<lambda>((s, c', a), _). \<not> (s = src \<and> c' = c)) (db_entries db)"
  have kept: "map_of kept (s', c', a) = (if (s', c') = (src, c) then None else map_of (db_entries db) (s', c', a))" for s' c' a
    using map_of_filter_key[of "\<lambda>(s, c', a). \<not> (s = src \<and> c' = c)" "db_entries db" "(s', c', a)"]
    by (auto simp: kept_def split_def)
  have "distinct (map fst ?rows)" using dr
    by (metis distinct_map distinct_sort set_sort)
  from insert_entries_spec[OF this, of kept src c now] obtain t' where t': "insert_entries src c now ?rows kept = Some t'"
    "\<forall>(a, url) \<in> set rows. map_of t' (src, c, a) = Some (url, now)"
    "\<forall>k. k \<notin> (\<lambda>a. (src, c, a)) ` set (map fst rows) \<longrightarrow> map_of t' k = map_of kept k"
    by (auto simp: kept)
  have addr: "set (map fst rows) = set (map se_address es)" by (auto simp: rows_def)
  have new: "\<forall>e \<in> set es. map_of t' (src, c, se_address e) = Some (se_logo_url e, now)"
    using t'(2) by (auto simp: rows_def)
  have gone: "\<forall>a. a \<notin> set (map se_address es) \<longrightarrow> map_of t' (src, c, a) = None"
  proof (intro allI impI)
    fix a assume "a \<notin> set (map se_address es)"
    then show "map_of t' (src, c, a) = None" using t'(3)[rule_format, of "(src, c, a)"] addr by (auto simp: kept)
  qed
  have other: "\<forall>s' c' a. (s', c') \<noteq> (src, c) \<longrightarrow> map_of t' (s', c', a) = map_of (db_entries db) (s', c', a)"
  proof (intro allI impI)
    fix s' c' a assume n: "(s', c') \<noteq> (src, c)"
    then have "(s', c', a) \<notin> (\<lambda>a. (src, c, a)) ` set (map fst rows)" by blast
    with n show "map_of t' (s', c', a) = map_of (db_entries db) (s', c', a)"
      using t'(3)[rule_format, of "(s', c', a)"] by (auto simp: kept)
  qed
  show ?thesis
    using f m dd t'(1) assms(3) new gone other
    by (cases "map_of (db_sync db) (src, c)") (auto simp: replace_logo_source_entries_def Let_def kept_def split: prod.splits)
qed

section \<open>Properties\<close>

text \<open>Every URL the program may fetch a logo from stays within the reviewed boundary: https to one of the four known
  hosts on the default port, without credentials or fragment, allowed by a registered source that serves the chain;
  no URL is tried twice. This holds whatever URLs the stored token lists contain.\<close>

theorem logo_candidates_within_boundary:
  assumes "get_candidates eth ip_literal sources chain_id address db = Inr cs"
  shows "list_all (\<lambda>c. within_boundary ip_literal (lc_url c)
      \<and> list_ex (\<lambda>s. source_id s = lc_source c \<and> supports_chain s chain_id) sources) cs
    \<and> distinct (map lc_url cs)"
  by (rule get_candidates_ok[OF assms]) (auto simp: list_all_iff list_ex_iff candidate_ok_def allowed_within_boundary)

text \<open>A token list that is read is stored: the entries of its source and chain become exactly those of the list (or stay
  when the list has not changed), each URL is within the boundary, and the entries of other sources stay.\<close>

theorem refreshed_list_stored:
  assumes "parse_metadata eth ip_literal CoinGeckoSource chain_id payload = Inr es"
    and "list_all (\<lambda>e. normalize_address eth (se_address e) = Inr (se_address e)) es"
    and "\<forall>rows. length (revision rows) = 64"
  shows "\<exists>changed db'. replace_logo_source_entries eth revision ''coingecko'' chain_id es now db = (Inr changed, db')
    \<and> (\<not> changed \<longrightarrow> db_entries db' = db_entries db)
    \<and> (changed \<longrightarrow> (\<forall>e \<in> set es. map_of (db_entries db') (''coingecko'', chain_id, se_address e) = Some (se_logo_url e, now)
            \<and> within_boundary ip_literal (se_logo_url e))
        \<and> (\<forall>a. a \<notin> set (map se_address es) \<longrightarrow> map_of (db_entries db') (''coingecko'', chain_id, a) = None))
    \<and> (\<forall>s' c' a. (s', c') \<noteq> (''coingecko'', chain_id) \<longrightarrow>
        map_of (db_entries db') (s', c', a) = map_of (db_entries db) (s', c', a))"
proof -
  note p = parse_metadata_ok[OF assms(1)]
  have e: "list_all (\<lambda>e. se_source e = ''coingecko'' \<and> se_chain_id e = chain_id
      \<and> normalize_address eth (se_address e) = Inr (se_address e)) es"
    using p assms(2) by (auto simp: list_all_iff entry_of_list_def simp del: allows_image_url.simps)
  have w: "\<forall>e \<in> set es. within_boundary ip_literal (se_logo_url e)"
    using p by (auto simp: list_all_iff entry_of_list_def allowed_within_boundary simp del: allows_image_url.simps)
  from replace_entries_spec[OF e conjunct2[OF p] assms(3), where now = now and db = db] obtain changed db' where
    r: "replace_logo_source_entries eth revision ''coingecko'' chain_id es now db = (Inr changed, db')"
      "\<not> changed \<longrightarrow> db_entries db' = db_entries db"
      "changed \<longrightarrow> (\<forall>e \<in> set es. map_of (db_entries db') (''coingecko'', chain_id, se_address e) = Some (se_logo_url e, now))
        \<and> (\<forall>a. a \<notin> set (map se_address es) \<longrightarrow> map_of (db_entries db') (''coingecko'', chain_id, a) = None)"
      "\<forall>s' c' a. (s', c') \<noteq> (''coingecko'', chain_id) \<longrightarrow> map_of (db_entries db') (s', c', a) = map_of (db_entries db) (s', c', a)"
    by (elim exE conjE)
  show ?thesis by (rule exI[of _ changed], rule exI[of _ db']) (use r w in simp)
qed

section \<open>Witnesses\<close>

lemma deterministic_total: "normalize_address eth a = Inr n \<Longrightarrow> \<exists>u. deterministic_candidate eth s c a = Inr u"
  by (cases s) auto

lemma allows_total: "normalize_address eth a = Inr n \<Longrightarrow> \<exists>b. allows_image_url eth ip s c a url = Inr b"
  by (cases s) auto

lemma source_candidates_total:
  "normalize_address eth a = Inr n \<Longrightarrow> \<exists>r. source_candidates eth ip s c a urls seen = Inr r"
proof (induction urls arbitrary: seen)
  case (Cons u urls)
  show ?case
  proof (cases u)
    case None
    then show ?thesis using Cons by simp
  next
    case (Some url)
    obtain b where b: "allows_image_url eth ip s c a url = Inr b" using allows_total[OF Cons.prems] by blast
    obtain r1 r2 where "source_candidates eth ip s c a urls seen = Inr r1"
      "source_candidates eth ip s c a urls (url # seen) = Inr r2" using Cons.IH[OF Cons.prems] by blast
    then show ?thesis using b Some by (simp del: allows_image_url.simps split: prod.splits)
  qed
qed simp

lemma all_candidates_total:
  "normalize_address eth a = Inr n \<Longrightarrow> \<exists>r. all_candidates eth ip c a stored sources seen = Inr r"
proof (induction sources arbitrary: seen)
  case (Cons s sources)
  obtain u where u: "deterministic_candidate eth s c a = Inr u" using deterministic_total[OF Cons.prems] by blast
  obtain cs seen' where "source_candidates eth ip s c a [u, map_of stored (source_id s)] seen = Inr (cs, seen')"
    using source_candidates_total[OF Cons.prems] by (metis surj_pair)
  moreover obtain rest where "all_candidates eth ip c a stored sources seen' = Inr rest" using Cons by blast
  moreover obtain rest2 where "all_candidates eth ip c a stored sources seen = Inr rest2" using Cons by blast
  ultimately show ?case using u by auto
qed simp

lemma get_candidates_total:
  assumes "normalize_address eth a = Inr n" "normalize_address eth n = Inr n"
  shows "\<exists>cs. get_candidates eth ip sources c a db = Inr cs"
  using assms all_candidates_total[OF assms(2)]
  by (simp add: get_candidates_def get_logo_source_entries_def normalize_addresses_def Let_def)

theorem logo_candidates_within_boundary_witness:
  "\<exists>cs. get_candidates example_eth (\<lambda>h. False) LOGO_SOURCES 1 example_address
      (empty_db\<lparr>db_entries := [((''coingecko'', 1, example_address), (''file:///etc/passwd'', 0))]\<rparr>) = Inr cs
    \<and> list_all (\<lambda>c. within_boundary (\<lambda>h. False) (lc_url c)) cs"
proof -
  obtain cs where c: "get_candidates example_eth (\<lambda>h. False) LOGO_SOURCES 1 example_address
      (empty_db\<lparr>db_entries := [((''coingecko'', 1, example_address), (''file:///etc/passwd'', 0))]\<rparr>) = Inr cs"
    using get_candidates_total[OF example_normalize example_normalize] by blast
  from logo_candidates_within_boundary[OF c] c show ?thesis by (auto simp: list_all_iff)
qed

definition example_image_url :: string where
  "example_image_url = ''https://assets.coingecko.com/coins/images/'' @ [CHR 0x09] @ ''1.png''"

definition example_list :: json where
  "example_list = JObj [(''tokens'', JList [JObj [(''chainId'', JInt 1), (''address'', JStr example_address),
     (''logoURI'', JStr example_image_url)]])]"

lemma example_parse:
  "parse_metadata example_eth (\<lambda>h. False) CoinGeckoSource 1 example_list = Inr [\<lparr>se_source = ''coingecko'', se_chain_id = 1,
     se_address = example_address, se_logo_url = example_image_url\<rparr>]"
proof -
  have "parse_str (JStr example_address) = Some example_address" "parse_str (JStr example_image_url) = Some example_image_url"
    by (simp_all add: parse_str_def example_address_def example_image_url_def py_strip_id Let_def py_isspace_def)
  moreover have "allows_image_url example_eth (\<lambda>h. False) CoinGeckoSource 1 example_address example_image_url = Inr True"
    unfolding example_image_url_def by (rule policy_admits_control_characters)
  ultimately show ?thesis
    by (simp add: example_list_def json_get_def read_token_entry_def parse_chain_id_def example_normalize del: allows_image_url.simps)
qed

theorem refreshed_list_stored_witness:
  "\<exists>db'. replace_logo_source_entries example_eth (\<lambda>rows. replicate 64 (CHR ''a'')) ''coingecko'' 1
      [\<lparr>se_source = ''coingecko'', se_chain_id = 1, se_address = example_address, se_logo_url = example_image_url\<rparr>] 7 empty_db
    = (Inr True, db') \<and> map_of (db_entries db') (''coingecko'', 1, example_address) = Some (example_image_url, 7)"
proof -
  from refreshed_list_stored[OF example_parse, of "\<lambda>rows. replicate 64 (CHR ''a'')" 7 empty_db] example_normalize
  obtain changed db' where r: "replace_logo_source_entries example_eth (\<lambda>rows. replicate 64 (CHR ''a'')) ''coingecko'' 1
      [\<lparr>se_source = ''coingecko'', se_chain_id = 1, se_address = example_address, se_logo_url = example_image_url\<rparr>] 7 empty_db
    = (Inr changed, db')" "changed \<Longrightarrow> map_of (db_entries db') (''coingecko'', 1, example_address) = Some (example_image_url, 7)"
    by auto
  have changed using r(1)
    by (auto simp: replace_logo_source_entries_def example_normalize empty_db_def Let_def)
  with r show ?thesis by auto
qed

end
