(* ===== verification/LogoService.thy ===== *)
theory LogoService
  imports LogoSources
begin

text \<open>
  The acquisition of token logos (\<open>token_metadata/logo_acquirer.py\<close>, \<open>logo_overrides.py\<close>) and its schedule
  (\<open>token_metadata/logo_service.py\<close>). The image decoder of Pillow, SHA-256, the parser of HTTP dates and the table of
  packaged images are parameters; \<open>randint\<close> is what the random generator draws between two bounds. Times are
  milliseconds.
\<close>

section \<open>Validation of images\<close>

definition MAX_IMAGE_BYTES :: nat where "MAX_IMAGE_BYTES = 256 * 1024"
definition MAX_IMAGE_SIDE :: int where "MAX_IMAGE_SIDE = 1024"
definition MAX_IMAGE_PIXELS :: int where "MAX_IMAGE_PIXELS = 1048576"

definition ALLOWED_FORMATS :: "(string, string) odict" where
  "ALLOWED_FORMATS = [(''image/png'', ''PNG''), (''image/jpeg'', ''JPEG''), (''image/webp'', ''WEBP'')]"

record validated_logo =
  vl_image_bytes :: "nat list"
  vl_content_hash :: string
  vl_mime_type :: string

text \<open>What Pillow sees in the bytes; the exceptions of its calls are kept apart from the checks of the code.\<close>

record image_info =
  im_format :: string
  im_width :: int
  im_height :: int
  im_frames :: int

record image_lib =
  il_open :: "nat list \<Rightarrow> image_info res"
  il_verify :: "nat list \<Rightarrow> unit res"
  il_load :: "nat list \<Rightarrow> unit res"
  il_sha256 :: "nat list \<Rightarrow> string"

text \<open>A refused image has a code; every other exception leaves the validation.\<close>

datatype refusal = LogoValidationError string | Uncaught exc

definition CAUGHT_IMAGE_ERRORS :: "string list" where
  "CAUGHT_IMAGE_ERRORS = [''DecompressionBombError'', ''UnidentifiedImageError'', ''OSError'', ''SyntaxError'', ''ValueError'']"

definition decoder_step :: "'a res \<Rightarrow> refusal + 'a" where
  "decoder_step r = (case r of Inr x \<Rightarrow> Inr x
     | Inl e \<Rightarrow> Inl (if exc_class_name e \<in> set CAUGHT_IMAGE_ERRORS then LogoValidationError ''corrupt_image'' else Uncaught e))"

definition signature_mime :: "nat list \<Rightarrow> string option" where
  "signature_mime data =
     (if take 8 data = [0x89, 0x50, 0x4E, 0x47, 0x0D, 0x0A, 0x1A, 0x0A] then Some ''image/png''
      else if take 3 data = [0xFF, 0xD8, 0xFF] then Some ''image/jpeg''
      else if length data \<ge> 12 \<and> take 4 data = [0x52, 0x49, 0x46, 0x46] \<and> take 4 (drop 8 data) = [0x57, 0x45, 0x42, 0x50]
        then Some ''image/webp''
      else None)"

definition check_image :: "string \<Rightarrow> image_info \<Rightarrow> refusal + unit" where
  "check_image expected_format picture =
     (if im_format picture \<noteq> expected_format then Inl (LogoValidationError ''decoder_format_mismatch'')
      else if im_frames picture \<noteq> 1 then Inl (LogoValidationError ''multiple_frames'')
      else if im_width picture \<le> 0 \<or> im_height picture \<le> 0 then Inl (LogoValidationError ''invalid_dimensions'')
      else if im_width picture > MAX_IMAGE_SIDE \<or> im_height picture > MAX_IMAGE_SIDE
        then Inl (LogoValidationError ''dimensions_too_large'')
      else if im_width picture * im_height picture > MAX_IMAGE_PIXELS then Inl (LogoValidationError ''pixel_count_too_large'')
      else Inr ())"

fun bind_refusal :: "refusal + 'a \<Rightarrow> ('a \<Rightarrow> refusal + 'b) \<Rightarrow> refusal + 'b" where
  "bind_refusal (Inl e) f = Inl e"
| "bind_refusal (Inr x) f = f x"

definition validate_logo_bytes :: "image_lib \<Rightarrow> nat list \<Rightarrow> string \<Rightarrow> refusal + validated_logo" where
  "validate_logo_bytes lib data mime_type =
     (if data = [] then Inl (LogoValidationError ''empty_body'')
      else if length data > MAX_IMAGE_BYTES then Inl (LogoValidationError ''body_too_large'')
      else case map_of ALLOWED_FORMATS mime_type of
        None \<Rightarrow> Inl (LogoValidationError ''unsupported_media'')
      | Some expected_format \<Rightarrow>
        if signature_mime data \<noteq> Some mime_type then Inl (LogoValidationError ''signature_mismatch'')
        else
          bind_refusal (decoder_step (il_open lib data)) (\<lambda>picture.
          bind_refusal (check_image expected_format picture) (\<lambda>_.
          bind_refusal (decoder_step (il_verify lib data)) (\<lambda>_.
          bind_refusal (decoder_step (il_open lib data)) (\<lambda>again.
          if im_frames again \<noteq> 1 then Inl (LogoValidationError ''multiple_frames'')
          else bind_refusal (decoder_step (il_load lib data)) (\<lambda>_.
            Inr \<lparr>vl_image_bytes = data, vl_content_hash = il_sha256 lib data, vl_mime_type = mime_type\<rparr>))))))"

section \<open>One candidate\<close>

datatype acquisition_outcome = Acquired | Transient_failure | Unavailable

datatype candidate_outcome = Candidate_success | Candidate_transient | Candidate_conclusive

record acquisition_result =
  ar_outcome :: acquisition_outcome
  ar_asset :: "validated_logo option"
  ar_source :: "string option"
  ar_http_status :: "int option"
  ar_error_code :: string
  ar_retry_after_ms :: "int option"

record candidate_result =
  cr_outcome :: candidate_outcome
  cr_asset :: "validated_logo option"
  cr_source :: string
  cr_http_status :: "int option"
  cr_error_code :: string
  cr_retry_after_ms :: "int option"

definition response_mime :: "stream_response \<Rightarrow> string" where
  "response_mime r =
     (let v = (case map_of (sr_headers r) ''content-type'' of None \<Rightarrow> [] | Some s \<Rightarrow> s)
      in py_lower (py_strip (hd (py_split_on (CHR '';'') v))))"

definition content_length :: "stream_response \<Rightarrow> int option" where
  "content_length r =
     (case map_of (sr_headers r) ''content-length'' of
        None \<Rightarrow> None
      | Some v \<Rightarrow> (case py_int_of_str v of None \<Rightarrow> None | Some n \<Rightarrow> Some (max n 0)))"

definition is_transient_status :: "int \<Rightarrow> bool" where
  "is_transient_status status \<longleftrightarrow> status = 408 \<or> status = 425 \<or> status = 429 \<or> 500 \<le> status \<and> status \<le> 599"

text \<open>The parser of dates (no value where an exception is caught) and the clock.\<close>

record retry_clock =
  rc_http_date :: "string \<Rightarrow> rat option"
  rc_now :: rat

definition retry_after_value_ms :: "retry_clock \<Rightarrow> string option \<Rightarrow> int option res" where
  "retry_after_value_ms clk v =
     (case v of
        None \<Rightarrow> Inr None
      | Some s \<Rightarrow>
          let stripped = py_strip s in
          if py_isdigit stripped then
            (case py_int_of_str stripped of None \<Rightarrow> Inl (ValueError stripped) | Some n \<Rightarrow> Inr (Some (n * 1000)))
          else Inr (case rc_http_date clk stripped of
              None \<Rightarrow> None
            | Some t \<Rightarrow> Some (max (trunc_rat ((t - rc_now clk) * 1000)) 0)))"

definition conclusive :: "logo_candidate \<Rightarrow> string \<Rightarrow> int option \<Rightarrow> candidate_result" where
  "conclusive c error_code http_status =
     \<lparr>cr_outcome = Candidate_conclusive, cr_asset = None, cr_source = lc_source c, cr_http_status = http_status,
      cr_error_code = take 64 error_code, cr_retry_after_ms = None\<rparr>"

definition transient :: "logo_candidate \<Rightarrow> string \<Rightarrow> candidate_result" where
  "transient c error_code =
     \<lparr>cr_outcome = Candidate_transient, cr_asset = None, cr_source = lc_source c, cr_http_status = None,
      cr_error_code = error_code, cr_retry_after_ms = None\<rparr>"

definition failed_fetch :: "logo_candidate \<Rightarrow> fetch_error \<Rightarrow> candidate_result res" where
  "failed_fetch c e =
     (case e of
        Fetch_timeout \<Rightarrow> Inr (transient c ''network_timeout'')
      | Fetch_remote_protocol \<Rightarrow> Inr (transient c ''remote_protocol_error'')
      | Fetch_network \<Rightarrow> Inr (transient c ''network_error'')
      | Fetch_other_http \<Rightarrow> Inr (transient c ''http_client_error'')
      | Fetch_exception x \<Rightarrow> Inl x)"

definition read_image :: "image_lib \<Rightarrow> logo_candidate \<Rightarrow> stream_response \<Rightarrow> candidate_result res" where
  "read_image lib c r =
     (if (case content_length r of None \<Rightarrow> False | Some n \<Rightarrow> n > int MAX_IMAGE_BYTES)
        then Inr (conclusive c ''body_too_large'' (Some (sr_status r)))
      else case read_body MAX_IMAGE_BYTES [] (sr_chunks r) of
        None \<Rightarrow> Inr (conclusive c ''body_too_large'' (Some (sr_status r)))
      | Some body \<Rightarrow>
        (case sr_broken r of
           Some e \<Rightarrow> failed_fetch c e
         | None \<Rightarrow>
           (case validate_logo_bytes lib body (response_mime r) of
              Inl (LogoValidationError code) \<Rightarrow> Inr (conclusive c code (Some (sr_status r)))
            | Inl (Uncaught e) \<Rightarrow> Inl e
            | Inr asset \<Rightarrow> Inr \<lparr>cr_outcome = Candidate_success, cr_asset = Some asset, cr_source = lc_source c,
                  cr_http_status = Some (sr_status r), cr_error_code = ''success'', cr_retry_after_ms = None\<rparr>)))"

definition read_logo_response :: "retry_clock \<Rightarrow> image_lib \<Rightarrow> logo_candidate \<Rightarrow> stream_response \<Rightarrow> candidate_result res" where
  "read_logo_response clk lib c r =
     (let status = sr_status r in
      if status \<noteq> 200 then
        rbind (if status = 429 \<or> status = 503 then retry_after_value_ms clk (map_of (sr_headers r) ''retry-after'') else Inr None)
          (\<lambda>retry_after. Inr \<lparr>cr_outcome = (if is_transient_status status then Candidate_transient else Candidate_conclusive),
             cr_asset = None, cr_source = lc_source c, cr_http_status = Some status,
             cr_error_code = ''http_'' @ int_str status, cr_retry_after_ms = retry_after\<rparr>)
      else read_image lib c r)"

text \<open>The surroundings of an acquisition.\<close>

record logo_env =
  le_eth :: eth_lib
  le_ip_literal :: "string \<Rightarrow> bool"
  le_sources :: "logo_source list"
  le_overrides :: "(int \<times> string, nat list) odict"
  le_lib :: image_lib
  le_web :: web

definition acquire_candidate ::
    "logo_env \<Rightarrow> retry_clock \<Rightarrow> int \<Rightarrow> string \<Rightarrow> logo_candidate \<Rightarrow> string list \<Rightarrow> candidate_result res \<times> string list" where
  "acquire_candidate env clk chain_id address c asked =
     (case source_for_id (le_sources env) (lc_source c) of
        None \<Rightarrow> (Inr (conclusive c ''source_not_registered'' None), asked)
      | Some source \<Rightarrow>
        (case allows_image_url (le_eth env) (le_ip_literal env) source chain_id address (lc_url c) of
           Inl e \<Rightarrow> (Inl e, asked)
         | Inr False \<Rightarrow> (Inr (conclusive c ''source_policy_violation'' None), asked)
         | Inr True \<Rightarrow>
             (case le_web env asked (lc_url c) of
                Fails e \<Rightarrow> failed_fetch c e
              | Responds r \<Rightarrow> read_logo_response clk (le_lib env) c r, lc_url c # asked)))"

section \<open>The acquisition of a logo\<close>

definition get_logo_override :: "logo_env \<Rightarrow> int \<Rightarrow> string \<Rightarrow> nat list option res" where
  "get_logo_override env chain_id address =
     rbind (normalize_address (le_eth env) address) (\<lambda>a. Inr (map_of (le_overrides env) (chain_id, a)))"

definition acquired :: "validated_logo option \<Rightarrow> string \<Rightarrow> int option \<Rightarrow> acquisition_result" where
  "acquired asset source status =
     \<lparr>ar_outcome = Acquired, ar_asset = asset, ar_source = Some source, ar_http_status = status,
      ar_error_code = ''success'', ar_retry_after_ms = None\<rparr>"

text \<open>The candidates in order until one succeeds: its result, or the attempts in order.\<close>

fun try_candidates ::
    "(logo_candidate \<Rightarrow> string list \<Rightarrow> candidate_result res \<times> string list) \<Rightarrow> logo_candidate list \<Rightarrow> candidate_result list
     \<Rightarrow> string list \<Rightarrow> (acquisition_result + candidate_result list) res \<times> string list" where
  "try_candidates one [] attempts asked = (Inr (Inr attempts), asked)"
| "try_candidates one (c # cs) attempts asked =
     (case one c asked of
        (Inl e, asked') \<Rightarrow> (Inl e, asked')
      | (Inr r, asked') \<Rightarrow>
          if cr_outcome r = Candidate_success
          then (Inr (Inl (acquired (cr_asset r) (cr_source r) (cr_http_status r))), asked')
          else try_candidates one cs (attempts @ [r]) asked')"

definition or_zero :: "int option \<Rightarrow> int" where "or_zero v = (case v of None \<Rightarrow> 0 | Some n \<Rightarrow> n)"

text \<open>What the failed attempts amount to.\<close>

definition summarize_attempts :: "candidate_result list \<Rightarrow> acquisition_result" where
  "summarize_attempts attempts =
     (let transients = filter (\<lambda>a. cr_outcome a = Candidate_transient) attempts in
      case transients of
        t # _ \<Rightarrow>
          let retry_after = Max (set (map (\<lambda>a. or_zero (cr_retry_after_ms a)) transients)) in
          \<lparr>ar_outcome = Transient_failure, ar_asset = None, ar_source = None, ar_http_status = cr_http_status t,
           ar_error_code = cr_error_code t, ar_retry_after_ms = (if retry_after = 0 then None else Some retry_after)\<rparr>
      | [] \<Rightarrow>
          \<lparr>ar_outcome = Unavailable, ar_asset = None, ar_source = None,
           ar_http_status = (if attempts = [] then None else cr_http_status (last attempts)),
           ar_error_code = (if attempts = [] then ''no_candidate'' else cr_error_code (last attempts)),
           ar_retry_after_ms = None\<rparr>)"

text \<open>The packaged image of a token: its result, or the attempts so far.\<close>

definition try_override :: "logo_env \<Rightarrow> int \<Rightarrow> string \<Rightarrow> (acquisition_result + candidate_result list) res" where
  "try_override env chain_id address =
     rbind (get_logo_override env chain_id address) (\<lambda>found.
       case found of
         None \<Rightarrow> Inr (Inr [])
       | Some data \<Rightarrow>
           (let refused = (\<lambda>code. Inr (Inr [\<lparr>cr_outcome = Candidate_conclusive, cr_asset = None, cr_source = ''override'',
                  cr_http_status = None, cr_error_code = code, cr_retry_after_ms = None\<rparr>])) in
            case signature_mime data of
              None \<Rightarrow> refused ''signature_mismatch''
            | Some mime_type \<Rightarrow>
                (case validate_logo_bytes (le_lib env) data mime_type of
                   Inl (LogoValidationError code) \<Rightarrow> refused code
                 | Inl (Uncaught e) \<Rightarrow> Inl e
                 | Inr asset \<Rightarrow> Inr (Inl (acquired (Some asset) ''override'' None)))))"

definition acquire ::
    "logo_env \<Rightarrow> retry_clock \<Rightarrow> int \<Rightarrow> string \<Rightarrow> metadata_db \<Rightarrow> string list \<Rightarrow> acquisition_result res \<times> string list" where
  "acquire env clk chain_id address db asked =
     (case try_override env chain_id address of
        Inl e \<Rightarrow> (Inl e, asked)
      | Inr (Inl result) \<Rightarrow> (Inr result, asked)
      | Inr (Inr attempts) \<Rightarrow>
        (case get_candidates (le_eth env) (le_ip_literal env) (le_sources env) chain_id address db of
           Inl e \<Rightarrow> (Inl e, asked)
         | Inr cs \<Rightarrow>
           (case try_candidates (acquire_candidate env clk chain_id address) cs attempts asked of
              (Inl e, asked') \<Rightarrow> (Inl e, asked')
            | (Inr (Inl result), asked') \<Rightarrow> (Inr result, asked')
            | (Inr (Inr attempts'), asked') \<Rightarrow> (Inr (summarize_attempts attempts'), asked'))))"

section \<open>The schedule\<close>

record logo_maintenance_settings =
  source_refresh_ms :: int
  unavailable_retry_ms :: int
  unavailable_jitter_ratio :: rat
  transient_base_ms :: int
  transient_cap_ms :: int
  retry_after_cap_ms :: int
  due_batch_size :: nat
  concurrency :: nat
  scheduler_poll_ms :: int
  prewarm_deadline_ms :: int
  shutdown_grace_ms :: int

definition DEFAULT_LOGO_MAINTENANCE_SETTINGS :: logo_maintenance_settings where
  "DEFAULT_LOGO_MAINTENANCE_SETTINGS =
     \<lparr>source_refresh_ms = 12 * 60 * 60 * 1000, unavailable_retry_ms = 48 * 60 * 60 * 1000,
      unavailable_jitter_ratio = 1 / 10, transient_base_ms = 5 * 60 * 1000, transient_cap_ms = 6 * 60 * 60 * 1000,
      retry_after_cap_ms = 24 * 60 * 60 * 1000, due_batch_size = 32, concurrency = 8,
      scheduler_poll_ms = 60 * 1000, prewarm_deadline_ms = 30 * 60 * 1000, shutdown_grace_ms = 10 * 1000\<rparr>"

definition transient_retry_delay_ms ::
    "logo_maintenance_settings \<Rightarrow> (int \<Rightarrow> int \<Rightarrow> int) \<Rightarrow> int \<Rightarrow> int option \<Rightarrow> int" where
  "transient_retry_delay_ms s randint failure_count retry_after_ms =
     (let exponent = min (max (failure_count - 1) 0) 31;
          backoff_cap = min (transient_base_ms s * 2 ^ nat exponent) (transient_cap_ms s);
          jittered = randint 0 backoff_cap
      in case retry_after_ms of
           None \<Rightarrow> jittered
         | Some r \<Rightarrow>
             let bounded_retry_after = min (max r 0) (retry_after_cap_ms s)
             in min (max jittered bounded_retry_after) (retry_after_cap_ms s))"

definition unavailable_retry_delay_ms :: "logo_maintenance_settings \<Rightarrow> (int \<Rightarrow> int \<Rightarrow> int) \<Rightarrow> int" where
  "unavailable_retry_delay_ms s randint =
     (let span = trunc_rat (of_int (unavailable_retry_ms s) * unavailable_jitter_ratio s)
      in unavailable_retry_ms s + randint (- span) span)"

definition persist_result ::
    "eth_lib \<Rightarrow> logo_maintenance_settings \<Rightarrow> (int \<Rightarrow> int \<Rightarrow> int) \<Rightarrow> due_logo \<Rightarrow> acquisition_result \<Rightarrow> int \<Rightarrow> metadata_db
     \<Rightarrow> unit res \<times> metadata_db" where
  "persist_result eth s randint item r attempted_at db =
     (case ar_outcome r of
        Acquired \<Rightarrow>
          (case (ar_asset r, ar_source r) of
             (Some asset, Some source) \<Rightarrow>
               record_logo_success eth (du_chain_id item) (du_address item) (vl_image_bytes asset) (vl_content_hash asset)
                 (vl_mime_type asset) source attempted_at (ar_http_status r) db
           | _ \<Rightarrow> (Inl (OtherException ''RuntimeError''), db))
      | Transient_failure \<Rightarrow>
          let failure_count = du_failure_count item + 1;
              delay = transient_retry_delay_ms s randint failure_count (ar_retry_after_ms r)
          in record_logo_failure eth (du_chain_id item) (du_address item) ''transient'' attempted_at (attempted_at + delay)
               failure_count (ar_http_status r) (take 64 (ar_error_code r)) db
      | Unavailable \<Rightarrow>
          let delay = unavailable_retry_delay_ms s randint
          in record_logo_failure eth (du_chain_id item) (du_address item) ''unavailable'' attempted_at (attempted_at + delay)
               0 (ar_http_status r) (take 64 (ar_error_code r)) db)"

record logo_service =
  sv_settings :: logo_maintenance_settings
  sv_db :: metadata_db
  sv_asked :: "string list"
  sv_chain_ids :: "int list"
  sv_running :: bool
  sv_stopped :: bool
  sv_active :: int

text \<open>One due token, from the acquisition to the record of it. \<open>others\<close> is what else happens to the store meanwhile.\<close>

record due_turn =
  tn_clock :: retry_clock
  tn_randint :: "int \<Rightarrow> int \<Rightarrow> int"
  tn_attempted_at :: int
  tn_others :: "metadata_db \<Rightarrow> metadata_db"

definition process_due :: "logo_env \<Rightarrow> due_turn \<Rightarrow> due_logo \<Rightarrow> logo_service \<Rightarrow> unit res \<times> logo_service" where
  "process_due env tn item sv =
     (let sv1 = sv\<lparr>sv_active := sv_active sv + 1\<rparr>;
          (r, asked) = acquire env (tn_clock tn) (du_chain_id item) (du_address item) (sv_db sv1) (sv_asked sv1);
          db1 = tn_others tn (sv_db sv1);
          (done, db2) = (case r of
             Inl e \<Rightarrow> (Inl e, db1)
           | Inr result \<Rightarrow> persist_result (le_eth env) (sv_settings sv1) (tn_randint tn) item result (tn_attempted_at tn) db1)
      in (done, sv1\<lparr>sv_db := db2, sv_asked := asked, sv_active := sv_active sv1 - 1\<rparr>))"

text \<open>
  \<open>asyncio.gather\<close>: every task runs to its end, the first exception is the one that is raised. The tasks are
  taken in the order they end in.
\<close>

fun gather_due :: "logo_env \<Rightarrow> (due_turn \<times> due_logo) list \<Rightarrow> logo_service \<Rightarrow> unit res \<times> logo_service" where
  "gather_due env [] sv = (Inr (), sv)"
| "gather_due env ((tn, item) # rest) sv =
     (let (r, sv1) = process_due env tn item sv; (r', sv2) = gather_due env rest sv1
      in (case r of Inl e \<Rightarrow> Inl e | Inr _ \<Rightarrow> r', sv2))"

record round_env =
  re_force :: bool
  re_refresh_now :: int
  re_now :: int
  re_loads :: "nat list \<Rightarrow> json option"
  re_revision :: "(string \<times> string) list \<Rightarrow> string"
  re_others :: "metadata_db \<Rightarrow> metadata_db"
  re_turns :: "due_logo list \<Rightarrow> (due_turn \<times> due_logo) list"

definition run_once :: "logo_env \<Rightarrow> round_env \<Rightarrow> logo_service \<Rightarrow> unit res \<times> logo_service" where
  "run_once env re sv =
     (let (refreshed, st) = refresh_sources
            (refresh_source (le_eth env) (le_ip_literal env) (re_loads re) (re_revision re) (le_web env) (re_others re)
               (re_refresh_now re) (source_refresh_ms (sv_settings sv)) (re_force re))
            (le_sources env) (sv_chain_ids sv) [] \<lparr>st_db = sv_db sv, st_log = sv_asked sv\<rparr>;
          sv1 = sv\<lparr>sv_db := st_db st, sv_asked := st_log st\<rparr>
      in case refreshed of
           Inl e \<Rightarrow> (Inl e, sv1)
         | Inr _ \<Rightarrow>
             let due = get_due_logos (re_now re) (due_batch_size (sv_settings sv1)) (sv_db sv1)
             in if due = [] then (Inr (), sv1) else gather_due env (re_turns re due) sv1)"

text \<open>The loop: an iteration that raises is logged, only a cancellation ends it before \<open>stop\<close> is set.\<close>

fun maintenance_loop :: "logo_env \<Rightarrow> (round_env \<times> bool) list \<Rightarrow> logo_service \<Rightarrow> unit res \<times> logo_service" where
  "maintenance_loop env [] sv = (Inr (), sv)"
| "maintenance_loop env ((re, stop_set) # rounds) sv =
     (if sv_stopped sv then (Inr (), sv)
      else case run_once env re sv of
        (Inl e, sv1) \<Rightarrow>
          if e = CancelledError then (Inl e, sv1)
          else maintenance_loop env rounds (sv1\<lparr>sv_stopped := sv_stopped sv1 \<or> stop_set\<rparr>)
      | (Inr _, sv1) \<Rightarrow> maintenance_loop env rounds (sv1\<lparr>sv_stopped := sv_stopped sv1 \<or> stop_set\<rparr>))"

definition start_service :: "int list \<Rightarrow> logo_service \<Rightarrow> logo_service" where
  "start_service chain_ids sv =
     (if sv_running sv then sv
      else sv\<lparr>sv_chain_ids := dedup chain_ids, sv_stopped := False, sv_running := True\<rparr>)"

definition close_service :: "logo_service \<Rightarrow> logo_service" where
  "close_service sv = sv\<lparr>sv_stopped := True, sv_running := False\<rparr>"

section \<open>Lemmas on the acquisition\<close>

definition asset_ok :: "image_lib \<Rightarrow> validated_logo \<Rightarrow> bool" where
  "asset_ok lib v \<longleftrightarrow> between 1 MAX_IMAGE_BYTES (length (vl_image_bytes v)) \<and> vl_content_hash v = il_sha256 lib (vl_image_bytes v)
     \<and> vl_mime_type v \<in> set LOGO_MIME_TYPES \<and> signature_mime (vl_image_bytes v) = Some (vl_mime_type v)
     \<and> (\<exists>picture. il_open lib (vl_image_bytes v) = Inr picture \<and> im_frames picture = 1
          \<and> 1 \<le> im_width picture \<and> im_width picture \<le> MAX_IMAGE_SIDE \<and> 1 \<le> im_height picture \<and> im_height picture \<le> MAX_IMAGE_SIDE
          \<and> map_of ALLOWED_FORMATS (vl_mime_type v) = Some (im_format picture))"

lemma bind_refusal_Inr [simp]: "bind_refusal r f = Inr y \<longleftrightarrow> (\<exists>x. r = Inr x \<and> f x = Inr y)"
  by (cases r) auto

lemma bind_refusal_Inl: "bind_refusal r f = Inl e \<longleftrightarrow> r = Inl e \<or> (\<exists>x. r = Inr x \<and> f x = Inl e)"
  by (cases r) auto

lemma decoder_step_Inr [simp]: "decoder_step r = Inr x \<longleftrightarrow> r = Inr x"
  by (cases r) (auto simp: decoder_step_def)

lemma validate_asset_ok:
  assumes "validate_logo_bytes lib data mime = Inr v"
  shows "asset_ok lib v \<and> vl_image_bytes v = data \<and> vl_mime_type v = mime"
proof -
  from assms obtain f picture where d: "data \<noteq> []" "length data \<le> MAX_IMAGE_BYTES" "map_of ALLOWED_FORMATS mime = Some f"
    "signature_mime data = Some mime" "il_open lib data = Inr picture" "check_image f picture = Inr ()"
    "v = \<lparr>vl_image_bytes = data, vl_content_hash = il_sha256 lib data, vl_mime_type = mime\<rparr>"
    by (auto simp: validate_logo_bytes_def split: if_splits option.splits)
  have "mime \<in> set LOGO_MIME_TYPES" using d(3) by (auto simp: ALLOWED_FORMATS_def LOGO_MIME_TYPES_def split: if_splits)
  then show ?thesis using d
    by (cases data) (auto simp: asset_ok_def between_def check_image_def split: if_splits)
qed

lemma validation_codes:
  assumes "validate_logo_bytes lib data mime = Inl (LogoValidationError code)"
  shows "code \<noteq> []"
  using assms
  by (auto simp: validate_logo_bytes_def bind_refusal_Inl decoder_step_def check_image_def split: if_splits option.splits sum.splits)

text \<open>What the store needs of a result.\<close>

definition status_ok :: "int option \<Rightarrow> bool" where
  "status_ok v = (case v of None \<Rightarrow> True | Some n \<Rightarrow> 100 \<le> n \<and> n \<le> 599)"

definition attempt_ok :: "image_lib \<Rightarrow> candidate_result \<Rightarrow> bool" where
  "attempt_ok lib r \<longleftrightarrow> status_ok (cr_http_status r) \<and> cr_error_code r \<noteq> []
     \<and> (cr_outcome r = Candidate_success \<longrightarrow> (\<exists>v. cr_asset r = Some v \<and> asset_ok lib v) \<and> between 1 64 (length (cr_source r)))"

definition result_ok :: "image_lib \<Rightarrow> acquisition_result \<Rightarrow> bool" where
  "result_ok lib r \<longleftrightarrow> status_ok (ar_http_status r) \<and> ar_error_code r \<noteq> []
     \<and> (ar_outcome r = Acquired \<longrightarrow> (\<exists>v s. ar_asset r = Some v \<and> asset_ok lib v \<and> ar_source r = Some s \<and> between 1 64 (length s)))"

definition web_ok :: "web \<Rightarrow> bool" where
  "web_ok web \<longleftrightarrow> (\<forall>asked url r. web asked url = Responds r \<longrightarrow> 100 \<le> sr_status r \<and> sr_status r \<le> 599)"

lemma source_id_length: "between 1 64 (length (source_id s))"
  by (cases s) (simp_all add: between_def)

lemma source_for_id_Some: "source_for_id sources i = Some s \<Longrightarrow> s \<in> set sources \<and> source_id s = i"
  unfolding source_for_id_def by (drule map_of_SomeD) auto

lemma failed_fetch_ok: "failed_fetch c e = Inr r \<Longrightarrow> attempt_ok lib r"
  by (cases e) (auto simp: failed_fetch_def transient_def attempt_ok_def status_ok_def)

lemma conclusive_ok: "code \<noteq> [] \<Longrightarrow> status_ok st \<Longrightarrow> attempt_ok lib (conclusive c code st)"
  by (cases code) (auto simp: conclusive_def attempt_ok_def)

lemma read_image_ok:
  assumes "read_image lib c r = Inr a" "status_ok (Some (sr_status r))" "between 1 64 (length (lc_source c))"
  shows "attempt_ok lib a"
proof -
  have success: "attempt_ok lib \<lparr>cr_outcome = Candidate_success, cr_asset = Some v, cr_source = lc_source c,
      cr_http_status = Some (sr_status r), cr_error_code = ''success'', cr_retry_after_ms = None\<rparr>"
    if "validate_logo_bytes lib body (response_mime r) = Inr v" for body v
    using validate_asset_ok[OF that] assms(2,3) by (simp add: attempt_ok_def)
  show ?thesis using assms(1,2) success
    by (auto simp: read_image_def failed_fetch_ok conclusive_ok dest: validation_codes
        split: if_splits option.splits sum.splits refusal.splits)
qed

lemma read_logo_response_ok:
  assumes "read_logo_response clk lib c r = Inr a" "status_ok (Some (sr_status r))" "between 1 64 (length (lc_source c))"
  shows "attempt_ok lib a"
  using assms read_image_ok[of lib c r a]
  by (auto simp: read_logo_response_def Let_def attempt_ok_def split: if_splits)

lemma acquire_candidate_ok:
  assumes "acquire_candidate env clk chain_id address c asked = (Inr a, asked')" "web_ok (le_web env)"
  shows "attempt_ok (le_lib env) a"
proof (cases "source_for_id (le_sources env) (lc_source c)")
  case None
  then show ?thesis using assms(1) by (auto simp: acquire_candidate_def conclusive_ok status_ok_def)
next
  case (Some s)
  then have "between 1 64 (length (lc_source c))" using source_for_id_Some[OF Some] source_id_length[of s] by auto
  moreover have "status_ok (Some (sr_status r))" if "le_web env asked (lc_url c) = Responds r" for r
    using assms(2) that by (auto simp: web_ok_def status_ok_def)
  ultimately show ?thesis using assms(1) Some failed_fetch_ok read_logo_response_ok
    by (auto simp: acquire_candidate_def conclusive_ok status_ok_def simp del: allows_image_url.simps
        split: sum.splits bool.splits fetch.splits)
qed

lemma acquire_candidate_asked:
  assumes "acquire_candidate env clk chain_id address c asked = (a, asked')"
  shows "\<exists>new. asked' = new @ asked \<and> list_all (within_boundary (le_ip_literal env)) new"
proof (cases "asked' = asked")
  case False
  then obtain s where "allows_image_url (le_eth env) (le_ip_literal env) s chain_id address (lc_url c) = Inr True"
    "asked' = [lc_url c] @ asked"
    using assms by (auto simp: acquire_candidate_def simp del: allows_image_url.simps
        split: sum.splits bool.splits option.splits)
  then show ?thesis using allowed_within_boundary by (auto intro!: exI[of _ "[lc_url c]"])
qed auto

lemma try_candidates_ok:
  assumes "\<And>c asked a asked'. one c asked = (Inr a, asked') \<Longrightarrow> attempt_ok lib a" "list_all (attempt_ok lib) attempts"
    "try_candidates one cs attempts asked = (Inr r, asked')"
  shows "(\<forall>x. r = Inl x \<longrightarrow> result_ok lib x) \<and> (\<forall>as. r = Inr as \<longrightarrow> list_all (attempt_ok lib) as)"
  using assms(2,3)
proof (induction cs arbitrary: attempts asked)
  case (Cons c cs)
  obtain a asked1 where a: "one c asked = (Inr a, asked1)"
    using Cons.prems(2) by (auto split: prod.splits sum.splits)
  have ok: "attempt_ok lib a" by (rule assms(1)[OF a])
  show ?case
  proof (cases "cr_outcome a = Candidate_success")
    case True
    then show ?thesis using Cons.prems(2) a ok by (auto simp: acquired_def result_ok_def attempt_ok_def)
  next
    case False
    then have "try_candidates one cs (attempts @ [a]) asked1 = (Inr r, asked')" using Cons.prems(2) a by simp
    from Cons.IH[OF _ this] Cons.prems(1) ok show ?thesis by simp
  qed
qed auto

lemma try_candidates_asked:
  assumes "\<And>c asked a asked'. one c asked = (a, asked') \<Longrightarrow> \<exists>new. asked' = new @ asked \<and> list_all P new"
    "try_candidates one cs attempts asked = (r, asked')"
  shows "\<exists>new. asked' = new @ asked \<and> list_all P new"
  using assms(2)
proof (induction cs arbitrary: attempts asked)
  case (Cons c cs)
  obtain a asked1 where a: "one c asked = (a, asked1)" by (cases "one c asked")
  from assms(1)[OF a] obtain new where n: "asked1 = new @ asked" "list_all P new" by blast
  show ?case
  proof (cases "asked' = asked1")
    case False
    then obtain attempts' where "try_candidates one cs attempts' asked1 = (r, asked')"
      using Cons.prems a by (auto split: sum.splits if_splits)
    from Cons.IH[OF this] n show ?thesis by auto
  qed (use n in blast)
qed auto

lemma summarize_ok: "list_all (attempt_ok lib) as \<Longrightarrow> result_ok lib (summarize_attempts as)"
proof -
  assume a: "list_all (attempt_ok lib) as"
  show ?thesis
  proof (cases "filter (\<lambda>a. cr_outcome a = Candidate_transient) as")
    case Nil
    then show ?thesis using a by (auto simp: summarize_attempts_def result_ok_def attempt_ok_def status_ok_def list_all_iff)
  next
    case (Cons t ts)
    then have "t \<in> set (filter (\<lambda>a. cr_outcome a = Candidate_transient) as)" by simp
    then have "t \<in> set as" by simp
    then show ?thesis using a Cons by (auto simp: summarize_attempts_def result_ok_def attempt_ok_def list_all_iff Let_def)
  qed
qed

lemma try_override_ok:
  assumes "try_override env chain_id address = Inr r"
  shows "(\<forall>x. r = Inl x \<longrightarrow> result_ok (le_lib env) x) \<and> (\<forall>as. r = Inr as \<longrightarrow> list_all (attempt_ok (le_lib env)) as)"
proof -
  have success: "result_ok (le_lib env) (acquired (Some v) ''override'' None)"
    if "validate_logo_bytes (le_lib env) data mime = Inr v" for data mime v
    using validate_asset_ok[OF that] by (simp add: result_ok_def acquired_def status_ok_def between_def)
  have refused: "attempt_ok (le_lib env) \<lparr>cr_outcome = Candidate_conclusive, cr_asset = None, cr_source = ''override'',
      cr_http_status = None, cr_error_code = code, cr_retry_after_ms = None\<rparr>" if "code \<noteq> []" for code
    using that by (simp add: attempt_ok_def status_ok_def)
  obtain found where f: "get_logo_override env chain_id address = Inr found"
    using assms by (auto simp: try_override_def)
  show ?thesis
  proof (cases found)
    case None
    then show ?thesis using assms f by (auto simp: try_override_def)
  next
    case (Some data)
    show ?thesis
    proof (cases "signature_mime data")
      case None
      then show ?thesis using assms f Some refused by (auto simp: try_override_def Let_def)
    next
      case (Some mime)
      note m = this
      show ?thesis
      proof (cases "validate_logo_bytes (le_lib env) data mime")
        case (Inl e)
        then show ?thesis using assms f m \<open>found = Some data\<close> refused validation_codes
          by (cases e) (auto simp: try_override_def Let_def)
      next
        case (Inr v)
        then show ?thesis using assms f m \<open>found = Some data\<close> success[OF Inr] by (auto simp: try_override_def Let_def)
      qed
    qed
  qed
qed

lemma acquire_result_ok:
  assumes "acquire env clk chain_id address db asked = (Inr r, asked')" "web_ok (le_web env)"
  shows "result_ok (le_lib env) r"
proof -
  obtain x where o: "try_override env chain_id address = Inr x"
    using assms(1) by (auto simp: acquire_def split: sum.splits)
  note ok = try_override_ok[OF o]
  show ?thesis
  proof (cases x)
    case (Inl y)
    then show ?thesis using assms(1) o ok by (simp add: acquire_def)
  next
    case (Inr attempts)
    then obtain cs z where t: "try_candidates (acquire_candidate env clk chain_id address) cs attempts asked = (Inr z, asked')"
      "r = (case z of Inl y \<Rightarrow> y | Inr as \<Rightarrow> summarize_attempts as)"
      using assms(1) o by (auto simp: acquire_def split: sum.splits prod.splits)
    have "list_all (attempt_ok (le_lib env)) attempts" using ok Inr by simp
    from try_candidates_ok[OF acquire_candidate_ok[OF _ assms(2)] this t(1)] t(2) summarize_ok
    show ?thesis by (auto split: sum.splits)
  qed
qed

lemma acquire_asked:
  assumes "acquire env clk chain_id address db asked = (r, asked')"
  shows "\<exists>new. asked' = new @ asked \<and> list_all (within_boundary (le_ip_literal env)) new"
proof (cases "asked' = asked")
  case False
  then obtain attempts cs z where "try_candidates (acquire_candidate env clk chain_id address) cs attempts asked = (z, asked')"
    using assms by (auto simp: acquire_def split: sum.splits prod.splits)
  from try_candidates_asked[OF _ this] acquire_candidate_asked show ?thesis by blast
qed auto

section \<open>Lemmas on the schedule\<close>

definition randint_ok :: "(int \<Rightarrow> int \<Rightarrow> int) \<Rightarrow> bool" where
  "randint_ok randint \<longleftrightarrow> (\<forall>a b. a \<le> b \<longrightarrow> a \<le> randint a b \<and> randint a b \<le> b)"

definition schedule_ok :: "logo_maintenance_settings \<Rightarrow> bool" where
  "schedule_ok s \<longleftrightarrow> 0 \<le> transient_base_ms s \<and> 0 \<le> transient_cap_ms s \<and> 0 \<le> retry_after_cap_ms s
     \<and> 0 \<le> unavailable_retry_ms s \<and> 0 \<le> unavailable_jitter_ratio s \<and> unavailable_jitter_ratio s \<le> 1"

definition longest_delay :: "logo_maintenance_settings \<Rightarrow> int" where
  "longest_delay s = max (max (transient_cap_ms s) (retry_after_cap_ms s)) (2 * unavailable_retry_ms s)"

lemma randint_between: "randint_ok f \<Longrightarrow> a \<le> b \<Longrightarrow> a \<le> f a b \<and> f a b \<le> b"
  by (simp add: randint_ok_def)

lemma transient_delay_bounds:
  assumes "randint_ok f" "schedule_ok s"
  shows "0 \<le> transient_retry_delay_ms s f n ra" "transient_retry_delay_ms s f n ra \<le> max (transient_cap_ms s) (retry_after_cap_ms s)"
    "ra = Some r \<Longrightarrow> min r (retry_after_cap_ms s) \<le> transient_retry_delay_ms s f n ra"
    "ra = None \<Longrightarrow> transient_retry_delay_ms s f n ra \<le> transient_base_ms s * 2 ^ nat (n - 1)"
proof -
  define e where "e = nat (min (max (n - 1) 0) 31)"
  define cap where "cap = min (transient_base_ms s * 2 ^ e) (transient_cap_ms s)"
  define j where "j = f 0 cap"
  have d: "transient_retry_delay_ms s f n ra =
      (case ra of None \<Rightarrow> j | Some r \<Rightarrow> min (max j (min (max r 0) (retry_after_cap_ms s))) (retry_after_cap_ms s))"
    by (simp only: transient_retry_delay_ms_def Let_def e_def cap_def j_def)
  have s: "0 \<le> transient_base_ms s" "0 \<le> transient_cap_ms s" "0 \<le> retry_after_cap_ms s"
    using assms(2) by (simp_all add: schedule_ok_def)
  have "0 \<le> transient_base_ms s * 2 ^ e" using s(1) by simp
  then have c: "0 \<le> cap" using s(2) by (simp add: cap_def)
  have j: "0 \<le> j" "j \<le> cap" using randint_between[OF assms(1) c] by (simp_all add: j_def)
  have cap: "cap \<le> transient_cap_ms s" by (simp add: cap_def)
  show "0 \<le> transient_retry_delay_ms s f n ra" unfolding d using j(1) s(3) by (cases ra) auto
  show "transient_retry_delay_ms s f n ra \<le> max (transient_cap_ms s) (retry_after_cap_ms s)"
    unfolding d using j(2) cap by (cases ra) auto
  show "min r (retry_after_cap_ms s) \<le> transient_retry_delay_ms s f n ra" if "ra = Some r"
    unfolding d using that s(3) by auto
  have "(2::int) ^ e \<le> 2 ^ nat (n - 1)" by (rule power_increasing) (auto simp: e_def)
  from mult_left_mono[OF this s(1)] have "cap \<le> transient_base_ms s * 2 ^ nat (n - 1)" by (simp add: cap_def)
  then show "transient_retry_delay_ms s f n ra \<le> transient_base_ms s * 2 ^ nat (n - 1)" if "ra = None"
    unfolding d using that j(2) by simp
qed

lemma unavailable_delay_bounds:
  assumes "randint_ok f" "schedule_ok s"
  shows "0 \<le> unavailable_retry_delay_ms s f" "unavailable_retry_delay_ms s f \<le> 2 * unavailable_retry_ms s"
proof -
  let ?span = "trunc_rat (of_int (unavailable_retry_ms s) * unavailable_jitter_ratio s)"
  have u: "0 \<le> unavailable_retry_ms s" "0 \<le> unavailable_jitter_ratio s" "unavailable_jitter_ratio s \<le> 1"
    using assms(2) by (auto simp: schedule_ok_def)
  have p: "0 \<le> of_int (unavailable_retry_ms s) * unavailable_jitter_ratio s" using u by simp
  have "of_int (unavailable_retry_ms s) * unavailable_jitter_ratio s \<le> of_int (unavailable_retry_ms s) * 1"
    using u by (intro mult_left_mono) simp_all
  then have span: "?span \<le> unavailable_retry_ms s" "0 \<le> ?span" using p
    by (simp_all add: trunc_rat_def le_floor_iff) linarith?
  moreover from span(2) have "- ?span \<le> f (- ?span) ?span \<and> f (- ?span) ?span \<le> ?span"
    by (intro randint_between[OF assms(1)]) simp
  ultimately show "0 \<le> unavailable_retry_delay_ms s f" "unavailable_retry_delay_ms s f \<le> 2 * unavailable_retry_ms s"
    by (simp_all add: unavailable_retry_delay_ms_def Let_def)
qed

section \<open>What is recorded\<close>

definition recorded :: "metadata_db \<Rightarrow> metadata_db \<Rightarrow> identity \<Rightarrow> int \<Rightarrow> int \<Rightarrow> bool" where
  "recorded db db' k attempted_at longest \<longleftrightarrow>
     (\<exists>r. map_of (db_logos db') k = Some r \<and> lg_last_attempt_at r = Some attempted_at
       \<and> (lg_last_outcome r = Some ''success'' \<and> lg_image_bytes r \<noteq> None \<and> lg_next_attempt_at r = None
          \<or> image_of db' k = image_of db k
            \<and> (\<exists>t. lg_next_attempt_at r = Some t \<and> attempted_at \<le> t \<and> t \<le> attempted_at + longest)))"

lemma status_row: "status_ok v \<longleftrightarrow> opt_all (\<lambda>s. 100 \<le> s \<and> s \<le> 599) v"
  by (cases v) (simp_all add: status_ok_def opt_all_def)

lemma success_recorded:
  assumes "normalize_address eth a = Inr a" "between 1 262144 (length b)" "length h = 64" "m \<in> set LOGO_MIME_TYPES"
    "between 1 64 (length src)" "status_ok st" "logos_sound (db_logos db)"
  shows "\<exists>db'. record_logo_success eth c a b h m src t st db = (Inr (), db') \<and> recorded db db' (c, a) t longest"
proof (cases "map_of (db_logos db) (c, a)")
  case None
  then show ?thesis using assms
    by (simp add: record_logo_success_def put_logo_def logo_row_ok_def opt_all_def status_row recorded_def od_get_set)
next
  case (Some r)
  then have "logo_row_ok r" using assms(7) by (auto simp: logos_sound_def sound_row_def)
  then have "lg_content_hash r = Some h \<Longrightarrow> opt_all (\<lambda>b. between 1 262144 (length b)) (lg_image_bytes r) \<and> lg_image_bytes r \<noteq> None"
    by (auto simp: logo_row_ok_def)
  then show ?thesis using assms Some
    by (auto simp: record_logo_success_def put_logo_def logo_row_ok_def opt_all_def status_row recorded_def od_get_set Let_def)
qed

lemma failure_recorded:
  assumes "normalize_address eth a = Inr a" "status_ok st" "0 \<le> n" "code \<noteq> []" "logos_sound (db_logos db)"
    "t \<le> next_at" "next_at \<le> t + longest" "outcome = ''unavailable'' \<or> outcome = ''transient''"
  shows "\<exists>db'. record_logo_failure eth c a outcome t next_at n st (take 64 code) db = (Inr (), db') \<and> recorded db db' (c, a) t longest"
proof -
  define r where "r = (case map_of (db_logos db) (c, a) of None \<Rightarrow> enrolled_row | Some r \<Rightarrow> r)"
  have ok: "logo_row_ok r" using assms(5) enrolled_row_sound
    by (auto simp: r_def logos_sound_def sound_row_def split: option.splits)
  define r' where "r' = r\<lparr>lg_last_attempt_at := Some t, lg_next_attempt_at := Some next_at, lg_last_outcome := Some outcome,
    lg_failure_count := n, lg_last_http_status := st, lg_last_error_code := Some (take 64 code)\<rparr>"
  have "between 1 64 (length (take 64 code))" using assms(4) by (cases code) (auto simp: between_def)
  then have ok': "logo_row_ok r'" using ok assms(2,3,8) by (auto simp: r'_def logo_row_ok_def opt_all_def status_row)
  have "image_of (db\<lparr>db_logos := AList.update (c, a) r' (db_logos db)\<rparr>) (c, a) = image_of db (c, a)"
    by (auto simp: image_of_def od_get_set r'_def r_def enrolled_row_def split: option.splits)
  then show ?thesis using assms(1,6-8) ok'
    by (auto simp: record_logo_failure_def put_logo_def Let_def r_def[symmetric] r'_def[symmetric] recorded_def od_get_set)
      (auto simp: r'_def)
qed

lemma persist_recorded:
  assumes "result_ok lib r" "\<forall>b. length (il_sha256 lib b) = 64" "normalize_address eth (du_address item) = Inr (du_address item)"
    "0 \<le> du_failure_count item" "randint_ok f" "schedule_ok s" "logos_sound (db_logos db)"
  shows "\<exists>db'. persist_result eth s f item r t db = (Inr (), db')
    \<and> recorded db db' (du_chain_id item, du_address item) t (longest_delay s)"
proof (cases "ar_outcome r")
  case Acquired
  then obtain v src where v: "ar_asset r = Some v" "asset_ok lib v" "ar_source r = Some src" "between 1 64 (length src)" "status_ok (ar_http_status r)"
    using assms(1) by (auto simp: result_ok_def)
  from v(2) have "between 1 262144 (length (vl_image_bytes v))" "length (vl_content_hash v) = 64" "vl_mime_type v \<in> set LOGO_MIME_TYPES"
    using assms(2) by (auto simp: asset_ok_def MAX_IMAGE_BYTES_def)
  from success_recorded[OF assms(3) this v(4,5) assms(7)] show ?thesis
    using Acquired v(1,3) by (simp add: persist_result_def)
next
  case Transient_failure
  let ?d = "transient_retry_delay_ms s f (du_failure_count item + 1) (ar_retry_after_ms r)"
  have "0 \<le> ?d" "?d \<le> longest_delay s" using transient_delay_bounds(1,2)[OF assms(5,6)] by (auto simp: longest_delay_def le_max_iff_disj)
  with failure_recorded[of eth "du_address item" "ar_http_status r" "du_failure_count item + 1" "ar_error_code r" db t "t + ?d" "longest_delay s"
      "''transient''" "du_chain_id item"] assms(1,3,4,7)
  show ?thesis using Transient_failure by (simp add: persist_result_def Let_def result_ok_def)
next
  case Unavailable
  let ?d = "unavailable_retry_delay_ms s f"
  have "0 \<le> ?d" "?d \<le> longest_delay s" using unavailable_delay_bounds[OF assms(5,6)] by (auto simp: longest_delay_def)
  with failure_recorded[of eth "du_address item" "ar_http_status r" 0 "ar_error_code r" db t "t + ?d" "longest_delay s"
      "''unavailable''" "du_chain_id item"] assms(1,3,7)
  show ?thesis using Unavailable by (simp add: persist_result_def Let_def result_ok_def)
qed

lemma persist_sound: "logos_sound (db_logos db) \<Longrightarrow> logos_sound (db_logos (snd (persist_result eth s f item r t db)))"
  by (auto simp: persist_result_def success_sound failure_sound Let_def split: acquisition_outcome.splits option.splits)

section \<open>The URLs of a round\<close>

definition permitted_url :: "(string \<Rightarrow> bool) \<Rightarrow> string \<Rightarrow> bool" where
  "permitted_url ip url \<longleftrightarrow> url = ''https://tokens.coingecko.com/ethereum/all.json'' \<or> within_boundary ip url"

definition asks_permitted :: "(string \<Rightarrow> bool) \<Rightarrow> string list \<Rightarrow> string list \<Rightarrow> bool" where
  "asks_permitted ip asked asked' \<longleftrightarrow> (\<exists>new. asked' = new @ asked \<and> list_all (permitted_url ip) new)"

lemma asks_permitted_refl [simp]: "asks_permitted ip asked asked"
  by (simp add: asks_permitted_def)

lemma asks_permitted_trans: "asks_permitted ip a b \<Longrightarrow> asks_permitted ip b c \<Longrightarrow> asks_permitted ip a c"
  unfolding asks_permitted_def
proof (elim exE conjE)
  fix u v
  assume "b = u @ a" "list_all (permitted_url ip) u" "c = v @ b" "list_all (permitted_url ip) v"
  then show "\<exists>new. c = new @ a \<and> list_all (permitted_url ip) new" by (intro exI[of _ "v @ u"]) simp
qed

lemma fetch_metadata_asks: "fetch_metadata ip loads web source asked = (r, asked') \<Longrightarrow> asks_permitted ip asked asked'"
proof (cases "asked' = asked")
  case False
  assume "fetch_metadata ip loads web source asked = (r, asked')"
  then have "asked' = ''https://tokens.coingecko.com/ethereum/all.json'' # asked" using False
    by (cases source) (auto simp: fetch_metadata_def split: if_splits)
  then show ?thesis by (auto simp: asks_permitted_def permitted_url_def)
qed simp

lemma refresh_source_asks:
  "refresh_source eth ip loads rv web others now interval force c source st = (r, st') \<Longrightarrow> asks_permitted ip (st_log st) (st_log st')"
proof -
  assume a: "refresh_source eth ip loads rv web others now interval force c source st = (r, st')"
  obtain p asked where f: "fetch_metadata ip loads web source (st_log st) = (p, asked)" by (cases "fetch_metadata ip loads web source (st_log st)")
  have "st_log st' = st_log st \<or> st_log st' = asked"
    using a f by (auto simp: refresh_source_def Let_def split: if_splits sum.splits prod.splits)
  then show ?thesis using fetch_metadata_asks[OF f] by auto
qed

lemma refresh_chain_asks:
  assumes "\<And>source st r st'. one source st = (r, st') \<Longrightarrow> asks_permitted ip (st_log st) (st_log st')"
  shows "refresh_chain one sources out st = (r, st') \<Longrightarrow> asks_permitted ip (st_log st) (st_log st')"
proof (induction sources arbitrary: out st)
  case (Cons s sources)
  obtain x st1 where x: "one s st = (x, st1)" by (cases "one s st")
  from Cons x show ?case
    by (auto intro: asks_permitted_trans[OF assms[OF x]] assms[OF x] split: sum.splits option.splits)
qed simp

lemma refresh_sources_asks:
  assumes "\<And>c source st r st'. one c source st = (r, st') \<Longrightarrow> asks_permitted ip (st_log st) (st_log st')"
  shows "refresh_sources one sources cs out st = (r, st') \<Longrightarrow> asks_permitted ip (st_log st) (st_log st')"
proof (induction cs arbitrary: out st)
  case (Cons c cs)
  obtain x st1 where x: "refresh_chain (one c) sources [] st = (x, st1)" by (cases "refresh_chain (one c) sources [] st")
  note x' = refresh_chain_asks[where one = "one c", OF assms x]
  from Cons x show ?case
    by (auto intro: asks_permitted_trans[OF x'] x' split: sum.splits)
qed simp

lemma process_due_asks: "process_due env tn item sv = (r, sv') \<Longrightarrow> asks_permitted (le_ip_literal env) (sv_asked sv) (sv_asked sv')"
proof -
  assume a: "process_due env tn item sv = (r, sv')"
  obtain x asked where x: "acquire env (tn_clock tn) (du_chain_id item) (du_address item) (sv_db sv) (sv_asked sv) = (x, asked)"
    by (cases "acquire env (tn_clock tn) (du_chain_id item) (du_address item) (sv_db sv) (sv_asked sv)")
  have "sv_asked sv' = asked" using a x by (auto simp: process_due_def Let_def split: prod.splits)
  then show ?thesis using acquire_asked[OF x] by (auto simp: asks_permitted_def permitted_url_def list_all_iff)
qed

lemma gather_due_asks: "gather_due env ts sv = (r, sv') \<Longrightarrow> asks_permitted (le_ip_literal env) (sv_asked sv) (sv_asked sv')"
proof (induction ts arbitrary: sv r sv')
  case (Cons t ts)
  obtain tn item where t: "t = (tn, item)" by (cases t)
  obtain x sv1 where x: "process_due env tn item sv = (x, sv1)" by (cases "process_due env tn item sv")
  obtain y sv2 where y: "gather_due env ts sv1 = (y, sv2)" by (cases "gather_due env ts sv1")
  have "sv' = sv2" using Cons.prems t x y by simp
  with Cons.IH[OF y] show ?case using asks_permitted_trans[OF process_due_asks[OF x]] by simp
qed simp

section \<open>Properties\<close>

text \<open>C27: A maintenance round asks the network only for the fixed token list and for images within the reviewed
  boundary (https to the four known hosts, default port, no credentials), whatever the token lists, the responses and
  the stored URLs are and however the round ends.\<close>

theorem round_stays_within_boundary:
  assumes "run_once env re sv = (r, sv')"
  shows "\<exists>new. sv_asked sv' = new @ sv_asked sv
    \<and> list_all (\<lambda>url. url = ''https://tokens.coingecko.com/ethereum/all.json'' \<or> within_boundary (le_ip_literal env) url) new"
proof -
  let ?one = "refresh_source (le_eth env) (le_ip_literal env) (re_loads re) (re_revision re) (le_web env) (re_others re)
    (re_refresh_now re) (source_refresh_ms (sv_settings sv)) (re_force re)"
  obtain x st where x: "refresh_sources ?one (le_sources env) (sv_chain_ids sv) [] \<lparr>st_db = sv_db sv, st_log = sv_asked sv\<rparr> = (x, st)"
    by (cases "refresh_sources ?one (le_sources env) (sv_chain_ids sv) [] \<lparr>st_db = sv_db sv, st_log = sv_asked sv\<rparr>")
  have one: "asks_permitted (le_ip_literal env) (sv_asked sv) (st_log st)"
    using refresh_sources_asks[where one = ?one, OF refresh_source_asks x] by simp
  let ?sv1 = "sv\<lparr>sv_db := st_db st, sv_asked := st_log st\<rparr>"
  have "sv' = ?sv1 \<or> (\<exists>ts y. gather_due env ts ?sv1 = (y, sv'))"
    using assms x by (auto simp: run_once_def Let_def split: sum.splits if_splits)
  then have "asks_permitted (le_ip_literal env) (sv_asked ?sv1) (sv_asked sv')"
    using gather_due_asks by (metis asks_permitted_refl)
  from asks_permitted_trans[OF one] this show ?thesis by (simp add: asks_permitted_def permitted_url_def[abs_def])
qed


text \<open>The delays of the schedule: a transient failure is retried within the configured caps, with a bound that
  doubles with every further failure, and never before the delay the server asked for (up to its cap); an unavailable
  logo is retried within the jitter around its interval.\<close>

theorem retry_delays_bounded:
  assumes "randint_ok randint" "schedule_ok s"
  shows "0 \<le> transient_retry_delay_ms s randint n retry_after
    \<and> transient_retry_delay_ms s randint n retry_after \<le> max (transient_cap_ms s) (retry_after_cap_ms s)
    \<and> (case retry_after of
         None \<Rightarrow> transient_retry_delay_ms s randint n retry_after \<le> transient_base_ms s * 2 ^ nat (n - 1)
       | Some d \<Rightarrow> min d (retry_after_cap_ms s) \<le> transient_retry_delay_ms s randint n retry_after)
    \<and> 0 \<le> unavailable_retry_delay_ms s randint \<and> unavailable_retry_delay_ms s randint \<le> 2 * unavailable_retry_ms s"
  using transient_delay_bounds[OF assms] unavailable_delay_bounds[OF assms] by (cases retry_after) simp_all

text \<open>
  A status outside 100 to 599 (which the HTTP client lets through) is not recorded: the store refuses the row, the
  token stays due and is tried again at every round without any delay.
\<close>

lemma odd_status_never_recorded:
  assumes "ar_outcome r = Unavailable" "ar_http_status r = Some n" "n < 100 \<or> n > 599"
    "normalize_address eth (du_address item) = Inr a"
  shows "persist_result eth s f item r t db = (Inl IntegrityError, db)"
  using assms by (auto simp: persist_result_def record_logo_failure_def put_logo_def logo_row_ok_def opt_all_def Let_def)

section \<open>Witnesses\<close>

definition example_logo :: "nat list" where "example_logo = [0x89, 0x50, 0x4E, 0x47, 0x0D, 0x0A, 0x1A, 0x0A, 0]"

definition example_lib :: image_lib where
  "example_lib = \<lparr>il_open = (\<lambda>b. Inr \<lparr>im_format = ''PNG'', im_width = 64, im_height = 64, im_frames = 1\<rparr>),
     il_verify = (\<lambda>b. Inr ()), il_load = (\<lambda>b. Inr ()), il_sha256 = (\<lambda>b. replicate 64 (CHR ''a''))\<rparr>"

definition example_logo_env :: logo_env where
  "example_logo_env = \<lparr>le_eth = example_eth, le_ip_literal = (\<lambda>h. False), le_sources = LOGO_SOURCES,
     le_overrides = [((1, example_address), example_logo)], le_lib = example_lib, le_web = (\<lambda>asked url. Fails Fetch_timeout)\<rparr>"

definition example_turn :: due_turn where
  "example_turn = \<lparr>tn_clock = \<lparr>rc_http_date = (\<lambda>s. None), rc_now = 0\<rparr>, tn_randint = (\<lambda>a b. a), tn_attempted_at = 9,
     tn_others = (\<lambda>db. db)\<rparr>"

definition example_service :: logo_service where
  "example_service = \<lparr>sv_settings = DEFAULT_LOGO_MAINTENANCE_SETTINGS, sv_db = empty_db, sv_asked = [], sv_chain_ids = [1],
     sv_running = True, sv_stopped = False, sv_active = 0\<rparr>"

lemma default_schedule: "schedule_ok DEFAULT_LOGO_MAINTENANCE_SETTINGS"
  by (simp add: schedule_ok_def DEFAULT_LOGO_MAINTENANCE_SETTINGS_def)

lemma example_acquire:
  "acquire example_logo_env clk 1 example_address db asked =
     (Inr (acquired (Some \<lparr>vl_image_bytes = example_logo, vl_content_hash = replicate 64 (CHR ''a''), vl_mime_type = ''image/png''\<rparr>)
        ''override'' None), asked)"
  by (simp add: acquire_def try_override_def get_logo_override_def example_logo_env_def example_normalize Let_def
      signature_mime_def example_logo_def validate_logo_bytes_def MAX_IMAGE_BYTES_def ALLOWED_FORMATS_def example_lib_def
      decoder_step_def check_image_def MAX_IMAGE_SIDE_def MAX_IMAGE_PIXELS_def)

theorem round_stays_within_boundary_witness:
  "\<exists>r sv' new. run_once example_logo_env \<lparr>re_force = True, re_refresh_now = 0, re_now = 0, re_loads = (\<lambda>b. None),
      re_revision = (\<lambda>rows. []), re_others = (\<lambda>db. db), re_turns = map (\<lambda>d. (example_turn, d))\<rparr> example_service = (r, sv')
    \<and> sv_asked sv' = new
    \<and> list_all (\<lambda>url. url = ''https://tokens.coingecko.com/ethereum/all.json'' \<or> within_boundary (\<lambda>h. False) url) new"
proof -
  let ?re = "\<lparr>re_force = True, re_refresh_now = 0, re_now = 0, re_loads = (\<lambda>b. None),
      re_revision = (\<lambda>rows. []), re_others = (\<lambda>db. db), re_turns = map (\<lambda>d. (example_turn, d))\<rparr>"
  obtain r sv' where x: "run_once example_logo_env ?re example_service = (r, sv')"
    by (cases "run_once example_logo_env ?re example_service")
  from round_stays_within_boundary[OF x] x show ?thesis by (simp add: example_service_def example_logo_env_def)
qed

lemma example_fields:
  "le_eth example_logo_env = example_eth" "le_lib example_logo_env = example_lib" "web_ok (le_web example_logo_env)"
  "\<forall>b. length (il_sha256 example_lib b) = 64" "tn_others example_turn db = db" "tn_attempted_at example_turn = 9"
  "randint_ok (tn_randint example_turn)" "sv_settings example_service = DEFAULT_LOGO_MAINTENANCE_SETTINGS"
  "sv_db example_service = empty_db" "logos_sound (db_logos empty_db)"
  by (simp_all add: example_logo_env_def example_lib_def web_ok_def example_turn_def randint_ok_def example_service_def
      logos_sound_def empty_db_def)


theorem retry_delays_bounded_witness:
  "7000 \<le> transient_retry_delay_ms DEFAULT_LOGO_MAINTENANCE_SETTINGS (\<lambda>a b. a) 3 (Some 7000)"
  using retry_delays_bounded[of "\<lambda>a b. a" DEFAULT_LOGO_MAINTENANCE_SETTINGS 3 "Some 7000"] default_schedule
  by (simp add: randint_ok_def DEFAULT_LOGO_MAINTENANCE_SETTINGS_def)

end
