(* ===== verification/PrewarmTool.thy ===== *)
theory PrewarmTool
  imports Adapters MetadataCache Parsing TextLines LogoService
begin

text \<open>
  The command-line tool that enrols tokens for the acquisition of their logos and waits for it
  (\<open>tools/token_logo_prewarm.py\<close>). The arguments are what \<open>argparse\<close> makes of the command line; the input file is
  its text or the exception of reading it. While the tool waits, the service works on the same file: what it finds
  there at each poll, and the readings of the clock, are the record \<open>wait_env\<close>.
\<close>

section \<open>Arguments\<close>

datatype prewarm_command =
    Enroll (pc_force_existing: bool) (pc_service_name: string)
  | Wait (pc_started_at_ms: int) (pc_deadline_seconds: int) (pc_poll_seconds: rat)
  | Status (pc_since_ms: "int option")

definition DEFAULT_DEADLINE_SECONDS :: int where
  "DEFAULT_DEADLINE_SECONDS = prewarm_deadline_ms DEFAULT_LOGO_MAINTENANCE_SETTINGS div 1000"

section \<open>The list of identities\<close>

definition at_line :: "string \<Rightarrow> nat \<Rightarrow> string \<Rightarrow> exc" where
  "at_line path n m = ValueError (path @ '':'' @ nat_str n @ '': '' @ m)"

definition is_header :: "string \<Rightarrow> bool" where
  "is_header line \<longleftrightarrow> filter (\<lambda>c. c \<noteq> CHR '' '') (py_lower line) \<in> {''chain_id,address'', ''chain_id'' @ [CHR 0x09] @ ''address''}"

definition identity_of_fields :: "eth_lib \<Rightarrow> string \<Rightarrow> nat \<Rightarrow> string list \<Rightarrow> identity res" where
  "identity_of_fields eth path n fs =
     (case fs of
        [f0, f1] \<Rightarrow>
          (case py_int_of_str (py_strip f0) of
             None \<Rightarrow> Inl (at_line path n ''chain_id must be an integer'')
           | Some chain_id \<Rightarrow>
               if chain_id \<le> 0 then Inl (at_line path n ''chain_id must be positive'')
               else rbind (normalize_address eth (py_strip f1)) (\<lambda>address. Inr (chain_id, address)))
      | _ \<Rightarrow> Inl (at_line path n ''expected chain_id,address''))"

text \<open>\<open>None\<close> where the line is skipped.\<close>

definition read_identity :: "eth_lib \<Rightarrow> string \<Rightarrow> nat \<Rightarrow> string \<Rightarrow> identity option res" where
  "read_identity eth path n raw_line =
     (let line = py_strip raw_line in
      if line = [] \<or> py_startswith line ''#'' then Inr None
      else if is_header line then Inr None
      else rbind (identity_of_fields eth path n (py_split_on (CHR '','') (map (\<lambda>c. if c = CHR 0x09 then CHR '','' else c) line)))
             (\<lambda>identity. Inr (Some identity)))"

fun read_lines :: "eth_lib \<Rightarrow> string \<Rightarrow> nat \<Rightarrow> string list \<Rightarrow> identity list \<Rightarrow> identity list res" where
  "read_lines eth path n [] identities = Inr identities"
| "read_lines eth path n (raw_line # lines) identities =
     rbind (read_identity eth path n raw_line) (\<lambda>r.
       read_lines eth path (n + 1) lines
         (case r of None \<Rightarrow> identities
          | Some identity \<Rightarrow> if identity \<in> set identities then identities else identities @ [identity]))"

definition read_identities :: "eth_lib \<Rightarrow> string \<Rightarrow> string res \<Rightarrow> identity list res" where
  "read_identities eth path file =
     rbind file (\<lambda>content. rbind (read_lines eth path 1 (py_splitlines content) []) (\<lambda>identities.
       if identities = [] then Inl (ValueError ''identity input is empty'') else Inr identities))"

section \<open>The status\<close>

definition completed_for_checkpoint :: "int option \<Rightarrow> logo_status \<Rightarrow> bool" where
  "completed_for_checkpoint started_at_ms st =
     (case started_at_ms of
        None \<Rightarrow> ls_last_attempt_at st \<noteq> None
      | Some t \<Rightarrow> if ls_has_image st \<and> ls_next_attempt_at st = None then True
          else (case ls_last_attempt_at st of None \<Rightarrow> False | Some a \<Rightarrow> a > t))"

record status_report =
  sp_identity_count :: int
  sp_attempted :: int
  sp_pending :: int
  sp_success :: int
  sp_unavailable :: int
  sp_transient :: int

text \<open>\<open>Counter(status.last_outcome or "unknown" ...)\<close>.\<close>

definition outcome_name :: "logo_status \<Rightarrow> string" where
  "outcome_name st = (case ls_last_outcome st of None \<Rightarrow> ''unknown'' | Some v \<Rightarrow> if v = [] then ''unknown'' else v)"

definition counter_item :: "string \<Rightarrow> logo_status list \<Rightarrow> int" where
  "counter_item name completed = int (length (filter (\<lambda>st. outcome_name st = name) completed))"

definition status_payload :: "eth_lib \<Rightarrow> sqlite_schema \<Rightarrow> metadata_db \<Rightarrow> identity list \<Rightarrow> int option \<Rightarrow> status_report res" where
  "status_payload eth sq db identities started_at_ms =
     rbind (read_logo_statuses eth sq identities db) (\<lambda>statuses.
       let completed = filter (completed_for_checkpoint started_at_ms) statuses in
       Inr \<lparr>sp_identity_count = int (length statuses), sp_attempted = int (length completed),
            sp_pending = int (length statuses) - int (length completed),
            sp_success = counter_item ''success'' completed, sp_unavailable = counter_item ''unavailable'' completed,
            sp_transient = counter_item ''transient'' completed\<rparr>)"

text \<open>The keys as \<open>json.dump(..., sort_keys=True)\<close> orders them.\<close>

definition report_json :: "status_report \<Rightarrow> json" where
  "report_json r = JObj [(''attempted'', JInt (sp_attempted r)), (''command'', JStr ''status''),
     (''identity_count'', JInt (sp_identity_count r)), (''pending'', JInt (sp_pending r)), (''success'', JInt (sp_success r)),
     (''transient'', JInt (sp_transient r)), (''unavailable'', JInt (sp_unavailable r))]"

section \<open>Waiting\<close>

record wait_env =
  wt_db :: "nat \<Rightarrow> metadata_db"
  wt_start :: rat
  wt_checked :: "nat \<Rightarrow> rat"
  wt_before_sleep :: "nat \<Rightarrow> rat"

definition pause :: "rat \<Rightarrow> rat \<Rightarrow> rat \<Rightarrow> rat" where
  "pause poll_seconds deadline now = min poll_seconds (max (deadline - now) (1 / 100))"

text \<open>Exit code and report; \<open>None\<close> would be a wait without end. \<open>i\<close> is the number of polls so far.\<close>

partial_function (option) wait_loop ::
    "eth_lib \<Rightarrow> sqlite_schema \<Rightarrow> wait_env \<Rightarrow> identity list \<Rightarrow> int \<Rightarrow> rat \<Rightarrow> nat \<Rightarrow> ((int \<times> status_report) res) option" where
  "wait_loop eth sq env identities started_at_ms deadline i =
     (case status_payload eth sq (wt_db env i) identities (Some started_at_ms) of
        Inl e \<Rightarrow> Some (Inl e)
      | Inr payload \<Rightarrow>
          if sp_pending payload = 0 then Some (Inr (0, payload))
          else if wt_checked env i \<ge> deadline then Some (Inr (1, payload))
          else wait_loop eth sq env identities started_at_ms deadline (i + 1))"

section \<open>The program\<close>

text \<open>\<open>None\<close>: no \<open>systemctl\<close> on this machine.\<close>

definition service_is_active :: "(string \<Rightarrow> int option) \<Rightarrow> string \<Rightarrow> bool" where
  "service_is_active systemctl service_name = (systemctl service_name = Some 0)"

record prewarm_run =
  pw_exit :: "int res"
  pw_out :: "json list"
  pw_err :: "string list"
  pw_db :: metadata_db

definition failed_run :: "exc \<Rightarrow> metadata_db \<Rightarrow> prewarm_run" where
  "failed_run e db = \<lparr>pw_exit = Inl e, pw_out = [], pw_err = [], pw_db = db\<rparr>"

text \<open>\<open>raise SystemExit(message)\<close>.\<close>

definition system_exit :: "string \<Rightarrow> metadata_db \<Rightarrow> prewarm_run" where
  "system_exit m db = \<lparr>pw_exit = Inr 1, pw_out = [], pw_err = [m], pw_db = db\<rparr>"

definition run_enroll :: "eth_lib \<Rightarrow> sqlite_schema \<Rightarrow> (string \<Rightarrow> int option) \<Rightarrow> int \<Rightarrow> identity list \<Rightarrow> bool \<Rightarrow> string \<Rightarrow> metadata_db \<Rightarrow> prewarm_run" where
  "run_enroll eth sq systemctl now identities force service_name db =
     (if service_is_active systemctl service_name
      then system_exit (service_name @ '' is active; stop it before enrolling logo identities'') db
      else case ensure_db sq of
        Inl e \<Rightarrow> failed_run e db
      | Inr _ \<Rightarrow>
          (case enroll_identities eth now identities force db of
             (Inl e, db1) \<Rightarrow> failed_run e db1
           | (Inr started_at, db1) \<Rightarrow>
               \<lparr>pw_exit = Inr 0,
                pw_out = [JObj [(''command'', JStr ''enroll''), (''enrollment_started_at_ms'', JInt started_at),
                  (''force_existing'', JBool force), (''identity_count'', JInt (int (length identities)))]],
                pw_err = [], pw_db = db1\<rparr>))"

definition run_status :: "eth_lib \<Rightarrow> sqlite_schema \<Rightarrow> identity list \<Rightarrow> int option \<Rightarrow> metadata_db \<Rightarrow> prewarm_run" where
  "run_status eth sq identities started_at_ms db =
     (case status_payload eth sq db identities started_at_ms of
        Inl e \<Rightarrow> failed_run e db
      | Inr payload \<Rightarrow> \<lparr>pw_exit = Inr 0, pw_out = [report_json payload], pw_err = [], pw_db = db\<rparr>)"

definition run_wait :: "eth_lib \<Rightarrow> sqlite_schema \<Rightarrow> wait_env \<Rightarrow> identity list \<Rightarrow> int \<Rightarrow> int \<Rightarrow> rat \<Rightarrow> metadata_db \<Rightarrow> prewarm_run option" where
  "run_wait eth sq env identities started_at_ms deadline_seconds poll_seconds db =
     (if deadline_seconds \<le> 0 \<or> poll_seconds \<le> 0 then Some (system_exit ''deadline and poll intervals must be positive'' db)
      else map_option (\<lambda>r. case r of
               Inl e \<Rightarrow> failed_run e db
             | Inr (code, payload) \<Rightarrow> \<lparr>pw_exit = Inr code, pw_out = [report_json payload], pw_err = [], pw_db = db\<rparr>)
             (wait_loop eth sq env identities started_at_ms (wt_start env + of_int deadline_seconds) 0))"

definition prewarm_main :: "eth_lib \<Rightarrow> sqlite_schema \<Rightarrow> (string \<Rightarrow> int option) \<Rightarrow> int \<Rightarrow> wait_env \<Rightarrow> string \<Rightarrow> string res \<Rightarrow> prewarm_command
    \<Rightarrow> metadata_db \<Rightarrow> prewarm_run option" where
  "prewarm_main eth sq systemctl now env path file cmd db =
     (case read_identities eth path file of
        Inl e \<Rightarrow> Some (failed_run e db)
      | Inr identities \<Rightarrow>
          (case cmd of
             Enroll force service_name \<Rightarrow> Some (run_enroll eth sq systemctl now identities force service_name db)
           | Status since \<Rightarrow> Some (run_status eth sq identities since db)
           | Wait started_at_ms deadline_seconds poll_seconds \<Rightarrow>
               run_wait eth sq env identities started_at_ms deadline_seconds poll_seconds db))"

section \<open>Lemmas\<close>

text \<open>What the reader accepts.\<close>

definition identity_ok :: "eth_lib \<Rightarrow> identity \<Rightarrow> bool" where
  "identity_ok eth k \<longleftrightarrow> fst k > 0 \<and> (\<exists>a. normalize_address eth a = Inr (snd k))"

lemma identity_of_fields_ok: "identity_of_fields eth path n fs = Inr k \<Longrightarrow> identity_ok eth k"
  by (auto simp: identity_of_fields_def identity_ok_def split: if_splits list.splits option.splits)

lemma read_identity_ok: "read_identity eth path n raw_line = Inr (Some k) \<Longrightarrow> identity_ok eth k"
  by (auto simp: read_identity_def Let_def dest: identity_of_fields_ok split: if_splits)

lemma read_lines_ok:
  "read_lines eth path n lines acc = Inr ids \<Longrightarrow> distinct acc \<Longrightarrow> \<forall>k \<in> set acc. identity_ok eth k \<Longrightarrow>
     distinct ids \<and> (\<forall>k \<in> set ids. identity_ok eth k)"
proof (induction lines arbitrary: n acc)
  case (Cons raw_line lines)
  obtain r where r: "read_identity eth path n raw_line = Inr r"
    and rest: "read_lines eth path (n + 1) lines (case r of None \<Rightarrow> acc | Some k \<Rightarrow> if k \<in> set acc then acc else acc @ [k]) = Inr ids"
    using Cons.prems(1) by auto
  have "r = Some k \<Longrightarrow> identity_ok eth k" for k using read_identity_ok r by blast
  then show ?case using Cons.prems(2,3) by (intro Cons.IH[OF rest]) (auto split: option.splits)
qed simp

lemma read_identities_ok:
  assumes "read_identities eth path file = Inr ids"
  shows "distinct ids" "ids \<noteq> []" "\<forall>k \<in> set ids. identity_ok eth k"
  using assms read_lines_ok[of eth path 1 _ "[]" ids] by (auto simp: read_identities_def split: if_splits)

lemma normalized_normalizes:
  assumes "eth_ok eth" "normalize_address eth a = Inr b"
  shows "\<exists>n. normalize_address eth b = Inr n"
  using assms(2)
proof (cases rule: normalize_address_Inr_cases)
  case 1
  then show ?thesis by (simp add: is_native_alias_constants)
next
  case 2
  then have "is_address eth b" "to_checksum_address eth b = Some b" using assms(1) unfolding eth_ok_def by blast+
  then show ?thesis by (simp add: normalize_address_def)
qed

text \<open>A printed line is read back.\<close>

definition plain_char :: "char \<Rightarrow> bool" where
  "plain_char c \<longleftrightarrow> \<not> py_isspace c \<and> c \<noteq> CHR '',''"

definition identity_line :: "identity \<Rightarrow> string" where
  "identity_line k = int_str (fst k) @ '','' @ snd k"

lemma split_plain:
  assumes "CHR '','' \<notin> set a" "CHR '','' \<notin> set b"
  shows "py_split_on (CHR '','') (a @ CHR '','' # b) = [a, b]"
proof -
  have "py_split_on (CHR '','') b = [b]" using assms(2) by (induction b) auto
  then show ?thesis using assms(1) by (induction a) auto
qed

lemma digit_plain: "is_dec_digit c \<Longrightarrow> plain_char c \<and> c \<noteq> CHR ''#'' \<and> c \<noteq> CHR '' '' \<and> py_lower_char c = c \<and> c \<noteq> CHR ''c''"
  by (auto simp: is_dec_digit_def plain_char_def py_isspace_def py_lower_char_def Let_def)

lemma plain_not: "plain_char c \<Longrightarrow> c \<noteq> CHR 0x09 \<and> \<not> is_line_break c"
  by (auto simp: plain_char_def py_isspace_def is_line_break_def Let_def)

lemma identity_line_chars:
  assumes "0 < fst k" "list_all plain_char (snd k)"
  obtains d ds where "identity_line k = d # ds" "is_dec_digit d" "list_all (\<lambda>c. plain_char c \<or> c = CHR '','') (d # ds)"
proof -
  obtain d ds where d: "int_str (fst k) = d # ds" using int_str_digits(2)[of "fst k"] assms(1) by (cases "int_str (fst k)") auto
  moreover have "list_all is_dec_digit (d # ds)" using int_str_digits(1)[of "fst k"] assms(1) d by simp
  ultimately show thesis using assms(2) digit_plain by (intro that[of d "ds @ '','' @ snd k"]) (auto simp: identity_line_def list_all_iff)
qed

lemma comma_plain: "\<not> py_isspace CHR '','' \<and> \<not> is_line_break CHR '','' \<and> CHR '','' \<noteq> CHR 0x09"
  by (simp add: py_isspace_def is_line_break_def Let_def)

lemma read_identity_line:
  assumes "0 < fst k" "fst k \<le> MAX_UINT256" "list_all plain_char (snd k)" "normalize_address eth (snd k) = Inr (snd k)"
  shows "read_identity eth path n (identity_line k) = Inr (Some k)"
proof -
  let ?line = "identity_line k"
  obtain d ds where d: "?line = d # ds" "is_dec_digit d" and chars: "list_all (\<lambda>c. plain_char c \<or> c = CHR '','') ?line"
    using identity_line_chars[OF assms(1,3)] by metis
  have "\<not> py_isspace c" if "c \<in> set ?line" for c
    using chars that comma_plain by (auto simp: list_all_iff plain_char_def)
  then have strip: "py_strip ?line = ?line" by (intro py_strip_id) (auto simp: d(1))
  have start: "\<not> py_startswith ?line ''#''" using digit_plain[OF d(2)] by (auto simp: py_startswith_def d(1))
  have head: "\<not> is_header ?line" using digit_plain[OF d(2)] by (auto simp: is_header_def py_lower_def d(1))
  have "(if c = CHR 0x09 then CHR '','' else c) = c" if "c \<in> set ?line" for c
    using chars that comma_plain plain_not by (auto simp: list_all_iff)
  then have tabs: "map (\<lambda>c. if c = CHR 0x09 then CHR '','' else c) ?line = ?line" by (intro map_idI)
  have "CHR '','' \<notin> set (int_str (fst k))" "CHR '','' \<notin> set (snd k)"
    using int_str_digits(1)[of "fst k"] assms(1,3) digit_plain by (auto simp: list_all_iff plain_char_def)
  from split_plain[OF this] have split: "py_split_on (CHR '','') ?line = [int_str (fst k), snd k]" by (simp add: identity_line_def)
  have "\<forall>c \<in> set (snd k). \<not> py_isspace c" using assms(3) by (simp add: list_all_iff plain_char_def)
  then have "py_strip (snd k) = snd k" by (intro py_strip_id) (metis hd_in_set last_in_set)
  then have "identity_of_fields eth path n [int_str (fst k), snd k] = Inr k"
    using assms int_str_digits(4)[of "fst k"] py_int_of_int_str[of "fst k"] by (simp add: identity_of_fields_def)
  then show ?thesis unfolding read_identity_def Let_def strip tabs split using start head d(1) by simp
qed

lemma read_identity_header: "read_identity eth path n ''chain_id,address'' = Inr None"
proof -
  have "py_strip ''chain_id,address'' = ''chain_id,address''" "is_header ''chain_id,address''"
    "\<not> py_startswith ''chain_id,address'' ''#''" by code_simp+
  then show ?thesis by (simp add: read_identity_def)
qed

lemma read_printed_lines:
  assumes "\<forall>k \<in> set ids. 0 < fst k \<and> fst k \<le> MAX_UINT256 \<and> list_all plain_char (snd k) \<and> normalize_address eth (snd k) = Inr (snd k)"
    and "distinct (acc @ ids)"
  shows "read_lines eth path n (map identity_line ids) acc = Inr (acc @ ids)"
  using assms
proof (induction ids arbitrary: n acc)
  case (Cons k ids)
  then have "read_identity eth path n (identity_line k) = Inr (Some k)" by (intro read_identity_line) auto
  then show ?case using Cons.IH[of "acc @ [k]" "n + 1"] Cons.prems by simp
qed simp

text \<open>Enrolment of several tokens.\<close>

definition made_due :: "bool \<Rightarrow> logo_row option \<Rightarrow> logo_row" where
  "made_due force r = (case r of None \<Rightarrow> enrolled_row
     | Some r \<Rightarrow> r\<lparr>lg_next_attempt_at := if force \<or> lg_image_bytes r = None then Some 0 else lg_next_attempt_at r\<rparr>)"

lemma enroll_due_lookup:
  "map_of (enroll_due force k t) k' = (if k' = k then Some (made_due force (map_of t k)) else map_of t k')"
  by (auto simp: enroll_due_def made_due_def od_simps split: option.splits)

lemma enroll_due_foldl:
  "distinct ks \<Longrightarrow> map_of (foldl (\<lambda>t k. enroll_due force k t) t ks) k =
     (if k \<in> set ks then Some (made_due force (map_of t k)) else map_of t k)"
  by (induction ks arbitrary: t) (auto simp: enroll_due_lookup)

lemma rmap_list_total:
  "\<forall>x \<in> set xs. \<exists>y. f x = Inr y \<Longrightarrow> \<exists>ys. rmap_list f xs = Inr ys \<and> (\<forall>y. y \<in> set ys \<longleftrightarrow> (\<exists>x \<in> set xs. f x = Inr y))"
proof (induction xs)
  case (Cons x xs)
  then obtain ys y where "rmap_list f xs = Inr ys" "\<forall>y. y \<in> set ys \<longleftrightarrow> (\<exists>x \<in> set xs. f x = Inr y)" "f x = Inr y" by auto
  then show ?case by auto
qed simp

lemma enrolled_lookup:
  assumes "eth_ok eth" "\<forall>k \<in> set ids. identity_ok eth k"
  shows "\<exists>db'. enroll_identities eth now ids force db = (Inr now, db') \<and> db_metadata db' = db_metadata db
    \<and> (\<forall>k. map_of (db_logos db') k =
        (if \<exists>a. (fst k, a) \<in> set ids \<and> normalize_address eth a = Inr (snd k) then Some (made_due force (map_of (db_logos db) k))
         else map_of (db_logos db) k))"
proof -
  let ?f = "\<lambda>(c, a). rbind (normalize_address eth a) (\<lambda>n. Inr (c, n))"
  have pos: "filter (\<lambda>(c, a). c > 0) ids = ids" "\<not> list_ex (\<lambda>(c, a). c \<le> 0) ids"
    using assms(2) by (auto simp: identity_ok_def list_ex_iff filter_id_conv)
  have "\<forall>k \<in> set ids. \<exists>k'. ?f k = Inr k'"
    using assms normalized_normalizes[OF assms(1)] by (fastforce simp: identity_ok_def)
  from rmap_list_total[OF this] obtain ks where ks: "rmap_list ?f ids = Inr ks"
    "\<And>k. k \<in> set ks \<longleftrightarrow> (\<exists>x \<in> set ids. ?f x = Inr k)" by blast
  have "k \<in> set ks \<longleftrightarrow> (\<exists>a. (fst k, a) \<in> set ids \<and> normalize_address eth a = Inr (snd k))" for k
    unfolding ks(2) by (cases k) (auto simp: Bex_def)
  moreover have "distinct (sort (dedup ks))" "set (sort (dedup ks)) = set ks"
    by (simp_all add: distinct_dedup_from set_dedup_from)
  ultimately show ?thesis unfolding enroll_identities_def pos(1) ks(1) using pos(2)
    by (simp add: enroll_due_foldl)
qed

text \<open>Waiting.\<close>

lemma pending_nonneg: "status_payload eth sq db ids since = Inr r \<Longrightarrow> 0 \<le> sp_pending r"
  by (auto simp: status_payload_def Let_def)

lemma pause_bound: "min poll_seconds (1 / 100) \<le> pause poll_seconds deadline now"
  by (simp add: pause_def)

definition wait_outcome :: "(nat \<Rightarrow> status_report res) \<Rightarrow> (nat \<Rightarrow> rat) \<Rightarrow> rat \<Rightarrow> nat \<Rightarrow> (int \<times> status_report) res \<Rightarrow> bool" where
  "wait_outcome status checked deadline i r \<longleftrightarrow>
     (\<exists>j \<ge> i. (case r of
        Inl e \<Rightarrow> status j = Inl e
      | Inr (code, payload) \<Rightarrow> status j = Inr payload \<and>
          (code = 0 \<and> sp_pending payload = 0 \<or> code = 1 \<and> sp_pending payload > 0 \<and> deadline \<le> checked j))
      \<and> (\<forall>k. i \<le> k \<and> k < j \<longrightarrow> (\<exists>p. status k = Inr p \<and> sp_pending p > 0)))"

lemma wait_outcome_later:
  assumes "wait_outcome status checked deadline (i + 1) r" "status i = Inr p" "sp_pending p > 0"
  shows "wait_outcome status checked deadline i r"
proof -
  obtain j where j: "j \<ge> i + 1" "case r of Inl e \<Rightarrow> status j = Inl e | Inr (code, payload) \<Rightarrow> status j = Inr payload \<and>
      (code = 0 \<and> sp_pending payload = 0 \<or> code = 1 \<and> sp_pending payload > 0 \<and> deadline \<le> checked j)"
    "\<forall>k. i + 1 \<le> k \<and> k < j \<longrightarrow> (\<exists>p. status k = Inr p \<and> sp_pending p > 0)" using assms(1) by (auto simp: wait_outcome_def)
  have "\<exists>p. status k = Inr p \<and> sp_pending p > 0" if "i \<le> k" "k < j" for k
    using j(3) assms(2,3) that by (cases "k = i") auto
  then show ?thesis using j(1,2) unfolding wait_outcome_def by (intro exI[of _ j]) simp
qed

lemma wait_loop_returns:
  assumes "0 < d" "\<And>i. wt_checked env i + d \<le> wt_checked env (Suc i)" "deadline - wt_checked env i < of_nat m * d"
  shows "\<exists>r. wait_loop eth sq env ids started deadline i = Some r
    \<and> wait_outcome (\<lambda>i. status_payload eth sq (wt_db env i) ids (Some started)) (wt_checked env) deadline i r"
  using assms(3)
proof (induction m arbitrary: i)
  case 0
  then have late: "deadline \<le> wt_checked env i" by simp
  show ?case
  proof (cases "status_payload eth sq (wt_db env i) ids (Some started)")
    case (Inr p)
    then have "0 \<le> sp_pending p" by (rule pending_nonneg)
    then show ?thesis using late Inr by (subst wait_loop.simps) (auto simp: wait_outcome_def intro!: exI[of _ i])
  qed (subst wait_loop.simps, auto simp: wait_outcome_def)
next
  case (Suc m)
  show ?case
  proof (cases "status_payload eth sq (wt_db env i) ids (Some started)")
    case (Inr p)
    have nonneg: "0 \<le> sp_pending p" using Inr by (rule pending_nonneg)
    have less: "deadline - wt_checked env (i + 1) < of_nat m * d" using Suc.prems assms(2)[of i] by (simp add: algebra_simps)
    show ?thesis
    proof (cases "sp_pending p = 0 \<or> deadline \<le> wt_checked env i")
      case True
      then show ?thesis using Inr nonneg by (subst wait_loop.simps) (auto simp: wait_outcome_def intro!: exI[of _ i])
    next
      case False
      obtain r where "wait_loop eth sq env ids started deadline (i + 1) = Some r"
        "wait_outcome (\<lambda>i. status_payload eth sq (wt_db env i) ids (Some started)) (wt_checked env) deadline (i + 1) r"
        using Suc.IH[OF less] by blast
      moreover have "wait_loop eth sq env ids started deadline i = wait_loop eth sq env ids started deadline (i + 1)"
        using False Inr by (subst wait_loop.simps) simp
      ultimately show ?thesis using wait_outcome_later[of _ _ _ i r p] Inr False nonneg by auto
    qed
  qed (subst wait_loop.simps, auto simp: wait_outcome_def)
qed

section \<open>Properties\<close>

text \<open>The input file: identities printed one per line under the header are read back exactly, in their order; and
  whatever file is accepted, the list is not empty, has no identity twice, and every identity has a positive chain and a
  normalised address.\<close>

theorem identity_file_round_trip:
  assumes "distinct ids" "ids \<noteq> []"
    and "\<forall>k \<in> set ids. 0 < fst k \<and> fst k \<le> MAX_UINT256 \<and> list_all plain_char (snd k) \<and> normalize_address eth (snd k) = Inr (snd k)"
  shows "read_identities eth path (Inr (concat (map (\<lambda>l. l @ [CHR 0x0A]) (''chain_id,address'' # map identity_line ids)))) = Inr ids
    \<and> (\<forall>file ids'. read_identities eth path file = Inr ids' \<longrightarrow> distinct ids' \<and> ids' \<noteq> [] \<and> (\<forall>k \<in> set ids'. identity_ok eth k))"
proof
  have "list_all (\<lambda>c. \<not> is_line_break c) (identity_line k)" if k: "k \<in> set ids" for k
  proof -
    obtain d ds where "identity_line k = d # ds" "list_all (\<lambda>c. plain_char c \<or> c = CHR '','') (d # ds)"
      using identity_line_chars[of k] assms(3) k by metis
    moreover have "\<not> is_line_break c" if "plain_char c \<or> c = CHR '',''" for c using that comma_plain plain_not by blast
    ultimately show ?thesis by (simp only: list_all_iff) blast
  qed
  moreover have "list_all (\<lambda>c. \<not> is_line_break c) ''chain_id,address''" by code_simp
  ultimately have "py_splitlines (concat (map (\<lambda>l. l @ [CHR 0x0A]) (''chain_id,address'' # map identity_line ids)))
      = ''chain_id,address'' # map identity_line ids" by (intro splitlines_lines) simp
  then show "read_identities eth path (Inr (concat (map (\<lambda>l. l @ [CHR 0x0A]) (''chain_id,address'' # map identity_line ids)))) = Inr ids"
    using read_printed_lines[OF assms(3), of "[]" path 2] assms(1,2)
    by (simp add: read_identities_def read_identity_header numeral_2_eq_2)
qed (use read_identities_ok[of eth path] in blast)

definition example_identity :: identity where
  "example_identity = (1, example_address)"

lemma example_identity_printable:
  "\<forall>k \<in> set [example_identity]. 0 < fst k \<and> fst k \<le> MAX_UINT256 \<and> list_all plain_char (snd k)
     \<and> normalize_address lower_eth (snd k) = Inr (snd k)"
proof -
  have "list_all plain_char example_address" by code_simp
  moreover have "normalize_address lower_eth example_address = Inr example_address"
    by (simp add: normalize_address_def lower_eth_def example_address_def is_native_alias_def py_str Let_def
      NATIVE_TOKEN_ALIAS_def ZERO_ADDRESS_def)
  ultimately show ?thesis by (simp add: example_identity_def MAX_UINT256_def)
qed

theorem identity_file_round_trip_witness:
  "read_identities lower_eth ''ids.csv'' (Inr (''chain_id,address'' @ CHR 0x0A # identity_line example_identity @ [CHR 0x0A]))
     = Inr [example_identity]"
  using identity_file_round_trip[of "[example_identity]" lower_eth "''ids.csv''", OF _ _ example_identity_printable] by simp

text \<open>Enrolment: with a readable list and a usable store, \<open>enroll\<close> leaves exactly the listed tokens changed, each now in
  the table and, when forced or without an image, due at once, with images kept; while the service runs it refuses and
  changes nothing.\<close>

theorem enrolment_makes_due:
  assumes "eth_ok eth" "read_identities eth path file = Inr ids" "ensure_db sq = Inr sq'"
  shows "\<exists>run. prewarm_main eth sq systemctl now env path file (Enroll force service) db = Some run
    \<and> (systemctl service = Some 0 \<longrightarrow> pw_exit run = Inr 1 \<and> pw_db run = db)
    \<and> (systemctl service \<noteq> Some 0 \<longrightarrow> pw_exit run = Inr 0
        \<and> (\<forall>c n. if \<exists>a. (c, a) \<in> set ids \<and> normalize_address eth a = Inr n
             then \<exists>r. map_of (db_logos (pw_db run)) (c, n) = Some r
               \<and> (force \<or> lg_image_bytes r = None \<longrightarrow> lg_next_attempt_at r = Some 0)
               \<and> lg_image_bytes r = Option.bind (map_of (db_logos db) (c, n)) lg_image_bytes
             else map_of (db_logos (pw_db run)) (c, n) = map_of (db_logos db) (c, n)))"
proof -
  obtain db' where e: "enroll_identities eth now ids force db = (Inr now, db')"
    "\<And>k. map_of (db_logos db') k = (if \<exists>a. (fst k, a) \<in> set ids \<and> normalize_address eth a = Inr (snd k)
        then Some (made_due force (map_of (db_logos db) k)) else map_of (db_logos db) k)"
    using enrolled_lookup[OF assms(1) read_identities_ok(3)[OF assms(2)], of now force db] by blast
  have due: "force \<or> lg_image_bytes (made_due force r) = None \<longrightarrow> lg_next_attempt_at (made_due force r) = Some 0"
    "lg_image_bytes (made_due force r) = Option.bind r lg_image_bytes" for r
    by (auto simp: made_due_def enrolled_row_def split: option.splits)
  show ?thesis
  proof (cases "systemctl service = Some 0")
    case True
    then show ?thesis using assms(2) by (simp add: prewarm_main_def run_enroll_def service_is_active_def system_exit_def)
  next
    case False
    have lookup: "if \<exists>a. (c, a) \<in> set ids \<and> normalize_address eth a = Inr n
        then \<exists>r. map_of (db_logos db') (c, n) = Some r
          \<and> (force \<or> lg_image_bytes r = None \<longrightarrow> lg_next_attempt_at r = Some 0)
          \<and> lg_image_bytes r = Option.bind (map_of (db_logos db) (c, n)) lg_image_bytes
        else map_of (db_logos db') (c, n) = map_of (db_logos db) (c, n)" for c n
    proof (cases "\<exists>a. (c, a) \<in> set ids \<and> normalize_address eth a = Inr n")
      case True
      then have "map_of (db_logos db') (c, n) = Some (made_due force (map_of (db_logos db) (c, n)))" using e(2)[of "(c, n)"] by auto
      then show ?thesis unfolding if_P[OF True] using due by blast
    next
      case no: False
      then show ?thesis unfolding if_not_P[OF no] using e(2)[of "(c, n)"] by auto
    qed
    have "prewarm_main eth sq systemctl now env path file (Enroll force service) db =
        Some \<lparr>pw_exit = Inr 0,
              pw_out = [JObj [(''command'', JStr ''enroll''), (''enrollment_started_at_ms'', JInt now),
                  (''force_existing'', JBool force), (''identity_count'', JInt (int (length ids)))]],
              pw_err = [], pw_db = db'\<rparr>"
      using assms(2,3) e(1) False by (simp add: prewarm_main_def run_enroll_def service_is_active_def)
    then obtain run where run: "prewarm_main eth sq systemctl now env path file (Enroll force service) db = Some run"
      and sel: "pw_exit run = Inr 0" "pw_db run = db'" by simp
    show ?thesis
    proof (intro exI[of _ run] conjI impI allI)
      show "if \<exists>a. (c, a) \<in> set ids \<and> normalize_address eth a = Inr n
        then \<exists>r. map_of (db_logos (pw_db run)) (c, n) = Some r
          \<and> (force \<or> lg_image_bytes r = None \<longrightarrow> lg_next_attempt_at r = Some 0)
          \<and> lg_image_bytes r = Option.bind (map_of (db_logos db) (c, n)) lg_image_bytes
        else map_of (db_logos (pw_db run)) (c, n) = map_of (db_logos db) (c, n)" for c n
        unfolding sel by (rule lookup)
    qed (use run sel False in simp_all)
  qed
qed

text \<open>C40: The wait ends: as long as the clock advances over each pause by what was asked for, \<open>wait\<close> returns, whatever the
  service does to the store meanwhile. It succeeds at the first poll that finds nothing pending, and exits with 1 only at or
  after the deadline with something pending at every poll; what it prints is what the last poll found.\<close>

theorem wait_returns:
  assumes "read_identities eth path file = Inr ids" "0 < deadline_seconds" "0 < poll_seconds"
    and "\<forall>i. wt_checked env i \<le> wt_before_sleep env i
      \<and> wt_before_sleep env i + pause poll_seconds (wt_start env + of_int deadline_seconds) (wt_before_sleep env i) \<le> wt_checked env (Suc i)"
  shows "\<exists>run j. prewarm_main eth sq systemctl now env path file (Wait started deadline_seconds poll_seconds) db = Some run
    \<and> pw_db run = db
    \<and> (\<forall>k < j. \<exists>p. status_payload eth sq (wt_db env k) ids (Some started) = Inr p \<and> sp_pending p > 0)
    \<and> (case status_payload eth sq (wt_db env j) ids (Some started) of
         Inl e \<Rightarrow> pw_exit run = Inl e
       | Inr p \<Rightarrow> pw_out run = [report_json p] \<and> (pw_exit run = Inr 0 \<and> sp_pending p = 0
           \<or> pw_exit run = Inr 1 \<and> sp_pending p > 0 \<and> wt_start env + of_int deadline_seconds \<le> wt_checked env j))"
proof -
  let ?deadline = "wt_start env + of_int deadline_seconds" and ?d = "min poll_seconds (1 / 100)"
  let ?status = "\<lambda>i. status_payload eth sq (wt_db env i) ids (Some started)"
  have d: "0 < ?d" using assms(3) by simp
  have step: "wt_checked env i + ?d \<le> wt_checked env (Suc i)" for i
    using assms(4)[rule_format, of i] pause_bound[of poll_seconds ?deadline "wt_before_sleep env i"] by linarith
  obtain m :: nat where "(?deadline - wt_checked env 0) / ?d < of_nat m" using reals_Archimedean2 by blast
  then have "?deadline - wt_checked env 0 < of_nat m * ?d" using d by (simp add: pos_divide_less_eq)
  from wait_loop_returns[OF d step this] obtain r where r: "wait_loop eth sq env ids started ?deadline 0 = Some r"
    "wait_outcome ?status (wt_checked env) ?deadline 0 r" by blast
  then obtain j where j: "case r of Inl e \<Rightarrow> ?status j = Inl e | Inr (code, payload) \<Rightarrow> ?status j = Inr payload \<and>
      (code = 0 \<and> sp_pending payload = 0 \<or> code = 1 \<and> sp_pending payload > 0 \<and> ?deadline \<le> wt_checked env j)"
    "\<forall>k < j. \<exists>p. ?status k = Inr p \<and> sp_pending p > 0" by (auto simp: wait_outcome_def)
  have main: "prewarm_main eth sq systemctl now env path file (Wait started deadline_seconds poll_seconds) db
      = Some (case r of Inl e \<Rightarrow> failed_run e db
          | Inr (code, payload) \<Rightarrow> \<lparr>pw_exit = Inr code, pw_out = [report_json payload], pw_err = [], pw_db = db\<rparr>)"
    using assms(1-3) r(1) by (simp add: prewarm_main_def run_wait_def)
  show ?thesis unfolding main using j by (intro exI conjI refl) (auto simp: failed_run_def split: sum.splits)
qed

definition example_file :: string where
  "example_file = identity_line example_identity @ [CHR 0x0A]"

lemma example_file_read: "read_identities lower_eth path (Inr example_file) = Inr [example_identity]"
proof -
  have "list_all (\<lambda>c. \<not> is_line_break c) (identity_line example_identity)" by code_simp
  then have "py_splitlines example_file = [identity_line example_identity]"
    using splitlines_lines[of "[identity_line example_identity]"] by (simp add: example_file_def)
  moreover have "read_lines lower_eth path 1 [identity_line example_identity] [] = Inr [example_identity]"
    using read_printed_lines[OF example_identity_printable, of "[]"] by (simp del: read_lines.simps)
  ultimately show ?thesis by (simp add: read_identities_def del: read_lines.simps One_nat_def)
qed

definition example_wait_env :: wait_env where
  "example_wait_env = \<lparr>wt_db = (\<lambda>_. empty_db), wt_start = 0, wt_checked = of_nat, wt_before_sleep = of_nat\<rparr>"

theorem enrolment_makes_due_witness:
  "\<exists>run r. prewarm_main lower_eth create_schema (\<lambda>_. None) 5 example_wait_env ''ids'' (Inr example_file) (Enroll False ''price-api'') empty_db = Some run
    \<and> pw_exit run = Inr 0 \<and> map_of (db_logos (pw_db run)) example_identity = Some r \<and> lg_next_attempt_at r = Some 0"
proof -
  have h: "ensure_db create_schema = Inr create_schema" by code_simp
  have n: "normalize_address lower_eth (snd example_identity) = Inr (snd example_identity)" using example_identity_printable by simp
  obtain c a where k: "example_identity = (c, a)" by (cases example_identity) auto
  from enrolment_makes_due[OF lower_eth_ok example_file_read h, where systemctl = "\<lambda>_. None" and now = 5 and env = example_wait_env
        and force = False and service = "''price-api''" and db = empty_db and path = "''ids''"]
  obtain run where run: "prewarm_main lower_eth create_schema (\<lambda>_. None) 5 example_wait_env ''ids'' (Inr example_file) (Enroll False ''price-api'') empty_db = Some run"
    "pw_exit run = Inr 0" and looked: "\<forall>c n. if \<exists>a. (c, a) \<in> set [example_identity] \<and> normalize_address lower_eth a = Inr n
        then \<exists>r. map_of (db_logos (pw_db run)) (c, n) = Some r \<and> (False \<or> lg_image_bytes r = None \<longrightarrow> lg_next_attempt_at r = Some 0)
          \<and> lg_image_bytes r = Option.bind (map_of (db_logos empty_db) (c, n)) lg_image_bytes
        else map_of (db_logos (pw_db run)) (c, n) = map_of (db_logos empty_db) (c, n)" by auto
  from looked[rule_format, of c a] n run show ?thesis by (auto simp: k empty_db_def)
qed

theorem wait_returns_witness:
  "\<exists>run. prewarm_main lower_eth create_schema (\<lambda>_. None) 5 example_wait_env ''ids'' (Inr example_file) (Wait 5 3 1) empty_db = Some run
    \<and> pw_exit run \<in> {Inr 0, Inr 1}"
proof -
  have "status_payload lower_eth create_schema (wt_db example_wait_env j) [example_identity] (Some 5)
      = Inr \<lparr>sp_identity_count = 1, sp_attempted = 0, sp_pending = 1, sp_success = 0, sp_unavailable = 0, sp_transient = 0\<rparr>" for j
    unfolding example_wait_env_def wait_env.simps by code_simp
  moreover have "\<forall>i. wt_checked example_wait_env i \<le> wt_before_sleep example_wait_env i
      \<and> wt_before_sleep example_wait_env i + pause 1 (wt_start example_wait_env + of_int 3) (wt_before_sleep example_wait_env i)
        \<le> wt_checked example_wait_env (Suc i)" by (simp add: example_wait_env_def pause_def)
  ultimately show ?thesis
    using wait_returns[OF example_file_read, where deadline_seconds = 3 and poll_seconds = 1 and env = example_wait_env and sq = create_schema
        and systemctl = "\<lambda>_. None" and now = 5 and path = "''ids''" and started = 5 and db = empty_db]
    by auto
qed

end
