(* ===== verification/Config.thy ===== *)
theory Config
  imports Domain
begin

text \<open>
  The settings (\<open>app/config.py\<close>): the fields with their defaults, the validators that parse
  list-valued settings, the range checks and the derived values. Where a value comes from
  (environment, dotenv file, TOML) is \<open>pydantic_settings\<close>; \<open>loads\<close> is \<open>json.loads\<close>.
  A \<open>mode="before"\<close> validator either returns what it parsed or hands the value on unchanged.
\<close>

section \<open>Fields\<close>

record base_settings =
  app_env :: string
  app_version :: string
  log_level :: string
  log_format :: string
  log_request_body :: bool
  metrics_enabled :: bool
  enable_readiness_strict :: bool
  chain_ids :: "int list"
  ethereum_rpc_url :: "string option"
  optimism_rpc_url :: "string option"
  gnosis_rpc_url :: "string option"
  polygon_rpc_url :: "string option"
  arbitrum_rpc_url :: "string option"
  avalanche_rpc_url :: "string option"
  rpc_request_timeout_ms :: int
  provider_request_timeout_ms :: int
  provider_max_retries :: int
  provider_http_trust_env :: bool
  provider_pool_timeout_ms :: int
  provider_connect_timeout_ms :: int
  provider_read_timeout_ms :: "int option"
  provider_write_timeout_ms :: int
  provider_max_connections_per_provider :: "int option"
  provider_max_keepalive_connections_per_provider :: int
  provider_keepalive_expiry_s :: rat
  provider_client_ttl_s :: int
  provider_client_max_requests :: int
  provider_recycle_pool_timeout_threshold :: int
  provider_recycle_window_s :: int

record limit_settings = base_settings +
  provider_fanout_per_request :: int
  provider_global_limit :: int
  provider_global_units :: "int option"
  provider_per_provider_units :: int
  vault_global_units :: int
  admission_acquire_timeout_ms :: int
  web3_limit :: int
  provider_circuit_failure_window_s :: int
  provider_circuit_failure_threshold :: int
  provider_circuit_open_duration_s :: int
  provider_circuit_half_open_probe_count :: int
  vault_positive_cache_ttl_s :: int
  vault_negative_cache_ttl_s :: int
  vault_cache_max_entries :: int
  close_wait_ready_threshold :: int
  token_metadata_db_path :: string
  api_key_auth_enabled :: bool
  api_key_db_path :: string
  api_key_rate_limit_rpm :: int
  api_key_unauth_access_enabled :: bool
  api_key_unauth_min_interval_seconds :: int

record settings = limit_settings +
  providers_enabled :: "string list"
  price_provider_priority :: "string list"
  quote_provider_priority :: "string list"
  lifi_api_key :: "string option"
  lifi_deny_exchanges :: "string list"
  enso_api_key :: "string option"

definition default_settings :: settings where
  "default_settings = \<lparr>app_env = ''dev'', app_version = ''0.1.0'', log_level = ''INFO'', log_format = ''json'',
     log_request_body = False, metrics_enabled = True, enable_readiness_strict = False,
     chain_ids = map fst CHAINS, ethereum_rpc_url = None, optimism_rpc_url = None, gnosis_rpc_url = None,
     polygon_rpc_url = None, arbitrum_rpc_url = None, avalanche_rpc_url = None,
     rpc_request_timeout_ms = 1500, provider_request_timeout_ms = 800, provider_max_retries = 0,
     provider_http_trust_env = False, provider_pool_timeout_ms = 25, provider_connect_timeout_ms = 500,
     provider_read_timeout_ms = None, provider_write_timeout_ms = 500,
     provider_max_connections_per_provider = None, provider_max_keepalive_connections_per_provider = 2,
     provider_keepalive_expiry_s = 2, provider_client_ttl_s = 300, provider_client_max_requests = 5000,
     provider_recycle_pool_timeout_threshold = 10, provider_recycle_window_s = 30,
     provider_fanout_per_request = 8, provider_global_limit = 200, provider_global_units = None,
     provider_per_provider_units = 20, vault_global_units = 16, admission_acquire_timeout_ms = 25,
     web3_limit = 32, provider_circuit_failure_window_s = 30, provider_circuit_failure_threshold = 10,
     provider_circuit_open_duration_s = 15, provider_circuit_half_open_probe_count = 2,
     vault_positive_cache_ttl_s = 30, vault_negative_cache_ttl_s = 300, vault_cache_max_entries = 4096,
     close_wait_ready_threshold = 80, token_metadata_db_path = ''data/token_metadata.sqlite3'',
     api_key_auth_enabled = True, api_key_db_path = ''data/api_keys.sqlite3'', api_key_rate_limit_rpm = 300,
     api_key_unauth_access_enabled = True, api_key_unauth_min_interval_seconds = 1,
     providers_enabled = [''defillama'', ''curve'', ''lifi'', ''enso''], price_provider_priority = [],
     quote_provider_priority = [], lifi_api_key = None, lifi_deny_exchanges = [], enso_api_key = None\<rparr>"

definition MIN_REQUEST_TIMEOUT_MS :: int where "MIN_REQUEST_TIMEOUT_MS = 200"
definition MAX_REQUEST_TIMEOUT_MS :: int where "MAX_REQUEST_TIMEOUT_MS = 10000"

section \<open>List-valued settings\<close>

datatype 'a before = Parsed 'a | Unchanged json

text \<open>\<open>[part.strip() for part in value.split(",") if part.strip()]\<close>\<close>

definition comma_parts :: "string \<Rightarrow> string list" where
  "comma_parts value = filter (\<lambda>p. p \<noteq> []) (map py_strip (py_split_on (CHR '','') value))"

definition parse_string_list ::
    "(string \<Rightarrow> json res) \<Rightarrow> (json \<Rightarrow> string) \<Rightarrow> json \<Rightarrow> string list option res" where
  "parse_string_list loads str value =
     (case value of
        JStr v \<Rightarrow>
          (let stripped = py_strip v in
           if stripped = [] then Inr (Some [])
           else if py_startswith stripped ''['' then
             rbind (loads stripped) (\<lambda>loaded. Inr (Some (case loaded of JList l \<Rightarrow> map str l | _ \<Rightarrow> [])))
           else Inr (Some (comma_parts v)))
      | JList l \<Rightarrow> Inr (Some (map str l))
      | _ \<Rightarrow> Inr None)"

text \<open>The loop shared by the three validators: strip, lower-case, drop empty and repeated items.\<close>

fun normalize_items :: "string set \<Rightarrow> string list \<Rightarrow> string list" where
  "normalize_items seen [] = []"
| "normalize_items seen (item # items) =
     (let i = py_lower (py_strip item) in
      if i = [] \<or> i \<in> seen then normalize_items seen items
      else i # normalize_items (insert i seen) items)"

definition parse_normalized_list ::
    "(string \<Rightarrow> json res) \<Rightarrow> (json \<Rightarrow> string) \<Rightarrow> json \<Rightarrow> string list before res" where
  "parse_normalized_list loads str value =
     rbind (parse_string_list loads str value) (\<lambda>parsed.
       Inr (case parsed of None \<Rightarrow> Unchanged value | Some items \<Rightarrow> Parsed (normalize_items {} items)))"

definition parse_providers_enabled ::
    "(string \<Rightarrow> json res) \<Rightarrow> (json \<Rightarrow> string) \<Rightarrow> json \<Rightarrow> string list before res" where
  "parse_providers_enabled = parse_normalized_list"

definition parse_provider_priority ::
    "(string \<Rightarrow> json res) \<Rightarrow> (json \<Rightarrow> string) \<Rightarrow> json \<Rightarrow> string list before res" where
  "parse_provider_priority = parse_normalized_list"

definition parse_lifi_deny_exchanges ::
    "(string \<Rightarrow> json res) \<Rightarrow> (json \<Rightarrow> string) \<Rightarrow> json \<Rightarrow> string list before res" where
  "parse_lifi_deny_exchanges = parse_normalized_list"

definition normalize_log_format :: "json \<Rightarrow> json res" where
  "normalize_log_format value =
     (case value of
        JStr v \<Rightarrow> (let normalized = py_lower (py_strip v) in
           if normalized \<notin> {''json'', ''text''} then Inl (ValueError (''LOG_FORMAT must be '' @ quoted ''json'' @ '' or '' @ quoted ''text''))
           else Inr (JStr normalized))
      | _ \<Rightarrow> Inr value)"

text \<open>\<open>int(item)\<close> of a JSON value.\<close>

definition int_of_json :: "json \<Rightarrow> int res" where
  "int_of_json v =
     (case v of
        JInt n \<Rightarrow> Inr n
      | JBool b \<Rightarrow> Inr (if b then 1 else 0)
      | JFloat x _ \<Rightarrow> Inr (trunc_rat x)
      | JNonFinite \<Rightarrow> Inl (OtherException ''ValueError or OverflowError'')
      | JStr s \<Rightarrow> (case py_int_of_str s of Some n \<Rightarrow> Inr n | None \<Rightarrow> Inl (ValueError s))
      | _ \<Rightarrow> Inl (TypeError ''int''))"

definition parse_chain_ids :: "(string \<Rightarrow> json res) \<Rightarrow> json \<Rightarrow> int list before res" where
  "parse_chain_ids loads value =
     (case value of
        JStr v \<Rightarrow>
          (let stripped = py_strip v;
               from_parts = rbind (rmap_list (\<lambda>p. int_of_json (JStr p)) (comma_parts v)) (\<lambda>l. Inr (Parsed l))
           in if stripped = [] then Inr (Parsed [])
              else if py_startswith stripped ''['' then
                rbind (loads stripped) (\<lambda>loaded.
                  case loaded of
                    JList l \<Rightarrow> rbind (rmap_list int_of_json l) (\<lambda>l. Inr (Parsed l))
                  | _ \<Rightarrow> from_parts)
              else from_parts)
      | JInt n \<Rightarrow> Inr (Parsed [n])
      | JBool b \<Rightarrow> Inr (Parsed [if b then 1 else 0])
      | _ \<Rightarrow> Inr (Unchanged value))"

definition validate_chain_ids :: "int list \<Rightarrow> int list res" where
  "validate_chain_ids value =
     (if value = [] \<or> \<not> set value \<subseteq> set (map fst CHAINS)
      then Inl (ValueError ''CHAIN_IDS must select from the supported chains'')
      else Inr (dedup value))"

section \<open>Derived values\<close>

definition rpc_url_of :: "'a base_settings_scheme \<Rightarrow> string \<Rightarrow> string option" where
  "rpc_url_of s name =
     (case map_of [(''ethereum'', ethereum_rpc_url s), (''optimism'', optimism_rpc_url s),
        (''gnosis'', gnosis_rpc_url s), (''polygon'', polygon_rpc_url s),
        (''arbitrum'', arbitrum_rpc_url s), (''avalanche'', avalanche_rpc_url s)] name of
        Some u \<Rightarrow> u | None \<Rightarrow> None)"

definition rpc_urls_by_chain :: "'a base_settings_scheme \<Rightarrow> (int, string) odict" where
  "rpc_urls_by_chain s =
     foldl (\<lambda>d chain_id.
       case map_of CHAINS chain_id of
         None \<Rightarrow> d
       | Some c \<Rightarrow> (case rpc_url_of s (ch_name c) of
             None \<Rightarrow> d
           | Some url \<Rightarrow> if py_strip url = [] then d else AList.update chain_id (py_strip url) d))
       [] (chain_ids s)"

text \<open>\<open>x or y\<close> of optional integers.\<close>

definition int_or :: "int option \<Rightarrow> int \<Rightarrow> int" where
  "int_or x y = (case x of None \<Rightarrow> y | Some n \<Rightarrow> if n = 0 then y else n)"

definition aggregate_price_deadline_ms :: "'a base_settings_scheme \<Rightarrow> int" where
  "aggregate_price_deadline_ms s = provider_request_timeout_ms s + 100"

definition aggregate_quote_deadline_ms :: "'a base_settings_scheme \<Rightarrow> int" where
  "aggregate_quote_deadline_ms s = provider_request_timeout_ms s + 300"

definition effective_provider_read_timeout_ms :: "'a base_settings_scheme \<Rightarrow> int" where
  "effective_provider_read_timeout_ms s = int_or (provider_read_timeout_ms s) (provider_request_timeout_ms s)"

definition effective_provider_max_connections_per_provider :: "'a limit_settings_scheme \<Rightarrow> int" where
  "effective_provider_max_connections_per_provider s =
     int_or (provider_max_connections_per_provider s) (provider_global_limit s)"

definition effective_provider_global_units :: "'a limit_settings_scheme \<Rightarrow> int" where
  "effective_provider_global_units s = int_or (provider_global_units s) (provider_global_limit s)"

section \<open>Range checks\<close>

fun require_positive :: "(string \<times> rat) list \<Rightarrow> unit res" where
  "require_positive [] = Inr ()"
| "require_positive ((name, v) # rest) =
     (if v \<le> 0 then Inl (ValueError (name @ '' must be > 0'')) else require_positive rest)"

fun require_optional_positive :: "(string \<times> int option) list \<Rightarrow> unit res" where
  "require_optional_positive [] = Inr ()"
| "require_optional_positive ((name, v) # rest) =
     (if (case v of None \<Rightarrow> False | Some n \<Rightarrow> n \<le> 0) then Inl (ValueError (name @ '' must be > 0''))
      else require_optional_positive rest)"

fun require_non_negative :: "(string \<times> rat) list \<Rightarrow> unit res" where
  "require_non_negative [] = Inr ()"
| "require_non_negative ((name, v) # rest) =
     (if v < 0 then Inl (ValueError (name @ '' must be >= 0'')) else require_non_negative rest)"

definition finalize_provider_settings :: "'a limit_settings_scheme \<Rightarrow> 'a limit_settings_scheme res" where
  "finalize_provider_settings s =
     rbind (require_positive
       [(''PROVIDER_REQUEST_TIMEOUT_MS'', of_int (provider_request_timeout_ms s)),
        (''PROVIDER_POOL_TIMEOUT_MS'', of_int (provider_pool_timeout_ms s)),
        (''PROVIDER_CONNECT_TIMEOUT_MS'', of_int (provider_connect_timeout_ms s)),
        (''PROVIDER_WRITE_TIMEOUT_MS'', of_int (provider_write_timeout_ms s)),
        (''PROVIDER_CLIENT_TTL_S'', of_int (provider_client_ttl_s s)),
        (''PROVIDER_CLIENT_MAX_REQUESTS'', of_int (provider_client_max_requests s)),
        (''PROVIDER_RECYCLE_POOL_TIMEOUT_THRESHOLD'', of_int (provider_recycle_pool_timeout_threshold s)),
        (''PROVIDER_RECYCLE_WINDOW_S'', of_int (provider_recycle_window_s s)),
        (''ADMISSION_ACQUIRE_TIMEOUT_MS'', of_int (admission_acquire_timeout_ms s)),
        (''PROVIDER_CIRCUIT_FAILURE_WINDOW_S'', of_int (provider_circuit_failure_window_s s)),
        (''PROVIDER_CIRCUIT_FAILURE_THRESHOLD'', of_int (provider_circuit_failure_threshold s)),
        (''PROVIDER_CIRCUIT_OPEN_DURATION_S'', of_int (provider_circuit_open_duration_s s)),
        (''PROVIDER_CIRCUIT_HALF_OPEN_PROBE_COUNT'', of_int (provider_circuit_half_open_probe_count s)),
        (''VAULT_POSITIVE_CACHE_TTL_S'', of_int (vault_positive_cache_ttl_s s)),
        (''VAULT_NEGATIVE_CACHE_TTL_S'', of_int (vault_negative_cache_ttl_s s)),
        (''VAULT_CACHE_MAX_ENTRIES'', of_int (vault_cache_max_entries s)),
        (''RPC_REQUEST_TIMEOUT_MS'', of_int (rpc_request_timeout_ms s)),
        (''PROVIDER_FANOUT_PER_REQUEST'', of_int (provider_fanout_per_request s)),
        (''PROVIDER_GLOBAL_LIMIT'', of_int (provider_global_limit s)),
        (''PROVIDER_PER_PROVIDER_UNITS'', of_int (provider_per_provider_units s)),
        (''VAULT_GLOBAL_UNITS'', of_int (vault_global_units s)),
        (''WEB3_LIMIT'', of_int (web3_limit s)),
        (''API_KEY_RATE_LIMIT_RPM'', of_int (api_key_rate_limit_rpm s)),
        (''API_KEY_UNAUTH_MIN_INTERVAL_SECONDS'', of_int (api_key_unauth_min_interval_seconds s))]) (\<lambda>_.
     rbind (require_optional_positive
       [(''PROVIDER_READ_TIMEOUT_MS'', provider_read_timeout_ms s),
        (''PROVIDER_MAX_CONNECTIONS_PER_PROVIDER'', provider_max_connections_per_provider s),
        (''PROVIDER_GLOBAL_UNITS'', provider_global_units s)]) (\<lambda>_.
     rbind (require_non_negative
       [(''PROVIDER_MAX_RETRIES'', of_int (provider_max_retries s)),
        (''PROVIDER_MAX_KEEPALIVE_CONNECTIONS_PER_PROVIDER'', of_int (provider_max_keepalive_connections_per_provider s)),
        (''PROVIDER_KEEPALIVE_EXPIRY_S'', provider_keepalive_expiry_s s),
        (''CLOSE_WAIT_READY_THRESHOLD'', of_int (close_wait_ready_threshold s))]) (\<lambda>_.
     Inr s)))"

section \<open>Lemmas\<close>

lemma require_positive_Inr: "require_positive fs = Inr u \<longleftrightarrow> (\<forall>f \<in> set fs. 0 < snd f)"
  by (induction fs) (auto split: if_splits)

lemma require_optional_positive_Inr:
  "require_optional_positive fs = Inr u \<longleftrightarrow> (\<forall>f \<in> set fs. \<forall>n. snd f = Some n \<longrightarrow> 0 < n)"
  by (induction fs) (auto split: option.splits if_splits)

lemma require_non_negative_Inr: "require_non_negative fs = Inr u \<longleftrightarrow> (\<forall>f \<in> set fs. 0 \<le> snd f)"
  by (induction fs) (auto split: if_splits)

lemmas require_iffs = require_positive_Inr require_optional_positive_Inr require_non_negative_Inr

lemma int_or_pos: "0 < y \<Longrightarrow> \<forall>n. x = Some n \<longrightarrow> 0 < n \<Longrightarrow> 0 < int_or x y"
  by (auto simp: int_or_def split: option.splits)

lemma normalize_items_dedup:
  "normalize_items seen items = dedup_from seen (filter (\<lambda>i. i \<noteq> []) (map (\<lambda>i. py_lower (py_strip i)) items))"
  by (induction items arbitrary: seen) (auto simp: Let_def)

section \<open>Properties\<close>

text \<open>Settings that pass validation have positive deadlines, pool sizes, limiter capacities
  and breaker parameters, so that the services built from them can be constructed.\<close>

theorem validated_settings_usable:
  assumes "finalize_provider_settings s = Inr s'"
  shows "s' = s \<and> 0 < effective_provider_global_units s \<and> 0 < provider_per_provider_units s
    \<and> 0 < vault_global_units s \<and> 0 < web3_limit s \<and> 0 < effective_provider_read_timeout_ms s
    \<and> 0 < effective_provider_max_connections_per_provider s
    \<and> provider_request_timeout_ms s < aggregate_price_deadline_ms s
    \<and> provider_request_timeout_ms s < aggregate_quote_deadline_ms s
    \<and> 0 < provider_circuit_half_open_probe_count s \<and> 0 < provider_circuit_failure_threshold s
    \<and> 0 < provider_circuit_failure_window_s s \<and> 0 < provider_circuit_open_duration_s s
    \<and> 0 < vault_cache_max_entries s"
  using assms
  by (auto simp: finalize_provider_settings_def require_iffs effective_provider_global_units_def
      effective_provider_read_timeout_ms_def effective_provider_max_connections_per_provider_def
      aggregate_price_deadline_ms_def aggregate_quote_deadline_ms_def intro!: int_or_pos
      simp del: require_positive.simps require_optional_positive.simps require_non_negative.simps)

theorem validated_settings_usable_witness:
  "finalize_provider_settings default_settings = Inr default_settings
   \<and> 0 < effective_provider_global_units default_settings"
proof -
  have "finalize_provider_settings default_settings = Inr default_settings"
    by (simp add: finalize_provider_settings_def default_settings_def)
  with validated_settings_usable[OF this] show ?thesis by blast
qed

text \<open>Provider lists are normalised: the result holds each stripped, lower-cased nonempty item
  once, in the order of first occurrence, whatever spelling the setting used.\<close>

theorem provider_list_normalized:
  assumes "parse_providers_enabled loads str value = Inr (Parsed ids)"
  shows "distinct ids \<and> [] \<notin> set ids \<and> (\<forall>i \<in> set ids. py_lower i = i)
    \<and> (\<exists>items. parse_string_list loads str value = Inr (Some items)
        \<and> set ids = {py_lower (py_strip i) | i. i \<in> set items} - {[]})"
  using assms
  by (auto simp: parse_providers_enabled_def parse_normalized_list_def normalize_items_dedup
      distinct_dedup_from set_dedup_from split: option.splits) blast

theorem provider_list_normalized_witness:
  "\<exists>ids. parse_providers_enabled (\<lambda>_. Inl (ValueError ''json'')) (\<lambda>_. []) (JStr '' Curve,ENSO, curve'') = Inr (Parsed ids)
     \<and> ids = [''curve'', ''enso''] \<and> distinct ids"
proof -
  have "parse_providers_enabled (\<lambda>_. Inl (ValueError ''json'')) (\<lambda>_. []) (JStr '' Curve,ENSO, curve'') =
      Inr (Parsed [''curve'', ''enso''])" by code_simp
  with provider_list_normalized[OF this] show ?thesis by blast
qed

end
