(* ===== verification/TokenMetadata.thy ===== *)
theory TokenMetadata
  imports MetadataCache Adapters Config
begin

text \<open>
  Token metadata (\<open>token_metadata/policy.py\<close>, \<open>token_metadata/onchain.py\<close>, \<open>token_metadata/resolver.py\<close>,
  \<open>token_metadata/logo_urls.py\<close>): the merge of what the cache, the providers and the chain know of a token.
  The ABI decoder of \<open>web3\<close> and the lenient UTF-8 decoder are the parameter \<open>token_abi\<close>. What other requests do
  to the cache between the resolver's transactions is the environment's.
\<close>

section \<open>Logo URLs\<close>

definition TOKEN_LOGO_ORIGIN :: string where "TOKEN_LOGO_ORIGIN = ''https://prices.wavey.info''"

definition token_logo_url :: "eth_lib \<Rightarrow> int \<Rightarrow> string \<Rightarrow> string res" where
  "token_logo_url eth chain_id address =
     (if chain_id \<le> 0 then Inl (ValueError ''chain_id must be positive'')
      else rbind (normalize_address eth address) (\<lambda>a.
        Inr (TOKEN_LOGO_ORIGIN @ ''/token-logos/'' @ int_str chain_id @ ''/'' @ py_lower a)))"

section \<open>The merge policy\<close>

fun pick_first :: "'a option list \<Rightarrow> 'a option" where
  "pick_first [] = None"
| "pick_first (None # vs) = pick_first vs"
| "pick_first (Some v # vs) = Some v"

definition native_token :: "string \<Rightarrow> token_metadata option \<Rightarrow> token_metadata option \<Rightarrow> bool" where
  "native_token address cached hint =
     (if (case cached of None \<Rightarrow> False | Some m \<Rightarrow> is_native_alias (tm_address m)) then True
      else if (case hint of None \<Rightarrow> False | Some m \<Rightarrow> is_native_alias (tm_address m)) then True
      else is_native_alias address)"

definition merge_metadata ::
    "eth_lib \<Rightarrow> int \<Rightarrow> string \<Rightarrow> token_metadata option \<Rightarrow> token_metadata option \<Rightarrow> string \<Rightarrow> token_metadata res" where
  "merge_metadata eth chain_id address cached hint default_source =
     rbind (normalize_address eth address) (\<lambda>normalized.
       let native = native_token normalized cached hint;
           symbol = pick_first [Option.bind cached tm_symbol, Option.bind hint tm_symbol,
             if native then map_option native_symbol (map_of CHAINS chain_id) else None];
           decimals = pick_first [Option.bind cached tm_decimals, Option.bind hint tm_decimals,
             if native then Some 18 else None];
           source = pick_first [Option.bind cached tm_source, Option.bind hint tm_source, Some default_source]
       in rbind (token_logo_url eth chain_id normalized) (\<lambda>url.
            mk_token_metadata eth chain_id normalized symbol decimals (Some url) source))"

fun hints_from_refs ::
    "eth_lib \<Rightarrow> int \<Rightarrow> token_ref list \<Rightarrow> (string, token_metadata) odict \<Rightarrow> (string, token_metadata) odict res" where
  "hints_from_refs eth chain_id [] out = Inr out"
| "hints_from_refs eth chain_id (ref # refs) out =
     rbind (normalize_address eth (tr_address ref)) (\<lambda>address.
     rbind (mk_token_metadata eth chain_id address (tr_symbol ref) (tr_decimals ref) None (Some ''provider'')) (\<lambda>hint.
     rbind (merge_metadata eth chain_id address (map_of out address) (Some hint) ''provider'') (\<lambda>m.
       hints_from_refs eth chain_id refs (AList.update address m out))))"

section \<open>Metadata on the chain\<close>

record token_abi =
  ta_uint8 :: "nat list \<Rightarrow> int option"
  ta_string :: "nat list \<Rightarrow> string option"
  ta_bytes32 :: "nat list \<Rightarrow> nat list option"
  ta_utf8 :: "nat list \<Rightarrow> string"

definition ERC20_DECIMALS_SELECTOR :: "nat list" where "ERC20_DECIMALS_SELECTOR = [0x31, 0x3c, 0xe5, 0x67]"
definition ERC20_SYMBOL_SELECTOR :: "nat list" where "ERC20_SYMBOL_SELECTOR = [0x95, 0xd8, 0x9b, 0x41]"

definition decode_uint8 :: "token_abi \<Rightarrow> nat list \<Rightarrow> int option" where
  "decode_uint8 abi data = (case ta_uint8 abi data of None \<Rightarrow> None
     | Some v \<Rightarrow> if v < 0 \<or> v > 255 then None else Some v)"

definition rstrip_zeros :: "nat list \<Rightarrow> nat list" where
  "rstrip_zeros b = rev (dropWhile (\<lambda>x. x = 0) (rev b))"

definition decode_symbol :: "token_abi \<Rightarrow> nat list \<Rightarrow> string option" where
  "decode_symbol abi data =
     (case (case ta_string abi data of None \<Rightarrow> [] | Some s \<Rightarrow> py_strip s) of
        c # cs \<Rightarrow> Some (c # cs)
      | [] \<Rightarrow>
        (case ta_bytes32 abi data of
           None \<Rightarrow> None
         | Some raw \<Rightarrow> let parsed = py_strip (ta_utf8 abi (rstrip_zeros raw)) in if parsed = [] then None else Some parsed))"

datatype onchain_field = Field_decimals | Field_symbol

text \<open>The calls and the field each one asks for.\<close>

fun onchain_calls :: "eth_lib \<Rightarrow> string list \<Rightarrow> (rpc_value list \<times> (string \<times> onchain_field) list) res" where
  "onchain_calls eth [] = Inr ([], [])"
| "onchain_calls eth (address # addresses) =
     (case to_checksum_address eth address of
        None \<Rightarrow> Inl (ValueError ''invalid address'')
      | Some checksum \<Rightarrow> rbind (onchain_calls eth addresses) (\<lambda>(calls, index).
          Inr (multicall_call checksum ERC20_DECIMALS_SELECTOR # multicall_call checksum ERC20_SYMBOL_SELECTOR # calls,
               (address, Field_decimals) # (address, Field_symbol) # index)))"

type_synonym onchain_found = "(string, string option \<times> int option) odict"

definition found_at :: "onchain_found \<Rightarrow> string \<Rightarrow> string option \<times> int option" where
  "found_at out address = (case map_of out address of None \<Rightarrow> (None, None) | Some f \<Rightarrow> f)"

fun collect_onchain ::
    "token_abi \<Rightarrow> ((string \<times> onchain_field) \<times> bool \<times> nat list option) list \<Rightarrow> onchain_found \<Rightarrow> onchain_found" where
  "collect_onchain abi [] out = out"
| "collect_onchain abi (((address, field), called, data) # items) out =
     collect_onchain abi items
       (case (called, data) of
          (True, Some bytes) \<Rightarrow>
            (case field of
               Field_decimals \<Rightarrow> (case decode_uint8 abi bytes of None \<Rightarrow> out
                 | Some d \<Rightarrow> AList.update address (fst (found_at out address), Some d) out)
             | Field_symbol \<Rightarrow> (case decode_symbol abi bytes of None \<Rightarrow> out
                 | Some s \<Rightarrow> AList.update address (Some s, snd (found_at out address)) out))
        | _ \<Rightarrow> out)"

definition onchain_result ::
    "eth_lib \<Rightarrow> int \<Rightarrow> onchain_found \<Rightarrow> (string, token_metadata) odict res" where
  "onchain_result eth chain_id out =
     rmap_list (\<lambda>(address, (symbol, decimals)).
       rbind (mk_token_metadata eth chain_id address symbol decimals None (Some ''onchain_multicall'')) (\<lambda>m.
         Inr (address, m))) out"

definition fetch_onchain_metadata ::
    "eth_lib \<Rightarrow> token_abi \<Rightarrow> rpc_answer \<Rightarrow> int \<Rightarrow> string list \<Rightarrow> (string, token_metadata) odict rpc" where
  "fetch_onchain_metadata eth abi ans chain_id addresses = (\<lambda>c.
     if addresses = [] \<or> \<not> configured c chain_id then (Inr [], c)
     else case map_of MULTICALL3_BY_CHAIN chain_id of
       None \<Rightarrow> (Inr [], c)
     | Some multicall_address \<Rightarrow>
         rpc_bind (rpc_lift (onchain_calls eth addresses)) (\<lambda>(calls, index).
         rpc_bind (aggregate3 eth ans chain_id multicall_address calls) (\<lambda>raw.
           rpc_lift (onchain_result eth chain_id
             (collect_onchain abi (zip index (normalize_multicall_result raw)) [])))) c)"

section \<open>The resolver\<close>

record metadata_resolver =
  mv_settings :: settings
  mv_db :: metadata_db
  mv_rpc :: rpc_client

text \<open>What happens between the resolver's transactions, and the clock of its write.\<close>

record resolve_env =
  rv_before_read :: "metadata_db \<Rightarrow> metadata_db"
  rv_before_write :: "metadata_db \<Rightarrow> metadata_db"
  rv_before_enroll :: "metadata_db \<Rightarrow> metadata_db"
  rv_write_now :: int

definition TokenMetadataResolver :: "settings \<Rightarrow> metadata_db \<Rightarrow> metadata_resolver" where
  "TokenMetadataResolver s db = \<lparr>mv_settings = s, mv_db = db, mv_rpc = AsyncRpcClient (rpc_urls_by_chain s)\<rparr>"

definition observe_identities :: "eth_lib \<Rightarrow> int \<Rightarrow> string list \<Rightarrow> metadata_resolver \<Rightarrow> unit res \<times> metadata_resolver" where
  "observe_identities eth chain_id addresses mv =
     (let (r, db) = enroll_observed eth chain_id addresses (mv_db mv) in (r, mv\<lparr>mv_db := db\<rparr>))"

text \<open>The answer of the chain, nothing when the call raised.\<close>

definition resolver_fetch_onchain ::
    "eth_lib \<Rightarrow> token_abi \<Rightarrow> rpc_answer \<Rightarrow> int \<Rightarrow> string list \<Rightarrow> (string, token_metadata) odict rpc" where
  "resolver_fetch_onchain eth abi ans chain_id addresses =
     rpc_try (fetch_onchain_metadata eth abi ans chain_id addresses)
       (\<lambda>e. if e = CancelledError then rpc_raise e else rpc_return [])"

definition merge_all ::
    "eth_lib \<Rightarrow> int \<Rightarrow> (string, token_metadata) odict \<Rightarrow> (string, token_metadata) odict \<Rightarrow> string \<Rightarrow> string list
     \<Rightarrow> (string, token_metadata) odict res" where
  "merge_all eth chain_id cached hinted source addresses =
     rmap_list (\<lambda>a. rbind (merge_metadata eth chain_id a (map_of cached a) (map_of hinted a) source) (\<lambda>m. Inr (a, m))) addresses"

fun merge_onchain ::
    "eth_lib \<Rightarrow> int \<Rightarrow> (string, token_metadata) odict \<Rightarrow> (string, token_metadata) odict \<Rightarrow> (string, token_metadata) odict res" where
  "merge_onchain eth chain_id [] merged = Inr merged"
| "merge_onchain eth chain_id ((a, v) # found) merged =
     rbind (merge_metadata eth chain_id a (map_of merged a) (Some v) ''onchain_multicall'') (\<lambda>m.
       merge_onchain eth chain_id found (AList.update a m merged))"

definition unresolved_addresses :: "(string, token_metadata) odict \<Rightarrow> string list" where
  "unresolved_addresses merged =
     map fst (filter (\<lambda>(a, m). \<not> is_native_alias (tm_address m) \<and> (tm_symbol m = None \<or> tm_decimals m = None)) merged)"

definition to_persist :: "(string, token_metadata) odict \<Rightarrow> (string, token_metadata) odict \<Rightarrow> token_metadata list" where
  "to_persist cached merged =
     filter (\<lambda>m. Some m \<noteq> map_of cached (tm_address m)) (map (\<lambda>(a, m). m\<lparr>tm_logo_url := None\<rparr>) merged)"

definition resolve_metadata ::
    "eth_lib \<Rightarrow> token_abi \<Rightarrow> rpc_answer \<Rightarrow> resolve_env \<Rightarrow> int \<Rightarrow> token_ref list \<Rightarrow> string \<Rightarrow> metadata_resolver
     \<Rightarrow> (string, token_metadata) odict res \<times> metadata_resolver" where
  "resolve_metadata eth abi ans env chain_id refs source mv =
     (if chain_id \<notin> set (chain_ids (mv_settings mv)) then
        (Inl (InvalidRequestError ''UNSUPPORTED_CHAIN'' (''Chain '' @ int_str chain_id @ '' is not enabled'')), mv)
      else case normalize_addresses eth (map tr_address refs) of
        Inl e \<Rightarrow> (Inl e, mv)
      | Inr unique_addresses \<Rightarrow>
        if unique_addresses = [] then (Inr [], mv)
        else
          let mv1 = mv\<lparr>mv_db := rv_before_read env (mv_db mv)\<rparr> in
          case rbind (get_many eth chain_id unique_addresses (mv_db mv1)) (\<lambda>cached.
               rbind (hints_from_refs eth chain_id refs []) (\<lambda>hinted.
               rbind (merge_all eth chain_id cached hinted source unique_addresses) (\<lambda>merged. Inr (cached, merged)))) of
            Inl e \<Rightarrow> (Inl e, mv1)
          | Inr (cached, merged) \<Rightarrow>
            (case resolver_fetch_onchain eth abi ans chain_id (unresolved_addresses merged) (mv_rpc mv1) of
               (Inl e, c) \<Rightarrow> (Inl e, mv1\<lparr>mv_rpc := c\<rparr>)
             | (Inr onchain, c) \<Rightarrow>
               (case merge_onchain eth chain_id onchain merged of
                  Inl e \<Rightarrow> (Inl e, mv1\<lparr>mv_rpc := c\<rparr>)
                | Inr result \<Rightarrow>
                  let db1 = rv_before_write env (mv_db mv1);
                      (written, db2) = (if to_persist cached result = [] then (Inr (), db1)
                        else upsert_many eth (rv_write_now env) (to_persist cached result) db1)
                  in case written of
                       Inl e \<Rightarrow> (Inl e, mv1\<lparr>mv_rpc := c, mv_db := db2\<rparr>)
                     | Inr _ \<Rightarrow>
                       (case enroll_observed eth chain_id unique_addresses (rv_before_enroll env db2) of
                          (Inl e, db3) \<Rightarrow> (Inl e, mv1\<lparr>mv_rpc := c, mv_db := db3\<rparr>)
                        | (Inr _, db3) \<Rightarrow> (Inr result, mv1\<lparr>mv_rpc := c, mv_db := db3\<rparr>)))))"

definition mk_underlying_refs :: "eth_lib \<Rightarrow> int \<Rightarrow> string option list \<Rightarrow> token_ref list res" where
  "mk_underlying_refs eth chain_id addresses =
     rmap_list (\<lambda>a. mk_token_ref eth chain_id a None None None) (List.map_filter id addresses)"

definition price_refs :: "eth_lib \<Rightarrow> int \<Rightarrow> price_result list \<Rightarrow> token_ref list res" where
  "price_refs eth chain_id results =
     rbind (rmap_list (\<lambda>r.
         rbind (mk_underlying_refs eth chain_id [Option.bind (p_vault_context r) vc_underlying_token]) (\<lambda>us.
           Inr ((case p_token r of None \<Rightarrow> [] | Some t \<Rightarrow> [t]) @ us))) results) (\<lambda>rs. Inr (concat rs))"

definition quote_refs :: "eth_lib \<Rightarrow> int \<Rightarrow> quote_result list \<Rightarrow> token_ref list res" where
  "quote_refs eth chain_id results =
     rbind (rmap_list (\<lambda>r.
         rbind (mk_underlying_refs eth chain_id (map (\<lambda>f. Option.bind (q_vault_context r) f)
             [vc_underlying_token, vc_underlying_token_in, vc_underlying_token_out])) (\<lambda>us.
           Inr ((case q_token_in r of None \<Rightarrow> [] | Some t \<Rightarrow> [t]) @ (case q_token_out r of None \<Rightarrow> [] | Some t \<Rightarrow> [t]) @ us)))
         results) (\<lambda>rs. Inr (concat rs))"

definition resolve_from_price_results ::
    "eth_lib \<Rightarrow> token_abi \<Rightarrow> rpc_answer \<Rightarrow> resolve_env \<Rightarrow> int \<Rightarrow> token_ref \<Rightarrow> price_result list \<Rightarrow> metadata_resolver
     \<Rightarrow> (string, token_metadata) odict res \<times> metadata_resolver" where
  "resolve_from_price_results eth abi ans env chain_id request_token results mv =
     (case price_refs eth chain_id results of
        Inl e \<Rightarrow> (Inl e, mv)
      | Inr refs \<Rightarrow> resolve_metadata eth abi ans env chain_id (request_token # refs) ''provider'' mv)"

definition resolve_from_quote_results ::
    "eth_lib \<Rightarrow> token_abi \<Rightarrow> rpc_answer \<Rightarrow> resolve_env \<Rightarrow> int \<Rightarrow> token_ref \<Rightarrow> token_ref \<Rightarrow> quote_result list \<Rightarrow> metadata_resolver
     \<Rightarrow> (string, token_metadata) odict res \<times> metadata_resolver" where
  "resolve_from_quote_results eth abi ans env chain_id token_in token_out results mv =
     (case quote_refs eth chain_id results of
        Inl e \<Rightarrow> (Inl e, mv)
      | Inr refs \<Rightarrow> resolve_metadata eth abi ans env chain_id (token_in # token_out # refs) ''provider'' mv)"

definition resolve_token ::
    "eth_lib \<Rightarrow> token_abi \<Rightarrow> rpc_answer \<Rightarrow> resolve_env \<Rightarrow> int \<Rightarrow> token_ref \<Rightarrow> metadata_resolver
     \<Rightarrow> (string, token_metadata) odict res \<times> metadata_resolver" where
  "resolve_token eth abi ans env chain_id request_token mv =
     resolve_metadata eth abi ans env chain_id [request_token] ''token_request'' mv"

section \<open>Lemmas\<close>

definition canonical :: "eth_lib \<Rightarrow> string \<Rightarrow> bool" where
  "canonical eth a \<longleftrightarrow> normalize_address eth a = Inr a"

definition logo_url_of :: "int \<Rightarrow> string \<Rightarrow> string" where
  "logo_url_of chain_id a = TOKEN_LOGO_ORIGIN @ ''/token-logos/'' @ int_str chain_id @ ''/'' @ py_lower a"

definition merged_entry :: "int \<Rightarrow> string \<Rightarrow> token_metadata option \<Rightarrow> token_metadata option \<Rightarrow> string \<Rightarrow> token_metadata" where
  "merged_entry chain_id a cached hint source =
     \<lparr>tm_chain_id = chain_id, tm_address = a,
      tm_symbol = pick_first [Option.bind cached tm_symbol, Option.bind hint tm_symbol,
        if native_token a cached hint then map_option native_symbol (map_of CHAINS chain_id) else None],
      tm_decimals = pick_first [Option.bind cached tm_decimals, Option.bind hint tm_decimals,
        if native_token a cached hint then Some 18 else None],
      tm_logo_url = Some (logo_url_of chain_id a),
      tm_source = pick_first [Option.bind cached tm_source, Option.bind hint tm_source, Some source]\<rparr>"

lemma merge_metadata_canonical:
  "canonical eth a \<Longrightarrow> chain_id > 0 \<Longrightarrow>
   merge_metadata eth chain_id a cached hint source = Inr (merged_entry chain_id a cached hint source)"
  by (simp add: merge_metadata_def canonical_def token_logo_url_def mk_token_metadata_def merged_entry_def logo_url_of_def Let_def)

lemma merge_all_canonical:
  "list_all (canonical eth) xs \<Longrightarrow> chain_id > 0 \<Longrightarrow>
   merge_all eth chain_id cached hinted source xs
     = Inr (map (\<lambda>a. (a, merged_entry chain_id a (map_of cached a) (map_of hinted a) source)) xs)"
  unfolding merge_all_def by (rule rmap_list_all_Inr) (auto simp: list_all_iff merge_metadata_canonical)

lemma pick_first_Some: "pick_first (Some v # vs) = Some v" by simp

lemma keeps_cached:
  "cached = Some m \<Longrightarrow> tm_symbol m = Some s \<Longrightarrow> tm_symbol (merged_entry chain_id a cached hint source) = Some s"
  "cached = Some m \<Longrightarrow> tm_decimals m = Some d \<Longrightarrow> tm_decimals (merged_entry chain_id a cached hint source) = Some d"
  "cached = Some m \<Longrightarrow> tm_source m = Some x \<Longrightarrow> tm_source (merged_entry chain_id a cached hint source) = Some x"
  by (simp_all add: merged_entry_def)

text \<open>A table of results: its keys, and each entry of its own token.\<close>

definition entry_ok :: "int \<Rightarrow> string \<Rightarrow> token_metadata \<Rightarrow> bool" where
  "entry_ok chain_id a m \<longleftrightarrow> tm_chain_id m = chain_id \<and> tm_address m = a
     \<and> tm_logo_url m = Some (logo_url_of chain_id a) \<and> tm_source m \<noteq> None"

definition table_ok :: "int \<Rightarrow> (string, token_metadata) odict \<Rightarrow> bool" where
  "table_ok chain_id t \<longleftrightarrow> list_all (\<lambda>(a, m). entry_ok chain_id a m) t"

lemma merged_entry_ok: "entry_ok chain_id a (merged_entry chain_id a cached hint source)"
  by (auto simp: entry_ok_def merged_entry_def split: option.splits) (metis option.distinct(1) option.exhaust pick_first.simps(2,3))

lemma keys_update: "a \<in> fst ` set t \<Longrightarrow> map fst (AList.update a m t) = map fst t"
  by (induction t) (auto simp: AList.update.simps)

lemma table_ok_update: "table_ok c t \<Longrightarrow> entry_ok c a m \<Longrightarrow> table_ok c (AList.update a m t)"
  unfolding table_ok_def by (induction t) auto

lemma merge_onchain_canonical:
  assumes "chain_id > 0" "list_all (canonical eth) (map fst merged)" "table_ok chain_id merged"
    "set (map fst found) \<subseteq> set (map fst merged)"
  shows "\<exists>result. merge_onchain eth chain_id found merged = Inr result \<and> map fst result = map fst merged
    \<and> table_ok chain_id result
    \<and> (\<forall>a m. map_of merged a = Some m \<longrightarrow> (\<exists>m'. map_of result a = Some m'
          \<and> (tm_symbol m \<noteq> None \<longrightarrow> tm_symbol m' = tm_symbol m)
          \<and> (tm_decimals m \<noteq> None \<longrightarrow> tm_decimals m' = tm_decimals m)
          \<and> tm_source m' = tm_source m))"
  using assms(2-4)
proof (induction found arbitrary: merged)
  case (Cons p found)
  obtain a v where p: "p = (a, v)" by (cases p)
  obtain m0 where m0: "map_of merged a = Some m0"
    using Cons.prems(3) p by (cases "map_of merged a") (auto simp: map_of_eq_None_iff)
  have can: "canonical eth a" using Cons.prems(1,3) p by (auto simp: list_all_iff)
  define m where "m = merged_entry chain_id a (map_of merged a) (Some v) ''onchain_multicall''"
  have src0: "tm_source m0 \<noteq> None" using Cons.prems(2) map_of_SomeD[OF m0]
    by (auto simp: table_ok_def list_all_iff entry_ok_def)
  have kept: "tm_symbol m0 \<noteq> None \<longrightarrow> tm_symbol m = tm_symbol m0"
    "tm_decimals m0 \<noteq> None \<longrightarrow> tm_decimals m = tm_decimals m0" "tm_source m = tm_source m0"
    using m0 src0 by (auto simp: m_def merged_entry_def)
  let ?u = "AList.update a m merged"
  have keys: "map fst ?u = map fst merged" using Cons.prems(3) p by (intro keys_update) auto
  have "table_ok chain_id ?u" unfolding m_def by (rule table_ok_update[OF Cons.prems(2) merged_entry_ok])
  from Cons.IH[OF _ this] keys Cons.prems(1,3) p obtain result where r:
    "merge_onchain eth chain_id found ?u = Inr result" "map fst result = map fst merged" "table_ok chain_id result"
    "\<And>b n. map_of ?u b = Some n \<Longrightarrow> \<exists>m'. map_of result b = Some m'
          \<and> (tm_symbol n \<noteq> None \<longrightarrow> tm_symbol m' = tm_symbol n)
          \<and> (tm_decimals n \<noteq> None \<longrightarrow> tm_decimals m' = tm_decimals n) \<and> tm_source m' = tm_source n"
    by auto
  have "\<exists>m'. map_of result b = Some m' \<and> (tm_symbol n \<noteq> None \<longrightarrow> tm_symbol m' = tm_symbol n)
          \<and> (tm_decimals n \<noteq> None \<longrightarrow> tm_decimals m' = tm_decimals n) \<and> tm_source m' = tm_source n"
    if "map_of merged b = Some n" for b n
    using that m0 kept r(4)[of b] r(4)[of a m] by (cases "b = a") (auto simp: od_get_set)
  then show ?case using r(1-3) p m_def can assms(1) by (simp add: merge_metadata_canonical)
qed auto

lemma hints_canonical:
  assumes "chain_id > 0" "rmap_list (\<lambda>r. normalize_address eth (tr_address r)) refs = Inr xs" "list_all (canonical eth) xs"
  shows "\<exists>h. hints_from_refs eth chain_id refs out = Inr h"
  using assms(2,3)
proof (induction refs arbitrary: xs out)
  case (Cons r refs)
  then obtain a ys where a: "normalize_address eth (tr_address r) = Inr a" "xs = a # ys"
      "rmap_list (\<lambda>r. normalize_address eth (tr_address r)) refs = Inr ys"
    by auto
  then show ?case using Cons.IH[OF a(3)] Cons.prems(2) assms(1)
    by (simp add: mk_token_metadata_def canonical_def[symmetric] merge_metadata_canonical) (simp add: canonical_def)
qed auto

lemma onchain_calls_index: "onchain_calls eth xs = Inr (calls, index) \<Longrightarrow> fst ` set index \<subseteq> set xs"
  by (induction xs arbitrary: calls index) (fastforce split: option.splits)+

lemma collect_onchain_keys:
  "fst ` set (collect_onchain abi items out) \<subseteq> fst ` set out \<union> (fst \<circ> fst) ` set items"
proof (induction abi items out rule: collect_onchain.induct)
  case (2 abi a field called data items out)
  then show ?case
    by (auto simp: dom_update split: bool.splits option.splits onchain_field.splits) (force simp: dom_update)+
qed simp

lemma onchain_result_keys: "onchain_result eth c out = Inr found \<Longrightarrow> map fst found = map fst out"
  unfolding onchain_result_def by (induction out arbitrary: found) (auto split: prod.splits)

lemma fetch_keys:
  assumes "fetch_onchain_metadata eth abi ans chain_id addresses c = (Inr found, c')"
  shows "set (map fst found) \<subseteq> set addresses"
proof (cases "addresses = [] \<or> \<not> configured c chain_id \<or> map_of MULTICALL3_BY_CHAIN chain_id = None")
  case True
  then show ?thesis using assms by (auto simp: fetch_onchain_metadata_def split: option.splits if_splits)
next
  case False
  then obtain calls index raw where i: "onchain_calls eth addresses = Inr (calls, index)"
    and r: "onchain_result eth chain_id (collect_onchain abi (zip index (normalize_multicall_result raw)) []) = Inr found"
    using assms
    by (auto simp: fetch_onchain_metadata_def rpc_bind_def rpc_lift_def split: option.splits sum.splits prod.splits)
  have "(fst \<circ> fst) ` set (zip index (normalize_multicall_result raw)) \<subseteq> fst ` set index"
    by (auto dest: set_zip_leftD intro!: image_eqI)
  with collect_onchain_keys[of abi "zip index (normalize_multicall_result raw)" "[]"]
  show ?thesis using onchain_result_keys[OF r] onchain_calls_index[OF i] by (metis (no_types, lifting) Un_empty_left dual_order.trans empty_set image_empty set_map)
qed

definition never_cancelled :: "rpc_answer \<Rightarrow> bool" where
  "never_cancelled ans \<longleftrightarrow> (\<forall>h q. ans h q \<noteq> Inl CancelledError)"

lemma normalize_not_cancelled: "normalize_address eth a \<noteq> Inl CancelledError"
  by (auto simp: normalize_address_def split: option.splits)

lemma onchain_calls_not_cancelled: "onchain_calls eth xs \<noteq> Inl CancelledError"
  by (induction xs) (auto simp: rbind_Inl_iff split: option.splits)

lemma onchain_result_not_cancelled: "onchain_result eth c out \<noteq> Inl CancelledError"
  unfolding onchain_result_def
  by (induction out) (auto simp: rbind_Inl_iff mk_token_metadata_def normalize_not_cancelled split: prod.splits)

lemma rpc_call_not_cancelled:
  "never_cancelled ans \<Longrightarrow> rpc_call eth ans chain_id address abi f args c \<noteq> (Inl CancelledError, c')"
  by (auto simp: never_cancelled_def rpc_call_def rpc_bind_def verify_client_def ask_def rpc_raise_def
      split: sum.splits prod.splits option.splits if_splits)

lemma fetch_not_cancelled:
  "never_cancelled ans \<Longrightarrow> fetch_onchain_metadata eth abi ans chain_id addresses c \<noteq> (Inl CancelledError, c')"
  using onchain_calls_not_cancelled onchain_result_not_cancelled rpc_call_not_cancelled
  by (auto simp: fetch_onchain_metadata_def rpc_bind_def rpc_lift_def aggregate3_def
      split: sum.splits prod.splits option.splits if_splits)

lemma resolver_fetch_returns:
  assumes "never_cancelled ans"
  obtains found c' where "resolver_fetch_onchain eth abi ans chain_id addresses c = (Inr found, c')"
    "set (map fst found) \<subseteq> set addresses"
proof (cases "fetch_onchain_metadata eth abi ans chain_id addresses c")
  case (Pair r c')
  show thesis
  proof (cases r)
    case (Inl e)
    have "e \<noteq> CancelledError" using fetch_not_cancelled[OF assms] Pair Inl by blast
    then show thesis using that[of "[]" c'] Pair Inl
      by (simp add: resolver_fetch_onchain_def rpc_try_def rpc_return_def)
  next
    case (Inr found)
    then show thesis using that[of found c'] Pair fetch_keys
      by (simp add: resolver_fetch_onchain_def rpc_try_def)
  qed
qed

section \<open>What the store holds\<close>

definition row_metadata :: "int \<Rightarrow> string \<Rightarrow> metadata_row \<Rightarrow> token_metadata" where
  "row_metadata c a r = \<lparr>tm_chain_id = c, tm_address = a, tm_symbol = mr_symbol r, tm_decimals = mr_decimals r,
     tm_logo_url = None, tm_source = mr_source r\<rparr>"

definition metadata_ok :: "eth_lib \<Rightarrow> metadata_db \<Rightarrow> bool" where
  "metadata_ok eth db \<longleftrightarrow> distinct (map fst (db_metadata db)) \<and> list_all (\<lambda>((c, a), r). canonical eth a) (db_metadata db)"

lemma normalize_canonical: "list_all (canonical eth) xs \<Longrightarrow> distinct xs \<Longrightarrow> normalize_addresses eth xs = Inr xs"
proof -
  assume a: "list_all (canonical eth) xs" "distinct xs"
  have "rmap_list (normalize_address eth) xs = Inr (map id xs)"
    using a(1) by (intro rmap_list_all_Inr) (auto simp: list_all_iff canonical_def)
  then show ?thesis using a(2) by (simp add: normalize_addresses_def dedup_from_id)
qed

lemma foldl_update_other: "k \<notin> set (map f ms) \<Longrightarrow> map_of (foldl (\<lambda>t m. AList.update (f m) (g m) t) t ms) k = map_of t k"
  by (induction ms arbitrary: t) (auto simp: od_get_set)

lemma foldl_update_in:
  "distinct (map f ms) \<Longrightarrow> m \<in> set ms \<Longrightarrow> map_of (foldl (\<lambda>t m. AList.update (f m) (g m) t) t ms) (f m) = Some (g m)"
  by (induction ms arbitrary: t) (auto simp: foldl_update_other od_get_set)

lemma get_many_spec:
  assumes "metadata_ok eth db" "list_all (canonical eth) xs" "distinct xs"
  shows "\<exists>out. get_many eth c xs db = Inr out
    \<and> (\<forall>a. map_of out a = (if a \<in> set xs then map_option (row_metadata c a) (map_of (db_metadata db) (c, a)) else None))"
proof -
  let ?rows = "filter (\<lambda>((c', a), r). c' = c \<and> a \<in> set xs) (db_metadata db)"
  let ?ms = "map (\<lambda>((c', a), r). row_metadata c' a r) ?rows"
  have "rmap_list (\<lambda>((c, a), r). mk_token_metadata eth c a (mr_symbol r) (mr_decimals r) None (mr_source r)) ?rows = Inr ?ms"
    using assms(1) by (intro rmap_list_all_Inr)
      (auto simp: metadata_ok_def list_all_iff canonical_def mk_token_metadata_def row_metadata_def)
  then have g: "get_many eth c xs db = Inr (foldl (\<lambda>out m. AList.update (tm_address m) m out) [] ?ms)" if "xs \<noteq> []"
    using normalize_canonical[OF assms(2,3)] that by (simp add: get_many_def Let_def)
  have addr: "map tm_address ?ms = map (snd \<circ> fst) ?rows" by (auto simp: row_metadata_def)
  have "distinct (map fst ?rows)" using assms(1) by (simp add: metadata_ok_def distinct_map_filter)
  then have snd: "distinct (map (snd \<circ> fst) ?rows)"
    by (auto simp: distinct_map inj_on_def)
  have d: "distinct (map tm_address ?ms)" unfolding addr by (rule snd)
  have m: "map_of (foldl (\<lambda>out m. AList.update (tm_address m) m out) [] ?ms) a
      = (if a \<in> set xs then map_option (row_metadata c a) (map_of (db_metadata db) (c, a)) else None)" for a
  proof (cases "a \<in> set xs \<and> map_of (db_metadata db) (c, a) \<noteq> None")
    case True
    then obtain r where r: "map_of (db_metadata db) (c, a) = Some r" "a \<in> set xs" by auto
    then have "row_metadata c a r \<in> set ?ms" using map_of_SomeD[OF r(1)] by force
    from foldl_update_in[OF d this, of id "[]"] r show ?thesis by (simp add: row_metadata_def)
  next
    case False
    then have "a \<notin> set (map tm_address ?ms)" unfolding addr
      by (auto simp: map_of_eq_None_iff image_iff)
    from foldl_update_other[OF this, of id "[]"] False show ?thesis by auto
  qed
  show ?thesis
  proof (cases "xs = []")
    case True
    then show ?thesis using normalize_canonical[OF assms(2,3)] by (simp add: get_many_def)
  next
    case False
    then show ?thesis using g m by blast
  qed
qed

section \<open>The resolver's contract\<close>

definition unlinked :: "token_metadata \<Rightarrow> token_metadata" where "unlinked m = m\<lparr>tm_logo_url := None\<rparr>"

lemma to_persist_eq: "to_persist cached merged = filter (\<lambda>m. Some m \<noteq> map_of cached (tm_address m)) (map (unlinked \<circ> snd) merged)"
  by (simp add: to_persist_def unlinked_def split_def comp_def)

definition row_of :: "int \<Rightarrow> token_metadata \<Rightarrow> metadata_row" where
  "row_of now m = \<lparr>mr_symbol = tm_symbol m, mr_decimals = tm_decimals m, mr_source = tm_source m, mr_updated_at = now\<rparr>"

lemma row_metadata_row_of:
  "tm_logo_url m = None \<Longrightarrow> row_metadata (tm_chain_id m) (tm_address m) (row_of now m) = m"
  by (simp add: row_metadata_def row_of_def)

lemma foldl_update_keys_ok:
  "distinct (map fst t) \<Longrightarrow> list_all (\<lambda>((c, a), r). canonical eth a) t \<Longrightarrow> list_all (\<lambda>m. canonical eth (tm_address m)) ms \<Longrightarrow>
   (let t' = foldl (\<lambda>t m. AList.update (tm_chain_id m, tm_address m) (row_of now m) t) t ms in
    distinct (map fst t') \<and> list_all (\<lambda>((c, a), r). canonical eth a) t')"
proof (induction ms arbitrary: t)
  case (Cons m ms)
  let ?u = "AList.update (tm_chain_id m, tm_address m) (row_of now m) t"
  have "list_all (\<lambda>((c, a), r). canonical eth a) ?u"
    using Cons.prems(2,3) by (induction t) auto
  then show ?case using Cons.IH[of ?u] Cons.prems by (simp add: distinct_update)
qed simp

lemma upsert_many_spec:
  assumes "list_all (\<lambda>m. canonical eth (tm_address m)) ms"
  shows "upsert_many eth now ms db = (Inr (), db\<lparr>db_metadata :=
    foldl (\<lambda>t m. AList.update (tm_chain_id m, tm_address m) (row_of now m) t) (db_metadata db) ms\<rparr>)"
proof -
  have "rmap_list (\<lambda>m. rbind (normalize_address eth (tm_address m)) (\<lambda>a.
      Inr ((tm_chain_id m, a), \<lparr>mr_symbol = tm_symbol m, mr_decimals = tm_decimals m, mr_source = tm_source m,
        mr_updated_at = now\<rparr>))) ms = Inr (map (\<lambda>m. ((tm_chain_id m, tm_address m), row_of now m)) ms)"
    using assms by (intro rmap_list_all_Inr) (auto simp: list_all_iff canonical_def row_of_def)
  then show ?thesis by (cases "ms = []") (simp_all add: upsert_many_def foldl_map)
qed

text \<open>After the write the table holds every entry of the result, whether it was written or already there.\<close>

lemma write_back:
  assumes tab: "table_ok c result" "distinct (map fst result)" "list_all (canonical eth) (map fst result)"
    and old: "\<And>a. a \<in> fst ` set result \<Longrightarrow> map_of cached a = map_option (row_metadata c a) (map_of t (c, a))"
    and m: "(a, m) \<in> set result"
  shows "map_option (row_metadata c a) (map_of (foldl (\<lambda>t m. AList.update (tm_chain_id m, tm_address m) (row_of now m) t) t
    (to_persist cached result)) (c, a)) = Some (unlinked m)"
proof -
  let ?f = "\<lambda>m. (tm_chain_id m, tm_address m)"
  have ok: "tm_chain_id m' = c" "tm_address m' = b" if "(b, m') \<in> set result" for b m'
    using that tab(1) by (auto simp: table_ok_def list_all_iff entry_ok_def)
  have "map ?f (map (unlinked \<circ> snd) result) = map (\<lambda>b. (c, b)) (map fst result)"
    using ok by (auto simp: unlinked_def)
  then have "distinct (map ?f (map (unlinked \<circ> snd) result))" using tab(2) by (simp add: distinct_map inj_on_def)
  then have d: "distinct (map ?f (to_persist cached result))" unfolding to_persist_eq by (rule distinct_map_filter)
  have um: "?f (unlinked m) = (c, a)" "tm_logo_url (unlinked m) = None" using ok[OF m] by (simp_all add: unlinked_def)
  show ?thesis
  proof (cases "Some (unlinked m) = map_of cached a")
    case False
    then have "unlinked m \<in> set (to_persist cached result)" using m um(1) unfolding to_persist_eq by force
    from foldl_update_in[OF d this, of "row_of now" t] um row_metadata_row_of[of "unlinked m" now] show ?thesis by simp
  next
    case True
    have "(c, a) \<notin> set (map ?f (to_persist cached result))"
    proof
      assume "(c, a) \<in> set (map ?f (to_persist cached result))"
      then obtain b m' where b: "(b, m') \<in> set result" "tm_address (unlinked m') = a" "Some (unlinked m') \<noteq> map_of cached a"
        unfolding to_persist_eq by auto
      then have "b = a" using ok(2) by (auto simp: unlinked_def)
      then have "m' = m" using b(1) m tab(2) by (metis map_of_is_SomeI option.inject)
      with b(3) True show False by simp
    qed
    from foldl_update_other[OF this] have "map_of (foldl (\<lambda>t m. AList.update (?f m) (row_of now m) t) t (to_persist cached result)) (c, a)
        = map_of t (c, a)" .
    moreover have "a \<in> fst ` set result" using m by force
    ultimately show ?thesis using True old by simp
  qed
qed

lemma persist_canonical:
  assumes "table_ok c result" "list_all (canonical eth) (map fst result)"
  shows "list_all (\<lambda>m. canonical eth (tm_address m)) (to_persist cached result)"
proof -
  have "canonical eth (tm_address m)" if "(a, m) \<in> set result" for a m
    using assms that by (fastforce simp: table_ok_def list_all_iff entry_ok_def)
  then show ?thesis by (auto simp: to_persist_eq list_all_iff unlinked_def)
qed

text \<open>The circumstances of a resolution: an enabled chain, canonical addresses, a sound store, nobody else writing it meanwhile.\<close>

definition quiet_env :: "resolve_env \<Rightarrow> metadata_db \<Rightarrow> bool" where
  "quiet_env env db \<longleftrightarrow> rv_before_read env db = db \<and> (\<forall>d. db_metadata (rv_before_write env d) = db_metadata d)
     \<and> (\<forall>d. db_metadata (rv_before_enroll env d) = db_metadata d)"

definition resolvable :: "eth_lib \<Rightarrow> int \<Rightarrow> token_ref list \<Rightarrow> string list \<Rightarrow> metadata_resolver \<Rightarrow> bool" where
  "resolvable eth chain_id refs xs mv \<longleftrightarrow> chain_id \<in> set (chain_ids (mv_settings mv)) \<and> chain_id > 0
     \<and> normalize_addresses eth (map tr_address refs) = Inr xs \<and> list_all (canonical eth) xs"

definition keeps_known :: "token_metadata \<Rightarrow> token_metadata \<Rightarrow> bool" where
  "keeps_known m m' \<longleftrightarrow> (tm_symbol m \<noteq> None \<longrightarrow> tm_symbol m' = tm_symbol m)
     \<and> (tm_decimals m \<noteq> None \<longrightarrow> tm_decimals m' = tm_decimals m)
     \<and> (tm_source m \<noteq> None \<longrightarrow> tm_source m' = tm_source m)"

lemma merged_keeps_known: "cached = Some m \<Longrightarrow> keeps_known m (merged_entry chain_id a cached hint source)"
  by (auto simp: keeps_known_def merged_entry_def)

lemma upsert_canonical_table:
  assumes "table_ok c result" "list_all (canonical eth) (map fst result)"
  shows "\<exists>db2. (if to_persist cached result = [] then (Inr (), db1)
      else upsert_many eth now (to_persist cached result) db1) = (Inr (), db2)
    \<and> db_metadata db2 = foldl (\<lambda>t m. AList.update (tm_chain_id m, tm_address m) (row_of now m) t) (db_metadata db1)
        (to_persist cached result)"
  using upsert_many_spec[OF persist_canonical[OF assms]] by simp

lemma rmap_list_comp: "rmap_list f (map g xs) = rmap_list (\<lambda>x. f (g x)) xs"
  by (induction xs) simp_all

lemma resolve_metadata_core:
  assumes "resolvable eth chain_id refs xs mv" "metadata_ok eth (mv_db mv)" "quiet_env env (mv_db mv)" "never_cancelled ans"
  shows "\<exists>result mv'. resolve_metadata eth abi ans env chain_id refs source mv = (Inr result, mv')
    \<and> map fst result = xs \<and> table_ok chain_id result
    \<and> (\<forall>a m r. (a, m) \<in> set result \<longrightarrow> map_of (db_metadata (mv_db mv)) (chain_id, a) = Some r \<longrightarrow> keeps_known (row_metadata chain_id a r) m)
    \<and> metadata_ok eth (mv_db mv')
    \<and> (\<forall>a m. (a, m) \<in> set result \<longrightarrow> map_option (row_metadata chain_id a) (map_of (db_metadata (mv_db mv')) (chain_id, a)) = Some (unlinked m))"
proof -
  let ?t = "db_metadata (mv_db mv)"
  from assms(1) have c: "chain_id \<in> set (chain_ids (mv_settings mv))" "chain_id > 0"
    and n: "normalize_addresses eth (map tr_address refs) = Inr xs" and can: "list_all (canonical eth) xs"
    by (auto simp: resolvable_def)
  have rd: "rv_before_read env (mv_db mv) = mv_db mv" using assms(3) by (simp add: quiet_env_def)
  from n obtain ys where ys: "rmap_list (normalize_address eth) (map tr_address refs) = Inr ys" "xs = dedup ys"
    by (auto simp: normalize_addresses_def)
  have dx: "distinct xs" by (simp add: ys(2) distinct_dedup_from)
  show ?thesis
  proof (cases "xs = []")
    case True
    then show ?thesis using c n assms(2) by (simp add: resolve_metadata_def table_ok_def)
  next
    case ne: False
    from get_many_spec[OF assms(2) can dx, of chain_id] obtain cached where g: "get_many eth chain_id xs (mv_db mv) = Inr cached"
      "\<And>a. a \<in> set xs \<Longrightarrow> map_of cached a = map_option (row_metadata chain_id a) (map_of ?t (chain_id, a))" by auto
    have "rmap_list (\<lambda>r. normalize_address eth (tr_address r)) refs = Inr ys"
      using ys(1) by (simp add: rmap_list_comp)
    moreover have "list_all (canonical eth) ys" using can ys(2) by (simp add: list_all_iff set_dedup_from)
    ultimately obtain hinted where h: "hints_from_refs eth chain_id refs [] = Inr hinted"
      using hints_canonical[OF c(2)] by blast
    define merged where "merged = map (\<lambda>a. (a, merged_entry chain_id a (map_of cached a) (map_of hinted a) source)) xs"
    have mf: "map fst merged = xs" by (simp add: merged_def comp_def)
    have mt: "table_ok chain_id merged" by (simp add: merged_def table_ok_def list_all_iff merged_entry_ok)
    obtain found c' where f: "resolver_fetch_onchain eth abi ans chain_id (unresolved_addresses merged) (mv_rpc mv) = (Inr found, c')"
      "set (map fst found) \<subseteq> set (unresolved_addresses merged)" using resolver_fetch_returns[OF assms(4)] by blast
    have "set (unresolved_addresses merged) \<subseteq> set (map fst merged)" by (auto simp: unresolved_addresses_def)
    then have "set (map fst found) \<subseteq> set (map fst merged)" using f(2) by (rule subset_trans[rotated])
    from merge_onchain_canonical[OF c(2) _ mt this, of eth] can mf obtain result where
      r: "merge_onchain eth chain_id found merged = Inr result" "map fst result = xs" "table_ok chain_id result"
      and r4: "\<And>a m. map_of merged a = Some m \<Longrightarrow> (\<exists>m'. map_of result a = Some m'
          \<and> (tm_symbol m \<noteq> None \<longrightarrow> tm_symbol m' = tm_symbol m)
          \<and> (tm_decimals m \<noteq> None \<longrightarrow> tm_decimals m' = tm_decimals m) \<and> tm_source m' = tm_source m)"
      by auto
    let ?db1 = "rv_before_write env (mv_db mv)"
    from upsert_canonical_table[OF r(3)] can r(2) obtain db2 where
      u: "(if to_persist cached result = [] then (Inr (), ?db1) else upsert_many eth (rv_write_now env) (to_persist cached result) ?db1)
          = (Inr (), db2)"
        "db_metadata db2 = foldl (\<lambda>t m. AList.update (tm_chain_id m, tm_address m) (row_of (rv_write_now env) m) t)
          (db_metadata ?db1) (to_persist cached result)" by blast
    define db3 where "db3 = snd (enroll_observed eth chain_id xs (rv_before_enroll env db2))"
    have e: "enroll_observed eth chain_id xs (rv_before_enroll env db2) = (Inr (), db3)" "db_metadata db3 = db_metadata db2"
      using normalize_canonical[OF can dx] assms(3) by (simp_all add: db3_def enroll_observed_def quiet_env_def)
    have t1: "db_metadata ?db1 = ?t" using assms(3) by (simp add: quiet_env_def)
    have run: "resolve_metadata eth abi ans env chain_id refs source mv = (Inr result, mv\<lparr>mv_rpc := c', mv_db := db3\<rparr>)"
      using c n ne g(1) h f(1) r(1) u(1) e(1) rd merge_all_canonical[OF can c(2)]
      by (simp add: resolve_metadata_def Let_def merged_def[symmetric])
    have "keeps_known (row_metadata chain_id a row) m" if am: "(a, m) \<in> set result" "map_of ?t (chain_id, a) = Some row" for a m row
    proof -
      have a: "a \<in> set xs" using am(1) r(2) by force
      have "map_of merged a = Some (merged_entry chain_id a (map_of cached a) (map_of hinted a) source)"
        using a by (simp add: merged_def map_of_map_restrict)
      from r4[OF this] am(1) r(2) dx have "keeps_known (merged_entry chain_id a (map_of cached a) (map_of hinted a) source) m"
        unfolding keeps_known_def by (metis map_of_is_SomeI option.inject)
      moreover have "keeps_known (row_metadata chain_id a row) (merged_entry chain_id a (map_of cached a) (map_of hinted a) source)"
        using g(2)[OF a] am(2) by (intro merged_keeps_known) simp
      ultimately show ?thesis by (auto simp: keeps_known_def)
    qed
    moreover have "map_option (row_metadata chain_id a) (map_of (db_metadata db3) (chain_id, a)) = Some (unlinked m)"
      if "(a, m) \<in> set result" for a m
    proof -
      have "map_of cached b = map_option (row_metadata chain_id b) (map_of ?t (chain_id, b))" if "b \<in> fst ` set result" for b
        using g(2)[of b] that r(2) by (metis list.set_map)
      from write_back[OF r(3) _ _ this that] dx can r(2) show ?thesis unfolding e(2) u(2) t1 by simp
    qed
    moreover have "metadata_ok eth db3"
    proof -
      have "list_all (\<lambda>m. canonical eth (tm_address m)) (to_persist cached result)"
        using r(2) can by (intro persist_canonical[OF r(3)]) simp
      from foldl_update_keys_ok[OF _ _ this] assms(2) show ?thesis
        unfolding metadata_ok_def e(2) u(2) t1 Let_def by blast
    qed
    ultimately show ?thesis using run r(2,3) by auto
  qed
qed

section \<open>Properties\<close>


text \<open>C25: What a resolution returned is what the store holds afterwards: reading the same tokens back gives the
  result, without the logo addresses, and the store stays sound.\<close>

theorem resolved_metadata_round_trip:
  assumes "resolvable eth chain_id refs xs mv" "metadata_ok eth (mv_db mv)" "quiet_env env (mv_db mv)" "never_cancelled ans"
  shows "\<exists>result mv' stored. resolve_metadata eth abi ans env chain_id refs source mv = (Inr result, mv')
    \<and> get_many eth chain_id xs (mv_db mv') = Inr stored \<and> metadata_ok eth (mv_db mv')
    \<and> (\<forall>a. map_of stored a = map_option unlinked (map_of result a))"
proof -
  from resolve_metadata_core[OF assms] obtain result mv' where
    r: "resolve_metadata eth abi ans env chain_id refs source mv = (Inr result, mv')" "map fst result = xs"
      "metadata_ok eth (mv_db mv')"
      "\<forall>a m. (a, m) \<in> set result \<longrightarrow> map_option (row_metadata chain_id a) (map_of (db_metadata (mv_db mv')) (chain_id, a)) = Some (unlinked m)"
    by blast
  have can: "list_all (canonical eth) xs" and dx: "distinct xs"
    using assms(1) by (auto simp: resolvable_def normalize_addresses_def distinct_dedup_from)
  from get_many_spec[OF r(3) can dx, of chain_id] obtain stored where g: "get_many eth chain_id xs (mv_db mv') = Inr stored"
    "\<And>a. map_of stored a = (if a \<in> set xs then map_option (row_metadata chain_id a) (map_of (db_metadata (mv_db mv')) (chain_id, a)) else None)"
    by blast
  have "map_of stored a = map_option unlinked (map_of result a)" for a
  proof (cases "map_of result a")
    case None
    then have "a \<notin> set xs" using r(2) by (auto simp: map_of_eq_None_iff)
    then show ?thesis using g(2) None by simp
  next
    case (Some m)
    then have "(a, m) \<in> set result" by (rule map_of_SomeD)
    then show ?thesis using g(2)[of a] r(2,4) Some by force
  qed
  then show ?thesis using r(1,3) g(1) by blast
qed

section \<open>Witnesses\<close>

definition example_resolver :: metadata_resolver where
  "example_resolver = TokenMetadataResolver default_settings
     (empty_db\<lparr>db_metadata := [((1, example_address), \<lparr>mr_symbol = Some ''DAI'', mr_decimals = None, mr_source = None, mr_updated_at = 0\<rparr>)]\<rparr>)"

definition example_ref :: token_ref where
  "example_ref = \<lparr>tr_chain_id = 1, tr_address = example_address, tr_symbol = Some ''XYZ'', tr_decimals = Some 18, tr_logo_url = None\<rparr>"

definition example_env :: resolve_env where
  "example_env = \<lparr>rv_before_read = id, rv_before_write = id, rv_before_enroll = id, rv_write_now = 7\<rparr>"

definition example_abi :: token_abi where
  "example_abi = \<lparr>ta_uint8 = (\<lambda>b. None), ta_string = (\<lambda>b. None), ta_bytes32 = (\<lambda>b. None), ta_utf8 = (\<lambda>b. [])\<rparr>"

lemma example_circumstances:
  "resolvable example_eth 1 [example_ref, example_ref] [example_address] example_resolver"
  "metadata_ok example_eth (mv_db example_resolver)" "quiet_env example_env (mv_db example_resolver)"
  "never_cancelled (\<lambda>h q. Inl (OtherException ''ConnectionError''))"
  by (simp_all add: resolvable_def example_resolver_def TokenMetadataResolver_def default_settings_def example_ref_def
      normalize_addresses_def example_normalize canonical_def metadata_ok_def quiet_env_def example_env_def never_cancelled_def empty_db_def
      CHAINS_def)


theorem resolved_metadata_round_trip_witness:
  "\<exists>result mv' stored. resolve_metadata example_eth example_abi (\<lambda>h q. Inl (OtherException ''ConnectionError'')) example_env 1
      [example_ref, example_ref] ''provider'' example_resolver = (Inr result, mv')
    \<and> get_many example_eth 1 [example_address] (mv_db mv') = Inr stored
    \<and> map_of stored example_address = map_option unlinked (map_of result example_address)"
  using resolved_metadata_round_trip[OF example_circumstances, of example_abi "''provider''"] by blast

end
