(* ===== verification/MulticallReaders.thy ===== *)
theory MulticallReaders
  imports TokenMetadata
begin

text \<open>
  The readers of multicall replies. The ERC-4626 adapter (\<open>Adapters\<close>), the Yearn v2 adapter
  (\<open>vault/adapters/yearn_v2.py\<close>) and the metadata reader (\<open>token_metadata/onchain.py\<close>) each have a copy of
  the same functions. This theory holds the copies of the latter two as they are written; the three readers
  interpret the locale \<open>multicall_reader\<close>, whose laws say what the detection and the metadata need, and the
  other theories use one model for all of them, which the lemmas here justify. It also holds the ABI of the
  contract as JSON with what it asks of the arguments.
\<close>

section \<open>The copy of the Yearn v2 adapter\<close>

text \<open>The loop over the items, with the list \<open>normalized\<close> that grows.\<close>

fun y2_normalize_loop :: "rpc_value list \<Rightarrow> (bool \<times> nat list option) list \<Rightarrow> (bool \<times> nat list option) list" where
  "y2_normalize_loop [] normalized = normalized"
| "y2_normalize_loop (item # items) normalized =
     (case (case item of
          RDict d \<Rightarrow> Some (truthy (rpc_get d ''success''), rpc_get d ''returnData'')
        | RList l \<Rightarrow> if length l \<ge> 2 then Some (truthy (l ! 0), l ! 1) else None
        | _ \<Rightarrow> None) of
        None \<Rightarrow> y2_normalize_loop items normalized
      | Some (good, data) \<Rightarrow>
          (case data of
             RNone \<Rightarrow> y2_normalize_loop items (normalized @ [(good, None)])
           | RStr s \<Rightarrow>
               (let stripped = (if py_startswith s ''0x'' then drop 2 s else s) in
                case bytes_fromhex stripped of
                  Some b \<Rightarrow> y2_normalize_loop items (normalized @ [(good, Some b)])
                | None \<Rightarrow> y2_normalize_loop items (normalized @ [(good, None)]))
           | RBytes b \<Rightarrow> y2_normalize_loop items (normalized @ [(good, Some b)])
           | _ \<Rightarrow> y2_normalize_loop items (normalized @ [(good, None)])))"

definition y2_normalize_multicall_result :: "rpc_value \<Rightarrow> (bool \<times> nat list option) list" where
  "y2_normalize_multicall_result v = (case v of RList items \<Rightarrow> y2_normalize_loop items [] | _ \<Rightarrow> [])"

definition y2_normalize_address :: "eth_lib \<Rightarrow> rpc_value \<Rightarrow> string option" where
  "y2_normalize_address eth v =
     (case v of
        RStr s \<Rightarrow> (case to_checksum_address eth s of None \<Rightarrow> None | Some a \<Rightarrow> Some a)
      | _ \<Rightarrow> None)"

definition y2_decode_address :: "eth_lib \<Rightarrow> abi_lib \<Rightarrow> nat list \<Rightarrow> string option" where
  "y2_decode_address eth abi data =
     (case abi_decode_address abi data of None \<Rightarrow> None | Some a \<Rightarrow> y2_normalize_address eth (RStr a))"

definition y2_normalize_underlying_address :: "eth_lib \<Rightarrow> rpc_value \<Rightarrow> string \<Rightarrow> string option res" where
  "y2_normalize_underlying_address eth v vault_address =
     (let underlying = y2_normalize_address eth v in
      if underlying = None then Inr None
      else case to_checksum_address eth vault_address of
        None \<Rightarrow> Inl (ValueError ''invalid address'')
      | Some a \<Rightarrow> if underlying = Some a then Inr None else Inr underlying)"

definition y2_decode_interface_address ::
    "eth_lib \<Rightarrow> abi_lib \<Rightarrow> (bool \<times> nat list option) list \<Rightarrow> string \<Rightarrow> string option res" where
  "y2_decode_interface_address eth abi decoded vault_address =
     (case decoded of
        [] \<Rightarrow> Inl (InvalidRequestError ''INVALID_VAULT_DATA'' ''Yearn v2 detection returned an invalid multicall response'')
      | (good, data) # _ \<Rightarrow>
          if \<not> good \<or> data = None then Inr None
          else y2_normalize_underlying_address eth
                 (case y2_decode_address eth abi (the data) of None \<Rightarrow> RNone | Some a \<Rightarrow> RStr a) vault_address)"

definition y2_decode_uint256 :: "abi_lib \<Rightarrow> nat list \<Rightarrow> int option" where
  "y2_decode_uint256 abi data =
     (case abi_decode_uint256 abi data of None \<Rightarrow> None | Some v \<Rightarrow> if v \<ge> 0 then Some v else None)"

section \<open>The copy of the metadata reader\<close>

text \<open>Here \<open>success\<close> and \<open>data\<close> start as \<open>None\<close> and an item is skipped when \<open>success\<close> still is.\<close>

definition oc_item :: "rpc_value \<Rightarrow> bool option \<times> rpc_value" where
  "oc_item item =
     (let start = (None, RNone) in
      case item of
        RDict d \<Rightarrow> (Some (truthy (rpc_get d ''success'')), rpc_get d ''returnData'')
      | RList l \<Rightarrow> if length l \<ge> 2 then (Some (truthy (l ! 0)), l ! 1) else start
      | _ \<Rightarrow> start)"

fun oc_normalize_loop :: "rpc_value list \<Rightarrow> (bool \<times> nat list option) list \<Rightarrow> (bool \<times> nat list option) list" where
  "oc_normalize_loop [] normalized = normalized"
| "oc_normalize_loop (item # items) normalized =
     (case oc_item item of
        (None, data) \<Rightarrow> oc_normalize_loop items normalized
      | (Some good, data) \<Rightarrow>
          oc_normalize_loop items (normalized @
            [(good, case data of
                RNone \<Rightarrow> None
              | RStr s \<Rightarrow> bytes_fromhex (if py_startswith s ''0x'' then drop 2 s else s)
              | RBytes b \<Rightarrow> Some b
              | _ \<Rightarrow> None)]))"

definition oc_normalize_multicall_result :: "rpc_value \<Rightarrow> (bool \<times> nat list option) list" where
  "oc_normalize_multicall_result v = (case v of RList items \<Rightarrow> oc_normalize_loop items [] | _ \<Rightarrow> [])"

section \<open>What every reader does\<close>

text \<open>An item as a node may write it: a dictionary or a pair, the data as bytes or as hex text.\<close>

datatype reply_form = Dict_hex | Dict_bytes | Pair_hex | Pair_bytes

definition hex_digit :: "nat \<Rightarrow> char" where
  "hex_digit n = char_of (if n < 10 then n + 48 else n + 87)"

definition hex_text :: "nat list \<Rightarrow> string" where
  "hex_text bs = ''0x'' @ concat (map (\<lambda>b. [hex_digit (b div 16), hex_digit (b mod 16)]) bs)"

definition data_value :: "bool \<Rightarrow> nat list option \<Rightarrow> rpc_value" where
  "data_value as_hex data = (case data of None \<Rightarrow> RNone | Some b \<Rightarrow> if as_hex then RStr (hex_text b) else RBytes b)"

fun reply_item :: "reply_form \<Rightarrow> bool \<times> nat list option \<Rightarrow> rpc_value" where
  "reply_item Dict_hex (good, data) = RDict [(''success'', RBool good), (''returnData'', data_value True data)]"
| "reply_item Dict_bytes (good, data) = RDict [(''success'', RBool good), (''returnData'', data_value False data)]"
| "reply_item Pair_hex (good, data) = RList [RBool good, data_value True data]"
| "reply_item Pair_bytes (good, data) = RList [RBool good, data_value False data]"

definition reply_ok :: "bool \<times> nat list option \<Rightarrow> bool" where
  "reply_ok r \<longleftrightarrow> (case snd r of None \<Rightarrow> True | Some b \<Rightarrow> list_all (\<lambda>x. x < 256) b)"

lemma hex_digit_val: "n < 16 \<Longrightarrow> hex_val (hex_digit n) = Some n"
  by (auto simp: hex_val_def hex_digit_def is_dec_digit_def of_char_of)

lemma hex_digit_space: "n < 16 \<Longrightarrow> \<not> ascii_space (hex_digit n)"
  by (auto simp: ascii_space_def hex_digit_def of_char_of)

lemma bytes_fromhex_hex_text:
  "list_all (\<lambda>x. x < 256) bs \<Longrightarrow> bytes_fromhex (concat (map (\<lambda>b. [hex_digit (b div 16), hex_digit (b mod 16)]) bs)) = Some bs"
  by (induction bs) (auto simp: hex_digit_space hex_digit_val less_mult_imp_div_less)

lemma return_data_of_value: "(case data of None \<Rightarrow> True | Some b \<Rightarrow> list_all (\<lambda>x. x < 256) b) \<Longrightarrow> return_data (data_value as_hex data) = data"
  by (auto simp: return_data_def data_value_def hex_text_def py_startswith_def bytes_fromhex_hex_text split: option.splits)

locale multicall_reader =
  fixes read_reply :: "rpc_value \<Rightarrow> (bool \<times> nat list option) list"
    and read_item :: "rpc_value \<Rightarrow> (bool \<times> nat list option) option"
  assumes read_list: "read_reply (RList vs) = List.map_filter read_item vs"
    and read_other: "(\<And>vs. v \<noteq> RList vs) \<Longrightarrow> read_reply v = []"
    and item_dict: "read_item (RDict d) = Some (truthy (rpc_get d ''success''), return_data (rpc_get d ''returnData''))"
    and item_pair: "read_item (RList (a # b # rest)) = Some (truthy a, return_data b)"
    and item_other: "(\<And>d. v \<noteq> RDict d) \<Longrightarrow> (\<And>a b rest. v \<noteq> RList (a # b # rest)) \<Longrightarrow> read_item v = None"
begin

lemma item_reply: "reply_ok r \<Longrightarrow> read_item (reply_item form r) = Some r"
  by (cases r; cases form)
     (simp_all add: item_dict item_pair rpc_get_def return_data_of_value reply_ok_def)

text \<open>A well-formed reply is read position by position, however the node writes it.\<close>

lemma reads_back: "list_all (reply_ok \<circ> snd) items \<Longrightarrow> read_reply (RList (map (\<lambda>(form, r). reply_item form r) items)) = map snd items"
  unfolding read_list by (induction items) (auto simp: List.map_filter_simps item_reply)

text \<open>The laws leave no freedom.\<close>

lemma item_unique: "read_item v =
    (case v of RDict d \<Rightarrow> Some (truthy (rpc_get d ''success''), return_data (rpc_get d ''returnData''))
     | RList (a # b # rest) \<Rightarrow> Some (truthy a, return_data b) | _ \<Rightarrow> None)"
  by (cases v) (auto simp: item_dict item_pair item_other split: list.splits)

lemma reply_unique: "read_reply v = (case v of RList vs \<Rightarrow> List.map_filter read_item vs | _ \<Rightarrow> [])"
  by (cases v) (simp_all add: read_list read_other)

end

text \<open>One item, in the three copies.\<close>

definition e4_item :: "rpc_value \<Rightarrow> (bool \<times> nat list option) option" where
  "e4_item v = (case normalize_multicall_items [v] of [] \<Rightarrow> None | r # _ \<Rightarrow> Some r)"

definition y2_item :: "rpc_value \<Rightarrow> (bool \<times> nat list option) option" where
  "y2_item v = (case y2_normalize_loop [v] [] of [] \<Rightarrow> None | r # _ \<Rightarrow> Some r)"

definition oc_read_item :: "rpc_value \<Rightarrow> (bool \<times> nat list option) option" where
  "oc_read_item v = (case oc_normalize_loop [v] [] of [] \<Rightarrow> None | r # _ \<Rightarrow> Some r)"

lemma e4_items: "normalize_multicall_items vs = List.map_filter e4_item vs"
  by (induction vs rule: normalize_multicall_items.induct) (simp_all add: List.map_filter_simps e4_item_def)

lemma y2_loop_append: "y2_normalize_loop vs acc = acc @ y2_normalize_loop vs []"
proof (induction vs arbitrary: acc)
  case (Cons v vs)
  note [simp] = Cons[of "x @ [y]" for x y] Cons[of "[y]" for y] Cons[of "acc"]
  show ?case by (simp split: rpc_value.splits option.splits add: Let_def)
qed simp

lemma oc_loop_append: "oc_normalize_loop vs acc = acc @ oc_normalize_loop vs []"
proof (induction vs arbitrary: acc)
  case (Cons v vs)
  note [simp] = Cons[of "x @ [y]" for x y] Cons[of "[y]" for y] Cons[of "acc"]
  show ?case by (simp split: option.splits prod.splits)
qed simp

lemma y2_items: "y2_normalize_loop vs [] = List.map_filter y2_item vs"
proof (induction vs)
  case (Cons v vs)
  have "y2_normalize_loop (v # vs) [] = y2_normalize_loop vs (y2_normalize_loop [v] [])"
    by (simp split: rpc_value.splits option.splits add: Let_def)
  also have "\<dots> = y2_normalize_loop [v] [] @ y2_normalize_loop vs []" by (rule y2_loop_append)
  finally have "y2_normalize_loop (v # vs) [] = y2_normalize_loop [v] [] @ y2_normalize_loop vs []" .
  moreover have "y2_normalize_loop [v] [] = (case y2_item v of None \<Rightarrow> [] | Some r \<Rightarrow> [r])"
    unfolding y2_item_def by (simp split: rpc_value.splits option.splits add: Let_def)
  ultimately show ?case using Cons by (simp add: List.map_filter_simps split: option.splits)
qed (simp add: List.map_filter_simps)

lemma oc_items: "oc_normalize_loop vs [] = List.map_filter oc_read_item vs"
proof (induction vs)
  case (Cons v vs)
  have "oc_normalize_loop (v # vs) [] = oc_normalize_loop vs (oc_normalize_loop [v] [])"
    by (simp split: option.splits prod.splits)
  also have "\<dots> = oc_normalize_loop [v] [] @ oc_normalize_loop vs []" by (rule oc_loop_append)
  finally have "oc_normalize_loop (v # vs) [] = oc_normalize_loop [v] [] @ oc_normalize_loop vs []" .
  moreover have "oc_normalize_loop [v] [] = (case oc_read_item v of None \<Rightarrow> [] | Some r \<Rightarrow> [r])"
    unfolding oc_read_item_def by (simp split: option.splits prod.splits)
  ultimately show ?case using Cons by (simp add: List.map_filter_simps split: option.splits)
qed (simp add: List.map_filter_simps)

lemma short_list: "(\<And>a b rest. v \<noteq> RList (a # b # rest)) \<Longrightarrow> v = RList l \<Longrightarrow> \<not> 2 \<le> length l"
  by (cases l rule: list.exhaust; cases "tl l" rule: list.exhaust) auto

interpretation e4r: multicall_reader normalize_multicall_result e4_item
proof (unfold_locales, goal_cases)
  case (1 vs) then show ?case by (simp add: normalize_multicall_result_def e4_items)
next
  case (2 v) then show ?case by (cases v) (auto simp: normalize_multicall_result_def)
next
  case (5 v)
  then show ?case unfolding e4_item_def
    by (cases "[v]" rule: normalize_multicall_items.cases) auto
qed (simp_all add: e4_item_def)

interpretation y2r: multicall_reader y2_normalize_multicall_result y2_item
proof (unfold_locales, goal_cases)
  case (1 vs) then show ?case by (simp add: y2_normalize_multicall_result_def y2_items)
next
  case (2 v) then show ?case by (cases v) (auto simp: y2_normalize_multicall_result_def)
next
  case (5 v)
  show ?case
  proof (cases v)
    case (RList l) then show ?thesis using short_list[OF 5(2)] by (simp add: y2_item_def)
  next
    case (RDict d) then show ?thesis using 5(1) by blast
  qed (simp_all add: y2_item_def)
qed (simp_all add: y2_item_def return_data_def Let_def split: rpc_value.splits option.splits)

interpretation ocr: multicall_reader oc_normalize_multicall_result oc_read_item
proof (unfold_locales, goal_cases)
  case (1 vs) then show ?case by (simp add: oc_normalize_multicall_result_def oc_items)
next
  case (2 v) then show ?case by (cases v) (auto simp: oc_normalize_multicall_result_def)
next
  case (5 v)
  show ?case
  proof (cases v)
    case (RList l) then show ?thesis using short_list[OF 5(2)] by (simp add: oc_read_item_def oc_item_def)
  next
    case (RDict d) then show ?thesis using 5(1) by blast
  qed (simp_all add: oc_read_item_def oc_item_def)
qed (simp_all add: oc_read_item_def oc_item_def return_data_def split: rpc_value.splits option.splits)

lemma items_agree: "y2_item = e4_item" "oc_read_item = e4_item"
  by (intro ext trans[OF y2r.item_unique e4r.item_unique[symmetric]], intro ext trans[OF ocr.item_unique e4r.item_unique[symmetric]])

lemma readers_agree:
  "y2_normalize_multicall_result v = normalize_multicall_result v"
  "oc_normalize_multicall_result v = normalize_multicall_result v"
  unfolding y2r.reply_unique ocr.reply_unique e4r.reply_unique items_agree by (rule refl)+

lemma y2_decoders_agree:
  "y2_normalize_address = normalize_vault_address"
  "y2_normalize_underlying_address = normalize_underlying_address"
  "y2_decode_uint256 = decode_uint256"
  "(case y2_decode_address eth abi data of None \<Rightarrow> RNone | Some a \<Rightarrow> RStr a) = decode_address eth abi data"
proof -
  show a: "y2_normalize_address = normalize_vault_address"
    by (intro ext) (simp add: y2_normalize_address_def normalize_vault_address_def split: rpc_value.splits option.splits)
  show "y2_normalize_underlying_address = normalize_underlying_address"
    by (intro ext) (simp add: y2_normalize_underlying_address_def normalize_underlying_address_def a Let_def split: option.splits)
  show "y2_decode_uint256 = decode_uint256"
    by (intro ext) (simp add: y2_decode_uint256_def decode_uint256_def)
  show "(case y2_decode_address eth abi data of None \<Rightarrow> RNone | Some a \<Rightarrow> RStr a) = decode_address eth abi data"
    by (simp add: y2_decode_address_def decode_address_def a split: option.splits)
qed

lemma y2_interface_agrees:
  "y2_decode_interface_address eth abi decoded vault = decode_interface_address eth abi ''Yearn v2'' decoded vault"
  by (auto simp: y2_decode_interface_address_def decode_interface_address_def y2_decoders_agree split: list.splits option.splits)

section \<open>The ABI of the contract\<close>

text \<open>\<open>load_abi\<close>: \<open>read_json\<close> is what \<open>json.load\<close> makes of the file of that name.\<close>

definition load_abi :: "(string \<Rightarrow> json res) \<Rightarrow> string \<Rightarrow> json list res" where
  "load_abi read_json name = rbind (read_json name) (\<lambda>data.
     case data of JList l \<Rightarrow> Inr l | _ \<Rightarrow> Inl (ValueError (''ABI file '' @ name @ '' must contain a list'')))"

definition abi_param :: "string \<Rightarrow> string \<Rightarrow> json" where
  "abi_param name type = JObj [(''name'', JStr name), (''type'', JStr type)]"

definition MULTICALL3_ABI :: "json list" where
  "MULTICALL3_ABI =
     [JObj [(''inputs'', JList [JObj [
              (''components'', JList [abi_param ''target'' ''address'', abi_param ''allowFailure'' ''bool'', abi_param ''callData'' ''bytes'']),
              (''name'', JStr ''calls''), (''type'', JStr ''tuple[]'')]]),
            (''name'', JStr ''aggregate3''),
            (''outputs'', JList [JObj [
              (''components'', JList [abi_param ''success'' ''bool'', abi_param ''returnData'' ''bytes'']),
              (''name'', JStr ''returnData''), (''type'', JStr ''tuple[]'')]]),
            (''stateMutability'', JStr ''payable''), (''type'', JStr ''function'')]]"

text \<open>When a value is of a type of the ABI: a scalar, or a list of tuples of scalars.\<close>

definition obj_get :: "json \<Rightarrow> string \<Rightarrow> json" where
  "obj_get j k = (case j of JObj d \<Rightarrow> (case map_of d k of Some v \<Rightarrow> v | None \<Rightarrow> JNull) | _ \<Rightarrow> JNull)"

definition json_items :: "json \<Rightarrow> json list" where
  "json_items j = (case j of JList l \<Rightarrow> l | _ \<Rightarrow> [])"

definition scalar_conforms :: "eth_lib \<Rightarrow> json \<Rightarrow> rpc_value \<Rightarrow> bool" where
  "scalar_conforms eth type v \<longleftrightarrow>
     type = JStr ''address'' \<and> (case v of RStr s \<Rightarrow> to_checksum_address eth s = Some s | _ \<Rightarrow> False)
     \<or> type = JStr ''bool'' \<and> (case v of RBool b \<Rightarrow> True | _ \<Rightarrow> False)
     \<or> type = JStr ''bytes'' \<and> (case v of RBytes b \<Rightarrow> list_all (\<lambda>x. x < 256) b | _ \<Rightarrow> False)"

definition tuple_conforms :: "eth_lib \<Rightarrow> json list \<Rightarrow> rpc_value \<Rightarrow> bool" where
  "tuple_conforms eth components v \<longleftrightarrow>
     (case v of RList l \<Rightarrow> list_all2 (\<lambda>c. scalar_conforms eth (obj_get c ''type'')) components l | _ \<Rightarrow> False)"

definition param_conforms :: "eth_lib \<Rightarrow> json \<Rightarrow> rpc_value \<Rightarrow> bool" where
  "param_conforms eth param v \<longleftrightarrow>
     (if obj_get param ''type'' = JStr ''tuple[]''
      then (case v of RList l \<Rightarrow> list_all (tuple_conforms eth (json_items (obj_get param ''components''))) l | _ \<Rightarrow> False)
      else scalar_conforms eth (obj_get param ''type'') v)"

definition call_conforms :: "eth_lib \<Rightarrow> json list \<Rightarrow> string \<Rightarrow> rpc_value list \<Rightarrow> bool" where
  "call_conforms eth abi fn_name args \<longleftrightarrow>
     list_ex (\<lambda>f. obj_get f ''name'' = JStr fn_name \<and> list_all2 (param_conforms eth) (json_items (obj_get f ''inputs'')) args) abi"

section \<open>What the contract is asked\<close>

text \<open>A question to the multicall contract is one the contract understands, at its own address.\<close>

definition question_ok :: "eth_lib \<Rightarrow> rpc_query \<Rightarrow> bool" where
  "question_ok eth q \<longleftrightarrow>
     (case q of
        Q_call chain_id address abi fn_name args \<Rightarrow> fn_name = ''aggregate3'' \<longrightarrow>
          Some (Some address) = map_option (to_checksum_address eth) (map_of MULTICALL3_BY_CHAIN chain_id)
          \<and> call_conforms eth MULTICALL3_ABI fn_name args
      | _ \<Rightarrow> True)"

abbreviation questions_ok :: "eth_lib \<Rightarrow> rpc_client \<Rightarrow> bool" where
  "questions_ok eth c \<equiv> list_all (question_ok eth) (rpc_history c)"

lemma keep_bind_lift: "(\<And>x. r = Inr x \<Longrightarrow> rpc_keeps I (f x)) \<Longrightarrow> rpc_keeps I (rpc_bind (rpc_lift r) f)"
  by (auto simp: rpc_keeps_def rpc_bind_def rpc_lift_def split: sum.splits)

lemma questions_call:
  assumes "\<And>checksum. to_checksum_address eth address = Some checksum \<Longrightarrow> question_ok eth (Q_call k checksum abi fn args)"
  shows "rpc_keeps (questions_ok eth) (rpc_call eth ans k address abi fn args)"
  using assms
  by (auto simp: rpc_keeps_def rpc_call_def rpc_bind_def rpc_raise_def verify_client_def ask_def question_ok_def
      split: prod.splits sum.splits option.splits)

lemma questions_single [keep_rules]: "fn \<noteq> ''aggregate3'' \<Longrightarrow> rpc_keeps (questions_ok eth) (rpc_call eth ans k address abi fn args)"
  by (intro questions_call) (simp add: question_ok_def)

definition call_ok :: "eth_lib \<Rightarrow> rpc_value \<Rightarrow> bool" where
  "call_ok eth v \<longleftrightarrow> (\<exists>target data. v = multicall_call target data \<and> to_checksum_address eth target = Some target
     \<and> list_all (\<lambda>x. x < 256) data)"

lemma calls_conform: "list_all (call_ok eth) calls \<Longrightarrow> call_conforms eth MULTICALL3_ABI ''aggregate3'' [RList calls]"
  by (auto simp: call_conforms_def MULTICALL3_ABI_def obj_get_def json_items_def param_conforms_def tuple_conforms_def
      scalar_conforms_def abi_param_def call_ok_def multicall_call_def list_all_iff)

lemma questions_aggregate3 [keep_rules]:
  "map_of MULTICALL3_BY_CHAIN k = Some m \<Longrightarrow> list_all (call_ok eth) calls \<Longrightarrow> rpc_keeps (questions_ok eth) (aggregate3 eth ans k m calls)"
  unfolding aggregate3_def by (intro questions_call) (simp add: question_ok_def calls_conform)

lemma to_bytes_be_bytes: "list_all (\<lambda>x. x < 256) (to_bytes_be k n)"
  by (induction k arbitrary: n) auto

lemma call_okI: "to_checksum_address eth t = Some t \<Longrightarrow> list_all (\<lambda>x. x < 256) d \<Longrightarrow> call_ok eth (multicall_call t d)"
  by (auto simp: call_ok_def)

lemmas selector_defs = ERC4626_ASSET_SELECTOR_def Adapters.ERC20_DECIMALS_SELECTOR_def ERC4626_CONVERT_TO_ASSETS_SELECTOR_def
  ERC4626_PREVIEW_REDEEM_SELECTOR_def YEARN_TOKEN_SELECTOR_def YEARN_PRICE_PER_SHARE_SELECTOR_def
  TokenMetadata.ERC20_DECIMALS_SELECTOR_def ERC20_SYMBOL_SELECTOR_def

lemma checksum_fixed: "eth_ok eth \<Longrightarrow> to_checksum_address eth a = Some c \<Longrightarrow> to_checksum_address eth c = Some c"
  unfolding eth_ok_def by blast

lemma interface_fixed:
  assumes "eth_ok eth" "decode_interface_address eth abi who decoded a = Inr (Some u)"
  shows "to_checksum_address eth u = Some u"
proof -
  obtain v where "normalize_underlying_address eth v a = Inr (Some u)"
    using assms(2) by (auto simp: decode_interface_address_def split: list.splits option.splits if_splits)
  with normalize_underlying_sound[OF assms(1)] show ?thesis by blast
qed

lemma questions_e4:
  assumes "eth_ok eth"
  shows "rpc_keeps (questions_ok eth) (e4_detect eth abi ans vault k)"
proof -
  have "rpc_keeps (questions_ok eth) (e4_detect_with_multicall eth abi ans vault k)"
    unfolding e4_detect_with_multicall_def Let_def
    by (auto intro!: keep_bind_lift keep_bind[of _ "aggregate3 _ _ _ _ _"] questions_aggregate3 keep_return keep_raise keep_lift call_okI
        split: option.splits prod.splits bool.splits
        simp: selector_defs to_bytes_be_bytes checksum_fixed[OF assms]
        dest!: interface_fixed[OF assms])
  moreover have "rpc_keeps (questions_ok eth) (e4_detect_with_calls eth ans vault k)"
    unfolding e4_detect_with_calls_def Let_def
    by (auto intro!: keep_bind_lift keep_rules split: option.splits)
  ultimately show ?thesis unfolding e4_detect_def by (rule keep_detect)
qed

lemma questions_y2:
  assumes "eth_ok eth"
  shows "rpc_keeps (questions_ok eth) (y2_detect eth abi ans vault k)"
proof -
  have "rpc_keeps (questions_ok eth) (y2_detect_with_multicall eth abi ans vault k)"
    unfolding y2_detect_with_multicall_def Let_def
    by (auto intro!: keep_bind_lift keep_bind[of _ "aggregate3 _ _ _ _ _"] questions_aggregate3 keep_return keep_raise keep_lift call_okI
        split: option.splits prod.splits bool.splits
        simp: selector_defs checksum_fixed[OF assms]
        dest!: interface_fixed[OF assms])
  moreover have "rpc_keeps (questions_ok eth) (y2_detect_with_calls eth ans vault k)"
    unfolding y2_detect_with_calls_def Let_def
    by (auto intro!: keep_bind_lift keep_rules split: option.splits)
  ultimately show ?thesis unfolding y2_detect_def by (rule keep_detect)
qed

lemma onchain_calls_ok:
  assumes "eth_ok eth"
  shows "onchain_calls eth addresses = Inr (calls, index) \<Longrightarrow> list_all (call_ok eth) calls \<and> length calls = length index"
  by (induction addresses arbitrary: calls index)
     (auto split: option.splits simp: selector_defs checksum_fixed[OF assms] intro!: call_okI)

lemma questions_onchain:
  assumes "eth_ok eth"
  shows "rpc_keeps (questions_ok eth) (fetch_onchain_metadata eth abi ans k addresses)"
proof -
  have "rpc_keeps (questions_ok eth)
      (rpc_bind (rpc_lift (onchain_calls eth addresses)) (\<lambda>(calls, index).
         rpc_bind (aggregate3 eth ans k m calls) (\<lambda>raw.
           rpc_lift (onchain_result eth k (collect_onchain abi (zip index (normalize_multicall_result raw)) [])))))"
    if "map_of MULTICALL3_BY_CHAIN k = Some m" for m
    using that by (auto intro!: keep_bind_lift keep_bind[of _ "aggregate3 _ _ _ _ _"] questions_aggregate3 keep_lift
        dest!: onchain_calls_ok[OF assms])
  then show ?thesis unfolding fetch_onchain_metadata_def rpc_keeps_def by (auto split: option.splits)
qed

section \<open>Properties\<close>

text \<open>Multicall replies are read right, and the same way everywhere: the readers of the ERC-4626 adapter, of the Yearn v2
  adapter and of the token metadata give back a well-formed reply position by position, whether the node writes its items as
  dictionaries or pairs and the data as bytes or hex text, and on any other value the three still agree.\<close>

theorem multicall_replies_read:
  assumes "list_all (reply_ok \<circ> snd) items"
  shows "normalize_multicall_result (RList (map (\<lambda>(form, r). reply_item form r) items)) = map snd items
    \<and> y2_normalize_multicall_result (RList (map (\<lambda>(form, r). reply_item form r) items)) = map snd items
    \<and> oc_normalize_multicall_result (RList (map (\<lambda>(form, r). reply_item form r) items)) = map snd items
    \<and> y2_normalize_multicall_result v = normalize_multicall_result v
    \<and> oc_normalize_multicall_result v = normalize_multicall_result v"
  using e4r.reads_back[OF assms] y2r.reads_back[OF assms] ocr.reads_back[OF assms] readers_agree by blast

theorem multicall_replies_read_witness:
  "oc_normalize_multicall_result (RList [RDict [(''success'', RBool True), (''returnData'', RStr ''0x12fe'')],
      RList [RBool False, RNone]]) = [(True, Some [18, 254]), (False, None)]"
proof -
  have "data_value True (Some [18, 254]) = RStr ''0x12fe''" "data_value False None = RNone" by code_simp+
  then show ?thesis
    using multicall_replies_read[of "[(Dict_hex, True, Some [18, 254]), (Pair_bytes, False, None)]"]
    by (simp add: reply_ok_def)
qed

text \<open>C23: The multicall contract is only asked what its ABI allows: whatever the nodes answer and however it ends, vault detection
  and the reading of token metadata send \<open>aggregate3\<close> only to the contract's address on the chain, with calls whose target
  is a checksummed address and whose data are bytes, as the ABI demands.\<close>

theorem multicall_questions_conform:
  assumes "eth_ok eth" "list_all (question_ok eth) (rpc_history c)"
  shows "list_all (question_ok eth) (rpc_history (snd (e4_detect eth abi ans vault chain_id c)))
    \<and> list_all (question_ok eth) (rpc_history (snd (y2_detect eth abi ans vault chain_id c)))
    \<and> list_all (question_ok eth) (rpc_history (snd (fetch_onchain_metadata eth tabi ans chain_id addresses c)))"
  using questions_e4[OF assms(1)] questions_y2[OF assms(1)] questions_onchain[OF assms(1)] assms(2)
  unfolding rpc_keeps_def by blast

theorem multicall_questions_conform_witness:
  "list_all (question_ok lower_eth) (rpc_history (snd (e4_detect lower_eth no_abi example_answers (addr (CHR ''a'')) 1 example_client)))
   \<and> list_ex (\<lambda>q. case q of Q_call k a abi fn args \<Rightarrow> fn = ''aggregate3'' | _ \<Rightarrow> False)
       (rpc_history (snd (e4_detect lower_eth no_abi example_answers (addr (CHR ''a'')) 1 example_client)))"
proof -
  have "list_ex (\<lambda>q. case q of Q_call k a abi fn args \<Rightarrow> fn = ''aggregate3'' | _ \<Rightarrow> False)
       (rpc_history (snd (e4_detect lower_eth no_abi example_answers (addr (CHR ''a'')) 1 example_client)))"
    by code_simp
  with multicall_questions_conform[OF lower_eth_ok, of example_client] show ?thesis by simp
qed

end
