(* ===== verification/LogoSourceClasses.thy ===== *)
theory LogoSourceClasses
  imports LogoSources
begin

text \<open>
  The reviewed sources as the code writes them (\<open>token_metadata/logo_sources.py\<close>): the protocol \<open>LogoSource\<close> is a record
  of its members, each class one definition of that record. The theory LogoSources dispatches on the class instead;
  that both agree is \<open>source_of_members\<close>. What the manager relies on is the locale \<open>logo_source_protocol\<close>, which
  every class interprets.
\<close>

section \<open>The protocol\<close>

record logo_source_members =
  ls_id :: string
  ls_metadata_url :: "string option"
  ls_supports_chain :: "int \<Rightarrow> bool"
  ls_deterministic_candidate :: "int \<Rightarrow> string \<Rightarrow> string option res"
  ls_parse_metadata :: "int \<Rightarrow> json \<Rightarrow> source_entry list res"
  ls_allows_image_url :: "int \<Rightarrow> string \<Rightarrow> string \<Rightarrow> bool res"

section \<open>The classes\<close>

definition YearnTokenAssets_members :: "eth_lib \<Rightarrow> (string \<Rightarrow> bool) \<Rightarrow> logo_source_members" where
  "YearnTokenAssets_members eth ip_literal =
     (let candidate = (\<lambda>chain_id address. rbind (normalize_address eth address) (\<lambda>normalized.
            Inr (''https://raw.githubusercontent.com/yearn/tokenAssets/main/'' @
              ''tokens/'' @ int_str chain_id @ ''/'' @ py_lower normalized @ ''/logo-128.png''))) in
      \<lparr>ls_id = ''yearn_tokenassets'', ls_metadata_url = None,
       ls_supports_chain = (\<lambda>chain_id. chain_id > 0),
       ls_deterministic_candidate = (\<lambda>chain_id address. rbind (candidate chain_id address) (\<lambda>u. Inr (Some u))),
       ls_parse_metadata = (\<lambda>chain_id payload. Inr []),
       ls_allows_image_url = (\<lambda>chain_id address url.
         rbind (candidate chain_id address) (\<lambda>u. Inr (matches_exact_url ip_literal url u)))\<rparr>)"

definition TrustWallet_members :: "eth_lib \<Rightarrow> (string \<Rightarrow> bool) \<Rightarrow> logo_source_members" where
  "TrustWallet_members eth ip_literal =
     (let supported = (\<lambda>chain_id :: int. chain_id = 1);
          candidate = (\<lambda>chain_id address.
            if \<not> supported chain_id then Inr None
            else rbind (normalize_address eth address) (\<lambda>normalized.
              Inr (Some (''https://raw.githubusercontent.com/trustwallet/assets/master/'' @
                ''blockchains/ethereum/assets/'' @ normalized @ ''/logo.png'')))) in
      \<lparr>ls_id = ''trustwallet'', ls_metadata_url = None,
       ls_supports_chain = supported,
       ls_deterministic_candidate = candidate,
       ls_parse_metadata = (\<lambda>chain_id payload. Inr []),
       ls_allows_image_url = (\<lambda>chain_id address url.
         rbind (candidate chain_id address) (\<lambda>expected.
           Inr (case expected of None \<Rightarrow> False | Some e \<Rightarrow> matches_exact_url ip_literal url e)))\<rparr>)"

text \<open>The loop of \<open>CoinGeckoSource.parse_metadata\<close>, with the entries and the addresses seen that grow.\<close>

fun coingecko_loop ::
    "eth_lib \<Rightarrow> (string \<Rightarrow> bool) \<Rightarrow> int \<Rightarrow> json list \<Rightarrow> string list \<Rightarrow> source_entry list \<Rightarrow> source_entry list res" where
  "coingecko_loop eth ip_literal chain_id [] seen entries = Inr entries"
| "coingecko_loop eth ip_literal chain_id (raw_token # raw_tokens) seen entries =
     (case raw_token of
        JObj d \<Rightarrow>
          rbind (parse_chain_id (json_get d ''chainId'')) (\<lambda>raw_chain_id.
            if raw_chain_id \<noteq> None \<and> raw_chain_id \<noteq> Some chain_id
            then coingecko_loop eth ip_literal chain_id raw_tokens seen entries
            else let raw_address = parse_str (json_get d ''address''); raw_url = parse_str (json_get d ''logoURI'') in
              if raw_address = None \<or> raw_url = None
              then coingecko_loop eth ip_literal chain_id raw_tokens seen entries
              else case normalize_address eth (the raw_address) of
                Inl e \<Rightarrow> coingecko_loop eth ip_literal chain_id raw_tokens seen entries
              | Inr address \<Rightarrow>
                  if address \<in> set seen then coingecko_loop eth ip_literal chain_id raw_tokens seen entries
                  else rbind (allows_image_url eth ip_literal CoinGeckoSource chain_id address (the raw_url)) (\<lambda>allowed.
                    if \<not> allowed then coingecko_loop eth ip_literal chain_id raw_tokens seen entries
                    else coingecko_loop eth ip_literal chain_id raw_tokens (address # seen)
                      (entries @ [\<lparr>se_source = ''coingecko'', se_chain_id = chain_id, se_address = address,
                                   se_logo_url = the raw_url\<rparr>])))
      | _ \<Rightarrow> coingecko_loop eth ip_literal chain_id raw_tokens seen entries)"

definition CoinGecko_members :: "eth_lib \<Rightarrow> (string \<Rightarrow> bool) \<Rightarrow> logo_source_members" where
  "CoinGecko_members eth ip_literal =
     \<lparr>ls_id = ''coingecko'', ls_metadata_url = Some ''https://tokens.coingecko.com/ethereum/all.json'',
      ls_supports_chain = (\<lambda>chain_id. chain_id = 1),
      ls_deterministic_candidate = (\<lambda>chain_id address. Inr None),
      ls_parse_metadata = (\<lambda>chain_id payload.
        case payload of
          JObj d \<Rightarrow> (case json_get d ''tokens'' of
              JList raws \<Rightarrow> coingecko_loop eth ip_literal chain_id raws [] []
            | _ \<Rightarrow> Inl (ValueError ''CoinGecko token list payload is missing its tokens array''))
        | _ \<Rightarrow> Inl (ValueError ''CoinGecko token list payload is missing its tokens array'')),
      ls_allows_image_url = (\<lambda>chain_id address url.
        if \<not> chain_id = 1 then Inr False
        else Inr (case safe_https_url ip_literal url of
            None \<Rightarrow> False
          | Some parsed \<Rightarrow>
              list_ex (\<lambda>h. sp_hostname parsed = Some h) IMAGE_HOSTS
              \<and> image_path_match (sp_path parsed)
              \<and> CHR ''%'' \<notin> set (sp_path parsed)
              \<and> list_all (\<lambda>segment. segment \<notin> {''.'', ''..''}) (py_split_on (CHR ''/'') (sp_path parsed))))\<rparr>"

definition SmolDapp_members :: "eth_lib \<Rightarrow> (string \<Rightarrow> bool) \<Rightarrow> logo_source_members" where
  "SmolDapp_members eth ip_literal =
     (let candidate = (\<lambda>chain_id address. rbind (normalize_address eth address) (\<lambda>normalized.
            Inr (''https://cdn.jsdelivr.net/gh/SmolDapp/tokenAssets@main/'' @
              ''tokens/'' @ int_str chain_id @ ''/'' @ py_lower normalized @ ''/logo-128.png''))) in
      \<lparr>ls_id = ''smoldapp'', ls_metadata_url = None,
       ls_supports_chain = (\<lambda>chain_id. chain_id > 0),
       ls_deterministic_candidate = (\<lambda>chain_id address. rbind (candidate chain_id address) (\<lambda>u. Inr (Some u))),
       ls_parse_metadata = (\<lambda>chain_id payload. Inr []),
       ls_allows_image_url = (\<lambda>chain_id address url.
         rbind (candidate chain_id address) (\<lambda>u. Inr (matches_exact_url ip_literal url u)))\<rparr>)"

fun members_of :: "eth_lib \<Rightarrow> (string \<Rightarrow> bool) \<Rightarrow> logo_source \<Rightarrow> logo_source_members" where
  "members_of eth ip_literal YearnTokenAssetsSource = YearnTokenAssets_members eth ip_literal"
| "members_of eth ip_literal TrustWalletSource = TrustWallet_members eth ip_literal"
| "members_of eth ip_literal CoinGeckoSource = CoinGecko_members eth ip_literal"
| "members_of eth ip_literal SmolDappSource = SmolDapp_members eth ip_literal"

section \<open>The dispatch is the classes\<close>

definition source_of_members :: "eth_lib \<Rightarrow> (string \<Rightarrow> bool) \<Rightarrow> logo_source \<Rightarrow> logo_source_members" where
  "source_of_members eth ip_literal s =
     \<lparr>ls_id = source_id s, ls_metadata_url = metadata_url s, ls_supports_chain = supports_chain s,
      ls_deterministic_candidate = deterministic_candidate eth s, ls_parse_metadata = parse_metadata eth ip_literal s,
      ls_allows_image_url = allows_image_url eth ip_literal s\<rparr>"

lemma rbind_assoc: "rbind (rbind a f) g = rbind a (\<lambda>x. rbind (f x) g)"
  by (cases a) simp_all

lemma coingecko_step:
  "coingecko_loop eth ip chain_id (raw # raws) seen entries =
     rbind (read_token_entry eth ip chain_id seen raw) (\<lambda>r.
       case r of None \<Rightarrow> coingecko_loop eth ip chain_id raws seen entries
       | Some (a, url) \<Rightarrow> coingecko_loop eth ip chain_id raws (a # seen)
           (entries @ [\<lparr>se_source = ''coingecko'', se_chain_id = chain_id, se_address = a, se_logo_url = url\<rparr>]))"
proof (cases raw)
  case (JObj d)
  show ?thesis
  proof (cases "parse_chain_id (json_get d ''chainId'')")
    case (Inr n)
    note [simp] = JObj Inr read_token_entry_def
    note [simp del] = allows_image_url.simps
    show ?thesis
    proof (cases "parse_str (json_get d ''address'')")
      case a: (Some a)
      show ?thesis
      proof (cases "parse_str (json_get d ''logoURI'')")
        case u: (Some u)
        show ?thesis
        proof (cases "normalize_address eth a")
          case b: (Inr b)
          show ?thesis
            by (cases "allows_image_url eth ip CoinGeckoSource chain_id b u"; cases n) (simp_all add: a u b)
        qed (cases n; simp add: a u)
      qed (cases n; simp add: a)
    qed (cases n; simp)
  qed (simp add: JObj read_token_entry_def)
qed (simp_all add: read_token_entry_def)

lemma coingecko_loop_reads:
  "coingecko_loop eth ip chain_id raws seen entries =
     rbind (read_token_entries eth ip chain_id raws seen) (\<lambda>es. Inr (entries @ es))"
proof (induction raws arbitrary: seen entries)
  case (Cons raw raws)
  show ?case unfolding coingecko_step read_token_entries.simps rbind_assoc
    by (intro arg_cong[of _ _ "rbind _"] ext) (simp add: Cons.IH rbind_assoc split: option.splits)
qed simp

lemma rbind_Inr_id: "rbind r Inr = r"
  by (cases r) simp_all

lemma members_agree: "source_of_members eth ip_literal s = members_of eth ip_literal s"
proof (cases s)
  case YearnTokenAssetsSource
  then show ?thesis by (simp add: source_of_members_def YearnTokenAssets_members_def fun_eq_iff rbind_assoc)
next
  case TrustWalletSource
  then show ?thesis by (simp add: source_of_members_def TrustWallet_members_def fun_eq_iff rbind_assoc)
next
  case SmolDappSource
  then show ?thesis by (simp add: source_of_members_def SmolDapp_members_def fun_eq_iff rbind_assoc)
next
  case CoinGeckoSource
  then show ?thesis
    by (auto simp: source_of_members_def CoinGecko_members_def fun_eq_iff coingecko_loop_reads rbind_Inr_id IMAGE_HOSTS_def
        split: json.splits option.splits)
qed

section \<open>What the manager relies on\<close>

locale logo_source_protocol =
  fixes members :: "logo_source_members" and eth :: eth_lib and ip_literal :: "string \<Rightarrow> bool"
  assumes allowed_within: "ls_allows_image_url members chain_id address url = Inr True \<Longrightarrow> within_boundary ip_literal url"
    and decides: "normalize_address eth address = Inr a \<Longrightarrow> \<exists>b. ls_allows_image_url members chain_id address url = Inr b"
    and candidate_total: "normalize_address eth address = Inr a \<Longrightarrow> \<exists>u. ls_deterministic_candidate members chain_id address = Inr u"
    and entries_allowed: "ls_parse_metadata members chain_id payload = Inr es \<Longrightarrow> e \<in> set es \<Longrightarrow>
      se_source e = ls_id members \<and> se_chain_id e = chain_id
      \<and> ls_allows_image_url members chain_id (se_address e) (se_logo_url e) = Inr True"
    and entries_distinct: "ls_parse_metadata members chain_id payload = Inr es \<Longrightarrow> distinct (map se_address es)"
begin

text \<open>A list that is read only names images within the boundary, one for each address.\<close>

lemma entries_within:
  assumes "ls_parse_metadata members chain_id payload = Inr es"
  shows "list_all (\<lambda>e. within_boundary ip_literal (se_logo_url e) \<and> se_source e = ls_id members) es
    \<and> distinct (map se_address es)"
  using entries_allowed[OF assms] entries_distinct[OF assms] allowed_within by (fastforce simp: list_all_iff)

text \<open>The check of a fixed candidate ends, whatever the address.\<close>

lemma candidate_checked:
  assumes "normalize_address eth address = Inr a"
  shows "\<exists>u b. ls_deterministic_candidate members chain_id address = Inr u
    \<and> (case u of None \<Rightarrow> True | Some url \<Rightarrow> ls_allows_image_url members chain_id address url = Inr b)"
proof -
  obtain u where u: "ls_deterministic_candidate members chain_id address = Inr u" using candidate_total[OF assms] by blast
  obtain b where "ls_allows_image_url members chain_id address (the u) = Inr b" using decides[OF assms] by blast
  with u show ?thesis by (cases u) auto
qed

end

lemma source_members_laws: "logo_source_protocol (source_of_members eth ip s) eth ip"
proof (unfold_locales, goal_cases)
  case (1 c a url) then show ?case using allowed_within_boundary by (simp add: source_of_members_def)
next
  case (2 a n c url) then show ?case using allows_total by (simp add: source_of_members_def)
next
  case (3 a n c) then show ?case using deterministic_total by (simp add: source_of_members_def)
next
  case (4 c payload es e)
  then show ?case using parse_metadata_ok[of eth ip c payload es]
    by (cases s) (auto simp: source_of_members_def entry_of_list_def list_all_iff simp del: allows_image_url.simps parse_metadata.simps(1))
next
  case (5 c payload es)
  then show ?case using parse_metadata_ok[of eth ip c payload es]
    by (cases s) (auto simp: source_of_members_def simp del: parse_metadata.simps(1))
qed

interpretation yearn: logo_source_protocol "YearnTokenAssets_members eth ip" eth ip for eth ip
  using source_members_laws[of eth ip YearnTokenAssetsSource] by (simp only: members_agree members_of.simps)

interpretation trust: logo_source_protocol "TrustWallet_members eth ip" eth ip for eth ip
  using source_members_laws[of eth ip TrustWalletSource] by (simp only: members_agree members_of.simps)

interpretation gecko: logo_source_protocol "CoinGecko_members eth ip" eth ip for eth ip
  using source_members_laws[of eth ip CoinGeckoSource] by (simp only: members_agree members_of.simps)

interpretation smol: logo_source_protocol "SmolDapp_members eth ip" eth ip for eth ip
  using source_members_laws[of eth ip SmolDappSource] by (simp only: members_agree members_of.simps)

end
