(* ===== verification/Plugins.thy ===== *)
theory Plugins
  imports Config
begin

text \<open>
  The provider plugins as the rest of the program sees them (\<open>providers/base.py\<close>), the mapping
  from HTTP status codes (\<open>providers/utils.py\<close>) and the registry (\<open>providers/registry.py\<close>).
  A plugin is the record of its class and instance attributes; what \<open>get_price\<close> and
  \<open>get_quote\<close> do is modelled per provider, the base class's versions here. Log lines and the
  availability gauge are left out.
\<close>

section \<open>Plugins\<close>

record plugin =
  pl_id :: string
  pl_supports_price :: bool
  pl_supports_quote :: bool
  pl_supported_chains :: "int list"
  pl_requires_api_key :: bool
  pl_available :: bool
  pl_unavailable_reason :: "string option"
  pl_enabled_chains :: "int list"

record provider_capability =
  cap_id :: string
  cap_supports_price :: bool
  cap_supports_quote :: bool
  cap_supported_chains :: "int list"
  cap_requires_api_key :: bool
  cap_available :: bool
  cap_unavailable_reason :: "string option"

definition mk_plugin ::
    "string \<Rightarrow> bool \<Rightarrow> bool \<Rightarrow> int list \<Rightarrow> bool \<Rightarrow> bool \<Rightarrow> string option \<Rightarrow> plugin" where
  "mk_plugin pid price quote cs requires_key available reason =
     \<lparr>pl_id = pid, pl_supports_price = price, pl_supports_quote = quote, pl_supported_chains = cs,
      pl_requires_api_key = requires_key, pl_available = available, pl_unavailable_reason = reason,
      pl_enabled_chains = cs\<rparr>"

definition capability :: "plugin \<Rightarrow> provider_capability" where
  "capability p = \<lparr>cap_id = pl_id p, cap_supports_price = pl_supports_price p,
     cap_supports_quote = pl_supports_quote p, cap_supported_chains = pl_enabled_chains p,
     cap_requires_api_key = pl_requires_api_key p, cap_available = pl_available p,
     cap_unavailable_reason = pl_unavailable_reason p\<rparr>"

definition base_get_price :: "plugin \<Rightarrow> price_request \<Rightarrow> price_result res" where
  "base_get_price p req = mk_price_result
     \<lparr>p_provider = pl_id p, p_status = BAD_REQUEST, p_token = Some (pr_token req), p_price_usd = None,
      p_latency_ms = 0, p_as_of = None,
      p_error = Some (mk_error UNSUPPORTED_OPERATION ''Price not supported''), p_vault_context = None\<rparr>"

definition base_get_quote :: "plugin \<Rightarrow> quote_request \<Rightarrow> quote_result res" where
  "base_get_quote p req = mk_quote_result
     \<lparr>q_provider = pl_id p, q_status = BAD_REQUEST, q_token_in = Some (qr_token_in req),
      q_token_out = Some (qr_token_out req), q_amount_in = Some (qr_amount_in req), q_amount_out = None,
      q_amount_out_min = None, q_price_impact_bps = None, q_estimated_gas = None, q_latency_ms = 0,
      q_as_of = None, q_error = Some (mk_error UNSUPPORTED_OPERATION ''Quote not supported''),
      q_route = None, q_vault_context = None\<rparr>"

definition status_from_http_code :: "int \<Rightarrow> provider_status \<times> error_type" where
  "status_from_http_code status_code =
     (if status_code = 429 then (ERROR, RATE_LIMITED)
      else if status_code \<in> {400, 422} then (BAD_REQUEST, UPSTREAM_HTTP)
      else if status_code = 404 then (NO_ROUTE, NO_ROUTE_ERROR)
      else (ERROR, UPSTREAM_HTTP))"

section \<open>Operations\<close>

datatype operation = PRICE | QUOTE

text \<open>\<open>for operation in Operation\<close> runs over the members in this order.\<close>

instantiation operation :: enum
begin

definition "enum_operation = [PRICE, QUOTE]"
definition "enum_all_operation P \<longleftrightarrow> P PRICE \<and> P QUOTE"
definition "enum_ex_operation P \<longleftrightarrow> P PRICE \<or> P QUOTE"

instance
proof
  show "UNIV = set (enum_class.enum :: operation list)"
    by (auto simp: enum_operation_def intro: operation.exhaust)
  show "distinct (enum_class.enum :: operation list)" by (simp add: enum_operation_def)
  fix P :: "operation \<Rightarrow> bool"
  show "enum_class.enum_all P \<longleftrightarrow> Ball UNIV P"
    by (metis (full_types) UNIV_I enum_all_operation_def operation.exhaust)
  show "enum_class.enum_ex P \<longleftrightarrow> Bex UNIV P"
    by (metis (full_types) UNIV_I enum_ex_operation_def operation.exhaust)
qed

end

fun operation_value :: "operation \<Rightarrow> string" where
  "operation_value PRICE = ''price''"
| "operation_value QUOTE = ''quote''"

fun supports :: "plugin \<Rightarrow> operation \<Rightarrow> bool" where
  "supports p PRICE = pl_supports_price p"
| "supports p QUOTE = pl_supports_quote p"

section \<open>The registry\<close>

definition known_provider_ids :: "string list" where
  "known_provider_ids = [''defillama'', ''curve'', ''lifi'', ''enso'']"

text \<open>Chains each plugin class supports (class attributes of the providers).\<close>

definition SUPPORTED_CHAINS :: "int list" where
  "SUPPORTED_CHAINS = [1, 10, 100, 137, 42161, 43114]"

definition nonempty_key :: "string option \<Rightarrow> bool" where
  "nonempty_key k \<longleftrightarrow> k \<noteq> None \<and> k \<noteq> Some []"

definition build_plugins :: "settings \<Rightarrow> (string, plugin) odict" where
  "build_plugins s =
     (let enabled = set (providers_enabled s);
          llama = (if ''defillama'' \<in> enabled
            then [(''defillama'', mk_plugin ''defillama'' True False SUPPORTED_CHAINS False True None)] else []);
          curve = (if ''curve'' \<in> enabled
            then [(''curve'', mk_plugin ''curve'' True True SUPPORTED_CHAINS False True None)] else []);
          lifi_ok = nonempty_key (lifi_api_key s);
          lifi = (if ''lifi'' \<in> enabled
            then [(''lifi'', mk_plugin ''lifi'' True True SUPPORTED_CHAINS True lifi_ok
                    (if lifi_ok then None else Some ''missing_api_key''))] else []);
          enso_ok = nonempty_key (enso_api_key s);
          enso = (if ''enso'' \<in> enabled
            then [(''enso'', mk_plugin ''enso'' True True SUPPORTED_CHAINS True enso_ok
                    (if enso_ok then None else Some ''missing_api_key''))] else [])
      in llama @ curve @ lifi @ enso)"

record registry =
  rg_settings :: settings
  rg_plugins :: "(string, plugin) odict"

definition ProviderRegistry :: "settings \<Rightarrow> registry" where
  "ProviderRegistry s =
     \<lparr>rg_settings = s,
      rg_plugins = map (\<lambda>(k, p). (k, p\<lparr>pl_enabled_chains :=
          filter (\<lambda>c. c \<in> set (chain_ids s)) (pl_supported_chains p)\<rparr>)) (build_plugins s)\<rparr>"

definition capabilities :: "registry \<Rightarrow> provider_capability list" where
  "capabilities g = map capability (List.map_filter (map_of (rg_plugins g)) (sort (map fst (rg_plugins g))))"

definition plugin_usable :: "int option \<Rightarrow> plugin \<Rightarrow> bool" where
  "plugin_usable chain_id p \<longleftrightarrow>
     pl_available p \<and> pl_enabled_chains p \<noteq> []
   \<and> (case chain_id of None \<Rightarrow> True | Some c \<Rightarrow> c \<in> set (pl_enabled_chains p))"

definition available_provider_count :: "registry \<Rightarrow> int option \<Rightarrow> nat" where
  "available_provider_count g chain_id = length (filter (\<lambda>e. plugin_usable chain_id (snd e)) (rg_plugins g))"

definition available_provider_ids :: "registry \<Rightarrow> operation \<Rightarrow> int option \<Rightarrow> string list" where
  "available_provider_ids g op chain_id =
     map (\<lambda>e. pl_id (snd e))
       (filter (\<lambda>e. plugin_usable chain_id (snd e) \<and> supports (snd e) op) (rg_plugins g))"

definition available_operation_count :: "registry \<Rightarrow> operation \<Rightarrow> int option \<Rightarrow> nat" where
  "available_operation_count g op chain_id = length (available_provider_ids g op chain_id)"

definition lookup_plugin :: "registry \<Rightarrow> string \<Rightarrow> plugin res" where
  "lookup_plugin g pid =
     (case map_of (rg_plugins g) pid of
        None \<Rightarrow> Inl (InvalidRequestError ''UNKNOWN_PROVIDER'' (''Unknown provider: '' @ pid))
      | Some p \<Rightarrow> Inr p)"

definition registry_resolve ::
    "registry \<Rightarrow> string list option \<Rightarrow> operation \<Rightarrow> int \<Rightarrow> plugin list res" where
  "registry_resolve g provider_ids op chain_id =
     (if chain_id \<notin> set (chain_ids (rg_settings g)) then
        Inl (InvalidRequestError ''UNSUPPORTED_CHAIN''
               (''Chain '' @ int_str chain_id @ '' is not enabled''))
      else case provider_ids of
        None \<Rightarrow> Inr (sort_key pl_id
          (filter (\<lambda>p. pl_available p \<and> chain_id \<in> set (pl_enabled_chains p) \<and> supports p op)
             (map snd (rg_plugins g))))
      | Some ids \<Rightarrow> rmap_list (lookup_plugin g) ids)"

section \<open>Lemmas\<close>

lemma build_plugins_keys:
  "map fst (build_plugins s) = filter (\<lambda>i. i \<in> set (providers_enabled s)) known_provider_ids"
  by (simp add: build_plugins_def known_provider_ids_def Let_def)

lemma build_plugins_ids: "(k, p) \<in> set (build_plugins s) \<Longrightarrow> pl_id p = k"
  by (auto simp: build_plugins_def Let_def mk_plugin_def split: if_splits)

lemma registry_keys: "map fst (rg_plugins (ProviderRegistry s)) = map fst (build_plugins s)"
  by (simp add: ProviderRegistry_def comp_def split_beta)

lemma registry_distinct: "distinct (map fst (rg_plugins (ProviderRegistry s)))"
  unfolding registry_keys build_plugins_keys by (rule distinct_filter) (simp add: known_provider_ids_def)

lemma registry_ids: "(k, p) \<in> set (rg_plugins (ProviderRegistry s)) \<Longrightarrow> pl_id p = k"
  by (auto simp: ProviderRegistry_def dest: build_plugins_ids)

lemma registry_enabled_chains:
  "(k, p) \<in> set (rg_plugins (ProviderRegistry s)) \<Longrightarrow> set (pl_enabled_chains p) \<subseteq> set (chain_ids s)"
  by (auto simp: ProviderRegistry_def)

lemma registry_id_map: "map (\<lambda>e. pl_id (snd e)) (rg_plugins (ProviderRegistry s)) = map fst (rg_plugins (ProviderRegistry s))"
  by (rule map_cong) (auto dest: registry_ids)

lemma lookup_plugin_id: "lookup_plugin (ProviderRegistry s) pid = Inr p \<Longrightarrow> pl_id p = pid"
  by (auto simp: lookup_plugin_def split: option.splits dest: map_of_SomeD registry_ids)

lemma resolve_requested_ids:
  assumes "rmap_list (lookup_plugin (ProviderRegistry s)) ids = Inr ps"
  shows "map pl_id ps = ids"
proof (rule nth_equalityI)
  show "length (map pl_id ps) = length ids" using rmap_list_Inr[OF assms] by simp
  show "map pl_id ps ! i = ids ! i" if "i < length (map pl_id ps)" for i
    using rmap_list_Inr[OF assms] that lookup_plugin_id by auto
qed

section \<open>Properties\<close>

text \<open>Resolving a request for an enabled chain gives distinct plugins when the requested ids
  are distinct: exactly the requested ones in the order requested, or, when none are
  requested, exactly the available plugins that support the operation and have the chain
  enabled, by id.\<close>

theorem registry_resolve_correct:
  assumes "registry_resolve (ProviderRegistry s) requested op chain_id = Inr plugins"
    and "case requested of None \<Rightarrow> True | Some ids \<Rightarrow> distinct ids"
  shows "chain_id \<in> set (chain_ids s) \<and> distinct (map pl_id plugins)
    \<and> (case requested of
         Some ids \<Rightarrow> map pl_id plugins = ids
       | None \<Rightarrow> sorted (map pl_id plugins)
           \<and> set (map pl_id plugins) = set (available_provider_ids (ProviderRegistry s) op (Some chain_id)))"
proof (cases requested)
  case None
  let ?g = "ProviderRegistry s"
  let ?P = "\<lambda>p. pl_available p \<and> chain_id \<in> set (pl_enabled_chains p) \<and> supports p op"
  have ps: "plugins = sort_key pl_id (filter ?P (map snd (rg_plugins ?g)))" "chain_id \<in> set (chain_ids s)"
    using assms(1) None by (auto simp: registry_resolve_def ProviderRegistry_def split: if_splits)
  have "distinct (map pl_id (filter ?P (map snd (rg_plugins ?g))))"
    using registry_distinct[of s] registry_id_map[of s]
    by (intro distinct_map_filter) (simp add: comp_def del: map_eq_conv)
  then have "distinct (map pl_id plugins)" unfolding ps
    by (metis (no_types, lifting) distinct_map distinct_sort set_sort)
  with ps None show ?thesis
    by (auto simp: available_provider_ids_def plugin_usable_def image_iff)
next
  case (Some ids)
  with assms resolve_requested_ids[of s ids plugins] show ?thesis
    by (auto simp: registry_resolve_def ProviderRegistry_def split: if_splits)
qed

theorem registry_resolve_correct_witness:
  "\<exists>plugins. registry_resolve (ProviderRegistry default_settings) (Some [''curve'', ''defillama'']) QUOTE 1 = Inr plugins
     \<and> map pl_id plugins = [''curve'', ''defillama'']"
proof -
  let ?r = "registry_resolve (ProviderRegistry default_settings) (Some [''curve'', ''defillama'']) QUOTE 1"
  have "\<exists>plugins. ?r = Inr plugins"
    by (simp add: registry_resolve_def ProviderRegistry_def default_settings_def CHAINS_def lookup_plugin_def
        build_plugins_def Let_def)
  then obtain ps where "?r = Inr ps" ..
  with registry_resolve_correct[OF this] show ?thesis by simp
qed

end
