(* ===== verification/HttpClient.thy ===== *)
theory HttpClient
  imports Plugins
begin

text \<open>
  The HTTP client of a provider (\<open>providers/clients/http.py\<close>) and its maintenance by the registry
  (\<open>providers/registry.py\<close>): retries, and the replacement of the underlying \<open>httpx.AsyncClient\<close> by age,
  by number of requests and by pool time-outs. The underlying clients are numbered in the order of their
  creation; what they answer is the parameter \<open>network\<close>. The bodies guarded by the recycle lock contain no
  suspension point, so the lock is never contended and every step below is atomic; clock readings are
  arguments.
\<close>

section \<open>Requests, responses and errors of httpx\<close>

record http_request =
  hq_method :: string
  hq_url :: string
  hq_params :: "(string \<times> json) list option"
  hq_headers :: "(string \<times> string) list option"
  hq_json :: "(string \<times> json) list option"

record http_timeout =
  ht_connect :: rat
  ht_read :: rat
  ht_write :: rat
  ht_pool :: rat

text \<open>The exceptions with their messages; the last constructor is any other \<open>httpx.HTTPError\<close>, by class name.\<close>

datatype httpx_error =
    ReadTimeout (he_message: string) | ConnectTimeout (he_message: string) | WriteTimeout (he_message: string)
  | PoolTimeout (he_message: string) | ConnectError (he_message: string)
  | OtherHTTPError (he_class: string) (he_message: string)

fun httpx_class_name :: "httpx_error \<Rightarrow> string" where
  "httpx_class_name (ReadTimeout _) = ''ReadTimeout''"
| "httpx_class_name (ConnectTimeout _) = ''ConnectTimeout''"
| "httpx_class_name (WriteTimeout _) = ''WriteTimeout''"
| "httpx_class_name (PoolTimeout _) = ''PoolTimeout''"
| "httpx_class_name (ConnectError _) = ''ConnectError''"
| "httpx_class_name (OtherHTTPError c _) = c"

text \<open>\<open>rr_json\<close> is \<open>response.json()\<close>, without value where that raises \<open>ValueError\<close>.\<close>

record raw_response =
  rr_status :: int
  rr_json :: "json option"
  rr_headers :: "(string \<times> string) list"

datatype send_end = Answered raw_response | Failed httpx_error | Raised_exc exc

text \<open>The underlying client, the attempt counted from zero, the request and its time-outs.\<close>

type_synonym network = "nat \<Rightarrow> nat \<Rightarrow> http_request \<Rightarrow> http_timeout \<Rightarrow> send_end"

text \<open>A \<open>None\<close> in \<open>json_data\<close> is \<open>JNull\<close>.\<close>

record http_response =
  hr_status_code :: int
  hr_json_data :: json
  hr_headers :: "(string, string) odict"

definition to_http_response :: "raw_response \<Rightarrow> http_response" where
  "to_http_response response =
     \<lparr>hr_status_code = rr_status response,
      hr_json_data = (case rr_json response of
          Some (JObj d) \<Rightarrow> JObj d | Some (JList l) \<Rightarrow> JList l | _ \<Rightarrow> JNull),
      hr_headers = foldl (\<lambda>d (k, v). AList.update (py_lower k) v d) [] (rr_headers response)\<rparr>"

section \<open>The client\<close>

record http_client_options =
  ho_timeout_ms :: int
  ho_max_retries :: int
  ho_trust_env :: bool
  ho_max_connections :: int
  ho_max_keepalive_connections :: "int option"
  ho_keepalive_expiry_s :: rat
  ho_pool_timeout_ms :: "int option"
  ho_connect_timeout_ms :: "int option"
  ho_read_timeout_ms :: "int option"
  ho_write_timeout_ms :: "int option"
  ho_client_ttl_s :: int
  ho_client_max_requests :: int
  ho_recycle_pool_timeout_threshold :: int
  ho_recycle_window_s :: int
  ho_provider_id :: string

text \<open>
  \<open>hc_closing\<close> are the background tasks of \<open>_close_after_grace\<close>: a replaced client and the time its grace
  period ends (a finished task stays in the list). \<open>hc_recycles\<close> is the metric \<open>record_provider_transport_recycle\<close> counts, newest first.
\<close>

record http_client =
  hc_timeout_ms :: int
  hc_pool_timeout_ms :: int
  hc_connect_timeout_ms :: int
  hc_read_timeout_ms :: int
  hc_write_timeout_ms :: int
  hc_attempts :: int
  hc_trust_env :: bool
  hc_max_connections :: int
  hc_max_keepalive_connections :: int
  hc_keepalive_expiry_s :: rat
  hc_client_ttl_s :: int
  hc_client_max_requests :: int
  hc_recycle_pool_timeout_threshold :: int
  hc_recycle_window_s :: int
  hc_provider_id :: string
  hc_client :: nat
  hc_created_at :: rat
  hc_request_count :: int
  hc_pool_timeout_events :: "rat list"
  hc_last_recycle_reason :: "string option"
  hc_last_recycle_at :: "rat option"
  hc_closing :: "(nat \<times> rat) list"
  hc_recycles :: "string list"

definition or_default :: "'a option \<Rightarrow> 'a \<Rightarrow> 'a" where
  "or_default v d = (case v of None \<Rightarrow> d | Some x \<Rightarrow> x)"

definition HttpClient :: "http_client_options \<Rightarrow> rat \<Rightarrow> http_client" where
  "HttpClient opts now =
     (let connections = max 1 (ho_max_connections opts) in
      \<lparr>hc_timeout_ms = ho_timeout_ms opts,
       hc_pool_timeout_ms = or_default (ho_pool_timeout_ms opts) 25,
       hc_connect_timeout_ms = or_default (ho_connect_timeout_ms opts) (ho_timeout_ms opts),
       hc_read_timeout_ms = or_default (ho_read_timeout_ms opts) (ho_timeout_ms opts),
       hc_write_timeout_ms = or_default (ho_write_timeout_ms opts) (ho_timeout_ms opts),
       hc_attempts = max 1 (ho_max_retries opts + 1), hc_trust_env = ho_trust_env opts,
       hc_max_connections = connections,
       hc_max_keepalive_connections =
         min connections (max 0 (or_default (ho_max_keepalive_connections opts) 20)),
       hc_keepalive_expiry_s = ho_keepalive_expiry_s opts, hc_client_ttl_s = ho_client_ttl_s opts,
       hc_client_max_requests = ho_client_max_requests opts,
       hc_recycle_pool_timeout_threshold = ho_recycle_pool_timeout_threshold opts,
       hc_recycle_window_s = ho_recycle_window_s opts, hc_provider_id = ho_provider_id opts,
       hc_client = 0, hc_created_at = now, hc_request_count = 0, hc_pool_timeout_events = [],
       hc_last_recycle_reason = None, hc_last_recycle_at = None, hc_closing = [], hc_recycles = []\<rparr>)"

definition http_timeout :: "http_client \<Rightarrow> int \<Rightarrow> int \<Rightarrow> http_timeout" where
  "http_timeout h read_timeout_ms pool_timeout_ms =
     \<lparr>ht_connect = of_int (hc_connect_timeout_ms h) / 1000, ht_read = of_int read_timeout_ms / 1000,
      ht_write = of_int (hc_write_timeout_ms h) / 1000, ht_pool = of_int pool_timeout_ms / 1000\<rparr>"

definition recent_pool_timeout_count :: "http_client \<Rightarrow> rat \<Rightarrow> nat" where
  "recent_pool_timeout_count h now =
     length (filter (\<lambda>e. e \<ge> now - of_int (hc_recycle_window_s h)) (hc_pool_timeout_events h))"

definition recently_recycled :: "http_client \<Rightarrow> string option \<Rightarrow> rat \<Rightarrow> bool" where
  "recently_recycled h reason now =
     (case hc_last_recycle_at h of
        None \<Rightarrow> False
      | Some since \<Rightarrow>
          if reason \<noteq> None \<and> hc_last_recycle_reason h \<noteq> reason then False
          else now - since \<le> of_int (hc_recycle_window_s h))"

definition recently_recycled_due_to_pool_timeout :: "http_client \<Rightarrow> rat \<Rightarrow> bool" where
  "recently_recycled_due_to_pool_timeout h now = recently_recycled h (Some ''pool_timeout'') now"

text \<open>The grace period, in seconds.\<close>

definition grace_s :: "http_client \<Rightarrow> rat" where
  "grace_s h =
     of_int (max (max (hc_read_timeout_ms h) (hc_connect_timeout_ms h)) (hc_write_timeout_ms h)) / 1000 + 1 / 10"

definition replace_client :: "string \<Rightarrow> rat \<Rightarrow> http_client \<Rightarrow> http_client" where
  "replace_client reason now h =
     h\<lparr>hc_client := Suc (hc_client h), hc_created_at := now, hc_request_count := 0,
       hc_last_recycle_reason := Some reason, hc_last_recycle_at := Some now,
       hc_closing := hc_closing h @ [(hc_client h, now + grace_s h)], hc_recycles := reason # hc_recycles h\<rparr>"

definition recycle :: "string \<Rightarrow> rat \<Rightarrow> http_client \<Rightarrow> http_client" where
  "recycle reason now h = replace_client reason now h"

text \<open>\<open>t1\<close> is the first reading of the clock, \<open>t2\<close> the one under the lock, \<open>t3\<close> the new client's.\<close>

definition recycle_if_needed :: "rat \<Rightarrow> rat \<Rightarrow> rat \<Rightarrow> http_client \<Rightarrow> http_client" where
  "recycle_if_needed t1 t2 t3 h =
     (if t1 - hc_created_at h \<ge> of_int (hc_client_ttl_s h) then
        (if t2 - hc_created_at h \<ge> of_int (hc_client_ttl_s h) then replace_client ''ttl'' t3 h else h)
      else if hc_request_count h \<ge> hc_client_max_requests h then replace_client ''max_requests'' t3 h
      else h)"

definition record_pool_timeout :: "rat \<Rightarrow> rat \<Rightarrow> http_client \<Rightarrow> http_client" where
  "record_pool_timeout now t h =
     (let cutoff = now - of_int (hc_recycle_window_s h);
          events = dropWhile (\<lambda>e. e < cutoff) (hc_pool_timeout_events h @ [now])
      in if int (length events) \<ge> hc_recycle_pool_timeout_threshold h
         then recycle ''pool_timeout'' t (h\<lparr>hc_pool_timeout_events := []\<rparr>)
         else h\<lparr>hc_pool_timeout_events := events\<rparr>)"

text \<open>\<open>close()\<close>: every background task runs to its end, then the current client is closed.\<close>

definition close_client :: "http_client \<Rightarrow> http_client \<times> nat list" where
  "close_client h = (h\<lparr>hc_closing := []\<rparr>, map fst (hc_closing h) @ [hc_client h])"

section \<open>Requests\<close>

definition retryable :: "httpx_error \<Rightarrow> bool" where
  "retryable e = (case e of ReadTimeout _ \<Rightarrow> True | ConnectTimeout _ \<Rightarrow> True | ConnectError _ \<Rightarrow> True | _ \<Rightarrow> False)"

text \<open>
  The loop over the attempts, \<open>k\<close> done and \<open>n\<close> left, with the number of requests sent. The result is
  the response, an \<open>httpx\<close> error, or another exception.
\<close>

fun retry_loop :: "(nat \<Rightarrow> send_end) \<Rightarrow> nat \<Rightarrow> nat \<Rightarrow> httpx_error option \<Rightarrow> send_end \<times> nat" where
  "retry_loop send k 0 last_exc =
     (case last_exc of
        None \<Rightarrow> (Raised_exc (OtherException ''RuntimeError''), k)
      | Some e \<Rightarrow> (Failed e, k))"
| "retry_loop send k (Suc n) last_exc =
     (case send k of
        Failed e \<Rightarrow> if retryable e then retry_loop send (Suc k) n (Some e) else (Failed e, Suc k)
      | r \<Rightarrow> (r, Suc k))"

definition begin_request :: "rat \<Rightarrow> rat \<Rightarrow> rat \<Rightarrow> http_client \<Rightarrow> http_client" where
  "begin_request t1 t2 t3 h =
     (let h1 = recycle_if_needed t1 t2 t3 h in h1\<lparr>hc_request_count := hc_request_count h1 + 1\<rparr>)"

text \<open>The time-out of a request is its own where it has one that is not zero.\<close>

definition request_read_timeout :: "http_client \<Rightarrow> int option \<Rightarrow> int" where
  "request_read_timeout h timeout_ms =
     (case timeout_ms of None \<Rightarrow> hc_read_timeout_ms h | Some t \<Rightarrow> if t = 0 then hc_read_timeout_ms h else t)"

definition retryable_request ::
    "network \<Rightarrow> rat \<times> rat \<times> rat \<Rightarrow> http_request \<Rightarrow> int option \<Rightarrow> http_client \<Rightarrow> http_client \<times> send_end \<times> nat" where
  "retryable_request net clocks rq timeout_ms h =
     (let (t1, t2, t3) = clocks;
          h1 = begin_request t1 t2 t3 h;
          timeout = http_timeout h1 (request_read_timeout h1 timeout_ms) (hc_pool_timeout_ms h1)
      in (h1, retry_loop (\<lambda>i. net (hc_client h1) i rq timeout) 0 (nat (hc_attempts h1)) None))"

datatype http_end = Http_response http_response | Http_failed httpx_error | Http_raised exc

definition response_end :: "send_end \<Rightarrow> http_end" where
  "response_end r = (case r of Answered a \<Rightarrow> Http_response (to_http_response a) | Failed e \<Rightarrow> Http_failed e
     | Raised_exc e \<Rightarrow> Http_raised e)"

definition http_get ::
    "network \<Rightarrow> rat \<times> rat \<times> rat \<Rightarrow> string \<Rightarrow> (string \<times> json) list option \<Rightarrow> (string \<times> string) list option \<Rightarrow> int option
     \<Rightarrow> http_client \<Rightarrow> http_client \<times> http_end" where
  "http_get net clocks url params headers timeout_ms h =
     (let (h1, r, _) = retryable_request net clocks
            \<lparr>hq_method = ''GET'', hq_url = url, hq_params = params, hq_headers = headers, hq_json = None\<rparr> timeout_ms h
      in (h1, response_end r))"

definition http_post ::
    "network \<Rightarrow> rat \<times> rat \<times> rat \<Rightarrow> string \<Rightarrow> (string \<times> json) list option \<Rightarrow> (string \<times> json) list option
     \<Rightarrow> (string \<times> string) list option \<Rightarrow> int option \<Rightarrow> http_client \<Rightarrow> http_client \<times> http_end" where
  "http_post net clocks url json params headers timeout_ms h =
     (let (h1, r, _) = retryable_request net clocks
            \<lparr>hq_method = ''POST'', hq_url = url, hq_params = params, hq_headers = headers, hq_json = json\<rparr> timeout_ms h
      in (h1, response_end r))"

section \<open>The clients of the registry\<close>

definition new_http_client :: "settings \<Rightarrow> string \<Rightarrow> rat \<Rightarrow> http_client" where
  "new_http_client s provider_id now = HttpClient
     \<lparr>ho_timeout_ms = provider_request_timeout_ms s, ho_max_retries = provider_max_retries s,
      ho_trust_env = provider_http_trust_env s,
      ho_max_connections = effective_provider_max_connections_per_provider s,
      ho_max_keepalive_connections = Some (provider_max_keepalive_connections_per_provider s),
      ho_keepalive_expiry_s = provider_keepalive_expiry_s s,
      ho_pool_timeout_ms = Some (provider_pool_timeout_ms s),
      ho_connect_timeout_ms = Some (provider_connect_timeout_ms s),
      ho_read_timeout_ms = Some (effective_provider_read_timeout_ms s),
      ho_write_timeout_ms = Some (provider_write_timeout_ms s),
      ho_client_ttl_s = provider_client_ttl_s s, ho_client_max_requests = provider_client_max_requests s,
      ho_recycle_pool_timeout_threshold = provider_recycle_pool_timeout_threshold s,
      ho_recycle_window_s = provider_recycle_window_s s, ho_provider_id = provider_id\<rparr> now"

definition http_clients :: "settings \<Rightarrow> (string \<Rightarrow> rat) \<Rightarrow> (string, http_client) odict" where
  "http_clients s now = map (\<lambda>(pid, _). (pid, new_http_client s pid (now pid))) (build_plugins s)"

definition transport_unhealthy :: "(string \<Rightarrow> rat) \<Rightarrow> (string, http_client) odict \<Rightarrow> bool" where
  "transport_unhealthy now cs \<longleftrightarrow> list_ex (\<lambda>(pid, h).
     recent_pool_timeout_count h (now pid) > 0 \<or> recently_recycled_due_to_pool_timeout h (now pid)) cs"

text \<open>Per client the reading of the clock for the check and the one for the new client.\<close>

definition recycle_transports ::
    "string \<Rightarrow> (string \<Rightarrow> rat \<times> rat) \<Rightarrow> (string, http_client) odict \<Rightarrow> (string, http_client) odict" where
  "recycle_transports reason now cs = map (\<lambda>(pid, h).
     (pid, if recently_recycled h (Some reason) (fst (now pid)) then h else recycle reason (snd (now pid)) h)) cs"

section \<open>The life of a client\<close>

text \<open>One client under any sequence of requests, pool time-outs and recycles, with the time of the last step.\<close>

inductive client_step :: "http_client \<times> rat \<Rightarrow> http_client \<times> rat \<Rightarrow> bool" where
  request: "t \<le> t1 \<Longrightarrow> t1 \<le> t2 \<Longrightarrow> t2 \<le> t3 \<Longrightarrow> client_step (h, t) (begin_request t1 t2 t3 h, t3)"
| pool_timeout: "t \<le> t1 \<Longrightarrow> t1 \<le> t2 \<Longrightarrow> client_step (h, t) (record_pool_timeout t1 t2 h, t2)"
| recycled: "t \<le> t1 \<Longrightarrow> client_step (h, t) (recycle reason t1 h, t1)"

inductive_cases client_stepE: "client_step (h, t) (h', t')"

abbreviation client_run :: "http_client \<times> rat \<Rightarrow> http_client \<times> rat \<Rightarrow> bool" where
  "client_run \<equiv> client_step\<^sup>*\<^sup>*"

definition client_ok :: "http_client \<Rightarrow> rat \<Rightarrow> bool" where
  "client_ok h t \<longleftrightarrow>
     map fst (hc_closing h) = [0..<hc_client h] \<and> length (hc_recycles h) = hc_client h
   \<and> hc_created_at h \<le> t \<and> sorted (hc_pool_timeout_events h) \<and> (\<forall>e \<in> set (hc_pool_timeout_events h). e \<le> t)
   \<and> 0 \<le> hc_request_count h \<and> (0 < hc_client_max_requests h \<longrightarrow> hc_request_count h \<le> hc_client_max_requests h)
   \<and> (0 < hc_recycle_pool_timeout_threshold h
       \<longrightarrow> int (length (hc_pool_timeout_events h)) < hc_recycle_pool_timeout_threshold h)"

lemmas client_defs = begin_request_def recycle_if_needed_def record_pool_timeout_def recycle_def replace_client_def
  Let_def

text \<open>The parameters a step leaves alone.\<close>

definition same_options :: "http_client \<Rightarrow> http_client \<Rightarrow> bool" where
  "same_options h h' \<longleftrightarrow> grace_s h' = grace_s h \<and> hc_client_ttl_s h' = hc_client_ttl_s h
     \<and> hc_client_max_requests h' = hc_client_max_requests h \<and> hc_attempts h' = hc_attempts h
     \<and> hc_recycle_pool_timeout_threshold h' = hc_recycle_pool_timeout_threshold h
     \<and> hc_recycle_window_s h' = hc_recycle_window_s h"

lemma step_options: "client_step (h, t) (h', t') \<Longrightarrow> same_options h h' \<and> t \<le> t'"
  by (auto elim!: client_stepE simp: same_options_def grace_s_def client_defs)

lemma run_options: "client_run (h, t) (h', t') \<Longrightarrow> same_options h h' \<and> t \<le> t'"
proof (induction "(h', t')" arbitrary: h' t' rule: rtranclp_induct)
  case base
  then show ?case by (simp add: same_options_def)
next
  case (step y)
  then show ?case using step_options[of "fst y" "snd y" h' t']
    by (cases y) (auto simp: same_options_def)
qed

lemma client_ok_init: "client_ok (HttpClient opts t) t"
  by (simp add: client_ok_def HttpClient_def Let_def)

lemma client_ok_later: "client_ok h t \<Longrightarrow> t \<le> t' \<Longrightarrow> client_ok h t'"
  by (force simp: client_ok_def)

lemma client_ok_replace: "client_ok h t \<Longrightarrow> t \<le> t' \<Longrightarrow> client_ok (replace_client reason t' h) t'"
  by (force simp: client_ok_def replace_client_def)

lemma recycle_if_needed_cases:
  obtains (kept) "recycle_if_needed t1 t2 t3 h = h"
      "\<not> (t1 - hc_created_at h \<ge> of_int (hc_client_ttl_s h) \<and> t2 - hc_created_at h \<ge> of_int (hc_client_ttl_s h))"
      "t1 - hc_created_at h \<ge> of_int (hc_client_ttl_s h) \<or> hc_request_count h < hc_client_max_requests h"
  | (replaced) reason where "recycle_if_needed t1 t2 t3 h = replace_client reason t3 h"
proof (cases "t1 - hc_created_at h \<ge> of_int (hc_client_ttl_s h)")
  case True
  then show ?thesis
    by (cases "t2 - hc_created_at h \<ge> of_int (hc_client_ttl_s h)")
       (rule replaced[of "''ttl''"] kept; simp add: recycle_if_needed_def)+
next
  case False
  then show ?thesis
    by (cases "hc_request_count h \<ge> hc_client_max_requests h")
       (rule replaced[of "''max_requests''"] kept; simp add: recycle_if_needed_def)+
qed

lemma client_ok_request:
  assumes "client_ok h t" "t \<le> t1" "t1 \<le> t2" "t2 \<le> t3"
  shows "client_ok (begin_request t1 t2 t3 h) t3"
proof (cases rule: recycle_if_needed_cases[of t1 t2 t3 h])
  case kept
  then have "hc_request_count h < hc_client_max_requests h"
    using assms by (auto simp: recycle_if_needed_def)
  with kept client_ok_later[OF assms(1), of t3] assms show ?thesis
    by (simp add: begin_request_def client_ok_def)
next
  case (replaced reason)
  have "client_ok (replace_client reason t3 h) t3" using assms by (intro client_ok_replace[OF assms(1)]) linarith
  with replaced show ?thesis by (simp add: begin_request_def client_ok_def replace_client_def)
qed

lemma client_ok_pool_timeout:
  assumes "client_ok h t" "t \<le> t1" "t1 \<le> t2"
  shows "client_ok (record_pool_timeout t1 t2 h) t2"
proof -
  let ?evs = "dropWhile (\<lambda>e. e < t1 - of_int (hc_recycle_window_s h)) (hc_pool_timeout_events h @ [t1])"
  have s: "sorted ?evs"
    using assms(1,2) by (intro sorted_dropWhile) (force simp: client_ok_def sorted_append)
  have le: "\<forall>e \<in> set ?evs. e \<le> t2" using assms by (force simp: client_ok_def dest: set_dropWhileD)
  show ?thesis
  proof (cases "int (length ?evs) \<ge> hc_recycle_pool_timeout_threshold h")
    case True
    have "client_ok (h\<lparr>hc_pool_timeout_events := []\<rparr>) t" using assms(1) by (simp add: client_ok_def)
    from client_ok_replace[OF this, of t2 "''pool_timeout''"] assms True show ?thesis
      by (simp add: record_pool_timeout_def recycle_def Let_def)
  next
    case False
    with s le client_ok_later[OF assms(1), of t2] assms show ?thesis
      by (simp add: record_pool_timeout_def Let_def client_ok_def)
  qed
qed

lemma client_ok_step: "client_step (h, t) (h', t') \<Longrightarrow> client_ok h t \<Longrightarrow> client_ok h' t'"
  by (auto elim!: client_stepE simp: recycle_def intro: client_ok_request client_ok_pool_timeout client_ok_replace)

lemma client_ok_run: "client_run (h, t) (h', t') \<Longrightarrow> client_ok h t \<Longrightarrow> client_ok h' t'"
proof (induction "(h', t')" arbitrary: h' t' rule: rtranclp_induct)
  case (step y)
  then show ?case using client_ok_step[of "fst y" "snd y" h' t'] by (cases y) auto
qed simp

lemma closing_replace: "hc_closing (replace_client reason t h) = hc_closing h @ [(hc_client h, t + grace_s h)]"
  by (simp add: replace_client_def)

lemma step_closing:
  assumes "client_step (h, t) (h', t')"
  shows "hc_closing h' = hc_closing h \<and> hc_client h' = hc_client h
    \<or> (\<exists>u. t \<le> u \<and> hc_closing h' = hc_closing h @ [(hc_client h, u + grace_s h)] \<and> hc_client h' = Suc (hc_client h))"
  using assms
proof (cases rule: client_step.cases)
  case (request t1 t2)
  then have "t \<le> t'" by simp
  then show ?thesis
    by (cases rule: recycle_if_needed_cases[of t1 t2 t' h])
       (auto simp: request begin_request_def replace_client_def Let_def)
next
  case pool_timeout
  then show ?thesis by (fastforce simp: client_defs grace_s_def)
next
  case recycled
  then show ?thesis by (auto simp: client_defs)
qed

text \<open>A client in use at some time is not closed before its grace period after that time has passed.\<close>

lemma run_keeps_client_open:
  assumes "client_run (h, t) (h', t')" "client_ok h t"
  shows "\<forall>due. (hc_client h, due) \<in> set (hc_closing h') \<longrightarrow> t + grace_s h \<le> due"
  using assms
proof (induction "(h', t')" arbitrary: h' t' rule: rtranclp_induct)
  case base
  have "hc_client h \<notin> fst ` set (hc_closing h)"
    using base by (simp add: client_ok_def flip: set_map)
  then show ?case by force
next
  case (step y)
  obtain h1 t1 where y: "y = (h1, t1)" by fastforce
  note opts = run_options[OF step(1)[unfolded y]]
  have "(hc_client h, due) \<in> set (hc_closing h1) \<longrightarrow> t + grace_s h \<le> due" for due
    using step(3)[OF y step(4)] by blast
  then show ?case using step_closing[OF step(2)[unfolded y]] opts by (auto simp: same_options_def)
qed

section \<open>Lemmas on the attempts\<close>

definition send_retryable :: "send_end \<Rightarrow> bool" where
  "send_retryable r = (case r of Failed e \<Rightarrow> retryable e | _ \<Rightarrow> False)"

lemma send_retryableD: "send_retryable r \<Longrightarrow> \<exists>e. r = Failed e \<and> retryable e"
  by (auto simp: send_retryable_def split: send_end.splits)

lemma retry_loop_stops:
  assumes "\<forall>i < j. send_retryable (send (k + i))" "\<not> send_retryable (send (k + j))" "j < n"
  shows "retry_loop send k n l = (send (k + j), Suc (k + j))"
  using assms
proof (induction j arbitrary: k n l)
  case 0
  then show ?case by (cases n) (auto simp: send_retryable_def split: send_end.splits)
next
  case (Suc j)
  obtain m where n: "n = Suc m" using Suc(4) by (cases n) auto
  obtain e where e: "send k = Failed e" "retryable e"
    using Suc(2)[rule_format, of 0] send_retryableD by auto
  have "\<forall>i < j. send_retryable (send (Suc k + i))" using Suc(2) by (auto dest: spec[of _ "Suc _"])
  from Suc(1)[of "Suc k" m "Some e", OF this] Suc(3,4) n e show ?case by simp
qed

lemma retry_loop_exhausts:
  assumes "\<forall>i < n. send_retryable (send (k + i))" "0 < n"
  shows "retry_loop send k n l = (send (k + n - 1), k + n)"
  using assms
proof (induction n arbitrary: k l)
  case (Suc n)
  obtain e where e: "send k = Failed e" "retryable e"
    using Suc(2)[rule_format, of 0] send_retryableD by auto
  have "\<forall>i < n. send_retryable (send (Suc k + i))" using Suc(2) by (auto dest: spec[of _ "Suc _"])
  with Suc(1)[of "Suc k" "Some e"] e show ?case by (cases n) auto
qed simp

section \<open>Properties\<close>

text \<open>C17: A request is sent at most \<open>max(1, retries + 1)\<close> times. It stops at the first attempt that is answered
  or fails with something else than a read time-out, a connect time-out or a connection error, and gives that
  outcome; when every attempt fails so, it gives the last failure, after exactly that many attempts.\<close>

theorem request_attempts:
  assumes "retryable_request net clocks rq timeout_ms h = (h', outcome, sent)" "0 < hc_attempts h"
  defines "send \<equiv> \<lambda>i. net (hc_client h') i rq
    (http_timeout h' (request_read_timeout h' timeout_ms) (hc_pool_timeout_ms h'))"
  shows "1 \<le> sent \<and> int sent \<le> hc_attempts h \<and> outcome = send (sent - 1)
    \<and> (\<forall>i < sent - 1. send_retryable (send i))
    \<and> (send_retryable outcome \<longrightarrow> int sent = hc_attempts h)"
proof -
  let ?n = "nat (hc_attempts h)"
  obtain t1 t2 t3 where ts: "clocks = (t1, t2, t3)" by (cases clocks)
  have h': "h' = begin_request t1 t2 t3 h" using assms(1) ts by (simp add: retryable_request_def Let_def)
  have att: "hc_attempts h' = hc_attempts h" unfolding h'
    by (cases rule: recycle_if_needed_cases[of t1 t2 t3 h]) (simp_all add: begin_request_def replace_client_def)
  have loop: "retry_loop send 0 ?n None = (outcome, sent)"
    using assms(1) att unfolding send_def ts h'[symmetric] retryable_request_def Let_def by (simp add: h')
  have n: "0 < ?n" using assms(2) by simp
  show ?thesis
  proof (cases "\<forall>i < ?n. send_retryable (send i)")
    case True
    have r: "outcome = send (?n - 1)" "sent = ?n"
      using retry_loop_exhausts[of ?n send 0 None] True n loop by simp_all
    then show ?thesis using True n assms(2) by auto
  next
    case False
    define j where "j = (LEAST i. \<not> send_retryable (send i))"
    have j: "\<not> send_retryable (send j)" "\<forall>i < j. send_retryable (send i)"
      using False unfolding j_def by (metis (mono_tags, lifting) LeastI) (blast dest: not_less_Least)
    have "j < ?n" using False j by (meson linorder_not_less order_less_le_trans)
    then have r: "outcome = send j" "sent = Suc j"
      using retry_loop_stops[of j send 0 ?n None] j loop by simp_all
    then show ?thesis using j \<open>j < ?n\<close> by auto
  qed
qed

definition example_options :: http_client_options where
  "example_options = \<lparr>ho_timeout_ms = 800, ho_max_retries = 1, ho_trust_env = False, ho_max_connections = 200,
     ho_max_keepalive_connections = Some 2, ho_keepalive_expiry_s = 2, ho_pool_timeout_ms = Some 25,
     ho_connect_timeout_ms = Some 500, ho_read_timeout_ms = Some 800, ho_write_timeout_ms = Some 500,
     ho_client_ttl_s = 300, ho_client_max_requests = 5000, ho_recycle_pool_timeout_threshold = 10,
     ho_recycle_window_s = 30, ho_provider_id = ''curve''\<rparr>"

lemmas example_client_defs = example_options_def HttpClient_def or_default_def client_defs

definition example_network :: network where
  "example_network c i rq t =
     (if i = 0 then Failed (ReadTimeout ''slow'') else Answered \<lparr>rr_status = 200, rr_json = None, rr_headers = []\<rparr>)"

definition example_get :: http_request where
  "example_get = \<lparr>hq_method = ''GET'', hq_url = ''u'', hq_params = None, hq_headers = None, hq_json = None\<rparr>"

theorem request_attempts_witness:
  "snd (snd (retryable_request example_network (1, 1, 1) example_get None (HttpClient example_options 0))) = 2"
proof -
  define h where "h = HttpClient example_options 0"
  obtain h' outcome sent where r: "retryable_request example_network (1, 1, 1) example_get None h = (h', outcome, sent)"
    by (metis prod_cases3)
  have a: "hc_attempts h = 2" by (simp add: h_def example_client_defs)
  then have p: "1 \<le> sent \<and> int sent \<le> 2 \<and> outcome = example_network (hc_client h') (sent - 1) example_get
      (http_timeout h' (request_read_timeout h' None) (hc_pool_timeout_ms h')) \<and> (send_retryable outcome \<longrightarrow> int sent = 2)"
    using request_attempts[OF r] by (metis zero_less_numeral)
  have "sent \<noteq> 1"
  proof
    assume one: "sent = 1"
    then have "outcome = Failed (ReadTimeout ''slow'')" using p by (simp add: example_network_def)
    then have "send_retryable outcome" by (simp add: send_retryable_def retryable_def)
    with p one show False by simp
  qed
  with p have "sent = 2" by linarith
  with r show ?thesis by (simp add: h_def)
qed

text \<open>C18: In every state a client can get into, the underlying client in use is not scheduled for closing and
  every replaced one is, exactly once, in order; the pool time-outs kept stay below the threshold. A pool
  time-out replaces the client exactly when the time-outs of the window reach the threshold with it. A request
  goes out on a client younger than its time to live that has served at most the allowed number of requests.\<close>

theorem client_life_cycle:
  assumes "client_run (HttpClient opts t0, t0) (h, t)" "t \<le> t1" "t1 \<le> t2" "t2 \<le> t3"
    and "0 < ho_client_ttl_s opts" "0 < ho_client_max_requests opts" "0 < ho_recycle_pool_timeout_threshold opts"
    and "0 \<le> ho_recycle_window_s opts"
  shows "map fst (hc_closing h) = [0..<hc_client h] \<and> hc_client h \<notin> fst ` set (hc_closing h)
    \<and> int (length (hc_pool_timeout_events h)) < hc_recycle_pool_timeout_threshold h
    \<and> hc_client (record_pool_timeout t1 t2 h) =
        (if int (recent_pool_timeout_count h t1) + 1 \<ge> hc_recycle_pool_timeout_threshold h
         then Suc (hc_client h) else hc_client h)
    \<and> (let h' = begin_request t1 t2 t3 h in t1 - hc_created_at h' < of_int (hc_client_ttl_s h')
         \<and> 1 \<le> hc_request_count h' \<and> hc_request_count h' \<le> hc_client_max_requests h')"
proof (intro conjI)
  note ok = client_ok_run[OF assms(1) client_ok_init]
  note opts = run_options[OF assms(1)]
  have pos: "0 < hc_client_ttl_s h" "0 < hc_client_max_requests h" "0 < hc_recycle_pool_timeout_threshold h"
    "0 \<le> hc_recycle_window_s h"
    using opts assms(5-8) by (simp_all add: same_options_def HttpClient_def Let_def)
  show closing: "map fst (hc_closing h) = [0..<hc_client h]" using ok by (simp add: client_ok_def)
  then show "hc_client h \<notin> fst ` set (hc_closing h)" by (simp flip: set_map)
  show "int (length (hc_pool_timeout_events h)) < hc_recycle_pool_timeout_threshold h"
    using ok pos by (simp add: client_ok_def)
  let ?c = "t1 - of_int (hc_recycle_window_s h)"
  have srt: "sorted (hc_pool_timeout_events h @ [t1])" using ok assms(2) by (force simp: client_ok_def sorted_append)
  have dw: "dropWhile (\<lambda>e. e < ?c) xs = filter (\<lambda>e. e \<ge> ?c) xs" if "sorted xs" for xs :: "rat list"
    using that
  proof (induction xs)
    case (Cons x xs)
    show ?case
    proof (cases "x < ?c")
      case False
      with Cons(2) have "filter (\<lambda>e. e \<ge> ?c) (x # xs) = x # xs" by (intro filter_True) force
      with False show ?thesis by simp
    qed (use Cons in simp)
  qed simp
  show "hc_client (record_pool_timeout t1 t2 h) =
        (if int (recent_pool_timeout_count h t1) + 1 \<ge> hc_recycle_pool_timeout_threshold h
         then Suc (hc_client h) else hc_client h)"
    using dw[OF srt] pos(4) by (simp add: record_pool_timeout_def recent_pool_timeout_count_def recycle_def replace_client_def Let_def)
  show "let h' = begin_request t1 t2 t3 h in t1 - hc_created_at h' < of_int (hc_client_ttl_s h')
         \<and> 1 \<le> hc_request_count h' \<and> hc_request_count h' \<le> hc_client_max_requests h'"
  proof (cases rule: recycle_if_needed_cases[of t1 t2 t3 h])
    case kept
    then have "t1 - hc_created_at h < of_int (hc_client_ttl_s h)" "hc_request_count h < hc_client_max_requests h"
      using assms(3) by auto
    with kept(1) ok show ?thesis by (simp add: begin_request_def client_ok_def)
  next
    case (replaced reason)
    have "t1 - t3 < of_int (hc_client_ttl_s h)"
      using assms(3,4) pos(1) of_int_0_less_iff[of "hc_client_ttl_s h", where 'a = rat] by linarith
    with replaced pos show ?thesis by (simp add: begin_request_def replace_client_def)
  qed
qed

theorem client_life_cycle_witness:
  "let h = begin_request 301 301 301 (HttpClient example_options 0)
   in hc_client h = 1 \<and> map fst (hc_closing h) = [0] \<and> 1 - hc_created_at (begin_request 1 1 1 (HttpClient example_options 0)) < 300"
proof -
  let ?h0 = "HttpClient example_options 0"
  have run: "client_run (?h0, 0) (begin_request 301 301 301 ?h0, 301)"
    by (rule r_into_rtranclp) (rule client_step.request; simp)
  have o: "0 < ho_client_ttl_s example_options" "0 < ho_client_max_requests example_options"
    "0 < ho_recycle_pool_timeout_threshold example_options" "0 \<le> ho_recycle_window_s example_options"
    by (simp_all add: example_options_def)
  have c: "hc_client (begin_request 301 301 301 ?h0) = 1" by (simp add: example_client_defs)
  show ?thesis
    using client_life_cycle[OF run _ _ _ o, of 301 301 301] client_life_cycle[OF rtranclp.rtrancl_refl _ _ _ o, of 0 1 1 1] c
    by (simp add: Let_def example_client_defs)
qed

text \<open>A request that begins at some time keeps its underlying client for the grace period: however the
  client is used afterwards, its underlying client is not closed before the longest of the configured connect,
  read and write time-outs and a tenth of a second have passed.\<close>

theorem request_keeps_client_for_grace:
  assumes "client_run (HttpClient opts t0, t0) (h, t)" "t \<le> t1" "t1 \<le> t2" "t2 \<le> t3"
    and "client_run (begin_request t1 t2 t3 h, t3) (h', t')"
    and "(hc_client (begin_request t1 t2 t3 h), due) \<in> set (hc_closing h')"
  shows "t3 + grace_s h \<le> due"
proof -
  have "client_run (HttpClient opts t0, t0) (begin_request t1 t2 t3 h, t3)"
    using assms(1) client_step.request[OF assms(2-4)] by (rule rtranclp.rtrancl_into_rtrancl)
  then have "client_ok (begin_request t1 t2 t3 h) t3" using client_ok_init by (rule client_ok_run)
  from run_keeps_client_open[OF assms(5) this] assms(6)
  have "t3 + grace_s (begin_request t1 t2 t3 h) \<le> due" by blast
  moreover have "grace_s (begin_request t1 t2 t3 h) = grace_s h"
    using step_options[OF client_step.request[OF assms(2-4)]] by (simp add: same_options_def)
  ultimately show ?thesis by simp
qed

theorem request_keeps_client_for_grace_witness:
  "(hc_client (begin_request 299 299 299 (HttpClient example_options 0)), 299 + 9 / 10)
     \<in> set (hc_closing (recycle ''close_wait'' 299 (begin_request 299 299 299 (HttpClient example_options 0))))
   \<and> 299 + grace_s (HttpClient example_options 0) \<le> 299 + 9 / 10"
proof -
  let ?h0 = "HttpClient example_options 0" let ?h1 = "begin_request 299 299 299 ?h0"
  have run: "client_run (?h1, 299) (recycle ''close_wait'' 299 ?h1, 299)"
    by (rule r_into_rtranclp) (rule client_step.recycled; simp)
  have mem: "(hc_client ?h1, 299 + 9 / 10) \<in> set (hc_closing (recycle ''close_wait'' 299 ?h1))"
    by (simp add: example_client_defs grace_s_def)
  from request_keeps_client_for_grace[OF rtranclp.rtrancl_refl _ _ _ run mem] mem show ?thesis by simp
qed

text \<open>That is not enough for a request with a time-out of its own: with the default settings, a request
  that may take ten seconds (the most an endpoint accepts) is begun, another one arrives a tenth of a second
  later and replaces the client for its age, and the first request's client is closed eight seconds before its
  time-out.\<close>

theorem in_flight_request_loses_client:
  "let h0 = new_http_client default_settings ''curve'' 0;
       h1 = begin_request (2999/10) (2999/10) (2999/10) h0;
       h2 = begin_request 300 300 300 h1
   in ht_read (http_timeout h1 (request_read_timeout h1 (Some MAX_REQUEST_TIMEOUT_MS)) (hc_pool_timeout_ms h1)) = 10
    \<and> hc_closing h2 = [(hc_client h1, 3009/10)] \<and> 3009/10 + 8 < 2999/10 + (10::rat)"
  by (simp add: new_http_client_def example_client_defs default_settings_def effective_provider_read_timeout_ms_def
      int_or_def http_timeout_def request_read_timeout_def MAX_REQUEST_TIMEOUT_MS_def grace_s_def)

end
