(* ===== verification/Transport.thy ===== *)
theory Transport
  imports HttpClient Parsing
begin

text \<open>
  From an HTTP call to a payload or a failure (\<open>providers/http_helpers.py\<close>). The parser of HTTP dates is the
  parameter \<open>http_date\<close>, an instant in Unix seconds; the sub-microsecond rounding of \<open>total_seconds()\<close> is left
  out. Log lines and the pool time-out counter of the metrics are left out.
\<close>

section \<open>Results of a call\<close>

record http_call_result =
  hcr_latency_ms :: int
  hcr_response :: "http_response option"
  hcr_timeout :: bool
  hcr_timeout_error_type :: "error_type option"
  hcr_transport_error_type :: "string option"
  hcr_http_error :: "httpx_error option"

datatype failure_reason = Reason_timeout | Reason_http_error | Reason_non_200 | Reason_invalid_json

record transport_failure =
  tf_reason :: failure_reason
  tf_status :: provider_status
  tf_error_type :: error_type
  tf_message :: string
  tf_latency_ms :: int
  tf_http_status_code :: "int option"
  tf_retry_after_ms :: "int option"

definition failure_error_info :: "transport_failure \<Rightarrow> error_info" where
  "failure_error_info f = \<lparr>ei_type = tf_error_type f, ei_message = tf_message f, ei_code = tf_http_status_code f,
     ei_retry_after_ms = tf_retry_after_ms f\<rparr>"

record json_outcome =
  jo_latency_ms :: int
  jo_payload :: "(string \<times> json) list option"
  jo_failure :: "transport_failure option"

record http_status_failure =
  hsf_status :: provider_status
  hsf_error_type :: error_type
  hsf_message :: string
  hsf_http_status_code :: int
  hsf_retry_after_ms :: "int option"

definition status_error_info :: "http_status_failure \<Rightarrow> error_info" where
  "status_error_info f = \<lparr>ei_type = hsf_error_type f, ei_message = hsf_message f,
     ei_code = Some (hsf_http_status_code f), ei_retry_after_ms = hsf_retry_after_ms f\<rparr>"

section \<open>Timed calls\<close>

text \<open>
  The readings of the two clocks during a call: \<open>ck_client\<close> those of the client at its start, \<open>ck_started\<close> and
  \<open>ck_ended\<close> of \<open>perf_counter\<close>, \<open>ck_failed\<close> those of a pool time-out. \<open>ck_others\<close> is what other requests did to
  the client while this one waited.
\<close>

record call_clock =
  ck_client :: "rat \<times> rat \<times> rat"
  ck_started :: rat
  ck_ended :: rat
  ck_failed :: "rat \<times> rat"
  ck_others :: "http_client \<Rightarrow> http_client"

definition is_timeout_exception :: "httpx_error \<Rightarrow> bool" where
  "is_timeout_exception e = (case e of ReadTimeout _ \<Rightarrow> True | ConnectTimeout _ \<Rightarrow> True | WriteTimeout _ \<Rightarrow> True
     | PoolTimeout _ \<Rightarrow> True | _ \<Rightarrow> False)"

definition is_pool_timeout :: "httpx_error \<Rightarrow> bool" where
  "is_pool_timeout e = (case e of PoolTimeout _ \<Rightarrow> True | _ \<Rightarrow> False)"

text \<open>\<open>int((time.perf_counter() - started) * 1000)\<close>\<close>

definition elapsed_ms :: "rat \<Rightarrow> rat \<Rightarrow> int" where
  "elapsed_ms started ended = trunc_rat ((ended - started) * 1000)"

definition timed_call :: "call_clock \<Rightarrow> http_client \<times> http_end \<Rightarrow> http_client \<times> http_call_result res" where
  "timed_call ck call =
     (let (h1, r) = call; h2 = ck_others ck h1; latency_ms = elapsed_ms (ck_started ck) (ck_ended ck) in
      case r of
        Http_raised e \<Rightarrow> (h2, Inl e)
      | Http_response response \<Rightarrow>
          (h2, Inr \<lparr>hcr_latency_ms = latency_ms, hcr_response = Some response, hcr_timeout = False,
                    hcr_timeout_error_type = None, hcr_transport_error_type = None, hcr_http_error = None\<rparr>)
      | Http_failed e \<Rightarrow>
          if is_pool_timeout e then
            (record_pool_timeout (fst (ck_failed ck)) (snd (ck_failed ck)) h2,
             Inr \<lparr>hcr_latency_ms = latency_ms, hcr_response = None, hcr_timeout = True,
                  hcr_timeout_error_type = Some INTERNAL_TRANSPORT_TIMEOUT,
                  hcr_transport_error_type = Some (httpx_class_name e), hcr_http_error = None\<rparr>)
          else if is_timeout_exception e then
            (h2, Inr \<lparr>hcr_latency_ms = latency_ms, hcr_response = None, hcr_timeout = True,
                  hcr_timeout_error_type = Some TIMEOUT,
                  hcr_transport_error_type = Some (httpx_class_name e), hcr_http_error = None\<rparr>)
          else
            (h2, Inr \<lparr>hcr_latency_ms = latency_ms, hcr_response = None, hcr_timeout = False,
                  hcr_timeout_error_type = None,
                  hcr_transport_error_type = Some (httpx_class_name e), hcr_http_error = Some e\<rparr>))"

definition timed_get ::
    "network \<Rightarrow> call_clock \<Rightarrow> string \<Rightarrow> (string \<times> json) list option \<Rightarrow> (string \<times> string) list option \<Rightarrow> int option
     \<Rightarrow> http_client \<Rightarrow> http_client \<times> http_call_result res" where
  "timed_get net ck url params headers timeout_ms h =
     timed_call ck (http_get net (ck_client ck) url params headers timeout_ms h)"

definition timed_post ::
    "network \<Rightarrow> call_clock \<Rightarrow> string \<Rightarrow> (string \<times> json) list option \<Rightarrow> (string \<times> json) list option
     \<Rightarrow> (string \<times> string) list option \<Rightarrow> int option \<Rightarrow> http_client \<Rightarrow> http_client \<times> http_call_result res" where
  "timed_post net ck url json params headers timeout_ms h =
     timed_call ck (http_post net (ck_client ck) url json params headers timeout_ms h)"

section \<open>Reading a call\<close>

definition timeout_error_info :: "http_call_result \<Rightarrow> string \<Rightarrow> error_info" where
  "timeout_error_info call provider_name =
     (let error_type = or_default (hcr_timeout_error_type call) TIMEOUT in
      if error_type = INTERNAL_TRANSPORT_TIMEOUT
      then mk_error error_type (provider_name @ '' internal transport timed out before acquiring outbound capacity'')
      else mk_error error_type (provider_name @ '' request timed out''))"

text \<open>\<open>http_date\<close> gives no value where the code catches an exception; \<open>now\<close> is the wall clock.\<close>

record wall =
  w_http_date :: "string \<Rightarrow> rat option"
  w_now :: rat

definition parse_retry_after_ms :: "wall \<Rightarrow> http_response \<Rightarrow> int option" where
  "parse_retry_after_ms w response =
     (case map_of (hr_headers response) ''retry-after'' of
        None \<Rightarrow> None
      | Some retry_after \<Rightarrow>
          let stripped = py_strip retry_after in
          if stripped = [] then None
          else case py_int_of_str stripped of
            None \<Rightarrow>
              (case w_http_date w stripped of
                 None \<Rightarrow> None
               | Some retry_at \<Rightarrow>
                   let delta_ms = trunc_rat ((retry_at - w_now w) * 1000) in if delta_ms > 0 then Some delta_ms else None)
          | Some seconds \<Rightarrow> if seconds < 0 then None else Some (seconds * 1000))"

definition non_200_status :: "wall \<Rightarrow> http_response \<Rightarrow> string \<Rightarrow> http_status_failure option" where
  "non_200_status w response provider_name =
     (if hr_status_code response = 200 then None
      else let (status, error_type) = status_from_http_code (hr_status_code response) in
        Some \<lparr>hsf_status = status, hsf_error_type = error_type,
              hsf_message = provider_name @ '' returned '' @ int_str (hr_status_code response),
              hsf_http_status_code = hr_status_code response,
              hsf_retry_after_ms = parse_retry_after_ms w response\<rparr>)"

definition expect_json_dict :: "http_response \<Rightarrow> string \<Rightarrow> (string \<times> json) list option \<times> string option" where
  "expect_json_dict response invalid_json_message =
     (case hr_json_data response of JObj d \<Rightarrow> (Some d, None) | _ \<Rightarrow> (None, Some invalid_json_message))"

definition failed_outcome ::
    "http_call_result \<Rightarrow> failure_reason \<Rightarrow> provider_status \<Rightarrow> error_type \<Rightarrow> string \<Rightarrow> int option \<Rightarrow> int option \<Rightarrow> json_outcome" where
  "failed_outcome call reason status error_type message code retry_after_ms =
     \<lparr>jo_latency_ms = hcr_latency_ms call, jo_payload = None,
      jo_failure = Some \<lparr>tf_reason = reason, tf_status = status, tf_error_type = error_type, tf_message = message,
        tf_latency_ms = hcr_latency_ms call, tf_http_status_code = code, tf_retry_after_ms = retry_after_ms\<rparr>\<rparr>"

definition json_transport_outcome :: "wall \<Rightarrow> http_call_result \<Rightarrow> string \<Rightarrow> string \<Rightarrow> json_outcome" where
  "json_transport_outcome w call provider_name invalid_json_message =
     (if hcr_timeout call then
        let e = timeout_error_info call provider_name in
        failed_outcome call Reason_timeout ERROR (ei_type e) (ei_message e) None None
      else case hcr_http_error call of
        Some e \<Rightarrow> failed_outcome call Reason_http_error ERROR UPSTREAM_HTTP (he_message e) None None
      | None \<Rightarrow>
        (case hcr_response call of
           None \<Rightarrow> failed_outcome call Reason_http_error ERROR UPSTREAM_HTTP (provider_name @ '' response missing'') None None
         | Some response \<Rightarrow>
           (case non_200_status w response provider_name of
              Some f \<Rightarrow> failed_outcome call Reason_non_200 (hsf_status f) (hsf_error_type f) (hsf_message f)
                         (Some (hsf_http_status_code f)) (hsf_retry_after_ms f)
            | None \<Rightarrow>
              (case expect_json_dict response invalid_json_message of
                 (None, m) \<Rightarrow> failed_outcome call Reason_invalid_json ERROR UPSTREAM_PARSE (or_default m ''None'') None None
               | (Some payload, _) \<Rightarrow>
                   \<lparr>jo_latency_ms = hcr_latency_ms call, jo_payload = Some payload, jo_failure = None\<rparr>))))"

definition invalid_json :: string where "invalid_json = ''Invalid JSON response''"

section \<open>Lemmas\<close>

lemmas outcome_defs = json_transport_outcome_def failed_outcome_def expect_json_dict_def non_200_status_def Let_def

lemma status_from_http_code_fails: "status_from_http_code c = (st, e) \<Longrightarrow> st \<noteq> OK"
  by (auto simp: status_from_http_code_def split: if_splits)

lemma failure_not_ok:
  "jo_failure (json_transport_outcome w call name m) = Some f \<Longrightarrow> tf_status f \<noteq> OK"
  by (auto simp: outcome_defs dest: status_from_http_code_fails split: if_splits option.splits prod.splits json.splits)

lemma retry_after_text:
  assumes "0 \<le> n" "n \<le> MAX_UINT256" "map_of (hr_headers r) ''retry-after'' = Some (int_str n)"
  shows "parse_retry_after_ms w r = Some (n * 1000)"
  using assms int_str_digits[of n] py_int_of_int_str[of n] by (simp add: parse_retry_after_ms_def Let_def)

lemma retry_after_nonneg: "parse_retry_after_ms w r = Some ms \<Longrightarrow> 0 \<le> ms"
  by (auto simp: parse_retry_after_ms_def Let_def split: option.splits if_splits)

lemma elapsed_ms_nonneg: "started \<le> ended \<Longrightarrow> 0 \<le> elapsed_ms started ended"
  by (simp add: elapsed_ms_def trunc_rat_nonneg)

lemma timed_call_latency: "timed_call ck call = (h, Inr c) \<Longrightarrow> hcr_latency_ms c = elapsed_ms (ck_started ck) (ck_ended ck)"
  by (auto simp: timed_call_def Let_def split: prod.splits http_end.splits if_splits)

lemma answered_retry_loop: "send k = Answered a \<Longrightarrow> 0 < n \<Longrightarrow> retry_loop send k n l = (Answered a, Suc k)"
  by (cases n) simp_all

lemma begin_request_attempts [simp]: "hc_attempts (begin_request t1 t2 t3 h) = hc_attempts h"
  by (cases rule: recycle_if_needed_cases[of t1 t2 t3 h]) (simp_all add: begin_request_def replace_client_def)

lemma timed_get_answered:
  assumes "\<And>c i rq t. net c i rq t = Answered raw" "0 < hc_attempts h"
  obtains h' where "timed_get net ck url params headers timeout_ms h = (h',
    Inr \<lparr>hcr_latency_ms = elapsed_ms (ck_started ck) (ck_ended ck), hcr_response = Some (to_http_response raw),
         hcr_timeout = False, hcr_timeout_error_type = None, hcr_transport_error_type = None, hcr_http_error = None\<rparr>)"
proof -
  obtain t1 t2 t3 where c: "ck_client ck = (t1, t2, t3)" by (cases "ck_client ck")
  show ?thesis
    using assms by (intro that) (simp add: timed_get_def http_get_def retryable_request_def c Let_def
        answered_retry_loop timed_call_def response_end_def)
qed

section \<open>Properties\<close>


definition example_wall :: wall where
  "example_wall = \<lparr>w_http_date = (\<lambda>s. None), w_now = 0\<rparr>"

definition rate_limited_call :: http_call_result where
  "rate_limited_call = \<lparr>hcr_latency_ms = 12, hcr_response = Some \<lparr>hr_status_code = 429, hr_json_data = JNull,
       hr_headers = [(''retry-after'', ''30'')]\<rparr>, hcr_timeout = False, hcr_timeout_error_type = None,
     hcr_transport_error_type = None, hcr_http_error = None\<rparr>"


end
