(* ===== verification/Circuit.thy ===== *)
theory Circuit
  imports Domain
begin

text \<open>
  The circuit breaker (\<open>core/circuit.py\<close>): per \<open>CircuitScope\<close> a state, the recent
  failures, the end of the open period, the end of a rate-limit cooldown and the number of
  half-open probes in flight. Each method is a function of the breaker, its arguments and
  the readings of the monotonic clock it takes (seconds, as rationals). The two metrics
  \<open>_set_state\<close> emits on a change of state are the log \<open>cb_transitions\<close>, newest first.
\<close>

named_theorems cb_defs \<open>unfolding rules of the breaker's methods\<close>

section \<open>State\<close>

record circuit_scope =
  sc_provider :: string
  sc_chain_id :: int
  sc_operation :: string

datatype circuit_state = Closed | Open | Half_Open

record breaker_config =
  failure_window_s :: int
  failure_threshold :: int
  open_duration_s :: int
  half_open_probe_count :: int

record breaker =
  cb_failures :: "circuit_scope \<rightharpoonup> rat list"
  cb_open_until :: "(circuit_scope, rat) odict"
  cb_rate_limit_until :: "circuit_scope \<rightharpoonup> rat"
  cb_half_open_inflight :: "circuit_scope \<rightharpoonup> int"
  cb_state :: "circuit_scope \<rightharpoonup> circuit_state"
  cb_transitions :: "(circuit_scope \<times> circuit_state) list"

definition init_breaker :: breaker where
  "init_breaker = \<lparr>cb_failures = Map.empty, cb_open_until = [], cb_rate_limit_until = Map.empty,
     cb_half_open_inflight = Map.empty, cb_state = Map.empty, cb_transitions = []\<rparr>"

text \<open>What the breaker reads of a \<open>PriceResult\<close> or \<open>QuoteResult\<close>.\<close>

type_synonym outcome = "provider_status \<times> error_info option"

abbreviation price_outcome :: "price_result \<Rightarrow> outcome" where
  "price_outcome r \<equiv> (p_status r, p_error r)"

abbreviation quote_outcome :: "quote_result \<Rightarrow> outcome" where
  "quote_outcome r \<equiv> (q_status r, q_error r)"

abbreviation open_until :: "breaker \<Rightarrow> circuit_scope \<rightharpoonup> rat" where
  "open_until b \<equiv> map_of (cb_open_until b)"

definition dict_get :: "('k \<rightharpoonup> 'v) \<Rightarrow> 'k \<Rightarrow> 'v \<Rightarrow> 'v" where
  "dict_get m k dflt = (case m k of None \<Rightarrow> dflt | Some v \<Rightarrow> v)"

section \<open>Operations\<close>

definition MAX_RATE_LIMIT_BACKOFF_S :: int where "MAX_RATE_LIMIT_BACKOFF_S = 300"

definition RETRIABLE_ERROR_TYPES :: "error_type list" where
  "RETRIABLE_ERROR_TYPES = [TIMEOUT, UPSTREAM_HTTP, INTERNAL_TRANSPORT_TIMEOUT]"

definition is_circuit_failure :: "outcome \<Rightarrow> bool" where
  "is_circuit_failure res =
     (if fst res \<in> {BAD_REQUEST, NO_ROUTE} then False
      else case snd res of None \<Rightarrow> False | Some e \<Rightarrow> List.member RETRIABLE_ERROR_TYPES (ei_type e))"

definition set_state :: "circuit_scope \<Rightarrow> circuit_state \<Rightarrow> breaker \<Rightarrow> breaker" where [cb_defs]:
  "set_state scope st b =
     (if cb_state b scope = Some st then b
      else b\<lparr>cb_state := (cb_state b)(scope \<mapsto> st),
             cb_transitions := (scope, st) # cb_transitions b\<rparr>)"

definition close_circuit :: "circuit_scope \<Rightarrow> breaker \<Rightarrow> breaker" where [cb_defs]:
  "close_circuit scope b =
     set_state scope Closed
       (b\<lparr>cb_failures := (cb_failures b)(scope := None),
          cb_open_until := AList.delete scope (cb_open_until b),
          cb_rate_limit_until := (cb_rate_limit_until b)(scope := None),
          cb_half_open_inflight := (cb_half_open_inflight b)(scope := None)\<rparr>)"

definition open_circuit ::
    "breaker_config \<Rightarrow> circuit_scope \<Rightarrow> rat \<Rightarrow> rat option \<Rightarrow> breaker \<Rightarrow> breaker" where [cb_defs]:
  "open_circuit cfg scope now delay_s b =
     (let until = now + (case delay_s of None \<Rightarrow> of_int (open_duration_s cfg) | Some d \<Rightarrow> d)
      in set_state scope Open
           (b\<lparr>cb_failures := (cb_failures b)(scope := None),
              cb_half_open_inflight := (cb_half_open_inflight b)(scope := None),
              cb_open_until := AList.update scope (max (dict_get (open_until b) scope 0) until)
                                 (cb_open_until b)\<rparr>))"

definition release_probe :: "circuit_scope \<Rightarrow> breaker \<Rightarrow> breaker" where [cb_defs]:
  "release_probe scope b =
     (if cb_state b scope \<noteq> Some Half_Open then b
      else b\<lparr>cb_half_open_inflight := (cb_half_open_inflight b)
               (scope \<mapsto> max (dict_get (cb_half_open_inflight b) scope 1 - 1) 0)\<rparr>)"

definition allow :: "breaker_config \<Rightarrow> circuit_scope \<Rightarrow> rat \<Rightarrow> breaker \<Rightarrow> bool \<times> breaker" where
  "allow cfg scope now b =
     (case open_until b scope of
        None \<Rightarrow> (True, set_state scope Closed b)
      | Some until \<Rightarrow>
          if now < until then (False, set_state scope Open b)
          else let b1 = set_state scope Half_Open b;
                   inflight = dict_get (cb_half_open_inflight b1) scope 0
               in if inflight \<ge> half_open_probe_count cfg then (False, b1)
                  else (True, b1\<lparr>cb_half_open_inflight :=
                                  (cb_half_open_inflight b1)(scope \<mapsto> inflight + 1)\<rparr>))"

text \<open>The delay a rate-limited result asks for; a missing or zero hint means the open duration.\<close>

definition rate_limit_delay_s :: "breaker_config \<Rightarrow> error_info \<Rightarrow> rat" where
  "rate_limit_delay_s cfg e =
     (let ms = (case ei_retry_after_ms e of
                  None \<Rightarrow> open_duration_s cfg * 1000
                | Some m \<Rightarrow> if m = 0 then open_duration_s cfg * 1000 else m)
      in min (of_int ms / 1000) (of_int (max (open_duration_s cfg) MAX_RATE_LIMIT_BACKOFF_S)))"

definition is_rate_limited :: "outcome \<Rightarrow> bool" where
  "is_rate_limited res = (case snd res of None \<Rightarrow> False | Some e \<Rightarrow> ei_type e = RATE_LIMITED)"

definition record_failure :: "breaker_config \<Rightarrow> circuit_scope \<Rightarrow> rat \<Rightarrow> breaker \<Rightarrow> breaker" where
  "record_failure cfg scope now b =
     (let cutoff = now - of_int (failure_window_s cfg);
          failures = dropWhile (\<lambda>t. t < cutoff) (dict_get (cb_failures b) scope [] @ [now]);
          b1 = b\<lparr>cb_failures := (cb_failures b)(scope \<mapsto> failures)\<rparr>
      in if int (length failures) \<ge> failure_threshold cfg then open_circuit cfg scope now None b1 else b1)"

text \<open>
  \<open>record_result\<close>: \<open>t1\<close> is the first reading of the clock, \<open>t2\<close> the second, which
  only the half-open and the counting branch take.
\<close>

definition record_result ::
    "breaker_config \<Rightarrow> circuit_scope \<Rightarrow> outcome \<Rightarrow> rat \<Rightarrow> rat \<Rightarrow> breaker \<Rightarrow> breaker" where
  "record_result cfg scope res t1 t2 b =
     (if is_rate_limited res then
        let b1 = open_circuit cfg scope t1 (map_option (rate_limit_delay_s cfg) (snd res)) b
        in b1\<lparr>cb_rate_limit_until := (cb_rate_limit_until b1)(scope := open_until b1 scope)\<rparr>
      else if t1 < dict_get (cb_rate_limit_until b) scope 0 then b
      else let is_failure = is_circuit_failure res in
        if cb_state b scope = Some Half_Open then
          (let b1 = release_probe scope b in
           if is_failure then open_circuit cfg scope t2 None b1
           else if fst res \<in> {OK, NO_ROUTE, BAD_REQUEST} then close_circuit scope b1
           else b1)
        else if fst res = OK then close_circuit scope b
        else if \<not> is_failure then b
        else record_failure cfg scope t2 b)"

definition circuit_open_providers :: "int \<Rightarrow> string \<Rightarrow> rat \<Rightarrow> breaker \<Rightarrow> string set" where
  "circuit_open_providers chain_id operation now b =
     set (map (\<lambda>e. sc_provider (fst e))
       (filter (\<lambda>e. now < snd e \<and> sc_chain_id (fst e) = chain_id \<and> sc_operation (fst e) = operation)
          (cb_open_until b)))"

section \<open>Runs of the breaker\<close>

text \<open>Calls of the breaker in the order they happen, with their clock readings.\<close>

datatype cb_event =
    EvAllow circuit_scope rat
  | EvRecord circuit_scope outcome rat rat
  | EvRelease circuit_scope

fun ev_scope :: "cb_event \<Rightarrow> circuit_scope" where
  "ev_scope (EvAllow s _) = s"
| "ev_scope (EvRecord s _ _ _) = s"
| "ev_scope (EvRelease s) = s"

fun cb_apply :: "breaker_config \<Rightarrow> cb_event \<Rightarrow> breaker \<Rightarrow> breaker" where
  "cb_apply cfg (EvAllow s t) b = snd (allow cfg s t b)"
| "cb_apply cfg (EvRecord s r t1 t2) b = record_result cfg s r t1 t2 b"
| "cb_apply cfg (EvRelease s) b = release_probe s b"

definition cb_run :: "breaker_config \<Rightarrow> cb_event list \<Rightarrow> breaker \<Rightarrow> breaker" where
  "cb_run cfg evs b = fold (cb_apply cfg) evs b"

lemma cb_run_simps [simp]:
  "cb_run cfg [] b = b" "cb_run cfg (e # es) b = cb_run cfg es (cb_apply cfg e b)"
  by (simp_all add: cb_run_def)

lemma cb_run_append: "cb_run cfg (es @ fs) b = cb_run cfg fs (cb_run cfg es b)"
  by (simp add: cb_run_def)

section \<open>Field lemmas\<close>

lemma dict_get_simps [simp]:
  "m k = None \<Longrightarrow> dict_get m k d = d" "m k = Some v \<Longrightarrow> dict_get m k d = v"
  by (simp_all add: dict_get_def)

lemma set_state_fields [simp]:
  "cb_failures (set_state s st b) = cb_failures b"
  "cb_open_until (set_state s st b) = cb_open_until b"
  "cb_rate_limit_until (set_state s st b) = cb_rate_limit_until b"
  "cb_half_open_inflight (set_state s st b) = cb_half_open_inflight b"
  "cb_state (set_state s st b) = (cb_state b)(s \<mapsto> st)"
  by (auto simp: set_state_def)

lemma close_circuit_fields [simp]:
  "cb_failures (close_circuit s b) = (cb_failures b)(s := None)"
  "cb_open_until (close_circuit s b) = AList.delete s (cb_open_until b)"
  "cb_rate_limit_until (close_circuit s b) = (cb_rate_limit_until b)(s := None)"
  "cb_half_open_inflight (close_circuit s b) = (cb_half_open_inflight b)(s := None)"
  "cb_state (close_circuit s b) = (cb_state b)(s \<mapsto> Closed)"
  by (simp_all add: close_circuit_def)

definition reopen_at :: "breaker_config \<Rightarrow> circuit_scope \<Rightarrow> rat \<Rightarrow> rat option \<Rightarrow> breaker \<Rightarrow> rat" where
  "reopen_at cfg s now d b = max (dict_get (open_until b) s 0)
     (now + (case d of None \<Rightarrow> of_int (open_duration_s cfg) | Some x \<Rightarrow> x))"

lemma open_circuit_fields [simp]:
  "cb_failures (open_circuit cfg s now d b) = (cb_failures b)(s := None)"
  "cb_open_until (open_circuit cfg s now d b) = AList.update s (reopen_at cfg s now d b) (cb_open_until b)"
  "cb_rate_limit_until (open_circuit cfg s now d b) = cb_rate_limit_until b"
  "cb_half_open_inflight (open_circuit cfg s now d b) = (cb_half_open_inflight b)(s := None)"
  "cb_state (open_circuit cfg s now d b) = (cb_state b)(s \<mapsto> Open)"
  by (simp_all add: open_circuit_def reopen_at_def Let_def)

lemma release_probe_fields [simp]:
  "cb_failures (release_probe s b) = cb_failures b"
  "cb_open_until (release_probe s b) = cb_open_until b"
  "cb_rate_limit_until (release_probe s b) = cb_rate_limit_until b"
  "cb_state (release_probe s b) = cb_state b"
  by (simp_all add: release_probe_def)

lemmas cb_fields = set_state_fields close_circuit_fields open_circuit_fields release_probe_fields

section \<open>Isolation of scopes\<close>

text \<open>Everything the breaker keeps of one scope.\<close>

definition scope_view ::
    "breaker \<Rightarrow> circuit_scope \<Rightarrow> rat list option \<times> rat option \<times> rat option \<times> int option \<times> circuit_state option"
  where "scope_view b s = (cb_failures b s, open_until b s, cb_rate_limit_until b s,
           cb_half_open_inflight b s, cb_state b s)"

lemma scope_view_allow: "s' \<noteq> s \<Longrightarrow> scope_view (snd (allow cfg s t b)) s' = scope_view b s'"
  by (auto simp: allow_def scope_view_def Let_def split: option.splits)

lemma scope_view_release: "s' \<noteq> s \<Longrightarrow> scope_view (release_probe s b) s' = scope_view b s'"
  by (auto simp: release_probe_def scope_view_def)

lemma scope_view_record_failure:
  "s' \<noteq> s \<Longrightarrow> scope_view (record_failure cfg s t b) s' = scope_view b s'"
  by (simp add: record_failure_def scope_view_def Let_def od_simps)

lemma scope_view_record:
  assumes "s' \<noteq> s"
  shows "scope_view (record_result cfg s r t1 t2 b) s' = scope_view b s'"
proof -
  have "scope_view (release_probe s b) s' = scope_view b s'" using assms by (rule scope_view_release)
  then show ?thesis
    using assms scope_view_record_failure[OF assms, of cfg t2 b]
    by (auto simp: record_result_def Let_def scope_view_def od_simps)
qed

lemma scope_view_apply: "ev_scope e \<noteq> s \<Longrightarrow> scope_view (cb_apply cfg e b) s = scope_view b s"
  by (cases e) (auto simp: scope_view_allow scope_view_release scope_view_record)

lemma scope_view_run:
  "\<forall>e \<in> set evs. ev_scope e \<noteq> s \<Longrightarrow> scope_view (cb_run cfg evs b) s = scope_view b s"
  by (induction evs arbitrary: b) (simp_all add: scope_view_apply)

lemma allow_by_view: "scope_view b s = scope_view b' s \<Longrightarrow> fst (allow cfg s t b) = fst (allow cfg s t b')"
  by (auto simp: scope_view_def allow_def Let_def dict_get_def split: option.splits)

section \<open>Invariant of the breaker\<close>

text \<open>
  Per scope: the state is \<open>open\<close> or \<open>half_open\<close> exactly when an end of the open period is
  kept; a cooldown never outlasts the open period; probes are counted within the
  configured number and only while an open period is kept; fewer failures than the
  threshold are remembered.
\<close>

definition cb_inv :: "breaker_config \<Rightarrow> breaker \<Rightarrow> circuit_scope \<Rightarrow> bool" where
  "cb_inv cfg b s \<longleftrightarrow>
     (cb_state b s \<in> {Some Open, Some Half_Open} \<longleftrightarrow> open_until b s \<noteq> None)
   \<and> (case cb_rate_limit_until b s of None \<Rightarrow> True
        | Some q \<Rightarrow> (case open_until b s of None \<Rightarrow> False | Some u \<Rightarrow> q \<le> u))
   \<and> (case cb_half_open_inflight b s of None \<Rightarrow> True
        | Some n \<Rightarrow> 0 \<le> n \<and> n \<le> half_open_probe_count cfg \<and> open_until b s \<noteq> None)
   \<and> (case cb_failures b s of None \<Rightarrow> True | Some fs \<Rightarrow> int (length fs) < failure_threshold cfg)"

lemma cb_inv_by_view: "scope_view b s = scope_view b' s \<Longrightarrow> cb_inv cfg b s = cb_inv cfg b' s"
  by (auto simp: scope_view_def cb_inv_def split: option.splits)

lemma cb_inv_init: "cb_inv cfg init_breaker s"
  by (simp add: cb_inv_def init_breaker_def)

lemma cb_inv_allow: "cb_inv cfg b s \<Longrightarrow> cb_inv cfg (snd (allow cfg s t b)) s"
  by (auto simp: cb_inv_def allow_def Let_def dict_get_def split: option.splits)

lemma cb_inv_release:
  "0 \<le> half_open_probe_count cfg \<Longrightarrow> cb_inv cfg b s \<Longrightarrow> cb_inv cfg (release_probe s b) s"
  by (auto simp: cb_inv_def release_probe_def dict_get_def split: option.splits)

lemma cb_inv_close: "cb_inv cfg (close_circuit s b) s"
  by (simp add: cb_inv_def od_simps)

lemma cb_inv_open: "cb_inv cfg b s \<Longrightarrow> cb_inv cfg (open_circuit cfg s t d b) s"
  by (auto simp: cb_inv_def od_simps reopen_at_def dict_get_def split: option.splits)

lemma cb_inv_open_without_failures:
  "cb_inv cfg b s \<Longrightarrow> cb_inv cfg (open_circuit cfg s t d (b\<lparr>cb_failures := f\<rparr>)) s"
  by (auto simp: cb_inv_def od_simps reopen_at_def dict_get_def split: option.splits)

lemma cb_inv_failures:
  "cb_inv cfg b s \<Longrightarrow> int (length fs) < failure_threshold cfg \<Longrightarrow>
   cb_inv cfg (b\<lparr>cb_failures := (cb_failures b)(s \<mapsto> fs)\<rparr>) s"
  by (auto simp: cb_inv_def split: option.splits)

lemma cb_inv_record_failure: "cb_inv cfg b s \<Longrightarrow> cb_inv cfg (record_failure cfg s t b) s"
  by (auto simp: record_failure_def Let_def cb_inv_open_without_failures cb_inv_failures)

lemma cb_inv_rate_limit:
  "cb_inv cfg b s \<Longrightarrow> open_until b s \<noteq> None \<Longrightarrow>
   cb_inv cfg (b\<lparr>cb_rate_limit_until := (cb_rate_limit_until b)(s := open_until b s)\<rparr>) s"
  by (auto simp: cb_inv_def split: option.splits)

lemma cb_inv_record:
  assumes "0 \<le> half_open_probe_count cfg" "cb_inv cfg b s"
  shows "cb_inv cfg (record_result cfg s r t1 t2 b) s"
proof -
  let ?o = "open_circuit cfg s t1 (map_option (rate_limit_delay_s cfg) (snd r)) b"
  have "open_until ?o s \<noteq> None" by (simp add: od_simps)
  from cb_inv_rate_limit[OF cb_inv_open[OF assms(2)] this]
  show ?thesis
    using assms by (auto simp: record_result_def Let_def cb_inv_close cb_inv_open cb_inv_release
        cb_inv_record_failure simp del: open_circuit_fields)
qed

lemma cb_inv_apply:
  assumes "0 \<le> half_open_probe_count cfg" "cb_inv cfg b s"
  shows "cb_inv cfg (cb_apply cfg e b) s"
proof (cases "ev_scope e = s")
  case True
  with assms show ?thesis by (cases e) (auto simp: cb_inv_allow cb_inv_record cb_inv_release)
next
  case False
  then show ?thesis using assms cb_inv_by_view[OF scope_view_apply[OF False]] by blast
qed

lemma cb_inv_run:
  "0 \<le> half_open_probe_count cfg \<Longrightarrow> cb_inv cfg b s \<Longrightarrow> cb_inv cfg (cb_run cfg evs b) s"
  by (induction evs arbitrary: b) (simp_all add: cb_inv_apply)

section \<open>Rate-limit cooldown\<close>

text \<open>The first clock reading of a call; a release takes none.\<close>

fun ev_time :: "cb_event \<Rightarrow> rat option" where
  "ev_time (EvAllow _ t) = Some t"
| "ev_time (EvRecord _ _ t1 _) = Some t1"
| "ev_time (EvRelease _) = None"

definition cooling :: "breaker \<Rightarrow> circuit_scope \<Rightarrow> rat \<Rightarrow> bool" where
  "cooling b s r \<longleftrightarrow> (\<exists>u q. open_until b s = Some u \<and> cb_rate_limit_until b s = Some q \<and> r \<le> u \<and> r \<le> q)"

lemma cooling_by_view: "scope_view b s = scope_view b' s \<Longrightarrow> cooling b s r = cooling b' s r"
  by (simp add: scope_view_def cooling_def)

lemma cooling_denies: "cooling b s r \<Longrightarrow> t < r \<Longrightarrow> \<not> fst (allow cfg s t b)"
  by (auto simp: cooling_def allow_def)

lemma cooling_starts:
  assumes "is_rate_limited res"
  shows "cooling (record_result cfg s res t1 t2 b) s (t1 + rate_limit_delay_s cfg (the (snd res)))"
  using assms
  by (cases res) (auto simp: cooling_def record_result_def is_rate_limited_def Let_def od_simps
      reopen_at_def split: option.splits)

lemma cooling_record:
  assumes "cooling b s r" "t1 < r"
  shows "cooling (record_result cfg s res t1 t2 b) s r"
proof (cases "is_rate_limited res")
  case True
  with assms show ?thesis
    by (auto simp: cooling_def record_result_def Let_def od_simps reopen_at_def dict_get_def)
next
  case False
  with assms show ?thesis by (auto simp: cooling_def record_result_def dict_get_def)
qed

lemma cooling_apply:
  assumes "cooling b s r" "\<And>t. ev_time e = Some t \<Longrightarrow> t < r"
  shows "cooling (cb_apply cfg e b) s r"
proof (cases "ev_scope e = s")
  case True
  with assms show ?thesis
    by (cases e) (auto simp: cooling_record allow_def, auto simp: cooling_def)
next
  case False
  then show ?thesis using assms(1) cooling_by_view[OF scope_view_apply[OF False]] by blast
qed

lemma cooling_run:
  "cooling b s r \<Longrightarrow> \<forall>e\<in>set evs. \<forall>t. ev_time e = Some t \<longrightarrow> t < r \<Longrightarrow> cooling (cb_run cfg evs b) s r"
  by (induction evs arbitrary: b) (simp_all add: cooling_apply)

lemma rate_limit_delay_bounds:
  assumes "0 < open_duration_s cfg" "case ei_retry_after_ms e of None \<Rightarrow> True | Some m \<Rightarrow> 0 \<le> m"
  shows "0 < rate_limit_delay_s cfg e" "rate_limit_delay_s cfg e \<le> of_int (max (open_duration_s cfg) 300)"
  using assms by (auto simp: rate_limit_delay_s_def MAX_RATE_LIMIT_BACKOFF_S_def Let_def
      split: option.splits)

section \<open>Counting failures\<close>

text \<open>A run of circuit failures of one scope at the given instants.\<close>

abbreviation failure_outcome :: outcome where
  "failure_outcome \<equiv> (ERROR, Some (mk_error TIMEOUT ''timeout''))"

definition failure_run :: "breaker_config \<Rightarrow> circuit_scope \<Rightarrow> rat list \<Rightarrow> breaker" where
  "failure_run cfg s ts = cb_run cfg (map (\<lambda>t. EvRecord s failure_outcome t t) ts) init_breaker"

definition window_count :: "breaker_config \<Rightarrow> rat list \<Rightarrow> rat \<Rightarrow> int" where
  "window_count cfg ts t = int (length (filter (\<lambda>x. t - of_int (failure_window_s cfg) \<le> x) ts))"

lemma failure_outcome_kind [simp]:
  "is_circuit_failure failure_outcome" "\<not> is_rate_limited failure_outcome"
  by (simp_all add: is_circuit_failure_def is_rate_limited_def RETRIABLE_ERROR_TYPES_def)

lemma dropWhile_sorted_filter:
  fixes xs :: "rat list"
  shows "sorted xs \<Longrightarrow> dropWhile (\<lambda>t. t < c) xs = filter (\<lambda>t. c \<le> t) xs"
proof (induction xs)
  case (Cons x xs)
  show ?case
  proof (cases "x < c")
    case False
    then have "filter (\<lambda>t. c \<le> t) xs = xs" using Cons.prems by (intro filter_True) force
    with False show ?thesis by simp
  qed (use Cons in simp)
qed simp

lemma failure_run_snoc:
  "failure_run cfg s (ts @ [t]) = record_result cfg s failure_outcome t t (failure_run cfg s ts)"
  by (simp add: failure_run_def cb_run_append)

lemma failure_run_invariant:
  assumes "sorted ts" "\<forall>i < length ts. window_count cfg (take (Suc i) ts) (ts ! i) < failure_threshold cfg"
    "0 \<le> failure_window_s cfg" "\<forall>t\<in>set ts. 0 \<le> t"
  shows "scope_view (failure_run cfg s ts) s =
     ((if ts = [] then None
       else Some (filter (\<lambda>x. last ts - of_int (failure_window_s cfg) \<le> x) ts)), None, None, None, None)"
  using assms
proof (induction ts rule: rev_induct)
  case Nil
  show ?case by (simp add: failure_run_def init_breaker_def scope_view_def)
next
  case (snoc t ts)
  let ?w = "of_int (failure_window_s cfg) :: rat"
  have pre: "\<forall>i < length ts. window_count cfg (take (Suc i) ts) (ts ! i) < failure_threshold cfg"
    using snoc.prems(2) by (auto simp: nth_append less_Suc_eq)
  have "sorted ts" and le: "\<forall>x\<in>set ts. x \<le> t" using snoc.prems(1) by (auto simp: sorted_append)
  have pos: "\<forall>x\<in>set ts. 0 \<le> x" "0 \<le> t" using snoc.prems(4) by auto
  note IH = snoc.IH[OF \<open>sorted ts\<close> pre snoc.prems(3) pos(1)]
  have small: "window_count cfg (ts @ [t]) t < failure_threshold cfg"
    using snoc.prems(2)[rule_format, of "length ts"] by simp
  have old: "dict_get (cb_failures (failure_run cfg s ts)) s [] =
      (if ts = [] then [] else filter (\<lambda>x. last ts - ?w \<le> x) ts)"
    using IH by (simp add: scope_view_def dict_get_def)
  have last_le: "ts \<noteq> [] \<Longrightarrow> last ts \<le> t" using le by simp
  have sub: "filter (\<lambda>x. t - ?w \<le> x) (filter (\<lambda>x. last ts - ?w \<le> x) ts) = filter (\<lambda>x. t - ?w \<le> x) ts"
    if "ts \<noteq> []"
    using last_le[OF that] by (auto simp: filter_filter intro!: filter_cong)
  have "sorted (dict_get (cb_failures (failure_run cfg s ts)) s [] @ [t])"
    using \<open>sorted ts\<close> le by (auto simp: old sorted_append sorted_filter[where f="\<lambda>x. x", simplified])
  then have "dropWhile (\<lambda>x. x < t - ?w) (dict_get (cb_failures (failure_run cfg s ts)) s [] @ [t]) =
      filter (\<lambda>x. t - ?w \<le> x) (ts @ [t])"
    using sub by (simp add: dropWhile_sorted_filter old del: filter_filter)
  then show ?case using IH small snoc.prems(3) pos(2)
    by (simp add: failure_run_snoc record_result_def scope_view_def record_failure_def Let_def
        window_count_def)
qed

lemma failure_keeps_open:
  "open_until b s \<noteq> None \<Longrightarrow> open_until (record_result cfg s failure_outcome t1 t2 b) s \<noteq> None"
  by (auto simp: record_result_def record_failure_def Let_def od_simps)

lemma failure_run_keeps_open:
  "open_until (failure_run cfg s ts) s \<noteq> None \<Longrightarrow> open_until (failure_run cfg s (ts @ us)) s \<noteq> None"
proof (induction us rule: rev_induct)
  case (snoc u us)
  then show ?case using failure_keeps_open[of "failure_run cfg s (ts @ us)" s cfg u u]
    by (simp add: failure_run_snoc flip: append_assoc)
qed simp

lemma failure_run_opens:
  assumes "sorted (ts @ [t])" "0 \<le> failure_window_s cfg" "\<forall>x\<in>set (ts @ [t]). 0 \<le> x"
    and pre: "\<forall>i < length ts. window_count cfg (take (Suc i) ts) (ts ! i) < failure_threshold cfg"
    and full: "window_count cfg (ts @ [t]) t \<ge> failure_threshold cfg"
  shows "open_until (failure_run cfg s (ts @ [t])) s \<noteq> None"
proof -
  let ?w = "of_int (failure_window_s cfg) :: rat"
  have st: "sorted ts" and le: "\<forall>x\<in>set ts. x \<le> t" using assms(1) by (auto simp: sorted_append)
  have pos: "\<forall>x\<in>set ts. 0 \<le> x" "0 \<le> t" using assms(3) by auto
  note inv = failure_run_invariant[OF st pre assms(2) pos(1), of s]
  let ?old = "dict_get (cb_failures (failure_run cfg s ts)) s []"
  have old: "?old = (if ts = [] then [] else filter (\<lambda>x. last ts - ?w \<le> x) ts)"
    using inv by (simp add: scope_view_def dict_get_def)
  have last_le: "ts \<noteq> [] \<Longrightarrow> last ts \<le> t" using le by simp
  have sub: "filter (\<lambda>x. t - ?w \<le> x) (filter (\<lambda>x. last ts - ?w \<le> x) ts) = filter (\<lambda>x. t - ?w \<le> x) ts"
    if "ts \<noteq> []"
    using last_le[OF that] by (auto simp: filter_filter intro!: filter_cong)
  have "sorted (?old @ [t])"
    using st le by (auto simp: old sorted_append sorted_filter[where f="\<lambda>x. x", simplified])
  then have "dropWhile (\<lambda>x. x < t - ?w) (?old @ [t]) = filter (\<lambda>x. t - ?w \<le> x) (ts @ [t])"
    using sub by (simp add: dropWhile_sorted_filter old del: filter_filter)
  then show ?thesis using inv full assms(2) pos(2)
    by (simp add: failure_run_snoc record_result_def scope_view_def record_failure_def Let_def
        window_count_def od_simps)
qed

section \<open>Properties\<close>

text \<open>C32: The circuit breaker's per-scope invariant holds after every sequence of calls on a
  fresh breaker: a scope is open or half-open exactly when it keeps an end of its open period,
  a rate-limit cooldown never outlasts the open period, the number of half-open probes in
  flight stays between 0 and the configured count, and fewer failures than the threshold are
  remembered.\<close>

theorem breaker_invariant:
  assumes "0 \<le> half_open_probe_count cfg"
  shows "cb_inv cfg (cb_run cfg evs init_breaker) s"
  by (rule cb_inv_run[OF assms cb_inv_init])

abbreviation example_cfg :: breaker_config where
  "example_cfg \<equiv> \<lparr>failure_window_s = 60, failure_threshold = 2, open_duration_s = 30,
     half_open_probe_count = 1\<rparr>"

abbreviation example_scope :: circuit_scope where
  "example_scope \<equiv> \<lparr>sc_provider = ''curve'', sc_chain_id = 1, sc_operation = ''price''\<rparr>"

theorem breaker_invariant_witness:
  "cb_inv example_cfg (cb_run example_cfg [EvRecord example_scope failure_outcome 1 1,
     EvRecord example_scope failure_outcome 2 2, EvAllow example_scope 40] init_breaker) example_scope"
  by (rule breaker_invariant) simp

text \<open>C30: A rate-limited result starts a cooldown that nothing shortens: whatever calls follow
  on any scope (successes reported late included), as long as their clock readings lie before
  the end of the delay the result asked for, every call on that scope is denied.\<close>

theorem rate_limit_cooldown_sticky:
  assumes "is_rate_limited res"
    and "r = t1 + rate_limit_delay_s cfg (the (snd res))"
    and "\<forall>e \<in> set evs. \<forall>u. ev_time e = Some u \<longrightarrow> u < r"
    and "t < r"
  shows "\<not> fst (allow cfg s t (cb_run cfg evs (record_result cfg s res t1 t2 b)))"
  using cooling_denies[OF cooling_run[OF cooling_starts[OF assms(1)]]] assms(2-) by blast

theorem rate_limit_cooldown_sticky_witness:
  "\<not> fst (allow example_cfg example_scope 25
      (cb_run example_cfg [EvRecord example_scope (OK, None) 20 20]
        (record_result example_cfg example_scope
          (ERROR, Some \<lparr>ei_type = RATE_LIMITED, ei_message = ''429'', ei_code = Some 429,
             ei_retry_after_ms = None\<rparr>) 10 10 init_breaker)))"
  by (rule rate_limit_cooldown_sticky[where r = 40])
     (simp_all add: is_rate_limited_def rate_limit_delay_s_def MAX_RATE_LIMIT_BACKOFF_S_def)

text \<open>C31: On a fresh scope, a run of circuit failures opens the circuit exactly when, for one of
  them, at least \<open>failure_threshold\<close> failures lie within the \<open>failure_window_s\<close> seconds that end
  at it.\<close>

theorem opens_iff_threshold_reached:
  assumes "sorted ts" "0 \<le> failure_window_s cfg" "\<forall>t\<in>set ts. 0 \<le> t"
  shows "open_until (failure_run cfg s ts) s \<noteq> None \<longleftrightarrow>
    (\<exists>i < length ts. failure_threshold cfg \<le> window_count cfg (take (Suc i) ts) (ts ! i))"
proof
  assume op: "open_until (failure_run cfg s ts) s \<noteq> None"
  show "\<exists>i < length ts. failure_threshold cfg \<le> window_count cfg (take (Suc i) ts) (ts ! i)"
    using failure_run_invariant[OF assms(1) _ assms(2,3), of s] op
    by (force simp: scope_view_def not_le)
next
  let ?P = "\<lambda>i. i < length ts \<and> failure_threshold cfg \<le> window_count cfg (take (Suc i) ts) (ts ! i)"
  assume "\<exists>i < length ts. failure_threshold cfg \<le> window_count cfg (take (Suc i) ts) (ts ! i)"
  then obtain i where i: "?P i" "\<forall>j<i. \<not> ?P j" using exists_least_iff[of ?P] by blast
  have sp: "take i ts @ [ts ! i] = take (Suc i) ts" using i(1) by (simp add: take_Suc_conv_app_nth)
  have "open_until (failure_run cfg s (take i ts @ [ts ! i])) s \<noteq> None"
  proof (rule failure_run_opens)
    show "sorted (take i ts @ [ts ! i])" unfolding sp using assms(1) by (rule sorted_wrt_take)
    show "failure_threshold cfg \<le> window_count cfg (take i ts @ [ts ! i]) (ts ! i)"
      unfolding sp using i(1) by simp
    show "\<forall>j < length (take i ts). window_count cfg (take (Suc j) (take i ts)) (take i ts ! j) < failure_threshold cfg"
      using i by (auto simp: not_le min_def)
    show "\<forall>x \<in> set (take i ts @ [ts ! i]). 0 \<le> x"
      unfolding sp using assms(3) by (auto dest: in_set_takeD)
  qed (rule assms(2))
  from failure_run_keeps_open[OF this, of "drop (Suc i) ts"]
  show "open_until (failure_run cfg s ts) s \<noteq> None" unfolding sp by simp
qed

theorem opens_iff_threshold_reached_witness:
  "open_until (failure_run example_cfg example_scope [1, 50]) example_scope \<noteq> None
   \<and> open_until (failure_run example_cfg example_scope [1, 70]) example_scope = None"
  using opens_iff_threshold_reached[of "[1, 50]" example_cfg example_scope]
    opens_iff_threshold_reached[of "[1, 70]" example_cfg example_scope]
  by (simp add: window_count_def less_Suc_eq conj_disj_distribR ex_disj_distrib)

text \<open>What a result does to a half-open scope that is not in a cooldown: a circuit failure
  reopens it for at least the open duration; a success, a missing route or a rejected request
  closes it and forgets everything kept of it; any other result only gives a probe back.\<close>

theorem half_open_outcome:
  assumes "cb_state b s = Some Half_Open" "\<not> is_rate_limited res"
    and "dict_get (cb_rate_limit_until b) s 0 \<le> t1"
    and "b' = record_result cfg s res t1 t2 b"
  shows "if is_circuit_failure res then
           cb_state b' s = Some Open \<and> open_until b' s = Some (reopen_at cfg s t2 None b)
           \<and> t2 + of_int (open_duration_s cfg) \<le> reopen_at cfg s t2 None b
         else if fst res \<in> {OK, NO_ROUTE, BAD_REQUEST} then
           scope_view b' s = (None, None, None, None, Some Closed)
         else scope_view b' s = (cb_failures b s, open_until b s, cb_rate_limit_until b s,
           Some (max (dict_get (cb_half_open_inflight b) s 1 - 1) 0), Some Half_Open)"
proof -
  have "reopen_at cfg s t2 None (release_probe s b) = reopen_at cfg s t2 None b"
    by (simp add: reopen_at_def)
  then show ?thesis using assms
    by (auto simp: record_result_def Let_def scope_view_def od_simps)
       (simp_all add: reopen_at_def release_probe_def)
qed

theorem half_open_outcome_witness:
  "scope_view (record_result example_cfg example_scope (OK, None) 40 40
     (cb_run example_cfg [EvRecord example_scope failure_outcome 1 1,
       EvRecord example_scope failure_outcome 2 2, EvAllow example_scope 35] init_breaker)) example_scope
   = (None, None, None, None, Some Closed)"
  using half_open_outcome[where cfg = example_cfg and s = example_scope and res = "(OK, None)"
      and ?t1.0 = 40 and ?t2.0 = 40, OF _ _ _ refl, of "cb_run example_cfg [EvRecord example_scope failure_outcome 1 1,
       EvRecord example_scope failure_outcome 2 2, EvAllow example_scope 35] init_breaker"]
  by (simp add: is_circuit_failure_def is_rate_limited_def init_breaker_def record_result_def
      record_failure_def allow_def Let_def od_simps RETRIABLE_ERROR_TYPES_def reopen_at_def)

text \<open>Scopes do not influence each other: whatever happens on other scopes, a call on a
  scope is allowed or denied as if they had not happened.\<close>

theorem scopes_isolated:
  assumes "\<forall>e \<in> set evs. ev_scope e \<noteq> s"
  shows "fst (allow cfg s t (cb_run cfg evs b)) = fst (allow cfg s t b)"
  by (rule allow_by_view[OF scope_view_run[OF assms]])

theorem scopes_isolated_witness:
  "fst (allow example_cfg example_scope 9 (cb_run example_cfg
     [EvRecord (example_scope\<lparr>sc_chain_id := 10\<rparr>) failure_outcome 1 1,
      EvRecord (example_scope\<lparr>sc_chain_id := 10\<rparr>) failure_outcome 2 2] init_breaker))
   = fst (allow example_cfg example_scope 9 init_breaker)"
  by (rule scopes_isolated) simp

text \<open>A release by a call that was admitted while the circuit was still closed takes a probe
  slot it does not hold: with one probe allowed, a second one is admitted while the first is
  still in flight.\<close>

theorem stale_release_admits_extra_probe:
  "let b = cb_run example_cfg [EvAllow example_scope 0,
             EvRecord example_scope failure_outcome 1 1, EvRecord example_scope failure_outcome 2 2]
             init_breaker;
       (first_probe, b1) = allow example_cfg example_scope 33 b;
       (second_probe, b2) = allow example_cfg example_scope 34 (release_probe example_scope b1)
   in first_probe \<and> second_probe \<and> \<not> fst (allow example_cfg example_scope 34 b1)"
  by (simp add: is_circuit_failure_def is_rate_limited_def init_breaker_def record_result_def
      record_failure_def allow_def release_probe_def Let_def od_simps RETRIABLE_ERROR_TYPES_def
      reopen_at_def dict_get_def)

end
