(* ===== verification/Capacity.thy ===== *)
theory Capacity
  imports Prelude
begin

text \<open>
  The weighted limiters (\<open>core/limits.py\<close>). A \<open>WeightedLimiter\<close> is its capacity and the
  units in use; a \<open>LimitReservation\<close> its units and its \<open>_released\<close> flag. \<open>try_acquire\<close>
  suspends only in \<open>self._condition.wait()\<close>, so it is the code up to that point
  (\<open>try_acquire_start\<close>) and the code a wake-up runs (\<open>try_acquire_resume\<close>); the code between
  two suspensions runs without interruption. \<open>lim_step\<close> interleaves any number of callers of
  one limiter: calls, wake-ups after \<open>notify_all\<close>, time-outs of \<open>wait_for\<close>, cancellations
  and releases. Clock readings are rationals in seconds.
\<close>

named_theorems lim_defs \<open>unfolding rules of the limiter's methods\<close>

section \<open>State and operations\<close>

record limiter =
  lim_capacity :: int
  lim_used :: int

record reservation =
  rsv_units :: int
  rsv_released :: bool

definition WeightedLimiter :: "int \<Rightarrow> limiter res" where
  "WeightedLimiter capacity =
     (if capacity \<le> 0 then Inl (ValueError ''capacity must be > 0'')
      else Inr \<lparr>lim_capacity = capacity, lim_used = 0\<rparr>)"

text \<open>What \<open>try_acquire\<close> does next: return a reservation, return \<open>None\<close>, or wait.\<close>

datatype acquire_state =
    Acquired (acq_reservation: reservation)
  | Refused
  | Suspended (acq_remaining: rat)

definition acquire_loop ::
    "int \<Rightarrow> int \<Rightarrow> rat \<Rightarrow> rat \<Rightarrow> limiter \<Rightarrow> acquire_state \<times> limiter" where [lim_defs]:
  "acquire_loop units timeout_ms deadline now l =
     (if lim_used l + units > lim_capacity l then
        (if timeout_ms \<le> 0 then (Refused, l)
         else let remaining = deadline - now
              in if remaining \<le> 0 then (Refused, l) else (Suspended remaining, l))
      else (Acquired \<lparr>rsv_units = units, rsv_released = False\<rparr>, l\<lparr>lim_used := lim_used l + units\<rparr>))"

definition acquire_deadline :: "int \<Rightarrow> rat \<Rightarrow> rat" where [lim_defs]:
  "acquire_deadline timeout_ms now = now + of_int (max timeout_ms 0) / 1000"

definition try_acquire_start ::
    "int \<Rightarrow> int \<Rightarrow> rat \<Rightarrow> rat \<Rightarrow> limiter \<Rightarrow> acquire_state \<times> limiter" where [lim_defs]:
  "try_acquire_start units timeout_ms t0 t1 l =
     (if units \<le> 0 then (Acquired \<lparr>rsv_units = 0, rsv_released = False\<rparr>, l)
      else if units > lim_capacity l then (Refused, l)
      else acquire_loop units timeout_ms (acquire_deadline timeout_ms t0) t1 l)"

definition try_acquire_resume ::
    "int \<Rightarrow> int \<Rightarrow> rat \<Rightarrow> rat \<Rightarrow> limiter \<Rightarrow> acquire_state \<times> limiter" where
  "try_acquire_resume = acquire_loop"

text \<open>
  A whole call, on a limiter that is part of a larger state (read by \<open>get\<close>, written by
  \<open>put\<close>): while it waits, others change that state, and the wait ends by a notification, by
  the \<open>TimeoutError\<close> of \<open>wait_for\<close> (at the latest when the list of wake-ups is used up, since
  the time-out is finite) or by the cancellation of the task.
\<close>

datatype 's wake =
    Woken (wk_others: "'s \<Rightarrow> 's") rat
  | Timed_out (wk_others: "'s \<Rightarrow> 's")
  | Wait_cancelled (wk_others: "'s \<Rightarrow> 's")

fun acquire_wakes :: "('s \<Rightarrow> limiter) \<Rightarrow> (limiter \<Rightarrow> 's \<Rightarrow> 's) \<Rightarrow> int \<Rightarrow> int \<Rightarrow> rat \<Rightarrow> acquire_state
    \<Rightarrow> 's wake list \<Rightarrow> 's \<Rightarrow> reservation option res \<times> 's" where
  "acquire_wakes get put units timeout_ms deadline (Acquired r) wakes s = (Inr (Some r), s)"
| "acquire_wakes get put units timeout_ms deadline Refused wakes s = (Inr None, s)"
| "acquire_wakes get put units timeout_ms deadline (Suspended _) [] s = (Inr None, s)"
| "acquire_wakes get put units timeout_ms deadline (Suspended _) (Timed_out f # wakes) s = (Inr None, f s)"
| "acquire_wakes get put units timeout_ms deadline (Suspended _) (Wait_cancelled f # wakes) s =
     (Inl CancelledError, f s)"
| "acquire_wakes get put units timeout_ms deadline (Suspended _) (Woken f now # wakes) s =
     (let (a, l) = try_acquire_resume units timeout_ms deadline now (get (f s))
      in acquire_wakes get put units timeout_ms deadline a wakes (put l (f s)))"

definition try_acquire :: "('s \<Rightarrow> limiter) \<Rightarrow> (limiter \<Rightarrow> 's \<Rightarrow> 's) \<Rightarrow> int \<Rightarrow> int \<Rightarrow> rat \<times> rat
    \<Rightarrow> 's wake list \<Rightarrow> 's \<Rightarrow> reservation option res \<times> 's" where
  "try_acquire get put units timeout_ms clock wakes s =
     (let (a, l) = try_acquire_start units timeout_ms (fst clock) (snd clock) (get s)
      in acquire_wakes get put units timeout_ms (acquire_deadline timeout_ms (fst clock)) a wakes (put l s))"

definition lim_release :: "int \<Rightarrow> limiter \<Rightarrow> limiter" where [lim_defs]:
  "lim_release units l = (if units \<le> 0 then l else l\<lparr>lim_used := max 0 (lim_used l - units)\<rparr>)"

definition rsv_release :: "reservation \<Rightarrow> limiter \<Rightarrow> reservation \<times> limiter" where [lim_defs]:
  "rsv_release r l =
     (if rsv_released r then (r, l)
      else (r\<lparr>rsv_released := True\<rparr>, lim_release (rsv_units r) l))"

section \<open>The limiters of a process\<close>

record capacity_limiters =
  global_limiter :: limiter
  per_provider_units :: int
  provider_limiters :: "(string, limiter) odict"

definition CapacityLimiters :: "int \<Rightarrow> int \<Rightarrow> capacity_limiters res" where
  "CapacityLimiters global_units provider_units =
     rbind (WeightedLimiter global_units) (\<lambda>g.
       Inr \<lparr>global_limiter = g, per_provider_units = provider_units, provider_limiters = []\<rparr>)"

definition limiter_key :: "string \<Rightarrow> string" where
  "limiter_key provider_id = (if provider_id = [] then ''unknown'' else provider_id)"

definition provider_limiter ::
    "string \<Rightarrow> capacity_limiters \<Rightarrow> (limiter \<times> capacity_limiters) res" where
  "provider_limiter provider_id c =
     (case map_of (provider_limiters c) (limiter_key provider_id) of
        Some l \<Rightarrow> Inr (l, c)
      | None \<Rightarrow> rbind (WeightedLimiter (per_provider_units c)) (\<lambda>l.
          Inr (l, c\<lparr>provider_limiters :=
                     AList.update (limiter_key provider_id) l (provider_limiters c)\<rparr>)))"

text \<open>Mutation of a provider's limiter through the shared object.\<close>

definition set_provider_limiter :: "string \<Rightarrow> limiter \<Rightarrow> capacity_limiters \<Rightarrow> capacity_limiters" where
  "set_provider_limiter provider_id l c =
     c\<lparr>provider_limiters := AList.update (limiter_key provider_id) l (provider_limiters c)\<rparr>"

definition provider_used_units :: "capacity_limiters \<Rightarrow> int" where
  "provider_used_units c = sum_list (map (\<lambda>e. lim_used (snd e)) (provider_limiters c))"

section \<open>Interleaved callers of one limiter\<close>

datatype caller =
    Waiting (w_units: int) (w_timeout_ms: int) (w_deadline: rat) (w_notified: bool)
  | Holding (h_reservation: reservation)
  | Finished

record lim_sys =
  ls_limiter :: limiter
  ls_callers :: "caller list"

fun caller_after :: "int \<Rightarrow> int \<Rightarrow> rat \<Rightarrow> acquire_state \<Rightarrow> caller" where
  "caller_after units timeout_ms deadline (Acquired r) = Holding r"
| "caller_after units timeout_ms deadline Refused = Finished"
| "caller_after units timeout_ms deadline (Suspended _) = Waiting units timeout_ms deadline False"

text \<open>\<open>notify_all\<close>, which \<open>_release\<close> calls when it gives units back.\<close>

fun notify :: "caller \<Rightarrow> caller" where
  "notify (Waiting u m d _) = Waiting u m d True"
| "notify c = c"

inductive lim_step :: "lim_sys \<Rightarrow> lim_sys \<Rightarrow> bool" where
  call: "try_acquire_start units timeout_ms t0 t1 (ls_limiter s) = (a, l) \<Longrightarrow>
    lim_step s (s\<lparr>ls_limiter := l,
      ls_callers := ls_callers s @ [caller_after units timeout_ms (acquire_deadline timeout_ms t0) a]\<rparr>)"
| wake: "i < length (ls_callers s) \<Longrightarrow> ls_callers s ! i = Waiting units timeout_ms deadline True \<Longrightarrow>
    try_acquire_resume units timeout_ms deadline now (ls_limiter s) = (a, l) \<Longrightarrow>
    lim_step s (s\<lparr>ls_limiter := l,
      ls_callers := (ls_callers s)[i := caller_after units timeout_ms deadline a]\<rparr>)"
| wait_ends: "i < length (ls_callers s) \<Longrightarrow> ls_callers s ! i = Waiting units timeout_ms deadline n \<Longrightarrow>
    lim_step s (s\<lparr>ls_callers := (ls_callers s)[i := Finished]\<rparr>)"
| release: "i < length (ls_callers s) \<Longrightarrow> ls_callers s ! i = Holding r \<Longrightarrow>
    rsv_release r (ls_limiter s) = (r', l) \<Longrightarrow>
    lim_step s (s\<lparr>ls_limiter := l,
      ls_callers := (if rsv_released r \<or> rsv_units r \<le> 0 then (ls_callers s)[i := Holding r']
                     else map notify ((ls_callers s)[i := Holding r']))\<rparr>)"

inductive_cases lim_stepE: "lim_step s s'"

definition fresh_sys :: "limiter \<Rightarrow> lim_sys" where
  "fresh_sys l = \<lparr>ls_limiter = l, ls_callers = []\<rparr>"

section \<open>Invariant of the interleavings\<close>

fun held_units :: "caller \<Rightarrow> int" where
  "held_units (Holding r) = (if rsv_released r then 0 else rsv_units r)"
| "held_units _ = 0"

fun caller_ok :: "limiter \<Rightarrow> caller \<Rightarrow> bool" where
  "caller_ok l (Holding r) = (0 \<le> rsv_units r)"
| "caller_ok l (Waiting units _ _ n) = (0 < units \<and> units \<le> lim_capacity l
     \<and> (n \<or> lim_used l + units > lim_capacity l))"
| "caller_ok l Finished = True"

definition lim_inv :: "int \<Rightarrow> lim_sys \<Rightarrow> bool" where
  "lim_inv capacity s \<longleftrightarrow>
     lim_capacity (ls_limiter s) = capacity
   \<and> lim_used (ls_limiter s) = sum_list (map held_units (ls_callers s))
   \<and> lim_used (ls_limiter s) \<le> capacity
   \<and> (\<forall>c \<in> set (ls_callers s). caller_ok (ls_limiter s) c)"

lemma held_units_nonneg: "caller_ok l c \<Longrightarrow> 0 \<le> held_units c"
  by (cases c) auto

lemma held_units_notify [simp]: "held_units (notify c) = held_units c"
  by (cases c) auto

lemma caller_ok_notify:
  "caller_ok l c \<Longrightarrow> lim_capacity l' = lim_capacity l \<Longrightarrow> caller_ok l' (notify c)"
  by (cases c) auto

lemma caller_ok_grows:
  "caller_ok l c \<Longrightarrow> lim_capacity l' = lim_capacity l \<Longrightarrow> lim_used l \<le> lim_used l' \<Longrightarrow> caller_ok l' c"
  by (cases c) auto

lemma sum_list_update_int:
  fixes f :: "'a \<Rightarrow> int"
  shows "i < length xs \<Longrightarrow> sum_list (map f (xs[i := y])) = sum_list (map f xs) + f y - f (xs ! i)"
  by (induction xs arbitrary: i) (auto split: nat.splits)

lemma held_le_sum:
  assumes "\<forall>c \<in> set cs. caller_ok l c" "i < length cs"
  shows "held_units (cs ! i) \<le> sum_list (map held_units cs)"
  using assms by (intro member_le_sum_list) (auto intro: held_units_nonneg)

text \<open>The code between two suspensions, seen from the limiter.\<close>

lemma acquire_loop_effect:
  assumes "acquire_loop units timeout_ms deadline now l = (a, l')" "0 < units"
    "lim_used l \<le> lim_capacity l" "units \<le> lim_capacity l"
  shows "lim_capacity l' = lim_capacity l" "lim_used l' \<le> lim_capacity l"
    "lim_used l' = lim_used l + held_units (caller_after units timeout_ms deadline a)"
    "caller_ok l' (caller_after units timeout_ms deadline a)"
  using assms by (auto simp: acquire_loop_def Let_def split: if_splits)

lemma try_acquire_start_effect:
  assumes "try_acquire_start units timeout_ms t0 t1 l = (a, l')" "lim_used l \<le> lim_capacity l"
  shows "lim_capacity l' = lim_capacity l" "lim_used l' \<le> lim_capacity l"
    "lim_used l' = lim_used l + held_units (caller_after units timeout_ms (acquire_deadline timeout_ms t0) a)"
    "caller_ok l' (caller_after units timeout_ms (acquire_deadline timeout_ms t0) a)"
  using assms acquire_loop_effect[of units timeout_ms "acquire_deadline timeout_ms t0" t1 l a l']
  by (auto simp: try_acquire_start_def split: if_splits)

lemma lim_inv_extend:
  assumes "lim_inv cap s" "lim_capacity l = cap" "lim_used l \<le> cap"
    "lim_used l = lim_used (ls_limiter s) + held_units c" "caller_ok l c"
  shows "lim_inv cap (s\<lparr>ls_limiter := l, ls_callers := ls_callers s @ [c]\<rparr>)"
  using assms held_units_nonneg[OF assms(5)]
  by (auto simp: lim_inv_def intro: caller_ok_grows)

lemma lim_inv_replace:
  assumes "lim_inv cap s" "i < length (ls_callers s)" "held_units (ls_callers s ! i) = 0"
    "lim_capacity l = cap" "lim_used l \<le> cap" "lim_used l = lim_used (ls_limiter s) + held_units c"
    "caller_ok l c"
  shows "lim_inv cap (s\<lparr>ls_limiter := l, ls_callers := (ls_callers s)[i := c]\<rparr>)"
  using assms held_units_nonneg[OF assms(7)]
  by (auto simp: lim_inv_def sum_list_update_int dest!: subsetD[OF set_update_subset_insert]
      intro: caller_ok_grows)

lemma lim_inv_step:
  assumes "lim_step s s'" "lim_inv cap s"
  shows "lim_inv cap s'"
  using assms
proof (cases rule: lim_step.cases)
  case (call units timeout_ms t0 t1 a l)
  with assms(2) try_acquire_start_effect[OF call(2)] show ?thesis
    unfolding call(1) by (intro lim_inv_extend) (auto simp: lim_inv_def)
next
  case (wake i units timeout_ms deadline now a l)
  have "caller_ok (ls_limiter s) (ls_callers s ! i)" using assms(2) wake(2) by (auto simp: lim_inv_def)
  then have "0 < units" "units \<le> lim_capacity (ls_limiter s)" using wake(3) by auto
  with assms(2) wake acquire_loop_effect[OF wake(4)[unfolded try_acquire_resume_def]] show ?thesis
    unfolding wake(1) by (intro lim_inv_replace) (auto simp: lim_inv_def)
next
  case (wait_ends i units timeout_ms deadline n)
  then show ?thesis using lim_inv_replace[OF assms(2) wait_ends(2), of "ls_limiter s" Finished] assms(2)
    by (auto simp: lim_inv_def)
next
  case (release i r r' l)
  let ?cs = "(ls_callers s)[i := Holding r']"
  have ok: "caller_ok (ls_limiter s) (Holding r)"
    using assms(2) release(2,3) unfolding lim_inv_def by (metis nth_mem)
  show ?thesis
  proof (cases "rsv_released r \<or> rsv_units r \<le> 0")
    case True
    with release(4) ok have "l = ls_limiter s" "held_units (Holding r') = 0" "held_units (Holding r) = 0"
      "caller_ok l (Holding r')"
      by (auto simp: rsv_release_def lim_release_def split: if_splits)
    moreover have "s' = s\<lparr>ls_limiter := l, ls_callers := ?cs\<rparr>" using True release(1) by simp
    ultimately show ?thesis
      using lim_inv_replace[OF assms(2) release(2), of l "Holding r'"] assms(2) release(3)
      by (simp add: lim_inv_def)
  next
    case False
    with release(4) have r': "r' = r\<lparr>rsv_released := True\<rparr>"
      and l: "l = (ls_limiter s)\<lparr>lim_used := max 0 (lim_used (ls_limiter s) - rsv_units r)\<rparr>"
      by (auto simp: rsv_release_def lim_release_def)
    have "rsv_units r \<le> lim_used (ls_limiter s)"
      using held_le_sum[of "ls_callers s" "ls_limiter s" i] assms(2) release(2,3) False
      by (simp add: lim_inv_def)
    then have below: "lim_used l \<le> cap" using assms(2) False by (simp add: l lim_inv_def)
    have used: "lim_used l = sum_list (map held_units ?cs)"
      using assms(2) release(2,3) False \<open>rsv_units r \<le> lim_used (ls_limiter s)\<close>
      by (simp add: l r' lim_inv_def sum_list_update_int)
    have "caller_ok l c" if "c \<in> notify ` set ?cs" for c
      using that assms(2) ok release(2)
      by (auto simp: lim_inv_def l r' dest!: subsetD[OF set_update_subset_insert]
          intro!: caller_ok_notify[of "ls_limiter s"])
    then have all: "\<forall>c \<in> set (map notify ?cs). caller_ok l c" by simp
    have "lim_capacity l = cap" using assms(2) by (simp add: l lim_inv_def)
    moreover have "sum_list (map held_units (map notify ?cs)) = sum_list (map held_units ?cs)"
      by (simp add: comp_def)
    moreover have "s' = s\<lparr>ls_limiter := l, ls_callers := map notify ?cs\<rparr>" using False release(1) by simp
    ultimately show ?thesis using all below used by (simp add: lim_inv_def del: map_map set_map)
  qed
qed

lemma lim_inv_reachable:
  "lim_step\<^sup>*\<^sup>* s s' \<Longrightarrow> lim_inv cap s \<Longrightarrow> lim_inv cap s'"
  by (induction rule: rtranclp_induct) (auto intro: lim_inv_step)

section \<open>What a call grants\<close>

lemma acquire_wakes_grant:
  assumes "acquire_wakes get put units timeout_ms deadline a wakes s = (Inr (Some r), s')"
    "\<And>x. a = Acquired x \<Longrightarrow> rsv_units x = units \<and> \<not> rsv_released x"
  shows "rsv_units r = units \<and> \<not> rsv_released r"
  using assms
proof (induction get put units timeout_ms deadline a wakes s rule: acquire_wakes.induct)
  case (6 get put units timeout_ms deadline rem f now wakes s)
  obtain a l where al: "try_acquire_resume units timeout_ms deadline now (get (f s)) = (a, l)" by fastforce
  show ?case
  proof (rule 6(1)[OF al[symmetric] refl])
    show "acquire_wakes get put units timeout_ms deadline a wakes (put l (f s)) = (Inr (Some r), s')"
      using 6(2) al by simp
    show "rsv_units x = units \<and> \<not> rsv_released x" if "a = Acquired x" for x
      using al that by (auto simp: try_acquire_resume_def acquire_loop_def Let_def split: if_splits)
  qed
qed auto

lemma try_acquire_grant:
  assumes "try_acquire get put units timeout_ms clock wakes s = (Inr (Some r), s')" "0 < units"
  shows "rsv_units r = units \<and> \<not> rsv_released r"
proof -
  obtain a l where al: "try_acquire_start units timeout_ms (fst clock) (snd clock) (get s) = (a, l)"
    by fastforce
  show ?thesis
  proof (rule acquire_wakes_grant)
    show "acquire_wakes get put units timeout_ms (acquire_deadline timeout_ms (fst clock)) a wakes (put l s)
        = (Inr (Some r), s')" using assms(1) al by (simp add: try_acquire_def)
    show "rsv_units x = units \<and> \<not> rsv_released x" if "a = Acquired x" for x
      using al that assms(2)
      by (auto simp: try_acquire_start_def acquire_loop_def Let_def split: if_splits)
  qed
qed

text \<open>When nobody else acts while the call waits, it changes the state only by what it is granted.\<close>

definition quiet :: "'s wake list \<Rightarrow> bool" where
  "quiet wakes \<longleftrightarrow> (\<forall>w \<in> set wakes. wk_others w = (\<lambda>s. s))"

lemma quiet_simps [simp]:
  "quiet []" "quiet (w # ws) \<longleftrightarrow> wk_others w = (\<lambda>s. s) \<and> quiet ws"
  by (auto simp: quiet_def)

definition granted_units :: "reservation option res \<Rightarrow> int" where
  "granted_units r = (case r of Inr (Some x) \<Rightarrow> rsv_units x | _ \<Rightarrow> 0)"

lemma granted_units_simps [simp]:
  "granted_units (Inr (Some x)) = rsv_units x" "granted_units (Inr None) = 0" "granted_units (Inl e) = 0"
  by (simp_all add: granted_units_def)

definition add_used :: "int \<Rightarrow> limiter \<Rightarrow> limiter" where
  "add_used n l = l\<lparr>lim_used := lim_used l + n\<rparr>"

lemma add_used_0 [simp]: "add_used 0 l = l"
  by (simp add: add_used_def)

lemma acquire_loop_quiet:
  "acquire_loop units timeout_ms deadline now l = (a, l') \<Longrightarrow>
   (\<exists>x. a = Acquired x \<and> l' = add_used (rsv_units x) l) \<or> ((a = Refused \<or> (\<exists>rem. a = Suspended rem)) \<and> l' = l)"
  by (auto simp: acquire_loop_def add_used_def Let_def split: if_splits)

lemma acquire_wakes_quiet:
  assumes "put (get s) s = s" "quiet wakes" "\<forall>x. a \<noteq> Acquired x"
    "acquire_wakes get put units timeout_ms deadline a wakes s = (res, s')"
  shows "s' = put (add_used (granted_units res) (get s)) s"
  using assms(2-)
proof (induction wakes arbitrary: a)
  case Nil
  then show ?case using assms(1) by (cases a) auto
next
  case (Cons w ws)
  show ?case
  proof (cases "\<exists>now rem. w = Woken (\<lambda>s. s) now \<and> a = Suspended rem")
    case True
    then obtain now rem where w: "w = Woken (\<lambda>s. s) now" "a = Suspended rem" by blast
    obtain b l where bl: "acquire_loop units timeout_ms deadline now (get s) = (b, l)" by fastforce
    then have run: "acquire_wakes get put units timeout_ms deadline b ws (put l s) = (res, s')"
      using Cons.prems(3) w by (simp add: try_acquire_resume_def)
    from acquire_loop_quiet[OF bl] show ?thesis
    proof (elim disjE exE conjE)
      fix x assume "b = Acquired x" "l = add_used (rsv_units x) (get s)"
      then show ?thesis using run by auto
    next
      assume "b = Refused" "l = get s"
      then show ?thesis using run assms(1) by auto
    next
      fix r assume "l = get s" "b = Suspended r"
      then show ?thesis using run assms(1) Cons.IH[of b] Cons.prems(1) by simp
    qed
  next
    case False
    then show ?thesis using Cons.prems assms(1) by (cases a; cases w) auto
  qed
qed

lemma try_acquire_quiet:
  assumes "put (get s) s = s" "quiet wakes"
    "try_acquire get put units timeout_ms clock wakes s = (res, s')"
  shows "s' = put (add_used (granted_units res) (get s)) s"
proof -
  obtain a l where al: "try_acquire_start units timeout_ms (fst clock) (snd clock) (get s) = (a, l)"
    by fastforce
  have run: "acquire_wakes get put units timeout_ms (acquire_deadline timeout_ms (fst clock)) a wakes (put l s)
      = (res, s')" using assms(3) al by (simp add: try_acquire_def)
  from al have "(\<exists>x. a = Acquired x \<and> l = add_used (rsv_units x) (get s))
      \<or> ((a = Refused \<or> (\<exists>rem. a = Suspended rem)) \<and> l = get s)"
    by (auto simp: try_acquire_start_def dest: acquire_loop_quiet split: if_splits)
  then show ?thesis
  proof (elim disjE)
    assume "\<exists>x. a = Acquired x \<and> l = add_used (rsv_units x) (get s)"
    then show ?thesis using run by auto
  next
    assume *: "(a = Refused \<or> (\<exists>rem. a = Suspended rem)) \<and> l = get s"
    then have "\<forall>x. a \<noteq> Acquired x" by auto
    from acquire_wakes_quiet[where get = get and put = put, OF assms(1,2) this, of units timeout_ms] run *
    show ?thesis by (auto simp: assms(1))
  qed
qed

section \<open>Pools of units\<close>

text \<open>
  The contract of a pool of units, as its clients see it: \<open>take n\<close> either leaves the pool
  alone or grants \<open>n\<close> units, and \<open>give\<close> puts back what was granted.
\<close>

locale unit_pool =
  fixes take_units :: "int \<Rightarrow> 'p \<Rightarrow> bool \<times> 'p"
    and give_units :: "int \<Rightarrow> 'p \<Rightarrow> 'p"
    and in_use :: "'p \<Rightarrow> int"
    and pool_ok :: "'p \<Rightarrow> bool"
  assumes take_ok: "pool_ok p \<Longrightarrow> pool_ok (snd (take_units n p))"
    and take_granted: "pool_ok p \<Longrightarrow> fst (take_units n p) \<Longrightarrow>
      in_use (snd (take_units n p)) = in_use p + max 0 n"
    and take_refused: "\<not> fst (take_units n p) \<Longrightarrow> snd (take_units n p) = p"
    and give_ok: "pool_ok p \<Longrightarrow> pool_ok (give_units n p)"
    and give_back: "pool_ok p \<Longrightarrow> max 0 n \<le> in_use p \<Longrightarrow> in_use (give_units n p) = in_use p - max 0 n"
    and ok_nonneg: "pool_ok p \<Longrightarrow> 0 \<le> in_use p"
begin

text \<open>Taking a list of amounts in turn, keeping those granted.\<close>

fun take_all :: "int list \<Rightarrow> 'p \<Rightarrow> int list \<times> 'p" where
  "take_all [] p = ([], p)"
| "take_all (n # ns) p =
     (let (g, p1) = take_units n p; (gs, p2) = take_all ns p1
      in (if g then n # gs else gs, p2))"

lemma take_all_in_use:
  "pool_ok p \<Longrightarrow> take_all ns p = (gs, p') \<Longrightarrow>
   pool_ok p' \<and> in_use p' = in_use p + sum_list (map (max 0) gs)"
proof (induction ns arbitrary: p gs p')
  case (Cons n ns)
  obtain g p1 where t: "take_units n p = (g, p1)" by fastforce
  obtain hs p2 where a: "take_all ns p1 = (hs, p2)" by fastforce
  have "pool_ok p1" using take_ok[OF Cons.prems(1), of n] t by simp
  with Cons.IH[OF this a] Cons.prems t a take_granted[OF Cons.prems(1), of n] take_refused[of n p]
  show ?case by (cases g) (auto simp: Let_def)
qed simp

lemma give_all_in_use:
  "pool_ok p \<Longrightarrow> sum_list (map (max 0) ns) \<le> in_use p \<Longrightarrow>
   pool_ok (fold give_units ns p) \<and> in_use (fold give_units ns p) = in_use p - sum_list (map (max 0) ns)"
proof (induction ns arbitrary: p)
  case (Cons n ns)
  have nn: "0 \<le> sum_list (map (max 0) ns)" by (rule sum_list_nonneg) auto
  then have le: "max 0 n \<le> in_use p" using Cons.prems(2) by (simp del: max.bounded_iff)
  note g = give_back[OF Cons.prems(1) le]
  have "sum_list (map (max 0) ns) \<le> in_use (give_units n p)" using g Cons.prems(2) by simp
  from Cons.IH[OF give_ok[OF Cons.prems(1)] this] g show ?case by simp
qed simp

lemma balanced:
  assumes "pool_ok p" "take_all ns p = (gs, p')" "mset hs = mset gs"
  shows "in_use (fold give_units hs p') = in_use p"
proof -
  have s: "sum_list (map (max 0) hs) = sum_list (map (max 0) gs)"
    using assms(3) by (metis mset_map sum_mset_sum_list)
  from take_all_in_use[OF assms(1,2)] have ok: "pool_ok p'"
    and eq: "in_use p' = in_use p + sum_list (map (max 0) gs)" by auto
  have "sum_list (map (max 0) hs) \<le> in_use p'" unfolding s eq using ok_nonneg[OF assms(1)] by simp
  from give_all_in_use[OF ok this] show ?thesis unfolding s eq by simp
qed

end

text \<open>A \<open>WeightedLimiter\<close> asked with a zero timeout is such a pool.\<close>

definition take_now :: "int \<Rightarrow> limiter \<Rightarrow> bool \<times> limiter" where
  "take_now units l =
     (case try_acquire_start units 0 0 0 l of (Acquired _, l') \<Rightarrow> (True, l') | (_, l') \<Rightarrow> (False, l'))"

definition limiter_ok :: "limiter \<Rightarrow> bool" where
  "limiter_ok l \<longleftrightarrow> 0 < lim_capacity l \<and> 0 \<le> lim_used l \<and> lim_used l \<le> lim_capacity l"

interpretation weighted: unit_pool take_now lim_release lim_used limiter_ok
  by unfold_locales (auto simp: take_now_def limiter_ok_def lim_defs Let_def split: if_splits)

lemma WeightedLimiter_ok: "WeightedLimiter capacity = Inr l \<Longrightarrow> limiter_ok l \<and> lim_used l = 0"
  by (auto simp: WeightedLimiter_def limiter_ok_def split: if_splits)

lemma lim_inv_fresh: "WeightedLimiter capacity = Inr l \<Longrightarrow> lim_inv capacity (fresh_sys l)"
  by (auto simp: WeightedLimiter_def lim_inv_def fresh_sys_def split: if_splits)

section \<open>Properties\<close>

text \<open>C33: However calls, wake-ups, time-outs, cancellations and releases of a limiter
  interleave, the units it counts as used are exactly those of the reservations handed out and
  not yet released, and they never exceed its capacity.\<close>

theorem limiter_conserves_units:
  assumes "WeightedLimiter capacity = Inr l" "lim_step\<^sup>*\<^sup>* (fresh_sys l) s"
  shows "lim_used (ls_limiter s) = sum_list (map held_units (ls_callers s))
    \<and> 0 \<le> lim_used (ls_limiter s) \<and> lim_used (ls_limiter s) \<le> capacity"
proof -
  have inv: "lim_inv capacity s" using lim_inv_reachable[OF assms(2) lim_inv_fresh[OF assms(1)]] .
  then have "0 \<le> sum_list (map held_units (ls_callers s))"
    by (intro sum_list_nonneg) (auto simp: lim_inv_def intro: held_units_nonneg)
  with inv show ?thesis by (simp add: lim_inv_def)
qed

text \<open>Two callers of a limiter of two units, the second of which waits, and the first's release.\<close>

abbreviation example_sys :: lim_sys where
  "example_sys \<equiv> \<lparr>ls_limiter = \<lparr>lim_capacity = 2, lim_used = 0\<rparr>,
     ls_callers = [Holding \<lparr>rsv_units = 2, rsv_released = True\<rparr>, Waiting 1 500 (1/2) True]\<rparr>"

lemma example_sys_reached: "lim_step\<^sup>*\<^sup>* (fresh_sys \<lparr>lim_capacity = 2, lim_used = 0\<rparr>) example_sys"
proof -
  let ?h = "Holding \<lparr>rsv_units = 2, rsv_released = False\<rparr>"
  have "lim_step (fresh_sys \<lparr>lim_capacity = 2, lim_used = 0\<rparr>)
      \<lparr>ls_limiter = \<lparr>lim_capacity = 2, lim_used = 2\<rparr>, ls_callers = [?h]\<rparr>"
    using lim_step.call[of 2 500 0 0 "fresh_sys \<lparr>lim_capacity = 2, lim_used = 0\<rparr>"]
    by (simp add: fresh_sys_def lim_defs)
  moreover have "lim_step \<lparr>ls_limiter = \<lparr>lim_capacity = 2, lim_used = 2\<rparr>, ls_callers = [?h]\<rparr>
      \<lparr>ls_limiter = \<lparr>lim_capacity = 2, lim_used = 2\<rparr>, ls_callers = [?h, Waiting 1 500 (1/2) False]\<rparr>"
    using lim_step.call[of 1 500 0 0 "\<lparr>ls_limiter = \<lparr>lim_capacity = 2, lim_used = 2\<rparr>, ls_callers = [?h]\<rparr>"]
    by (simp add: lim_defs)
  moreover have "lim_step \<lparr>ls_limiter = \<lparr>lim_capacity = 2, lim_used = 2\<rparr>,
      ls_callers = [?h, Waiting 1 500 (1/2) False]\<rparr> example_sys"
    using lim_step.release[of 0 "\<lparr>ls_limiter = \<lparr>lim_capacity = 2, lim_used = 2\<rparr>,
      ls_callers = [?h, Waiting 1 500 (1/2) False]\<rparr>" "\<lparr>rsv_units = 2, rsv_released = False\<rparr>"
      "\<lparr>rsv_units = 2, rsv_released = True\<rparr>" "\<lparr>lim_capacity = 2, lim_used = 0\<rparr>"]
    by (simp add: lim_defs)
  ultimately show ?thesis by (meson converse_rtranclp_into_rtranclp rtranclp.rtrancl_refl)
qed

lemma example_limiter: "WeightedLimiter 2 = Inr \<lparr>lim_capacity = 2, lim_used = 0\<rparr>"
  by (simp add: WeightedLimiter_def)

theorem limiter_conserves_units_witness:
  "lim_used (ls_limiter example_sys) = sum_list (map held_units (ls_callers example_sys))"
  using limiter_conserves_units[OF example_limiter example_sys_reached] by blast

text \<open>C34: No wake-up is lost: in every reachable state, a caller that waits and has not been
  notified asks for units the limiter really lacks, and for no more than its capacity, so that
  the releases of the others let it through.\<close>

theorem no_lost_wakeup:
  assumes "WeightedLimiter capacity = Inr l" "lim_step\<^sup>*\<^sup>* (fresh_sys l) s"
    and "Waiting units timeout_ms deadline False \<in> set (ls_callers s)"
  shows "capacity < lim_used (ls_limiter s) + units \<and> units \<le> capacity"
  using lim_inv_reachable[OF assms(2) lim_inv_fresh[OF assms(1)]] assms(3)
  by (force simp: lim_inv_def)

theorem no_lost_wakeup_witness:
  "(2::int) < lim_used \<lparr>lim_capacity = 2, lim_used = 2\<rparr> + 1 \<and> (1::int) \<le> 2"
proof -
  let ?s = "\<lparr>ls_limiter = \<lparr>lim_capacity = 2, lim_used = 2\<rparr>,
      ls_callers = [Holding \<lparr>rsv_units = 2, rsv_released = False\<rparr>, Waiting 1 500 (1/2) False]\<rparr>"
  let ?s1 = "\<lparr>ls_limiter = \<lparr>lim_capacity = 2, lim_used = 2\<rparr>,
      ls_callers = [Holding \<lparr>rsv_units = 2, rsv_released = False\<rparr>]\<rparr>"
  have "lim_step (fresh_sys \<lparr>lim_capacity = 2, lim_used = 0\<rparr>) ?s1"
    using lim_step.call[of 2 500 0 0 "fresh_sys \<lparr>lim_capacity = 2, lim_used = 0\<rparr>"]
    by (simp add: fresh_sys_def lim_defs)
  moreover have "lim_step ?s1 ?s" using lim_step.call[of 1 500 0 0 ?s1] by (simp add: lim_defs)
  ultimately have "lim_step\<^sup>*\<^sup>* (fresh_sys \<lparr>lim_capacity = 2, lim_used = 0\<rparr>) ?s"
    by (meson converse_rtranclp_into_rtranclp rtranclp.rtrancl_refl)
  from no_lost_wakeup[OF example_limiter this, of 1 500 "1/2"] show ?thesis by simp
qed

text \<open>A reservation is given back once: after \<open>try_acquire\<close> granted it, at whatever wake-up,
  releasing it any number of times leaves the limiter as it was just before the grant.\<close>

theorem release_is_idempotent:
  assumes "acquire_loop units timeout_ms deadline now l = (Acquired r, l')" "0 < units" "0 \<le> lim_used l"
  shows "let (r1, l1) = rsv_release r l'; (r2, l2) = rsv_release r1 l1 in l1 = l \<and> l2 = l \<and> r2 = r1"
  using assms by (auto simp: lim_defs Let_def split: if_splits)

theorem release_is_idempotent_witness:
  "let l' = \<lparr>lim_capacity = 3, lim_used = 3\<rparr>; (r1, l1) = rsv_release \<lparr>rsv_units = 2, rsv_released = False\<rparr> l';
     (r2, l2) = rsv_release r1 l1
   in l1 = \<lparr>lim_capacity = 3, lim_used = 1\<rparr> \<and> l2 = \<lparr>lim_capacity = 3, lim_used = 1\<rparr> \<and> r2 = r1"
  using release_is_idempotent[of 2 10 1 0 "\<lparr>lim_capacity = 3, lim_used = 1\<rparr>"
      "\<lparr>rsv_units = 2, rsv_released = False\<rparr>" "\<lparr>lim_capacity = 3, lim_used = 3\<rparr>"]
  by (simp add: lim_defs)

end
