(* ===== verification/Runner.thy ===== *)
theory Runner
  imports Circuit Capacity Plugins
begin

text \<open>
  The fan-out of one request over the providers (\<open>core/provider_runner.py\<close>). The breaker and
  the limiters are shared by all requests (\<open>shared\<close>); everything else is local to the call
  (\<open>run_state\<close>). Where the call suspends, other requests change the shared state: the
  environment (\<open>run_env\<close>) says how, which clock readings are taken, how the tasks end and in
  which order \<open>asyncio.wait\<close> lists them. The price and the quote version pass different
  functions to the same \<open>_run_operation\<close>; these are the record \<open>run_ops\<close>. Two fields of
  \<open>run_state\<close> only observe: the calls made on the breaker and the scopes it admitted. Metrics,
  logging and the fan-out semaphore (which only delays tasks) are left out.
\<close>

section \<open>State and environment\<close>

record shared =
  sh_circuit :: breaker
  sh_capacity :: capacity_limiters

record 'r run_state =
  rs_shared :: shared
  rs_immediate :: "'r list"
  rs_runnable :: "plugin list"
  rs_reservations :: "(string \<times> reservation) list"
  rs_scopes :: "circuit_scope list"
  rs_global :: "reservation option"
  rs_calls :: "cb_event list"
  rs_admitted :: "circuit_scope list"

text \<open>What a plugin call gives: a result, something else, or an exception.\<close>

datatype 'r response = Response 'r | Other_value | Raised exc

text \<open>
  How a task ends: cancelled, or done, with the response of its plugin and the elapsed
  milliseconds when the call failed.
\<close>

datatype 'r task_end = Task_cancelled | Task_done "'r response" int

datatype 'r wait_end =
    Wait_interrupted "shared \<Rightarrow> shared"
  | Waited "shared \<Rightarrow> shared" (we_done: "(nat \<times> 'r task_end) list") (we_pending: "nat list")

record 'r run_env =
  re_allow_now :: "nat \<Rightarrow> rat"
  re_acquire_now :: "nat \<Rightarrow> rat \<times> rat"
  re_acquire_wakes :: "nat \<Rightarrow> shared wake list"
  re_global_now :: "rat \<times> rat"
  re_global_wakes :: "shared wake list"
  re_wait :: "'r wait_end"
  re_record_now :: "nat \<Rightarrow> rat \<times> rat"
  re_cleanup :: "shared \<Rightarrow> shared"

record ('q, 'r) run_ops =
  ro_operation :: string
  ro_chain :: "'q \<Rightarrow> int"
  ro_single :: "plugin \<Rightarrow> 'q \<Rightarrow> 'r response \<Rightarrow> int \<Rightarrow> 'r res"
  ro_static :: "plugin \<Rightarrow> 'q \<Rightarrow> string \<Rightarrow> 'r res"
  ro_deadline :: "string \<Rightarrow> 'q \<Rightarrow> int \<Rightarrow> 'r res"
  ro_internal :: "string \<Rightarrow> 'q \<Rightarrow> exc \<Rightarrow> 'r res"
  ro_provider :: "'r \<Rightarrow> string"
  ro_outcome :: "'r \<Rightarrow> outcome"

definition circuit_config :: "settings \<Rightarrow> breaker_config" where
  "circuit_config s = \<lparr>failure_window_s = provider_circuit_failure_window_s s,
     failure_threshold = provider_circuit_failure_threshold s,
     open_duration_s = provider_circuit_open_duration_s s,
     half_open_probe_count = provider_circuit_half_open_probe_count s\<rparr>"

definition ProviderOperationRunner :: "settings \<Rightarrow> shared res" where
  "ProviderOperationRunner s =
     rbind (CapacityLimiters (effective_provider_global_units s) (provider_per_provider_units s)) (\<lambda>c.
       Inr \<lparr>sh_circuit = init_breaker, sh_capacity = c\<rparr>)"

section \<open>Admission\<close>

definition static_rejection_reason :: "plugin \<Rightarrow> string \<Rightarrow> int \<Rightarrow> string option" where
  "static_rejection_reason p operation chain_id =
     (if chain_id \<notin> set (pl_enabled_chains p) then Some ''unsupported_chain''
      else if operation = ''price'' \<and> \<not> pl_supports_price p then Some ''unsupported_operation''
      else if operation = ''quote'' \<and> \<not> pl_supports_quote p then Some ''unsupported_operation''
      else if \<not> pl_available p then Some ''provider_unavailable''
      else None)"

definition static_error :: "plugin \<Rightarrow> string \<Rightarrow> provider_status \<times> error_info" where
  "static_error p reason =
     (if reason = ''unsupported_chain''
        then (BAD_REQUEST, mk_error UNSUPPORTED_CHAIN ''Provider does not support chain'')
      else if reason = ''unsupported_operation''
        then (BAD_REQUEST, mk_error UNSUPPORTED_OPERATION ''Provider does not support operation'')
      else if reason = ''provider_unavailable''
        then (BAD_REQUEST, mk_error PROVIDER_UNAVAILABLE
               (case pl_unavailable_reason p of
                  None \<Rightarrow> ''Provider unavailable''
                | Some r \<Rightarrow> if r = [] then ''Provider unavailable'' else r))
      else if reason = ''circuit_open''
        then (ERROR, mk_error PROVIDER_UNAVAILABLE ''Provider circuit is open'')
      else if reason = ''provider_capacity''
        then (ERROR, mk_error PROVIDER_UNAVAILABLE ''Provider capacity unavailable'')
      else (ERROR, mk_error PROVIDER_UNAVAILABLE ''Provider unavailable''))"

definition mk_scope :: "string \<Rightarrow> int \<Rightarrow> string \<Rightarrow> circuit_scope" where
  "mk_scope pid chain_id operation =
     \<lparr>sc_provider = pid, sc_chain_id = chain_id, sc_operation = operation\<rparr>"

definition add_static ::
    "('q, 'r) run_ops \<Rightarrow> 'q \<Rightarrow> plugin \<Rightarrow> string \<Rightarrow> 'r run_state \<Rightarrow> unit res \<times> 'r run_state" where
  "add_static ops req p reason st =
     (case ro_static ops p req reason of
        Inl e \<Rightarrow> (Inl e, st)
      | Inr r \<Rightarrow> (Inr (), st\<lparr>rs_immediate := rs_immediate st @ [r]\<rparr>))"

text \<open>The limiter object of a provider, inside the shared state.\<close>

definition get_limiter :: "string \<Rightarrow> limiter \<Rightarrow> shared \<Rightarrow> limiter" where
  "get_limiter pid l0 sh =
     (case map_of (provider_limiters (sh_capacity sh)) (limiter_key pid) of None \<Rightarrow> l0 | Some l \<Rightarrow> l)"

definition put_limiter :: "string \<Rightarrow> limiter \<Rightarrow> shared \<Rightarrow> shared" where
  "put_limiter pid l sh = sh\<lparr>sh_capacity := set_provider_limiter pid l (sh_capacity sh)\<rparr>"

definition get_global :: "shared \<Rightarrow> limiter" where
  "get_global sh = global_limiter (sh_capacity sh)"

definition put_global :: "limiter \<Rightarrow> shared \<Rightarrow> shared" where
  "put_global l sh = sh\<lparr>sh_capacity := (sh_capacity sh)\<lparr>global_limiter := l\<rparr>\<rparr>"

definition acquire_provider ::
    "settings \<Rightarrow> 'r run_env \<Rightarrow> nat \<Rightarrow> string \<Rightarrow> shared \<Rightarrow> reservation option res \<times> shared" where
  "acquire_provider s env i pid sh =
     (case provider_limiter pid (sh_capacity sh) of
        Inl e \<Rightarrow> (Inl e, sh)
      | Inr (l, cap) \<Rightarrow>
          try_acquire (get_limiter pid l) (put_limiter pid) 1 (admission_acquire_timeout_ms s)
            (re_acquire_now env i) (re_acquire_wakes env i) (sh\<lparr>sh_capacity := cap\<rparr>))"

definition admit_plugin :: "settings \<Rightarrow> ('q, 'r) run_ops \<Rightarrow> 'r run_env \<Rightarrow> 'q \<Rightarrow> nat \<Rightarrow> plugin
    \<Rightarrow> 'r run_state \<Rightarrow> unit res \<times> 'r run_state" where
  "admit_plugin s ops env req i p st =
     (case static_rejection_reason p (ro_operation ops) (ro_chain ops req) of
        Some reason \<Rightarrow> add_static ops req p reason st
      | None \<Rightarrow>
          let scope = mk_scope (pl_id p) (ro_chain ops req) (ro_operation ops);
              (ok, cb) = allow (circuit_config s) scope (re_allow_now env i) (sh_circuit (rs_shared st));
              st1 = st\<lparr>rs_shared := (rs_shared st)\<lparr>sh_circuit := cb\<rparr>,
                       rs_calls := rs_calls st @ [EvAllow scope (re_allow_now env i)]\<rparr>
          in if \<not> ok then add_static ops req p ''circuit_open'' st1
             else
               let st2 = st1\<lparr>rs_scopes := (if scope \<in> set (rs_scopes st1) then rs_scopes st1
                                           else rs_scopes st1 @ [scope]),
                             rs_admitted := rs_admitted st1 @ [scope]\<rparr>;
                   (acq, sh) = acquire_provider s env i (pl_id p) (rs_shared st2);
                   st3 = st2\<lparr>rs_shared := sh\<rparr>
               in case acq of
                    Inl e \<Rightarrow> (Inl e, st3)
                  | Inr None \<Rightarrow> add_static ops req p ''provider_capacity'' st3
                  | Inr (Some r) \<Rightarrow>
                      (Inr (), st3\<lparr>rs_reservations := rs_reservations st3 @ [(pl_id p, r)],
                                   rs_runnable := rs_runnable st3 @ [p]\<rparr>))"

fun admit_all :: "settings \<Rightarrow> ('q, 'r) run_ops \<Rightarrow> 'r run_env \<Rightarrow> 'q \<Rightarrow> nat \<Rightarrow> plugin list
    \<Rightarrow> 'r run_state \<Rightarrow> unit res \<times> 'r run_state" where
  "admit_all s ops env req i [] st = (Inr (), st)"
| "admit_all s ops env req i (p # ps) st =
     (case admit_plugin s ops env req i p st of
        (Inl e, st') \<Rightarrow> (Inl e, st')
      | (Inr _, st') \<Rightarrow> admit_all s ops env req (Suc i) ps st')"

definition SERVICE_OVERLOADED :: exc where
  "SERVICE_OVERLOADED = AdmissionRejectedError ''SERVICE_OVERLOADED'' ''Provider capacity exhausted'' 503 1"

definition admit_global ::
    "settings \<Rightarrow> 'r run_env \<Rightarrow> 'r run_state \<Rightarrow> unit res \<times> 'r run_state" where
  "admit_global s env st =
     (if rs_runnable st = [] then (Inr (), st)
      else let (acq, sh) = try_acquire get_global put_global (int (length (rs_runnable st)))
                 (admission_acquire_timeout_ms s) (re_global_now env) (re_global_wakes env) (rs_shared st);
               st' = st\<lparr>rs_shared := sh\<rparr>
           in case acq of
                Inl e \<Rightarrow> (Inl e, st')
              | Inr None \<Rightarrow> (Inl SERVICE_OVERLOADED, st')
              | Inr (Some r) \<Rightarrow> (Inr (), st'\<lparr>rs_global := Some r\<rparr>))"

section \<open>Waiting for the tasks\<close>

definition task_result :: "('q, 'r) run_ops \<Rightarrow> 'q \<Rightarrow> int \<Rightarrow> plugin \<Rightarrow> 'r task_end \<Rightarrow> 'r res" where
  "task_result ops req deadline_ms p t =
     (case t of
        Task_cancelled \<Rightarrow> ro_deadline ops (pl_id p) req deadline_ms
      | Task_done v elapsed_ms \<Rightarrow>
          (case ro_single ops p req v elapsed_ms of
             Inr r \<Rightarrow> Inr r
           | Inl e \<Rightarrow> if e = CancelledError then ro_deadline ops (pl_id p) req deadline_ms
                      else ro_internal ops (pl_id p) req e))"

definition wait_for_results ::
    "('q, 'r) run_ops \<Rightarrow> 'r run_env \<Rightarrow> 'q \<Rightarrow> int \<Rightarrow> 'r run_state \<Rightarrow> 'r list res \<times> 'r run_state" where
  "wait_for_results ops env req deadline_ms st =
     (if rs_runnable st = [] then (Inr [], st)
      else case re_wait env of
        Wait_interrupted f \<Rightarrow> (Inl CancelledError, st\<lparr>rs_shared := f (rs_shared st)\<rparr>)
      | Waited f finished pending \<Rightarrow>
          (rbind (rmap_list (\<lambda>(i, t). task_result ops req deadline_ms (rs_runnable st ! i) t) finished) (\<lambda>rs.
           rbind (rmap_list (\<lambda>i. ro_deadline ops (pl_id (rs_runnable st ! i)) req deadline_ms) pending) (\<lambda>ds.
             Inr (rs @ ds))), st\<lparr>rs_shared := f (rs_shared st)\<rparr>))"

fun record_results :: "settings \<Rightarrow> ('q, 'r) run_ops \<Rightarrow> 'r run_env \<Rightarrow> 'q \<Rightarrow> nat \<Rightarrow> 'r list
    \<Rightarrow> 'r run_state \<Rightarrow> 'r run_state" where
  "record_results s ops env req i [] st = st"
| "record_results s ops env req i (r # rs) st =
     (let scope = mk_scope (ro_provider ops r) (ro_chain ops req) (ro_operation ops);
          (t1, t2) = re_record_now env i;
          cb = record_result (circuit_config s) scope (ro_outcome ops r) t1 t2 (sh_circuit (rs_shared st))
      in record_results s ops env req (Suc i) rs
           (st\<lparr>rs_shared := (rs_shared st)\<lparr>sh_circuit := cb\<rparr>,
               rs_calls := rs_calls st @ [EvRecord scope (ro_outcome ops r) t1 t2],
               rs_scopes := filter (\<lambda>x. x \<noteq> scope) (rs_scopes st)\<rparr>))"

section \<open>Cleaning up\<close>

fun release_probes :: "circuit_scope list \<Rightarrow> 'r run_state \<Rightarrow> 'r run_state" where
  "release_probes [] st = st"
| "release_probes (scope # scopes) st =
     release_probes scopes
       (st\<lparr>rs_shared := (rs_shared st)\<lparr>sh_circuit := release_probe scope (sh_circuit (rs_shared st))\<rparr>,
           rs_calls := rs_calls st @ [EvRelease scope]\<rparr>)"

definition release_provider :: "string \<times> reservation \<Rightarrow> shared \<Rightarrow> reservation \<times> shared" where
  "release_provider pr sh =
     (case map_of (provider_limiters (sh_capacity sh)) (limiter_key (fst pr)) of
        None \<Rightarrow> ((snd pr)\<lparr>rsv_released := True\<rparr>, sh)
      | Some l \<Rightarrow> let (r, l') = rsv_release (snd pr) l in (r, put_limiter (fst pr) l' sh))"

fun release_all :: "(string \<times> reservation) list \<Rightarrow> shared \<Rightarrow> (string \<times> reservation) list \<times> shared" where
  "release_all [] sh = ([], sh)"
| "release_all (pr # prs) sh =
     (let (r, sh1) = release_provider pr sh; (rs, sh2) = release_all prs sh1
      in ((fst pr, r) # rs, sh2))"

definition run_finally :: "'r run_env \<Rightarrow> 'a res \<Rightarrow> 'r run_state \<Rightarrow> 'r run_state" where
  "run_finally env body st =
     (let st0 = (case body of Inr _ \<Rightarrow> st | Inl _ \<Rightarrow> st\<lparr>rs_shared := re_cleanup env (rs_shared st)\<rparr>);
          st1 = release_probes (rs_scopes st0) st0;
          (prs, sh) = release_all (rs_reservations st1) (rs_shared st1)
      in case rs_global st1 of
           None \<Rightarrow> st1\<lparr>rs_reservations := prs, rs_shared := sh\<rparr>
         | Some g \<Rightarrow> let (g', l) = rsv_release g (get_global sh)
                    in st1\<lparr>rs_reservations := prs, rs_global := Some g', rs_shared := put_global l sh\<rparr>)"

section \<open>The operation\<close>

definition run_body :: "settings \<Rightarrow> ('q, 'r) run_ops \<Rightarrow> 'r run_env \<Rightarrow> plugin list \<Rightarrow> 'q \<Rightarrow> int
    \<Rightarrow> 'r run_state \<Rightarrow> 'r list res \<times> 'r run_state" where
  "run_body s ops env plugins req deadline_ms st =
     (case admit_all s ops env req 0 plugins st of
        (Inl e, st1) \<Rightarrow> (Inl e, st1)
      | (Inr _, st1) \<Rightarrow>
          case admit_global s env st1 of
            (Inl e, st2) \<Rightarrow> (Inl e, st2)
          | (Inr _, st2) \<Rightarrow>
              case wait_for_results ops env req deadline_ms st2 of
                (Inl e, st3) \<Rightarrow> (Inl e, st3)
              | (Inr results, st3) \<Rightarrow>
                  let st4 = record_results s ops env req 0 results st3
                  in (Inr (results @ rs_immediate st4), st4))"

definition init_run :: "shared \<Rightarrow> 'r run_state" where
  "init_run sh = \<lparr>rs_shared = sh, rs_immediate = [], rs_runnable = [], rs_reservations = [], rs_scopes = [],
     rs_global = None, rs_calls = [], rs_admitted = []\<rparr>"

definition run_operation :: "settings \<Rightarrow> ('q, 'r) run_ops \<Rightarrow> 'r run_env \<Rightarrow> plugin list \<Rightarrow> 'q \<Rightarrow> int
    \<Rightarrow> shared \<Rightarrow> 'r list res \<times> 'r run_state" where
  "run_operation s ops env plugins req deadline_ms sh =
     (let (body, st) = run_body s ops env plugins req deadline_ms (init_run sh)
      in (body, run_finally env body st))"

section \<open>Prices\<close>

definition error_price_result :: "string \<Rightarrow> price_request \<Rightarrow> provider_status \<Rightarrow> int \<Rightarrow> error_info \<Rightarrow> price_result res" where
  "error_price_result pid req st latency_ms e = mk_price_result
     \<lparr>p_provider = pid, p_status = st, p_token = Some (pr_token req), p_price_usd = None,
      p_latency_ms = latency_ms, p_as_of = None, p_error = Some e, p_vault_context = None\<rparr>"

definition validate_price_result_identity :: "price_result \<Rightarrow> price_request \<Rightarrow> string \<Rightarrow> unit res" where
  "validate_price_result_identity r req pid =
     (if p_provider r \<noteq> pid
        then Inl (ValueError ''Provider result identity does not match invoked provider'')
      else if p_status r \<noteq> OK then Inr ()
      else case p_token r of
        None \<Rightarrow> Inl (ValueError ''Successful price result has invalid token identity'')
      | Some t \<Rightarrow>
          if tr_chain_id t \<noteq> pr_chain_id req
            then Inl (ValueError ''Successful price result has invalid token identity'')
          else if tr_address t \<noteq> tr_address (pr_token req)
            then Inl (ValueError ''Successful price result token does not match request'')
          else Inr ())"

definition run_price_plugin :: "plugin \<Rightarrow> price_request \<Rightarrow> price_result response \<Rightarrow> int \<Rightarrow> price_result res" where
  "run_price_plugin p req v elapsed_ms =
     (let checked = (case v of
            Raised e \<Rightarrow> Inl e
          | Other_value \<Rightarrow> Inl (TypeError ''Provider returned non-PriceResult response'')
          | Response r \<Rightarrow> rbind (validate_price_result_identity r req (pl_id p)) (\<lambda>_. Inr r))
      in case checked of
           Inr r \<Rightarrow> Inr r
         | Inl e \<Rightarrow> if e = CancelledError then Inl e
             else error_price_result (pl_id p) req ERROR elapsed_ms
               (mk_error INTERNAL (''Provider execution failed: '' @ exc_class_name e)))"

definition static_price_result :: "plugin \<Rightarrow> price_request \<Rightarrow> string \<Rightarrow> price_result res" where
  "static_price_result p req reason =
     (let (st, e) = static_error p reason in error_price_result (pl_id p) req st 0 e)"

definition deadline_price_result :: "string \<Rightarrow> price_request \<Rightarrow> int \<Rightarrow> price_result res" where
  "deadline_price_result pid req deadline_ms =
     error_price_result pid req ERROR deadline_ms
       (mk_error DEADLINE_EXCEEDED ''Provider exceeded aggregate deadline'')"

definition internal_price_task_failure_result :: "string \<Rightarrow> price_request \<Rightarrow> exc \<Rightarrow> price_result res" where
  "internal_price_task_failure_result pid req e =
     error_price_result pid req ERROR 0 (mk_error INTERNAL (''Provider task failed: '' @ exc_class_name e))"

definition price_ops :: "(price_request, price_result) run_ops" where
  "price_ops = \<lparr>ro_operation = ''price'', ro_chain = pr_chain_id, ro_single = run_price_plugin,
     ro_static = static_price_result, ro_deadline = deadline_price_result,
     ro_internal = internal_price_task_failure_result, ro_provider = p_provider,
     ro_outcome = (\<lambda>r. price_outcome r)\<rparr>"

definition run_prices :: "settings \<Rightarrow> price_result run_env \<Rightarrow> plugin list \<Rightarrow> price_request \<Rightarrow> int
    \<Rightarrow> shared \<Rightarrow> price_result list res \<times> price_result run_state" where
  "run_prices s env = run_operation s price_ops env"

section \<open>Quotes\<close>

definition error_quote_result :: "string \<Rightarrow> quote_request \<Rightarrow> provider_status \<Rightarrow> int \<Rightarrow> error_info \<Rightarrow> quote_result res" where
  "error_quote_result pid req st latency_ms e = mk_quote_result
     \<lparr>q_provider = pid, q_status = st, q_token_in = Some (qr_token_in req),
      q_token_out = Some (qr_token_out req), q_amount_in = Some (qr_amount_in req), q_amount_out = None,
      q_amount_out_min = None, q_price_impact_bps = None, q_estimated_gas = None,
      q_latency_ms = latency_ms, q_as_of = None, q_error = Some e, q_route = None, q_vault_context = None\<rparr>"

definition validate_quote_result_identity :: "quote_result \<Rightarrow> quote_request \<Rightarrow> string \<Rightarrow> unit res" where
  "validate_quote_result_identity r req pid =
     (if q_provider r \<noteq> pid
        then Inl (ValueError ''Provider result identity does not match invoked provider'')
      else if q_status r \<noteq> OK then Inr ()
      else case (q_token_in r, q_token_out r) of
        (Some tin, Some tout) \<Rightarrow>
          if tr_chain_id tin \<noteq> qr_chain_id req \<or> tr_chain_id tout \<noteq> qr_chain_id req
            then Inl (ValueError ''Successful quote result has invalid chain identity'')
          else if tr_address tin \<noteq> tr_address (qr_token_in req) \<or> tr_address tout \<noteq> tr_address (qr_token_out req)
            then Inl (ValueError ''Successful quote result tokens do not match request'')
          else if q_amount_in r \<noteq> Some (qr_amount_in req)
            then Inl (ValueError ''Successful quote result amount_in does not match request'')
          else Inr ()
      | _ \<Rightarrow> Inl (ValueError ''Successful quote result is missing token identity''))"

definition run_quote_plugin :: "plugin \<Rightarrow> quote_request \<Rightarrow> quote_result response \<Rightarrow> int \<Rightarrow> quote_result res" where
  "run_quote_plugin p req v elapsed_ms =
     (let checked = (case v of
            Raised e \<Rightarrow> Inl e
          | Other_value \<Rightarrow> Inl (TypeError ''Provider returned non-QuoteResult response'')
          | Response r \<Rightarrow> rbind (validate_quote_result_identity r req (pl_id p)) (\<lambda>_. Inr r))
      in case checked of
           Inr r \<Rightarrow> Inr r
         | Inl e \<Rightarrow> if e = CancelledError then Inl e
             else error_quote_result (pl_id p) req ERROR elapsed_ms
               (mk_error INTERNAL (''Provider execution failed: '' @ exc_class_name e)))"

definition static_quote_result :: "plugin \<Rightarrow> quote_request \<Rightarrow> string \<Rightarrow> quote_result res" where
  "static_quote_result p req reason =
     (let (st, e) = static_error p reason in error_quote_result (pl_id p) req st 0 e)"

definition deadline_quote_result :: "string \<Rightarrow> quote_request \<Rightarrow> int \<Rightarrow> quote_result res" where
  "deadline_quote_result pid req deadline_ms =
     error_quote_result pid req ERROR deadline_ms
       (mk_error DEADLINE_EXCEEDED ''Provider exceeded aggregate deadline'')"

definition internal_quote_task_failure_result :: "string \<Rightarrow> quote_request \<Rightarrow> exc \<Rightarrow> quote_result res" where
  "internal_quote_task_failure_result pid req e =
     error_quote_result pid req ERROR 0 (mk_error INTERNAL (''Provider task failed: '' @ exc_class_name e))"

definition quote_ops :: "(quote_request, quote_result) run_ops" where
  "quote_ops = \<lparr>ro_operation = ''quote'', ro_chain = qr_chain_id, ro_single = run_quote_plugin,
     ro_static = static_quote_result, ro_deadline = deadline_quote_result,
     ro_internal = internal_quote_task_failure_result, ro_provider = q_provider,
     ro_outcome = (\<lambda>r. quote_outcome r)\<rparr>"

definition run_quotes :: "settings \<Rightarrow> quote_result run_env \<Rightarrow> plugin list \<Rightarrow> quote_request \<Rightarrow> int
    \<Rightarrow> shared \<Rightarrow> quote_result list res \<times> quote_result run_state" where
  "run_quotes s env = run_operation s quote_ops env"

definition runner_circuit_open_providers :: "shared \<Rightarrow> int \<Rightarrow> string \<Rightarrow> rat \<Rightarrow> string set" where
  "runner_circuit_open_providers sh chain_id operation now =
     circuit_open_providers chain_id operation now (sh_circuit sh)"

section \<open>What a run holds while it is admitted\<close>

text \<open>
  During the admission every admitted scope waits to be settled, and there is one fresh
  reservation of one unit per runnable plugin.
\<close>

definition admission_inv :: "'r run_state \<Rightarrow> bool" where
  "admission_inv st \<longleftrightarrow>
     set (rs_admitted st) = set (rs_scopes st) \<and> rs_global st = None
   \<and> map fst (rs_reservations st) = map pl_id (rs_runnable st)
   \<and> (\<forall>x \<in> set (rs_reservations st). rsv_units (snd x) = 1 \<and> \<not> rsv_released (snd x))
   \<and> (\<forall>c \<in> set (rs_calls st). \<exists>sc t. c = EvAllow sc t)"

lemma acquire_provider_grant:
  "acquire_provider s env i pid sh = (Inr (Some r), sh') \<Longrightarrow> rsv_units r = 1 \<and> \<not> rsv_released r"
  by (auto simp: acquire_provider_def dest: try_acquire_grant split: sum.splits)

lemma add_static_cases:
  assumes "add_static ops req p reason st = (x, st')"
  obtains (raised) e where "x = Inl e" "st' = st" "ro_static ops p req reason = Inl e"
  | (added) r where "x = Inr ()" "ro_static ops p req reason = Inr r"
      "st' = st\<lparr>rs_immediate := rs_immediate st @ [r]\<rparr>"
  using assms by (auto simp: add_static_def split: sum.splits)

lemma add_static_inv:
  "add_static ops req p reason st = (x, st') \<Longrightarrow> admission_inv st \<Longrightarrow> admission_inv st'"
  by (erule add_static_cases) (auto simp: admission_inv_def)

text \<open>The ways \<open>admit_plugin\<close> goes.\<close>

lemma admit_plugin_cases:
  assumes "admit_plugin s ops env req i p st = (x, st')"
  obtains (static) reason where
      "static_rejection_reason p (ro_operation ops) (ro_chain ops req) = Some reason"
      "add_static ops req p reason st = (x, st')"
  | (circuit_open) cb where
      "static_rejection_reason p (ro_operation ops) (ro_chain ops req) = None"
      "allow (circuit_config s) (mk_scope (pl_id p) (ro_chain ops req) (ro_operation ops))
         (re_allow_now env i) (sh_circuit (rs_shared st)) = (False, cb)"
      "add_static ops req p ''circuit_open''
         (st\<lparr>rs_shared := (rs_shared st)\<lparr>sh_circuit := cb\<rparr>,
             rs_calls := rs_calls st @ [EvAllow (mk_scope (pl_id p) (ro_chain ops req) (ro_operation ops)) (re_allow_now env i)]\<rparr>)
         = (x, st')"
  | (allowed) cb st2 acq sh where
      "static_rejection_reason p (ro_operation ops) (ro_chain ops req) = None"
      "allow (circuit_config s) (mk_scope (pl_id p) (ro_chain ops req) (ro_operation ops))
         (re_allow_now env i) (sh_circuit (rs_shared st)) = (True, cb)"
      "st2 = (let scope = mk_scope (pl_id p) (ro_chain ops req) (ro_operation ops) in
         st\<lparr>rs_shared := (rs_shared st)\<lparr>sh_circuit := cb\<rparr>,
            rs_calls := rs_calls st @ [EvAllow scope (re_allow_now env i)],
            rs_scopes := (if scope \<in> set (rs_scopes st) then rs_scopes st else rs_scopes st @ [scope]),
            rs_admitted := rs_admitted st @ [scope]\<rparr>)"
      "acquire_provider s env i (pl_id p) (rs_shared st2) = (acq, sh)"
      "(case acq of
          Inl e \<Rightarrow> (Inl e, st2\<lparr>rs_shared := sh\<rparr>)
        | Inr None \<Rightarrow> add_static ops req p ''provider_capacity'' (st2\<lparr>rs_shared := sh\<rparr>)
        | Inr (Some r) \<Rightarrow> (Inr (), st2\<lparr>rs_shared := sh,
              rs_reservations := rs_reservations st2 @ [(pl_id p, r)], rs_runnable := rs_runnable st2 @ [p]\<rparr>))
         = (x, st')"
proof (cases "static_rejection_reason p (ro_operation ops) (ro_chain ops req)")
  case None
  let ?scope = "mk_scope (pl_id p) (ro_chain ops req) (ro_operation ops)"
  obtain ok cb where al: "allow (circuit_config s) ?scope (re_allow_now env i) (sh_circuit (rs_shared st)) = (ok, cb)"
    by fastforce
  show thesis
  proof (cases ok)
    case True
    let ?st2 = "st\<lparr>rs_shared := (rs_shared st)\<lparr>sh_circuit := cb\<rparr>,
            rs_calls := rs_calls st @ [EvAllow ?scope (re_allow_now env i)],
            rs_scopes := (if ?scope \<in> set (rs_scopes st) then rs_scopes st else rs_scopes st @ [?scope]),
            rs_admitted := rs_admitted st @ [?scope]\<rparr>"
    obtain acq sh where aq: "acquire_provider s env i (pl_id p) (rs_shared ?st2) = (acq, sh)" by fastforce
    show thesis
      by (rule allowed[OF None _ _ aq])
         (use assms True al aq None in \<open>auto simp: admit_plugin_def Let_def split: sum.splits option.splits\<close>)
  next
    case False
    show thesis by (rule circuit_open[OF None])
      (use assms False al None in \<open>auto simp: admit_plugin_def Let_def\<close>)
  qed
qed (use assms static in \<open>auto simp: admit_plugin_def\<close>)

lemma admit_plugin_inv:
  assumes "admit_plugin s ops env req i p st = (x, st')" "admission_inv st"
  shows "admission_inv st'"
  using assms(1)
proof (cases rule: admit_plugin_cases)
  case (static reason)
  show ?thesis by (rule add_static_inv[OF static(2) assms(2)])
next
  case (circuit_open cb)
  show ?thesis by (rule add_static_inv[OF circuit_open(3)]) (use assms(2) in \<open>auto simp: admission_inv_def\<close>)
next
  case (allowed cb st2 acq sh)
  have inv: "admission_inv (st2\<lparr>rs_shared := sh\<rparr>)"
    using assms(2) by (auto simp: admission_inv_def allowed(3) Let_def)
  show ?thesis
  proof (cases acq)
    case (Inl e)
    then show ?thesis using allowed(5) inv by auto
  next
    case (Inr g)
    show ?thesis
    proof (cases g)
      case None
      then show ?thesis using allowed(5) inv Inr add_static_inv by auto
    next
      case (Some r)
      then show ?thesis using allowed(4,5) inv Inr acquire_provider_grant[of s env i "pl_id p" _ r sh]
        by (auto simp: admission_inv_def)
    qed
  qed
qed

lemma admit_all_inv:
  "admit_all s ops env req i ps st = (x, st') \<Longrightarrow> admission_inv st \<Longrightarrow> admission_inv st'"
proof (induction ps arbitrary: i st)
  case (Cons p ps)
  obtain y st1 where a: "admit_plugin s ops env req i p st = (y, st1)" by fastforce
  then have "admission_inv st1" using Cons.prems(2) by (rule admit_plugin_inv)
  with Cons a show ?case by (auto split: sum.splits)
qed simp

lemma admission_inv_init: "admission_inv (init_run sh)"
  by (simp add: admission_inv_def init_run_def)

section \<open>Settling\<close>

text \<open>A scope is settled by a call that records a result for it or releases its probe.\<close>

fun settles :: "circuit_scope \<Rightarrow> cb_event \<Rightarrow> bool" where
  "settles sc (EvAllow _ _) = False"
| "settles sc (EvRecord s _ _ _) = (s = sc)"
| "settles sc (EvRelease s) = (s = sc)"

definition settled :: "'r run_state \<Rightarrow> circuit_scope \<Rightarrow> bool" where
  "settled st sc \<longleftrightarrow> list_ex (settles sc) (rs_calls st)"

definition body_inv :: "'r run_state \<Rightarrow> bool" where
  "body_inv st \<longleftrightarrow> (\<forall>sc \<in> set (rs_admitted st). sc \<in> set (rs_scopes st) \<or> settled st sc)"

lemma admission_body_inv: "admission_inv st \<Longrightarrow> body_inv st"
  by (simp add: admission_inv_def body_inv_def)

lemma admit_global_fields:
  assumes "admit_global s env st = (x, st')"
  shows "rs_admitted st' = rs_admitted st" "rs_scopes st' = rs_scopes st" "rs_calls st' = rs_calls st"
    "rs_runnable st' = rs_runnable st" "rs_reservations st' = rs_reservations st"
    "rs_immediate st' = rs_immediate st"
  using assms by (auto simp: admit_global_def Let_def split: if_splits sum.splits option.splits prod.splits)

lemma wait_fields:
  assumes "wait_for_results ops env req d st = (x, st')"
  shows "rs_admitted st' = rs_admitted st" "rs_scopes st' = rs_scopes st" "rs_calls st' = rs_calls st"
    "rs_runnable st' = rs_runnable st" "rs_reservations st' = rs_reservations st"
    "rs_immediate st' = rs_immediate st" "rs_global st' = rs_global st"
  using assms by (auto simp: wait_for_results_def split: if_splits wait_end.splits)

lemma record_results_fields [simp]:
  "rs_admitted (record_results s ops env req i rs st) = rs_admitted st"
  "rs_runnable (record_results s ops env req i rs st) = rs_runnable st"
  "rs_reservations (record_results s ops env req i rs st) = rs_reservations st"
  "rs_immediate (record_results s ops env req i rs st) = rs_immediate st"
  "rs_global (record_results s ops env req i rs st) = rs_global st"
  "sh_capacity (rs_shared (record_results s ops env req i rs st)) = sh_capacity (rs_shared st)"
  by (induction s ops env req i rs st rule: record_results.induct) (auto simp: Let_def split: prod.splits)

lemma record_results_views [simp]:
  "get_global (rs_shared (record_results s ops env req i rs st)) = get_global (rs_shared st)"
  by (simp add: get_global_def)

lemma record_results_body_inv: "body_inv st \<Longrightarrow> body_inv (record_results s ops env req i rs st)"
proof (induction s ops env req i rs st rule: record_results.induct)
  case (2 s ops env req i r rs st)
  show ?case
    by (auto simp: Let_def split: prod.splits intro!: 2(1)[OF refl refl])
       (use 2(2) in \<open>auto simp: body_inv_def settled_def\<close>)
qed simp

lemma release_probes_fields [simp]:
  "rs_admitted (release_probes scs st) = rs_admitted st"
  "rs_runnable (release_probes scs st) = rs_runnable st"
  "rs_reservations (release_probes scs st) = rs_reservations st"
  "rs_immediate (release_probes scs st) = rs_immediate st"
  "rs_global (release_probes scs st) = rs_global st"
  "sh_capacity (rs_shared (release_probes scs st)) = sh_capacity (rs_shared st)"
  "rs_calls (release_probes scs st) = rs_calls st @ map EvRelease scs"
  by (induction scs st rule: release_probes.induct) auto

lemma rsv_release_released: "rsv_release r l = (r', l') \<Longrightarrow> rsv_released r'"
  by (auto simp: rsv_release_def split: if_splits)

lemma release_all_released:
  "release_all prs sh = (prs', sh') \<Longrightarrow> map fst prs' = map fst prs \<and> (\<forall>x \<in> set prs'. rsv_released (snd x))"
proof (induction prs arbitrary: sh prs' sh')
  case (Cons pr prs)
  obtain r sh1 where a: "release_provider pr sh = (r, sh1)" by fastforce
  obtain rs sh2 where b: "release_all prs sh1 = (rs, sh2)" by fastforce
  have "rsv_released r" using a
    by (auto simp: release_provider_def Let_def dest: rsv_release_released split: option.splits prod.splits)
  with Cons.IH[OF b] Cons.prems a b show ?case by auto
qed simp

lemma run_body_inv:
  assumes "run_body s ops env plugins req d (init_run sh) = (body, st)"
  shows "body_inv st"
    "(\<exists>e. body = Inl e) \<Longrightarrow> \<forall>c \<in> set (rs_calls st). \<exists>sc t. c = EvAllow sc t"
proof -
  obtain x1 st1 where a1: "admit_all s ops env req 0 plugins (init_run sh) = (x1, st1)" by fastforce
  have i1: "admission_inv st1" by (rule admit_all_inv[OF a1 admission_inv_init])
  obtain x2 st2 where a2: "admit_global s env st1 = (x2, st2)" by fastforce
  obtain x3 st3 where a3: "wait_for_results ops env req d st2 = (x3, st3)" by fastforce
  note f = admit_global_fields[OF a2] wait_fields[OF a3]
  have b2: "body_inv st2" and b3: "body_inv st3"
    using admission_body_inv[OF i1] by (simp_all add: body_inv_def settled_def f)
  then show "body_inv st" using assms a1 a2 a3 admission_body_inv[OF i1]
    by (auto simp: run_body_def Let_def split: sum.splits intro: record_results_body_inv)
  show "\<forall>c \<in> set (rs_calls st). \<exists>sc t. c = EvAllow sc t" if "\<exists>e. body = Inl e"
    using that assms a1 a2 a3 i1 f
    by (auto simp: run_body_def Let_def admission_inv_def split: sum.splits)
qed

section \<open>Runs without interference\<close>

definition provider_used :: "shared \<Rightarrow> string \<Rightarrow> int" where
  "provider_used sh pid =
     (case map_of (provider_limiters (sh_capacity sh)) (limiter_key pid) of None \<Rightarrow> 0 | Some l \<Rightarrow> lim_used l)"

definition held_for :: "string \<Rightarrow> (string \<times> reservation) list \<Rightarrow> int" where
  "held_for pid prs = int (length (filter (\<lambda>x. limiter_key (fst x) = limiter_key pid) prs))"

lemma held_for_simps [simp]:
  "held_for pid [] = 0"
  "held_for pid (x # xs) = (if limiter_key (fst x) = limiter_key pid then 1 else 0) + held_for pid xs"
  "held_for pid (xs @ ys) = held_for pid xs + held_for pid ys"
  by (simp_all add: held_for_def)

lemma held_for_nonneg: "0 \<le> held_for pid prs"
  by (simp add: held_for_def)

definition quiet_env :: "'r run_env \<Rightarrow> bool" where
  "quiet_env env \<longleftrightarrow> (\<forall>i. quiet (re_acquire_wakes env i)) \<and> quiet (re_global_wakes env)
     \<and> re_cleanup env = (\<lambda>s. s)
     \<and> (case re_wait env of Wait_interrupted f \<Rightarrow> f = (\<lambda>s. s) | Waited f _ _ \<Rightarrow> f = (\<lambda>s. s))"

lemma record_results_used [simp]:
  "provider_used (rs_shared (record_results s ops env req i rs st)) k = provider_used (rs_shared st) k"
  by (simp add: provider_used_def)

lemma update_same: "map_of d k = Some v \<Longrightarrow> AList.update k v d = d"
  by (induction d) auto

lemma provider_used_put:
  "provider_used (put_limiter pid l sh) k =
     (if limiter_key k = limiter_key pid then lim_used l else provider_used sh k)"
  by (auto simp: provider_used_def put_limiter_def set_provider_limiter_def od_simps)

lemma get_global_put [simp]: "get_global (put_limiter pid l sh) = get_global sh"
  by (simp add: get_global_def put_limiter_def set_provider_limiter_def)

lemma acquire_provider_quiet:
  assumes "acquire_provider s env i pid sh = (acq, sh')" "quiet (re_acquire_wakes env i)"
  shows "provider_used sh' k = provider_used sh k
      + (if limiter_key k = limiter_key pid then granted_units acq else 0)"
    "get_global sh' = get_global sh"
proof -
  have "provider_used sh' k = provider_used sh k
      + (if limiter_key k = limiter_key pid then granted_units acq else 0) \<and> get_global sh' = get_global sh"
  proof (cases "provider_limiter pid (sh_capacity sh)")
    case (Inl e)
    then show ?thesis using assms(1) by (auto simp: acquire_provider_def)
  next
    case (Inr lc)
    obtain l cap where lc: "lc = (l, cap)" by fastforce
    let ?sh = "sh\<lparr>sh_capacity := cap\<rparr>"
    have present: "map_of (provider_limiters cap) (limiter_key pid) = Some l"
      and same: "provider_used ?sh k = provider_used sh k" "get_global ?sh = get_global sh"
      and used: "lim_used l = provider_used sh pid"
      using Inr lc by (auto simp: provider_limiter_def WeightedLimiter_def provider_used_def get_global_def
          od_simps split: option.splits if_splits)
    have get: "get_limiter pid l ?sh = l" using present by (simp add: get_limiter_def)
    have "put_limiter pid (get_limiter pid l ?sh) ?sh = ?sh"
      using present by (simp add: get put_limiter_def set_provider_limiter_def update_same)
    from try_acquire_quiet[where put = "put_limiter pid" and get = "get_limiter pid l", OF this assms(2)]
    have "sh' = put_limiter pid (add_used (granted_units acq) l) ?sh"
      using assms(1) Inr lc get by (simp add: acquire_provider_def)
    then show ?thesis using same used
      by (auto simp: provider_used_put add_used_def) (simp add: provider_used_def)
  qed
  then show "provider_used sh' k = provider_used sh k
      + (if limiter_key k = limiter_key pid then granted_units acq else 0)" "get_global sh' = get_global sh"
    by auto
qed

definition quiet_inv :: "shared \<Rightarrow> 'r run_state \<Rightarrow> bool" where
  "quiet_inv sh0 st \<longleftrightarrow> admission_inv st \<and> get_global (rs_shared st) = get_global sh0
     \<and> (\<forall>k. provider_used (rs_shared st) k = provider_used sh0 k + held_for k (rs_reservations st))"

lemma add_static_quiet: "add_static ops req p reason st = (x, st') \<Longrightarrow> quiet_inv sh0 st \<Longrightarrow> quiet_inv sh0 st'"
  by (erule add_static_cases) (auto simp: quiet_inv_def admission_inv_def)

lemma quiet_inv_shared:
  assumes "quiet_inv sh0 st" "admission_inv st'" "sh_capacity (rs_shared st') = sh_capacity (rs_shared st)"
    "rs_reservations st' = rs_reservations st"
  shows "quiet_inv sh0 st'"
  using assms by (simp add: quiet_inv_def get_global_def provider_used_def)

lemma admit_plugin_quiet:
  assumes "admit_plugin s ops env req i p st = (x, st')" "quiet_inv sh0 st" "quiet_env env"
  shows "quiet_inv sh0 st'"
  using assms(1)
proof (cases rule: admit_plugin_cases)
  case (static reason)
  show ?thesis by (rule add_static_quiet[OF static(2) assms(2)])
next
  case (circuit_open cb)
  show ?thesis by (rule add_static_quiet[OF circuit_open(3)], rule quiet_inv_shared[OF assms(2)])
    (use assms(2) in \<open>auto simp: quiet_inv_def admission_inv_def\<close>)
next
  case (allowed cb st2 acq sh)
  have "admission_inv st'" by (rule admit_plugin_inv[OF assms(1)]) (use assms(2) in \<open>simp add: quiet_inv_def\<close>)
  have q2: "quiet_inv sh0 st2" by (rule quiet_inv_shared[OF assms(2)])
    (use assms(2) in \<open>auto simp: allowed(3) quiet_inv_def admission_inv_def Let_def\<close>)
  have qw: "quiet (re_acquire_wakes env i)" using assms(3) by (simp add: quiet_env_def)
  note aq = acquire_provider_quiet[OF allowed(4) qw]
  show ?thesis
  proof (cases "granted_units acq = 0")
    case True
    then have "quiet_inv sh0 (st2\<lparr>rs_shared := sh\<rparr>)" using q2 aq
      by (auto simp: quiet_inv_def admission_inv_def)
    moreover have "\<not> (\<exists>r. acq = Inr (Some r))" using acquire_provider_grant[of s env i "pl_id p"] allowed(4) True
      by (auto split: if_splits)
    ultimately show ?thesis using allowed(5) by (auto split: sum.splits option.splits dest: add_static_quiet)
  next
    case False
    then obtain r where r: "acq = Inr (Some r)" by (auto simp: granted_units_def split: sum.splits option.splits)
    have "rsv_units r = 1" using acquire_provider_grant allowed(4) r by blast
    then show ?thesis using r allowed(5) q2 aq \<open>admission_inv st'\<close>
      by (auto simp: quiet_inv_def)
  qed
qed

lemma admit_all_quiet:
  "admit_all s ops env req i ps st = (x, st') \<Longrightarrow> quiet_inv sh0 st \<Longrightarrow> quiet_env env \<Longrightarrow> quiet_inv sh0 st'"
proof (induction ps arbitrary: i st)
  case (Cons p ps)
  obtain y st1 where a: "admit_plugin s ops env req i p st = (y, st1)" by fastforce
  then have "quiet_inv sh0 st1" using Cons.prems(2,3) by (rule admit_plugin_quiet)
  with Cons a show ?case by (auto split: sum.splits)
qed simp

lemma release_all_restores:
  assumes "release_all prs sh = (prs', sh')"
    "\<forall>x \<in> set prs. rsv_units (snd x) = 1 \<and> \<not> rsv_released (snd x)"
    "\<forall>k. provider_used sh k = base k + held_for k prs" "\<forall>k. 0 \<le> base k"
  shows "provider_used sh' k = base k \<and> get_global sh' = get_global sh"
  using assms
proof (induction prs arbitrary: sh prs' sh')
  case (Cons pr prs)
  obtain r sh1 where a: "release_provider pr sh = (r, sh1)" by fastforce
  obtain rs sh2 where b: "release_all prs sh1 = (rs, sh2)" by fastforce
  have pos: "0 < provider_used sh (fst pr)" using Cons.prems(3,4) held_for_nonneg[of "fst pr" prs]
    by (simp add: add_nonneg_pos add.commute add_pos_nonneg)
  then obtain l where l: "map_of (provider_limiters (sh_capacity sh)) (limiter_key (fst pr)) = Some l"
    "lim_used l = provider_used sh (fst pr)"
    by (auto simp: provider_used_def split: option.splits)
  have u: "rsv_units (snd pr) = 1" "\<not> rsv_released (snd pr)" using Cons.prems(2) by auto
  then have sh1: "sh1 = put_limiter (fst pr) (l\<lparr>lim_used := lim_used l - 1\<rparr>) sh"
    using a l pos by (auto simp: release_provider_def rsv_release_def lim_release_def)
  have "\<forall>k. provider_used sh1 k = base k + held_for k prs"
  proof
    fix k
    show "provider_used sh1 k = base k + held_for k prs"
    proof (cases "limiter_key k = limiter_key (fst pr)")
      case True
      then have "provider_used sh k = provider_used sh (fst pr)" by (simp add: provider_used_def)
      then show ?thesis using True l Cons.prems(3)[rule_format, of k] by (simp add: sh1 provider_used_put)
    next
      case False
      then show ?thesis using Cons.prems(3)[rule_format, of k] by (auto simp: sh1 provider_used_put)
    qed
  qed
  with Cons.IH[OF b] Cons.prems a b have "provider_used sh' k = base k \<and> get_global sh' = get_global sh1"
    by auto
  then show ?case by (simp add: sh1)
qed simp

definition global_held :: "shared \<Rightarrow> 'r run_state \<Rightarrow> bool" where
  "global_held sh0 st \<longleftrightarrow> (case rs_global st of
       None \<Rightarrow> get_global (rs_shared st) = get_global sh0
     | Some g \<Rightarrow> \<not> rsv_released g \<and> 0 < rsv_units g
         \<and> get_global (rs_shared st) = add_used (rsv_units g) (get_global sh0))"

lemma global_held_cong:
  "get_global (rs_shared st) = get_global (rs_shared st') \<Longrightarrow> rs_global st = rs_global st' \<Longrightarrow>
   global_held sh0 st = global_held sh0 st'"
  by (simp add: global_held_def split: option.split)

lemma admit_global_quiet:
  assumes "admit_global s env st = (x, st')" "quiet_inv sh0 st" "quiet_env env"
  shows "(\<forall>k. provider_used (rs_shared st') k = provider_used sh0 k + held_for k (rs_reservations st'))
    \<and> global_held sh0 st'"
proof (cases "rs_runnable st = []")
  case True
  then show ?thesis using assms by (simp add: admit_global_def quiet_inv_def admission_inv_def global_held_def)
next
  case False
  obtain acq sh where t: "try_acquire get_global put_global (int (length (rs_runnable st)))
      (admission_acquire_timeout_ms s) (re_global_now env) (re_global_wakes env) (rs_shared st) = (acq, sh)"
    by fastforce
  have "put_global (get_global (rs_shared st)) (rs_shared st) = rs_shared st"
    by (simp add: put_global_def get_global_def)
  from try_acquire_quiet[OF this _ t] assms(3)
  have sh: "sh = put_global (add_used (granted_units acq) (get_global (rs_shared st))) (rs_shared st)"
    by (simp add: quiet_env_def)
  have g: "acq = Inr (Some r) \<Longrightarrow> rsv_units r = int (length (rs_runnable st)) \<and> \<not> rsv_released r" for r
    using try_acquire_grant[of get_global put_global] t False by simp
  have pu: "provider_used (put_global l sh) k = provider_used sh k" "get_global (put_global l sh) = l" for l sh k
    by (simp_all add: provider_used_def put_global_def get_global_def)
  show ?thesis using assms(1,2) t False g
    by (auto simp: admit_global_def sh pu quiet_inv_def admission_inv_def granted_units_def global_held_def
        split: sum.splits option.splits)
qed

section \<open>The contract of an operation\<close>

text \<open>
  What \<open>_run_operation\<close> relies on: each of the four functions it is given names the provider
  it was called for, only the plugin's own call can succeed, and a success fits the request.
\<close>

locale provider_operation =
  fixes ops :: "('q, 'r) run_ops"
  assumes static_id: "ro_static ops p req reason = Inr r \<Longrightarrow> ro_provider ops r = pl_id p"
    and deadline_id: "ro_deadline ops pid req ms = Inr r \<Longrightarrow> ro_provider ops r = pid"
    and internal_id: "ro_internal ops pid req e = Inr r \<Longrightarrow> ro_provider ops r = pid"
    and single_id: "ro_single ops p req v ms = Inr r \<Longrightarrow> ro_provider ops r = pl_id p"
begin

lemma task_result_id: "task_result ops req d p t = Inr r \<Longrightarrow> ro_provider ops r = pl_id p"
  by (auto simp: task_result_def split: task_end.splits sum.splits if_splits
      dest: deadline_id internal_id single_id)

definition answered :: "'r run_state \<Rightarrow> string multiset" where
  "answered st = mset (map (ro_provider ops) (rs_immediate st)) + mset (map pl_id (rs_runnable st))"

lemma add_static_answered:
  "add_static ops req p reason st = (Inr (), st') \<Longrightarrow> answered st' = answered st + {#pl_id p#}"
  by (erule add_static_cases) (auto simp: answered_def dest: static_id)

lemma admit_plugin_answered:
  assumes "admit_plugin s ops env req i p st = (Inr (), st')"
  shows "answered st' = answered st + {#pl_id p#}"
  using assms
proof (cases rule: admit_plugin_cases)
  case (allowed cb st2 acq sh)
  then have "answered (st2\<lparr>rs_shared := sh\<rparr>) = answered st" by (simp add: answered_def Let_def)
  then show ?thesis using allowed(5)
    by (auto simp: answered_def split: sum.splits option.splits
        dest!: add_static_answered[unfolded answered_def])
qed (auto dest!: add_static_answered simp: answered_def)

lemma admit_all_answered:
  "admit_all s ops env req i ps st = (Inr (), st') \<Longrightarrow> answered st' = answered st + mset (map pl_id ps)"
proof (induction ps arbitrary: i st)
  case (Cons p ps)
  obtain y st1 where a: "admit_plugin s ops env req i p st = (y, st1)" by fastforce
  with Cons.prems have "y = Inr ()" by (auto split: sum.splits)
  with Cons a admit_plugin_answered[of s env req i p st st1] show ?case by auto
qed simp

end

text \<open>\<open>asyncio.wait\<close> lists every task once, among the finished or among the pending ones.\<close>

definition waits_ok :: "'r run_env \<Rightarrow> nat \<Rightarrow> bool" where
  "waits_ok env n \<longleftrightarrow> (case re_wait env of Wait_interrupted f \<Rightarrow> True
     | Waited f finished pending \<Rightarrow> mset (map fst finished @ pending) = mset [0..<n])"

lemma rmap_list_map:
  assumes "rmap_list f xs = Inr ys" "\<And>x y. x \<in> set xs \<Longrightarrow> f x = Inr y \<Longrightarrow> g y = h x"
  shows "map g ys = map h xs"
  using assms by (induction xs arbitrary: ys) auto

lemma rmap_list_set: "rmap_list f xs = Inr ys \<Longrightarrow> y \<in> set ys \<Longrightarrow> \<exists>x \<in> set xs. f x = Inr y"
  by (induction xs arbitrary: ys) auto

context provider_operation
begin

lemma wait_answered:
  assumes "wait_for_results ops env req d st = (Inr rs, st')" "waits_ok env (length (rs_runnable st))"
  shows "mset (map (ro_provider ops) rs) = mset (map pl_id (rs_runnable st))"
proof (cases "rs_runnable st = []")
  case True
  then show ?thesis using assms(1) by (auto simp: wait_for_results_def)
next
  case False
  then obtain f fin pend xs ds where w: "re_wait env = Waited f fin pend"
    and xs: "rmap_list (\<lambda>(i, t). task_result ops req d (rs_runnable st ! i) t) fin = Inr xs"
    and ds: "rmap_list (\<lambda>i. ro_deadline ops (pl_id (rs_runnable st ! i)) req d) pend = Inr ds"
    and rs: "rs = xs @ ds"
    using assms(1) by (auto simp: wait_for_results_def split: wait_end.splits)
  let ?id = "\<lambda>i. pl_id (rs_runnable st ! i)"
  have "map (ro_provider ops) xs = map (\<lambda>x. ?id (fst x)) fin"
    by (rule rmap_list_map[OF xs]) (auto dest: task_result_id)
  moreover have "map (ro_provider ops) ds = map ?id pend"
    by (rule rmap_list_map[OF ds]) (auto dest: deadline_id)
  ultimately have "mset (map (ro_provider ops) rs) = image_mset ?id (mset (map fst fin @ pend))"
    by (simp add: rs image_mset.compositionality comp_def)
  also have "\<dots> = image_mset ?id (mset [0..<length (rs_runnable st)])"
    using assms(2) w by (simp add: waits_ok_def)
  also have "\<dots> = mset (map pl_id (map (nth (rs_runnable st)) [0..<length (rs_runnable st)]))"
    by (simp add: image_mset.compositionality comp_def)
  finally show ?thesis by (simp only: map_nth)
qed

lemma run_body_answered:
  assumes "run_body s ops env plugins req d (init_run sh) = (Inr results, st)"
    "waits_ok env (length (rs_runnable st))"
  shows "mset (map (ro_provider ops) results) = mset (map pl_id plugins)"
proof -
  obtain st1 st2 st3 rs where a1: "admit_all s ops env req 0 plugins (init_run sh) = (Inr (), st1)"
    and a2: "admit_global s env st1 = (Inr (), st2)"
    and a3: "wait_for_results ops env req d st2 = (Inr rs, st3)"
    and st: "st = record_results s ops env req 0 rs st3" "results = rs @ rs_immediate st"
    using assms(1) by (auto simp: run_body_def Let_def split: sum.splits prod.splits)
  note f = admit_global_fields[OF a2] wait_fields[OF a3]
  have "mset (map (ro_provider ops) rs) = mset (map pl_id (rs_runnable st2))"
    by (rule wait_answered[OF a3]) (use assms(2) st f in simp)
  moreover have "answered st1 = mset (map pl_id plugins)"
    using admit_all_answered[OF a1] by (simp add: answered_def init_run_def)
  ultimately show ?thesis using st f by (simp add: answered_def add.commute)
qed

lemma run_answered:
  assumes "run_operation s ops env plugins req d sh = (Inr results, st)"
    and "waits_ok env (length (rs_runnable st))"
  shows "mset (map (ro_provider ops) results) = mset (map pl_id plugins)"
proof -
  obtain st0 where b: "run_body s ops env plugins req d (init_run sh) = (Inr results, st0)"
    and st: "st = run_finally env (Inr results :: 'r list res) st0"
    using assms(1) by (auto simp: run_operation_def split: prod.splits)
  have "rs_runnable st = rs_runnable st0"
    by (auto simp: st run_finally_def Let_def split: option.splits prod.splits)
  then show ?thesis using run_body_answered[OF b] assms(2) by simp
qed

end

locale checked_operation = provider_operation ops for ops :: "('q, 'r) run_ops" +
  fixes ok :: "'r \<Rightarrow> bool" and fits_request :: "'q \<Rightarrow> 'r \<Rightarrow> bool"
  assumes static_fails: "ro_static ops p req reason = Inr r \<Longrightarrow> \<not> ok r"
    and deadline_fails: "ro_deadline ops pid req ms = Inr r \<Longrightarrow> \<not> ok r"
    and internal_fails: "ro_internal ops pid req e = Inr r \<Longrightarrow> \<not> ok r"
    and single_fits: "ro_single ops p req v ms = Inr r \<Longrightarrow> ok r \<Longrightarrow> fits_request req r"
begin

lemma task_result_fits: "task_result ops req d p t = Inr r \<Longrightarrow> ok r \<Longrightarrow> fits_request req r"
  by (auto simp: task_result_def split: task_end.splits sum.splits if_splits
      dest: deadline_fails internal_fails single_fits)

lemma add_static_fails:
  "add_static ops req p reason st = (x, st') \<Longrightarrow> \<forall>r \<in> set (rs_immediate st). \<not> ok r \<Longrightarrow>
   \<forall>r \<in> set (rs_immediate st'). \<not> ok r"
  by (erule add_static_cases) (auto dest: static_fails)

lemma admit_plugin_fails:
  assumes "admit_plugin s ops env req i p st = (x, st')" "\<forall>r \<in> set (rs_immediate st). \<not> ok r"
  shows "\<forall>r \<in> set (rs_immediate st'). \<not> ok r"
  using assms(1)
proof (cases rule: admit_plugin_cases)
  case (allowed cb st2 acq sh)
  then have im: "\<forall>r \<in> set (rs_immediate (st2\<lparr>rs_shared := sh\<rparr>)). \<not> ok r"
    using assms(2) by (simp add: Let_def)
  show ?thesis
  proof (cases "acq = Inr None")
    case True
    then show ?thesis using allowed(5) add_static_fails[OF _ im] by simp
  next
    case False
    then show ?thesis using allowed(5) im by (auto split: sum.splits option.splits)
  qed
next
  case (static reason)
  show ?thesis by (rule add_static_fails[OF static(2) assms(2)])
next
  case (circuit_open cb)
  show ?thesis by (rule add_static_fails[OF circuit_open(3)]) (use assms(2) in simp)
qed

lemma admit_all_fails:
  "admit_all s ops env req i ps st = (x, st') \<Longrightarrow> \<forall>r \<in> set (rs_immediate st). \<not> ok r \<Longrightarrow>
   \<forall>r \<in> set (rs_immediate st'). \<not> ok r"
proof (induction ps arbitrary: i st)
  case (Cons p ps)
  obtain y st1 where a: "admit_plugin s ops env req i p st = (y, st1)" by fastforce
  with Cons admit_plugin_fails[OF a] show ?case by (auto split: sum.splits)
qed simp

lemma run_body_fits:
  assumes "run_body s ops env plugins req d (init_run sh) = (Inr results, st)" "r \<in> set results" "ok r"
  shows "fits_request req r"
proof -
  obtain st1 st2 st3 rs where a1: "admit_all s ops env req 0 plugins (init_run sh) = (Inr (), st1)"
    and a2: "admit_global s env st1 = (Inr (), st2)"
    and a3: "wait_for_results ops env req d st2 = (Inr rs, st3)"
    and st: "st = record_results s ops env req 0 rs st3" "results = rs @ rs_immediate st"
    using assms(1) by (auto simp: run_body_def Let_def split: sum.splits prod.splits)
  have "\<forall>r \<in> set (rs_immediate st1). \<not> ok r" by (rule admit_all_fails[OF a1]) (simp add: init_run_def)
  then have "r \<in> set rs" using assms(2,3) st admit_global_fields[OF a2] wait_fields[OF a3] by auto
  then show ?thesis using a3 assms(3)
    by (auto simp: wait_for_results_def split: if_splits wait_end.splits
        dest!: rmap_list_set dest: task_result_fits deadline_fails)
qed

lemma run_fits:
  assumes "run_operation s ops env plugins req d sh = (Inr results, st)" "r \<in> set results" "ok r"
  shows "fits_request req r"
  using assms run_body_fits[of s env plugins req d sh results _ r]
  by (auto simp: run_operation_def split: prod.splits)

end

text \<open>The results a run can be given by its plugins.\<close>

definition plugin_responses :: "'r run_env \<Rightarrow> 'r set" where
  "plugin_responses env = (case re_wait env of Wait_interrupted f \<Rightarrow> {}
     | Waited f finished pending \<Rightarrow> {r. \<exists>i ms. (i, Task_done (Response r) ms) \<in> set finished})"

locale valid_operation =
  fixes ops :: "('q, 'r) run_ops" and valid :: "'r \<Rightarrow> bool"
  assumes static_valid: "ro_static ops p req reason = Inr r \<Longrightarrow> valid r"
    and deadline_valid: "ro_deadline ops pid req ms = Inr r \<Longrightarrow> valid r"
    and internal_valid: "ro_internal ops pid req e = Inr r \<Longrightarrow> valid r"
    and single_valid: "ro_single ops p req v ms = Inr r \<Longrightarrow> v = Response r \<or> valid r"
begin

lemma task_result_valid:
  "task_result ops req d p t = Inr r \<Longrightarrow> (\<exists>ms. t = Task_done (Response r) ms) \<or> valid r"
  by (auto simp: task_result_def split: task_end.splits sum.splits if_splits
      dest: deadline_valid internal_valid single_valid)

lemma add_static_valid:
  "add_static ops req p reason st = (x, st') \<Longrightarrow> \<forall>r \<in> set (rs_immediate st). valid r \<Longrightarrow>
   \<forall>r \<in> set (rs_immediate st'). valid r"
  by (erule add_static_cases) (auto dest: static_valid)

lemma admit_plugin_valid:
  assumes "admit_plugin s ops env req i p st = (x, st')" "\<forall>r \<in> set (rs_immediate st). valid r"
  shows "\<forall>r \<in> set (rs_immediate st'). valid r"
  using assms(1)
proof (cases rule: admit_plugin_cases)
  case (allowed cb st2 acq sh)
  then have im: "\<forall>r \<in> set (rs_immediate (st2\<lparr>rs_shared := sh\<rparr>)). valid r"
    using assms(2) by (simp add: Let_def)
  show ?thesis
  proof (cases "acq = Inr None")
    case True
    then show ?thesis using allowed(5) add_static_valid[OF _ im] by simp
  next
    case False
    then show ?thesis using allowed(5) im by (auto split: sum.splits option.splits)
  qed
next
  case (static reason)
  show ?thesis by (rule add_static_valid[OF static(2) assms(2)])
next
  case (circuit_open cb)
  show ?thesis by (rule add_static_valid[OF circuit_open(3)]) (use assms(2) in simp)
qed

lemma admit_all_valid:
  "admit_all s ops env req i ps st = (x, st') \<Longrightarrow> \<forall>r \<in> set (rs_immediate st). valid r \<Longrightarrow>
   \<forall>r \<in> set (rs_immediate st'). valid r"
proof (induction ps arbitrary: i st)
  case (Cons p ps)
  obtain y st1 where a: "admit_plugin s ops env req i p st = (y, st1)" by fastforce
  with Cons admit_plugin_valid[OF a] show ?case by (auto split: sum.splits)
qed simp

lemma run_valid:
  assumes "run_operation s ops env plugins req d sh = (Inr results, st)" "\<forall>r \<in> plugin_responses env. valid r"
    "r \<in> set results"
  shows "valid r"
proof -
  obtain st0 where b: "run_body s ops env plugins req d (init_run sh) = (Inr results, st0)"
    using assms(1) by (auto simp: run_operation_def split: prod.splits)
  obtain st1 st2 st3 rs where a1: "admit_all s ops env req 0 plugins (init_run sh) = (Inr (), st1)"
    and a2: "admit_global s env st1 = (Inr (), st2)"
    and a3: "wait_for_results ops env req d st2 = (Inr rs, st3)"
    and st: "st0 = record_results s ops env req 0 rs st3" "results = rs @ rs_immediate st0"
    using b by (auto simp: run_body_def Let_def split: sum.splits prod.splits)
  have im: "\<forall>r \<in> set (rs_immediate st0). valid r"
    using admit_all_valid[OF a1] st admit_global_fields[OF a2] wait_fields[OF a3] by (simp add: init_run_def)
  have "valid r" if "r \<in> set rs"
  proof (cases "rs_runnable st2 = []")
    case True
    then show ?thesis using a3 that by (simp add: wait_for_results_def)
  next
    case False
    then obtain f fin pend xs ds where w: "re_wait env = Waited f fin pend"
      and xs: "rmap_list (\<lambda>(i, t). task_result ops req d (rs_runnable st2 ! i) t) fin = Inr xs"
      and ds: "rmap_list (\<lambda>i. ro_deadline ops (pl_id (rs_runnable st2 ! i)) req d) pend = Inr ds"
      and rs: "rs = xs @ ds"
      using a3 by (auto simp: wait_for_results_def split: wait_end.splits)
    show ?thesis
    proof (cases "r \<in> set xs")
      case True
      then obtain i t where "(i, t) \<in> set fin" "task_result ops req d (rs_runnable st2 ! i) t = Inr r"
        using rmap_list_set[OF xs] by fastforce
      then show ?thesis using task_result_valid assms(2) w by (fastforce simp: plugin_responses_def)
    next
      case False
      then show ?thesis using rmap_list_set[OF ds] that rs deadline_valid by (metis UnE set_append)
    qed
  qed
  then show ?thesis using im assms(3) st by auto
qed

end

definition price_fits :: "price_request \<Rightarrow> price_result \<Rightarrow> bool" where
  "price_fits req r \<longleftrightarrow> (\<exists>t. p_token r = Some t \<and> tr_chain_id t = pr_chain_id req
     \<and> tr_address t = tr_address (pr_token req))"

definition quote_fits :: "quote_request \<Rightarrow> quote_result \<Rightarrow> bool" where
  "quote_fits req r \<longleftrightarrow> (\<exists>tin tout. q_token_in r = Some tin \<and> q_token_out r = Some tout
     \<and> tr_chain_id tin = qr_chain_id req \<and> tr_chain_id tout = qr_chain_id req
     \<and> tr_address tin = tr_address (qr_token_in req) \<and> tr_address tout = tr_address (qr_token_out req)
     \<and> q_amount_in r = Some (qr_amount_in req))"

lemma static_error_fails: "static_error p reason = (st, e) \<Longrightarrow> st \<noteq> OK"
  by (auto simp: static_error_def split: if_splits)

lemma error_price_result_Inr:
  "error_price_result pid req st ms e = Inr r \<Longrightarrow> p_provider r = pid \<and> p_status r = st"
  by (auto simp: error_price_result_def)

lemma error_quote_result_Inr:
  "error_quote_result pid req st ms e = Inr r \<Longrightarrow> q_provider r = pid \<and> q_status r = st"
  by (auto simp: error_quote_result_def)

lemma run_price_plugin_Inr:
  assumes "run_price_plugin p req v ms = Inr r"
  shows "p_provider r = pl_id p \<and> (p_status r = OK \<longrightarrow> price_fits req r)"
  using assms
  by (auto simp: run_price_plugin_def validate_price_result_identity_def price_fits_def Let_def
      dest!: error_price_result_Inr split: response.splits if_splits sum.splits option.splits)

lemma run_quote_plugin_Inr:
  assumes "run_quote_plugin p req v ms = Inr r"
  shows "q_provider r = pl_id p \<and> (q_status r = OK \<longrightarrow> quote_fits req r)"
  using assms
  by (auto simp: run_quote_plugin_def validate_quote_result_identity_def quote_fits_def Let_def
      dest!: error_quote_result_Inr split: response.splits if_splits sum.splits option.splits)

lemmas price_op_simps = price_ops_def static_price_result_def deadline_price_result_def
  internal_price_task_failure_result_def
lemmas quote_op_simps = quote_ops_def static_quote_result_def deadline_quote_result_def
  internal_quote_task_failure_result_def

interpretation prices: checked_operation price_ops "\<lambda>r. p_status r = OK" price_fits
  by unfold_locales
     (auto simp: price_op_simps dest: error_price_result_Inr run_price_plugin_Inr static_error_fails
       split: prod.splits)

interpretation quotes: checked_operation quote_ops "\<lambda>r. q_status r = OK" quote_fits
  by unfold_locales
     (auto simp: quote_op_simps dest: error_quote_result_Inr run_quote_plugin_Inr static_error_fails
       split: prod.splits)

interpretation price_results: valid_operation price_ops valid_price_result
  by unfold_locales (auto simp: price_op_simps error_price_result_def run_price_plugin_def Let_def
      split: prod.splits response.splits sum.splits if_splits)

interpretation quote_results: valid_operation quote_ops valid_quote_result
  by unfold_locales (auto simp: quote_op_simps error_quote_result_def run_quote_plugin_def Let_def
      split: prod.splits response.splits sum.splits if_splits)

section \<open>Properties\<close>

text \<open>C4: Whatever the plugins do and however the run ends (results, a rejected admission, a
  cancellation), once it has ended every provider reservation and the global one are released,
  and every circuit scope it was admitted to has been settled by a recorded result or by the
  release of its probe; a run that ends with an exception records no result.\<close>

theorem run_leaks_nothing:
  assumes "run_operation s ops env plugins req deadline_ms sh = (outcome, st)"
  shows "(\<forall>x \<in> set (rs_reservations st). rsv_released (snd x))
    \<and> (\<forall>g. rs_global st = Some g \<longrightarrow> rsv_released g)
    \<and> (\<forall>sc \<in> set (rs_admitted st). settled st sc)
    \<and> (\<forall>e. outcome = Inl e \<longrightarrow> (\<forall>sc res t1 t2. EvRecord sc res t1 t2 \<notin> set (rs_calls st)))"
proof -
  obtain body st0 where b: "run_body s ops env plugins req deadline_ms (init_run sh) = (body, st0)" by fastforce
  have out: "outcome = body" and st: "st = run_finally env body st0"
    using assms b by (auto simp: run_operation_def)
  define st1 where "st1 = (case body of Inr _ \<Rightarrow> st0 | Inl _ \<Rightarrow> st0\<lparr>rs_shared := re_cleanup env (rs_shared st0)\<rparr>)"
  have f1: "rs_calls st1 = rs_calls st0" "rs_scopes st1 = rs_scopes st0" "rs_admitted st1 = rs_admitted st0"
    by (simp_all add: st1_def split: sum.splits)
  obtain prs sh' where r: "release_all (rs_reservations (release_probes (rs_scopes st1) st1))
      (rs_shared (release_probes (rs_scopes st1) st1)) = (prs, sh')" by fastforce
  note inv = run_body_inv[OF b]
  have fin: "rs_reservations st = prs" "rs_calls st = rs_calls st0 @ map EvRelease (rs_scopes st0)"
    "rs_admitted st = rs_admitted st0" "\<forall>g. rs_global st = Some g \<longrightarrow> rsv_released g"
    using r by (auto simp: st run_finally_def Let_def st1_def[symmetric] f1 split: option.splits prod.splits
        dest: rsv_release_released)
  have "settled st sc" if "sc \<in> set (rs_admitted st)" for sc
    using that inv(1) by (auto simp: body_inv_def settled_def fin list_ex_iff bex_Un)
  then show ?thesis using release_all_released[OF r] fin inv(2) out by fastforce
qed

text \<open>A request over one working and one disabled provider.\<close>

abbreviation example_token :: token_ref where
  "example_token \<equiv> \<lparr>tr_chain_id = 1, tr_address = ''0xA'', tr_symbol = None, tr_decimals = None, tr_logo_url = None\<rparr>"

abbreviation example_request :: price_request where
  "example_request \<equiv> \<lparr>pr_chain_id = 1, pr_token = example_token, pr_timeout_ms = None\<rparr>"

abbreviation example_response :: price_result where
  "example_response \<equiv> \<lparr>p_provider = ''curve'', p_status = OK, p_token = Some example_token, p_price_usd = Some 2,
     p_latency_ms = 5, p_as_of = None, p_error = None, p_vault_context = None\<rparr>"

definition example_env :: "price_result run_env" where
  "example_env = \<lparr>re_allow_now = (\<lambda>i. 1), re_acquire_now = (\<lambda>i. (1, 1)), re_acquire_wakes = (\<lambda>i. []),
     re_global_now = (1, 1), re_global_wakes = [],
     re_wait = Waited (\<lambda>s. s) [(0, Task_done (Response example_response) 5)] [],
     re_record_now = (\<lambda>i. (2, 2)), re_cleanup = (\<lambda>s. s)\<rparr>"

definition example_plugins :: "plugin list" where
  "example_plugins = [mk_plugin ''curve'' True True [1] False True None,
     mk_plugin ''lifi'' True True [1] True False (Some ''missing_api_key'')]"

definition example_shared :: shared where
  "example_shared = \<lparr>sh_circuit = init_breaker, sh_capacity =
     \<lparr>global_limiter = \<lparr>lim_capacity = 200, lim_used = 7\<rparr>, per_provider_units = 20, provider_limiters = []\<rparr>\<rparr>"

abbreviation example_run :: "price_result list res \<times> price_result run_state" where
  "example_run \<equiv> run_prices default_settings example_env example_plugins example_request 900 example_shared"

lemmas run_defs = run_prices_def run_operation_def run_body_def init_run_def admit_plugin_def admit_global_def
  acquire_provider_def provider_limiter_def WeightedLimiter_def limiter_key_def try_acquire_def lim_defs
  get_limiter_def put_limiter_def set_provider_limiter_def get_global_def put_global_def allow_def
  set_state_def wait_for_results_def task_result_def run_finally_def release_provider_def
  static_rejection_reason_def static_error_def add_static_def mk_scope_def

lemmas run_examples = example_env_def example_plugins_def example_shared_def mk_plugin_def init_breaker_def
  default_settings_def

lemma example_run_result:
  "fst example_run = Inr [example_response,
     \<lparr>p_provider = ''lifi'', p_status = BAD_REQUEST, p_token = Some example_token, p_price_usd = None,
      p_latency_ms = 0, p_as_of = None, p_error = Some (mk_error PROVIDER_UNAVAILABLE ''missing_api_key''),
      p_vault_context = None\<rparr>]"
  "rs_runnable (snd example_run) = [hd example_plugins]"
  "map snd (rs_reservations (snd example_run)) = [\<lparr>rsv_units = 1, rsv_released = True\<rparr>]"
  "map sc_provider (rs_admitted (snd example_run)) = [''curve'']"
  by code_simp+

theorem run_leaks_nothing_witness:
  "rs_global (snd example_run) \<noteq> None \<and> rsv_released (the (rs_global (snd example_run)))
   \<and> list_all (settled (snd example_run)) (rs_admitted (snd example_run)) \<and> rs_admitted (snd example_run) \<noteq> []"
proof -
  have "rs_global (snd example_run) \<noteq> None" "rs_admitted (snd example_run) \<noteq> []" by code_simp+
  then show ?thesis
    using run_leaks_nothing[of default_settings price_ops example_env example_plugins example_request 900
        example_shared "fst example_run" "snd example_run"]
    by (auto simp: run_prices_def list_all_iff)
qed

text \<open>A run over prices answers every plugin exactly once: the providers of its results are
  the ids of the plugins it was given, with their multiplicities.\<close>

theorem one_price_result_per_plugin:
  assumes "run_prices s env plugins req deadline_ms sh = (Inr results, st)"
    and "waits_ok env (length (rs_runnable st))"
  shows "mset (map p_provider results) = mset (map pl_id plugins)"
  using prices.run_answered[OF assms[unfolded run_prices_def]] by (simp add: price_ops_def)

theorem one_price_result_per_plugin_witness:
  "\<exists>results. fst example_run = Inr results \<and> length results = 2
     \<and> mset (map p_provider results) = mset (map pl_id example_plugins)"
proof -
  have "waits_ok example_env (length (rs_runnable (snd example_run)))"
    by (simp add: example_run_result) (simp add: waits_ok_def example_env_def)
  note one = one_price_result_per_plugin[of default_settings example_env example_plugins example_request 900
      example_shared _ "snd example_run", OF _ this]
  obtain results where r: "fst example_run = Inr results" "length results = 2"
    using example_run_result(1) by simp
  then have "example_run = (Inr results, snd example_run)" by (simp add: prod_eq_iff)
  from one[OF this] r show ?thesis by blast
qed

text \<open>A run over quotes answers every plugin exactly once: the providers of its results are the
  ids of the plugins it was given, with their multiplicities.\<close>

theorem one_quote_result_per_plugin:
  assumes "run_quotes s env plugins req deadline_ms sh = (Inr results, st)"
    and "waits_ok env (length (rs_runnable st))"
  shows "mset (map q_provider results) = mset (map pl_id plugins)"
  using quotes.run_answered[OF assms[unfolded run_quotes_def]] by (simp add: quote_ops_def)

abbreviation example_quote_request :: quote_request where
  "example_quote_request \<equiv> \<lparr>qr_chain_id = 1, qr_token_in = example_token, qr_token_out = example_token,
     qr_amount_in = 5, qr_timeout_ms = None\<rparr>"

abbreviation example_quote_response :: quote_result where
  "example_quote_response \<equiv> \<lparr>q_provider = ''curve'', q_status = OK, q_token_in = Some example_token,
     q_token_out = Some example_token, q_amount_in = Some 5, q_amount_out = Some 9, q_amount_out_min = None,
     q_price_impact_bps = None, q_estimated_gas = None, q_latency_ms = 5, q_as_of = None, q_error = None,
     q_route = None, q_vault_context = None\<rparr>"

definition example_quote_env :: "quote_result run_env" where
  "example_quote_env = \<lparr>re_allow_now = (\<lambda>i. 1), re_acquire_now = (\<lambda>i. (1, 1)), re_acquire_wakes = (\<lambda>i. []),
     re_global_now = (1, 1), re_global_wakes = [],
     re_wait = Waited (\<lambda>s. s) [(0, Task_done (Response example_quote_response) 5)] [],
     re_record_now = (\<lambda>i. (2, 2)), re_cleanup = (\<lambda>s. s)\<rparr>"

abbreviation example_quote_run :: "quote_result list res \<times> quote_result run_state" where
  "example_quote_run \<equiv> run_quotes default_settings example_quote_env example_plugins example_quote_request 900 example_shared"

lemma example_quote_run_result:
  "case fst example_quote_run of Inl e \<Rightarrow> False | Inr rs \<Rightarrow> hd rs = example_quote_response \<and> length rs = 2"
  "length (rs_runnable (snd example_quote_run)) = 1"
  by code_simp+

theorem one_quote_result_per_plugin_witness:
  "\<exists>results. fst example_quote_run = Inr results \<and> length results = 2
     \<and> mset (map q_provider results) = mset (map pl_id example_plugins)"
proof -
  have w: "waits_ok example_quote_env (length (rs_runnable (snd example_quote_run)))"
    by (simp add: example_quote_run_result) (simp add: waits_ok_def example_quote_env_def)
  obtain results where r: "fst example_quote_run = Inr results" "length results = 2"
    using example_quote_run_result(1) by (auto split: sum.splits)
  then have "example_quote_run = (Inr results, snd example_quote_run)" by (simp add: prod_eq_iff)
  from one_quote_result_per_plugin[OF this w] r show ?thesis by blast
qed

text \<open>Every successful quote a run returns fits the request: its tokens and chain are those
  asked for and its input amount is the requested one, whatever the plugins answered.\<close>

theorem successful_quotes_fit_request:
  assumes "run_quotes s env plugins req deadline_ms sh = (Inr results, st)"
    and "r \<in> set results" "q_status r = OK"
  shows "quote_fits req r"
  by (rule quotes.run_fits[OF assms[unfolded run_quotes_def]])

theorem successful_quotes_fit_request_witness:
  "quote_fits example_quote_request example_quote_response"
proof -
  obtain results where r: "fst example_quote_run = Inr results" "hd results = example_quote_response" "length results = 2"
    using example_quote_run_result(1) by (auto split: sum.splits)
  moreover from r(3) have "results \<noteq> []" by auto
  ultimately have "example_quote_run = (Inr results, snd example_quote_run)" "example_quote_response \<in> set results"
    by (auto simp: prod_eq_iff dest: hd_in_set)
  from successful_quotes_fit_request[OF this] show ?thesis by simp
qed

text \<open>Every successful price a run returns is for the token and chain of the request.\<close>

theorem successful_prices_fit_request:
  assumes "run_prices s env plugins req deadline_ms sh = (Inr results, st)"
    and "r \<in> set results" "p_status r = OK"
  shows "price_fits req r"
  by (rule prices.run_fits[OF assms[unfolded run_prices_def]])

theorem successful_prices_fit_request_witness:
  "price_fits example_request example_response"
  by (rule successful_prices_fit_request[of default_settings example_env example_plugins example_request 900
      example_shared "[example_response,
     \<lparr>p_provider = ''lifi'', p_status = BAD_REQUEST, p_token = Some example_token, p_price_usd = None,
      p_latency_ms = 0, p_as_of = None, p_error = Some (mk_error PROVIDER_UNAVAILABLE ''missing_api_key''),
      p_vault_context = None\<rparr>]" "snd example_run"])
    (use example_run_result(1) in \<open>simp_all add: prod_eq_iff\<close>)

text \<open>When no other request interferes, a run leaves every limiter with the units in use it
  found, whatever its outcome.\<close>

theorem quiet_run_restores_limiters:
  assumes "quiet_env env" "run_operation s ops env plugins req deadline_ms sh = (outcome, st)"
    and "\<forall>k. 0 \<le> provider_used sh k" "0 \<le> lim_used (get_global sh)"
  shows "provider_used (rs_shared st) k = provider_used sh k \<and> get_global (rs_shared st) = get_global sh"
proof -
  obtain body st0 where b: "run_body s ops env plugins req deadline_ms (init_run sh) = (body, st0)" by fastforce
  have st: "st = run_finally env body st0" using assms(2) b by (auto simp: run_operation_def)
  obtain x1 st1 where a1: "admit_all s ops env req 0 plugins (init_run sh) = (x1, st1)" by fastforce
  have "quiet_inv sh (init_run sh)" using admission_inv_init[of sh]
    by (simp add: quiet_inv_def) (simp add: init_run_def)
  then have q1: "quiet_inv sh st1" using admit_all_quiet[OF a1] assms(1) by blast
  obtain x2 st2 where a2: "admit_global s env st1 = (x2, st2)" by fastforce
  note q2 = admit_global_quiet[OF a2 q1 assms(1)]
  obtain x3 st3 where a3: "wait_for_results ops env req deadline_ms st2 = (x3, st3)" by fastforce
  have w: "rs_shared st3 = rs_shared st2" using a3 assms(1)
    by (auto simp: wait_for_results_def quiet_env_def split: if_splits wait_end.splits)
  have ng: "rs_global st1 = None" using q1 by (simp add: quiet_inv_def admission_inv_def)
  have body: "(\<forall>k. provider_used (rs_shared st0) k = provider_used sh k + held_for k (rs_reservations st0))
    \<and> global_held sh st0"
  proof -
    have "global_held sh st1" using q1 ng by (simp add: global_held_def quiet_inv_def)
    moreover have "global_held sh st3 = global_held sh st2"
      "global_held sh (record_results s ops env req 0 rs st3) = global_held sh st2" for rs
      by (rule global_held_cong; simp add: wait_fields[OF a3] w)+
    ultimately show ?thesis using b a1 a2 a3 q1 q2 w wait_fields[OF a3]
      by (auto simp: run_body_def Let_def quiet_inv_def split: sum.splits)
  qed
  have res: "\<forall>x \<in> set (rs_reservations st0). rsv_units (snd x) = 1 \<and> \<not> rsv_released (snd x)"
    using b a1 a2 a3 q1 wait_fields[OF a3] admit_global_fields[OF a2]
    by (auto simp: run_body_def Let_def quiet_inv_def admission_inv_def split: sum.splits)
  define st0' where "st0' = (case body of Inr _ \<Rightarrow> st0 | Inl _ \<Rightarrow> st0\<lparr>rs_shared := re_cleanup env (rs_shared st0)\<rparr>)"
  have same: "st0' = st0" using assms(1) by (auto simp: st0'_def quiet_env_def split: sum.splits)
  let ?p = "release_probes (rs_scopes st0) st0"
  obtain prs sh' where r: "release_all (rs_reservations st0) (rs_shared ?p) = (prs, sh')" by fastforce
  have "provider_used (rs_shared ?p) = provider_used (rs_shared st0)" "get_global (rs_shared ?p) = get_global (rs_shared st0)"
    by (auto simp: provider_used_def get_global_def)
  with release_all_restores[OF r res, of "provider_used sh"] body assms(3)
  have kept: "provider_used sh' k = provider_used sh k" "get_global sh' = get_global (rs_shared st0)" for k
    by auto
  have pu: "provider_used (put_global l sh) k = provider_used sh k" "get_global (put_global l sh) = l" for l sh k
    by (simp_all add: provider_used_def put_global_def get_global_def)
  show ?thesis
  proof (cases "rs_global st0")
    case None
    then show ?thesis using r kept body
      by (simp add: st run_finally_def Let_def st0'_def[symmetric] same global_held_def)
  next
    case (Some g)
    then show ?thesis using r kept body assms(4)
      by (auto simp: st run_finally_def Let_def st0'_def[symmetric] same pu rsv_release_def lim_release_def
          add_used_def global_held_def)
  qed
qed

theorem quiet_run_restores_limiters_witness:
  "lim_used (get_global (rs_shared (snd example_run))) = 7
   \<and> provider_used (rs_shared (snd example_run)) ''curve'' = 0"
proof -
  have q: "quiet_env example_env" by (simp add: quiet_env_def example_env_def)
  show ?thesis
    using quiet_run_restores_limiters[OF q, of default_settings price_ops example_plugins example_request 900
        example_shared "fst example_run" "snd example_run" "''curve''"]
    by (simp add: run_prices_def[symmetric]) (simp add: provider_used_def get_global_def example_shared_def)
qed

end
