(* ===== verification/Providers.thy ===== *)
theory Providers
  imports Transport Runner
begin

text \<open>
  The four providers (\<open>providers/defillama.py\<close>, \<open>providers/curve.py\<close>, \<open>providers/lifi.py\<close>,
  \<open>providers/enso.py\<close>): one call through the provider's HTTP client and the reading of its payload. A result
  whose constructor rejects it is the \<open>ValueError\<close> of \<open>mk_price_result\<close> or \<open>mk_quote_result\<close>.
\<close>

section \<open>What a provider works with\<close>

text \<open>The network, the clocks of one call, the wall clock and the time functions.\<close>

record provider_env =
  pe_net :: network
  pe_clock :: call_clock
  pe_wall :: wall
  pe_time :: time_lib
  pe_monotonic :: rat

text \<open>Enso's credit gauges and the time they were last set.\<close>

record credits =
  cr_used :: "rat option"
  cr_limit :: "rat option"
  cr_remaining :: "rat option"
  cr_updated :: "rat option"
  cr_updated_at :: "rat option"

record provider_state =
  pv_client :: http_client
  pv_credits :: credits

definition provider_get ::
    "provider_env \<Rightarrow> string \<Rightarrow> (string \<times> json) list option \<Rightarrow> (string \<times> string) list option \<Rightarrow> int option
     \<Rightarrow> provider_state \<Rightarrow> provider_state \<times> http_call_result res" where
  "provider_get pe url params headers timeout_ms pv =
     (let (h, call) = timed_get (pe_net pe) (pe_clock pe) url params headers timeout_ms (pv_client pv)
      in (pv\<lparr>pv_client := h\<rparr>, call))"

definition price_failure :: "string \<Rightarrow> price_request \<Rightarrow> transport_failure \<Rightarrow> price_result res" where
  "price_failure pid req f = error_price_result pid req (tf_status f) (tf_latency_ms f) (failure_error_info f)"

definition quote_failure :: "string \<Rightarrow> quote_request \<Rightarrow> transport_failure \<Rightarrow> quote_result res" where
  "quote_failure pid req f = error_quote_result pid req (tf_status f) (tf_latency_ms f) (failure_error_info f)"

definition ok_price_result :: "string \<Rightarrow> token_ref \<Rightarrow> rat \<Rightarrow> int \<Rightarrow> rat option \<Rightarrow> price_result res" where
  "ok_price_result pid token price latency_ms as_of = mk_price_result
     \<lparr>p_provider = pid, p_status = OK, p_token = Some token, p_price_usd = Some price, p_latency_ms = latency_ms,
      p_as_of = as_of, p_error = None, p_vault_context = None\<rparr>"

definition ok_quote_result ::
    "string \<Rightarrow> quote_request \<Rightarrow> token_ref \<Rightarrow> token_ref \<Rightarrow> int \<Rightarrow> int option \<Rightarrow> int option \<Rightarrow> int option \<Rightarrow> int \<Rightarrow> rat option
     \<Rightarrow> (string \<times> json) list option \<Rightarrow> quote_result res" where
  "ok_quote_result pid req token_in token_out amount_out amount_out_min impact_bps gas latency_ms as_of route =
     mk_quote_result
     \<lparr>q_provider = pid, q_status = OK, q_token_in = Some token_in, q_token_out = Some token_out,
      q_amount_in = Some (qr_amount_in req), q_amount_out = Some amount_out, q_amount_out_min = amount_out_min,
      q_price_impact_bps = impact_bps, q_estimated_gas = gas, q_latency_ms = latency_ms, q_as_of = as_of,
      q_error = None, q_route = route, q_vault_context = None\<rparr>"

definition no_route :: "string \<Rightarrow> error_info" where
  "no_route message = mk_error NO_ROUTE_ERROR message"

section \<open>DefiLlama\<close>

definition chain_of :: "int \<Rightarrow> chain res" where
  "chain_of chain_id = (case map_of CHAINS chain_id of None \<Rightarrow> Inl (OtherException ''KeyError'') | Some c \<Rightarrow> Inr c)"

definition llama_price_url :: "string \<Rightarrow> string" where
  "llama_price_url coin = ''https://coins.llama.fi/prices/current/'' @ coin"

definition read_llama_price ::
    "provider_env \<Rightarrow> price_request \<Rightarrow> string \<Rightarrow> http_call_result \<Rightarrow> price_result res" where
  "read_llama_price pe req coin call =
     (let transport = json_transport_outcome (pe_wall pe) call ''DefiLlama'' ''Invalid DefiLlama JSON response'';
          latency_ms = jo_latency_ms transport;
          not_found = error_price_result ''defillama'' req NO_ROUTE latency_ms (no_route ''Token not found'')
      in case (jo_failure transport, jo_payload transport) of
        (Some f, _) \<Rightarrow> price_failure ''defillama'' req f
      | (None, None) \<Rightarrow> Inl (OtherException ''AssertionError'')
      | (None, Some payload) \<Rightarrow>
        (case json_get payload ''coins'' of
          JObj coins \<Rightarrow>
            (case json_get coins coin of
               JObj coin_data \<Rightarrow>
                 (let price = parse_positive_decimal (json_get coin_data ''price'') in
                  rbind (parse_datetime (pe_time pe) (json_get coin_data ''timestamp'')) (\<lambda>as_of.
                  case price of
                    None \<Rightarrow> error_price_result ''defillama'' req ERROR latency_ms
                             (mk_error UPSTREAM_PARSE ''Price missing from response'')
                  | Some p \<Rightarrow> rbind (with_token_metadata (pr_token req) (JObj coin_data)) (\<lambda>token.
                      ok_price_result ''defillama'' token p latency_ms as_of)))
             | _ \<Rightarrow> not_found)
        | _ \<Rightarrow> not_found))"

definition llama_get_price ::
    "provider_env \<Rightarrow> price_request \<Rightarrow> provider_state \<Rightarrow> provider_state \<times> price_result res" where
  "llama_get_price pe req pv =
     (case chain_of (pr_chain_id req) of
        Inl e \<Rightarrow> (pv, Inl e)
      | Inr c \<Rightarrow>
          let coin = defillama_name c @ '':'' @ tr_address (pr_token req);
              (pv1, call) = provider_get pe (llama_price_url coin) (Some [(''searchWidth'', JStr ''4h'')]) None
                (pr_timeout_ms req) pv
          in (pv1, rbind call (read_llama_price pe req coin)))"

section \<open>Curve\<close>

definition to_curve_native_alias :: "string \<Rightarrow> string" where
  "to_curve_native_alias address =
     (if py_lower address = py_lower NATIVE_TOKEN_ALIAS then ''0xeeeeeeeeeeeeeeeeeeeeeeeeeeeeeeeeeeeeeeee'' else address)"

definition first_dict :: "json list \<Rightarrow> (string \<times> json) list option" where
  "first_dict items = (case List.map_filter (\<lambda>v. case v of JObj d \<Rightarrow> Some d | _ \<Rightarrow> None) items of
     [] \<Rightarrow> None | d # _ \<Rightarrow> Some d)"

definition extract_curve_quote_payload :: "json \<Rightarrow> (string \<times> json) list option" where
  "extract_curve_quote_payload json_data =
     (case json_data of
        JObj d \<Rightarrow> Some (case json_get d ''data'' of JObj data \<Rightarrow> data | _ \<Rightarrow> d)
      | JList items \<Rightarrow> if items = [] then Some [] else first_dict items
      | _ \<Rightarrow> None)"

definition positive_or_none :: "int option \<Rightarrow> int option" where
  "positive_or_none n = (case n of Some i \<Rightarrow> if i > 0 then Some i else None | None \<Rightarrow> None)"

fun first_positive :: "json list \<Rightarrow> int option res" where
  "first_positive [] = Inr None"
| "first_positive (item # items) =
     rbind (parse_int item) (\<lambda>n. case positive_or_none n of Some i \<Rightarrow> Inr (Some i) | None \<Rightarrow> first_positive items)"

definition parse_curve_amount :: "json \<Rightarrow> int option res" where
  "parse_curve_amount v =
     (case v of JList items \<Rightarrow> first_positive items | _ \<Rightarrow> rbind (parse_int v) (\<lambda>n. Inr (positive_or_none n)))"

definition normalize_route :: "json \<Rightarrow> (string \<times> json) list option" where
  "normalize_route v = (case v of JObj d \<Rightarrow> Some d | JList l \<Rightarrow> Some [(''steps'', JList l)] | _ \<Rightarrow> None)"

definition price_keys :: "string list" where "price_keys = [''usdPrice'', ''usd_price'', ''price'']"

definition read_curve_price :: "provider_env \<Rightarrow> price_request \<Rightarrow> http_call_result \<Rightarrow> price_result res" where
  "read_curve_price pe req call =
     (let transport = json_transport_outcome (pe_wall pe) call ''Curve'' invalid_json;
          latency_ms = jo_latency_ms transport
      in case (jo_failure transport, jo_payload transport) of
        (Some f, _) \<Rightarrow> price_failure ''curve'' req f
      | (None, None) \<Rightarrow> Inl (OtherException ''AssertionError'')
      | (None, Some payload) \<Rightarrow>
          let found = get_first payload price_keys;
              price_value = (if found = JNull
                then (case json_get payload ''data'' of JObj data \<Rightarrow> get_first data price_keys | _ \<Rightarrow> JNull)
                else found)
          in case parse_positive_decimal price_value of
               None \<Rightarrow> error_price_result ''curve'' req NO_ROUTE latency_ms (no_route ''Token not supported'')
             | Some price \<Rightarrow>
                 rbind (parse_datetime (pe_time pe) (get_first payload [''timestamp'', ''asOf''])) (\<lambda>as_of.
                   ok_price_result ''curve'' (pr_token req) price latency_ms as_of))"

definition curve_get_price ::
    "provider_env \<Rightarrow> price_request \<Rightarrow> provider_state \<Rightarrow> provider_state \<times> price_result res" where
  "curve_get_price pe req pv =
     (case chain_of (pr_chain_id req) of
        Inl e \<Rightarrow> (pv, Inl e)
      | Inr c \<Rightarrow>
          let (pv1, call) = provider_get pe
                (''https://prices.curve.finance/v1/usd_price/'' @ curve_name c @ ''/'' @ tr_address (pr_token req))
                None None (pr_timeout_ms req) pv
          in (pv1, rbind call (read_curve_price pe req)))"

definition read_curve_payload ::
    "provider_env \<Rightarrow> quote_request \<Rightarrow> int \<Rightarrow> (string \<times> json) list \<Rightarrow> quote_result res" where
  "read_curve_payload pe req latency_ms payload =
     (let found = get_first payload [''amountOut'', ''output'', ''toAmount''];
          amount_out_value = (if found = JNull then get_nested (JObj payload) [''bestRoute'', ''output''] else found)
      in rbind (parse_curve_amount amount_out_value) (\<lambda>amount_out.
         case amount_out of
           None \<Rightarrow> error_quote_result ''curve'' req NO_ROUTE latency_ms (no_route ''No route found'')
         | Some amount \<Rightarrow>
             rbind (parse_int (get_first payload [''gas'', ''estimatedGas''])) (\<lambda>gas.
             let impact = decimal_to_bps (parse_decimal (get_first payload [''priceImpact'', ''price_impact'']));
                 route = normalize_route (get_first payload [''route'', ''routes'', ''bestRoute''])
             in rbind (parse_curve_amount (get_first payload [''amountOutMin'', ''toAmountMin''])) (\<lambda>amount_min.
                rbind (parse_datetime (pe_time pe) (get_first payload [''timestamp'', ''asOf'', ''createdAt''])) (\<lambda>as_of.
                  ok_quote_result ''curve'' req (qr_token_in req) (qr_token_out req) amount amount_min impact gas
                    latency_ms as_of route)))))"

definition read_curve_quote :: "provider_env \<Rightarrow> quote_request \<Rightarrow> http_call_result \<Rightarrow> quote_result res" where
  "read_curve_quote pe req call =
     (let failed = (\<lambda>st e. error_quote_result ''curve'' req st (hcr_latency_ms call) e) in
      if hcr_timeout call then failed ERROR (timeout_error_info call ''Curve'')
      else case hcr_http_error call of
        Some e \<Rightarrow> failed ERROR (mk_error UPSTREAM_HTTP (he_message e))
      | None \<Rightarrow>
        (case hcr_response call of
           None \<Rightarrow> failed ERROR (mk_error UPSTREAM_HTTP ''Curve response missing'')
         | Some response \<Rightarrow>
           (case non_200_status (pe_wall pe) response ''Curve'' of
              Some f \<Rightarrow> failed (hsf_status f) (status_error_info f)
            | None \<Rightarrow>
              (case extract_curve_quote_payload (hr_json_data response) of
                 None \<Rightarrow> failed ERROR (mk_error UPSTREAM_PARSE ''Invalid JSON response'')
               | Some payload \<Rightarrow> read_curve_payload pe req (hcr_latency_ms call) payload))))"

definition curve_get_quote ::
    "provider_env \<Rightarrow> quote_request \<Rightarrow> provider_state \<Rightarrow> provider_state \<times> quote_result res" where
  "curve_get_quote pe req pv =
     (let params = [(''chainId'', JInt (qr_chain_id req)),
            (''tokenIn'', JStr (to_curve_native_alias (tr_address (qr_token_in req)))),
            (''tokenOut'', JStr (to_curve_native_alias (tr_address (qr_token_out req)))),
            (''amountIn'', JStr (int_str (qr_amount_in req))), (''router'', JStr ''curve'')];
          (pv1, call) = provider_get pe ''https://www.curve.finance/api/router/v1/routes'' (Some params) None
            (qr_timeout_ms req) pv
      in (pv1, rbind call (read_curve_quote pe req)))"

section \<open>LI.FI\<close>

definition LIFI_DUMMY_ADDRESS :: string where
  "LIFI_DUMMY_ADDRESS = ''0x0000000000000000000000000000000000000001''"

definition lifi_headers :: "string option \<Rightarrow> (string \<times> string) list" where
  "lifi_headers api_key = (if nonempty_key api_key then [(''x-lifi-api-key'', or_default api_key [])] else [])"

definition lifi_price_keys :: "string list" where "lifi_price_keys = [''priceUSD'', ''priceUsd'', ''price'']"

definition read_lifi_price :: "provider_env \<Rightarrow> price_request \<Rightarrow> http_call_result \<Rightarrow> price_result res" where
  "read_lifi_price pe req call =
     (let transport = json_transport_outcome (pe_wall pe) call ''LI.FI'' invalid_json;
          latency_ms = jo_latency_ms transport
      in case (jo_failure transport, jo_payload transport) of
        (Some f, _) \<Rightarrow> price_failure ''lifi'' req f
      | (None, None) \<Rightarrow> Inl (OtherException ''AssertionError'')
      | (None, Some payload) \<Rightarrow>
          let price = or_else (parse_positive_decimal (get_first payload lifi_price_keys))
                (case json_get payload ''token'' of
                   JObj token_data \<Rightarrow> parse_positive_decimal (get_first token_data lifi_price_keys) | _ \<Rightarrow> None)
          in case price of
               None \<Rightarrow> error_price_result ''lifi'' req NO_ROUTE latency_ms (no_route ''Token not supported'')
             | Some p \<Rightarrow>
                 rbind (parse_datetime (pe_time pe) (get_first payload [''timestamp'', ''updatedAt''])) (\<lambda>as_of.
                 rbind (with_token_metadata (pr_token req) (json_get payload ''token'')) (\<lambda>token.
                   ok_price_result ''lifi'' token p latency_ms as_of)))"

definition lifi_get_price ::
    "settings \<Rightarrow> provider_env \<Rightarrow> price_request \<Rightarrow> provider_state \<Rightarrow> provider_state \<times> price_result res" where
  "lifi_get_price s pe req pv =
     (let (pv1, call) = provider_get pe ''https://li.quest/v1/token''
            (Some [(''chain'', JInt (pr_chain_id req)), (''token'', JStr (tr_address (pr_token req)))])
            (Some (lifi_headers (lifi_api_key s))) (pr_timeout_ms req) pv
      in (pv1, rbind call (read_lifi_price pe req)))"

text \<open>\<open>",".join(items)\<close>\<close>

fun join_comma :: "string list \<Rightarrow> string" where
  "join_comma [] = []"
| "join_comma [x] = x"
| "join_comma (x # xs) = x @ '','' @ join_comma xs"

definition lifi_quote_params :: "settings \<Rightarrow> quote_request \<Rightarrow> (string \<times> json) list" where
  "lifi_quote_params s req =
     [(''fromChain'', JInt (qr_chain_id req)), (''toChain'', JInt (qr_chain_id req)),
      (''fromToken'', JStr (tr_address (qr_token_in req))), (''toToken'', JStr (tr_address (qr_token_out req))),
      (''fromAmount'', JStr (int_str (qr_amount_in req))), (''fromAddress'', JStr LIFI_DUMMY_ADDRESS),
      (''toAddress'', JStr LIFI_DUMMY_ADDRESS),
      (''slippage'', JFloat (3458764513820541 / 1152921504606846976) (3 / 1000))]
     @ (if lifi_deny_exchanges s = [] then [] else [(''denyExchanges'', JStr (join_comma (lifi_deny_exchanges s)))])"

text \<open>The first of two texts that is read as a positive amount, or what the second gives.\<close>

definition first_amount :: "json \<Rightarrow> json \<Rightarrow> int option \<Rightarrow> int option res" where
  "first_amount first second token_decimals =
     rbind (parse_base_unit_amount first token_decimals) (\<lambda>a.
       case positive_or_none a of Some n \<Rightarrow> Inr (Some n) | None \<Rightarrow> parse_base_unit_amount second token_decimals)"

definition json_dict :: "json \<Rightarrow> (string \<times> json) list option" where
  "json_dict v = (case v of JObj d \<Rightarrow> Some d | _ \<Rightarrow> None)"

definition read_lifi_payload ::
    "provider_env \<Rightarrow> quote_request \<Rightarrow> int \<Rightarrow> (string \<times> json) list \<Rightarrow> quote_result res" where
  "read_lifi_payload pe req latency_ms payload =
     rbind (with_token_metadata (qr_token_in req) (first_nested_dict payload
              [[''action'', ''fromToken''], [''estimate'', ''fromToken''], [''fromToken'']])) (\<lambda>token_in.
     rbind (with_token_metadata (qr_token_out req) (first_nested_dict payload
              [[''action'', ''toToken''], [''estimate'', ''toToken''], [''toToken'']])) (\<lambda>token_out.
     let token_out_decimals = tr_decimals token_out in
     rbind (first_amount (get_nested (JObj payload) [''estimate'', ''toAmount''])
              (get_first payload [''toAmount'', ''amountOut'']) token_out_decimals) (\<lambda>amount_out.
     case positive_or_none amount_out of
       None \<Rightarrow> error_quote_result ''lifi'' req NO_ROUTE latency_ms (no_route ''No route found'')
     | Some amount \<Rightarrow>
       rbind (parse_base_unit_amount (get_nested (JObj payload) [''estimate'', ''toAmountMin'']) token_out_decimals) (\<lambda>min_out.
       rbind (parse_int (get_nested (JObj payload) [''estimate'', ''data'', ''estimatedGas''])) (\<lambda>gas.
       let impact = decimal_to_bps (parse_decimal (get_nested (JObj payload) [''estimate'', ''priceImpact'']));
           route = json_dict (json_get payload ''route'')
       in rbind (parse_datetime (pe_time pe) (get_first payload [''timestamp'', ''updatedAt''])) (\<lambda>as_of.
            ok_quote_result ''lifi'' req token_in token_out amount min_out impact gas latency_ms as_of route))))))"

definition read_lifi_quote :: "provider_env \<Rightarrow> quote_request \<Rightarrow> http_call_result \<Rightarrow> quote_result res" where
  "read_lifi_quote pe req call =
     (let transport = json_transport_outcome (pe_wall pe) call ''LI.FI'' invalid_json
      in case (jo_failure transport, jo_payload transport) of
        (Some f, _) \<Rightarrow> quote_failure ''lifi'' req f
      | (None, None) \<Rightarrow> Inl (OtherException ''AssertionError'')
      | (None, Some payload) \<Rightarrow> read_lifi_payload pe req (jo_latency_ms transport) payload)"

definition lifi_get_quote ::
    "settings \<Rightarrow> provider_env \<Rightarrow> quote_request \<Rightarrow> provider_state \<Rightarrow> provider_state \<times> quote_result res" where
  "lifi_get_quote s pe req pv =
     (let (pv1, call) = provider_get pe ''https://li.quest/v1/quote'' (Some (lifi_quote_params s req))
            (Some (lifi_headers (lifi_api_key s))) (qr_timeout_ms req) pv
      in (pv1, rbind call (read_lifi_quote pe req)))"

section \<open>Enso\<close>

definition ENSO_QUERY_ADDRESS :: string where
  "ENSO_QUERY_ADDRESS = ''0x1111111111111111111111111111111111111111''"

definition enso_headers :: "string option \<Rightarrow> (string \<times> string) list" where
  "enso_headers api_key =
     (if nonempty_key api_key then [(''Authorization'', ''Bearer '' @ or_default api_key [])] else [])"

definition record_credits :: "rat \<Rightarrow> rat \<Rightarrow> (string, string) odict \<Rightarrow> credits \<Rightarrow> credits" where
  "record_credits now monotonic headers cr =
     (case (Option.bind (map_of headers ''x-enso-credits-used'') float_of_str,
            Option.bind (map_of headers ''x-enso-credits-limit'') float_of_str) of
        (Some (Finite used), Some (Finite limit)) \<Rightarrow>
          if used \<ge> 0 \<and> limit > 0
          then \<lparr>cr_used = Some used, cr_limit = Some limit, cr_remaining = Some (max (limit - used) 0),
                cr_updated = Some now, cr_updated_at = Some monotonic\<rparr>
          else cr
      | _ \<Rightarrow> cr)"

definition record_response_credits :: "provider_env \<Rightarrow> http_call_result \<Rightarrow> provider_state \<Rightarrow> provider_state" where
  "record_response_credits pe call pv =
     (case hcr_response call of
        None \<Rightarrow> pv
      | Some r \<Rightarrow> pv\<lparr>pv_credits := record_credits (w_now (pe_wall pe)) (pe_monotonic pe) (hr_headers r) (pv_credits pv)\<rparr>)"

text \<open>
  One round of \<open>monitor_credits\<close>, which repeats it every sixty seconds: the headers the account endpoint
  answered with, or no value where the call raised.
\<close>

definition credit_check_due :: "rat \<Rightarrow> credits \<Rightarrow> bool" where
  "credit_check_due monotonic cr =
     (case cr_updated_at cr of None \<Rightarrow> True | Some t \<Rightarrow> monotonic - t \<ge> 900)"

definition monitor_credits_round ::
    "rat \<Rightarrow> rat \<Rightarrow> rat \<Rightarrow> (string, string) odict option \<Rightarrow> credits \<Rightarrow> credits" where
  "monitor_credits_round checked now monotonic answer cr =
     (if credit_check_due checked cr
      then (case answer of None \<Rightarrow> cr | Some headers \<Rightarrow> record_credits now monotonic headers cr)
      else cr)"

definition parse_enso_price_impact_bps :: "json \<Rightarrow> int option" where
  "parse_enso_price_impact_bps v =
     (case parse_decimal v of
        None \<Rightarrow> None
      | Some d \<Rightarrow> if d > 1 then Some (round_half_even d) else decimal_to_bps (Some d))"

definition read_enso_price :: "provider_env \<Rightarrow> price_request \<Rightarrow> http_call_result \<Rightarrow> price_result res" where
  "read_enso_price pe req call =
     (let transport = json_transport_outcome (pe_wall pe) call ''Enso'' invalid_json;
          latency_ms = jo_latency_ms transport
      in case (jo_failure transport, jo_payload transport) of
        (Some f, _) \<Rightarrow> price_failure ''enso'' req f
      | (None, None) \<Rightarrow> Inl (OtherException ''AssertionError'')
      | (None, Some response_payload) \<Rightarrow>
          let payload = payload_data_or_root response_payload
          in case parse_positive_decimal (get_first payload [''price'', ''usdPrice'', ''priceUsd'']) of
               None \<Rightarrow> error_price_result ''enso'' req NO_ROUTE latency_ms (no_route ''Token not supported'')
             | Some price \<Rightarrow>
                 rbind (with_token_metadata (pr_token req) (JObj payload)) (\<lambda>token.
                 rbind (parse_datetime (pe_time pe) (get_first payload [''timestamp'', ''updatedAt''])) (\<lambda>as_of.
                   ok_price_result ''enso'' token price latency_ms as_of)))"

text \<open>The credits are recorded before the payload is read.\<close>

definition enso_get_price ::
    "settings \<Rightarrow> provider_env \<Rightarrow> price_request \<Rightarrow> provider_state \<Rightarrow> provider_state \<times> price_result res" where
  "enso_get_price s pe req pv =
     (let (pv1, call) = provider_get pe
            (''https://api.enso.finance/api/v1/prices/'' @ int_str (pr_chain_id req) @ ''/'' @ tr_address (pr_token req))
            None (Some (enso_headers (enso_api_key s))) (pr_timeout_ms req) pv
      in case call of
           Inl e \<Rightarrow> (pv1, Inl e)
         | Inr c \<Rightarrow> (record_response_credits pe c pv1, read_enso_price pe req c))"

definition enso_quote_params :: "quote_request \<Rightarrow> (string \<times> json) list" where
  "enso_quote_params req =
     [(''chainId'', JInt (qr_chain_id req)), (''fromAddress'', JStr ENSO_QUERY_ADDRESS),
      (''tokenIn'', JStr (tr_address (qr_token_in req))), (''tokenOut'', JStr (tr_address (qr_token_out req))),
      (''amountIn'', JStr (int_str (qr_amount_in req))), (''slippage'', JInt 300)]"

definition read_enso_payload ::
    "provider_env \<Rightarrow> quote_request \<Rightarrow> int \<Rightarrow> (string \<times> json) list \<Rightarrow> quote_result res" where
  "read_enso_payload pe req latency_ms payload =
     rbind (with_token_metadata (qr_token_out req)
              (first_nested_dict payload [[''tokenOut''], [''toToken''], [''outputToken'']])) (\<lambda>token_out.
     rbind (with_token_metadata (qr_token_in req)
              (first_nested_dict payload [[''tokenIn''], [''fromToken''], [''inputToken'']])) (\<lambda>token_in.
     let token_out_decimals = tr_decimals token_out in
     rbind (first_amount (get_first payload [''amountOut'', ''toAmount'', ''outputAmount''])
              (get_nested (JObj payload) [''route'', ''amountOut'']) token_out_decimals) (\<lambda>amount_out.
     case positive_or_none amount_out of
       None \<Rightarrow> error_quote_result ''enso'' req NO_ROUTE latency_ms (no_route ''No route found'')
     | Some amount \<Rightarrow>
       let impact = parse_enso_price_impact_bps (get_first payload [''priceImpact'', ''price_impact'']);
           route = json_dict (json_get payload ''route'')
       in rbind (parse_base_unit_amount (get_first payload [''minAmountOut'', ''amountOutMin'', ''toAmountMin''])
                   token_out_decimals) (\<lambda>min_out.
          rbind (parse_int (get_first payload [''gas'', ''estimatedGas''])) (\<lambda>gas.
          rbind (parse_datetime (pe_time pe) (get_first payload [''timestamp'', ''updatedAt''])) (\<lambda>as_of.
            ok_quote_result ''enso'' req token_in token_out amount min_out impact gas latency_ms as_of route))))))"

definition read_enso_quote :: "provider_env \<Rightarrow> quote_request \<Rightarrow> http_call_result \<Rightarrow> quote_result res" where
  "read_enso_quote pe req call =
     (let transport = json_transport_outcome (pe_wall pe) call ''Enso'' invalid_json
      in case (jo_failure transport, jo_payload transport) of
        (Some f, _) \<Rightarrow> quote_failure ''enso'' req f
      | (None, None) \<Rightarrow> Inl (OtherException ''AssertionError'')
      | (None, Some response_payload) \<Rightarrow>
          read_enso_payload pe req (jo_latency_ms transport) (payload_data_or_root response_payload))"

definition enso_get_quote ::
    "settings \<Rightarrow> provider_env \<Rightarrow> quote_request \<Rightarrow> provider_state \<Rightarrow> provider_state \<times> quote_result res" where
  "enso_get_quote s pe req pv =
     (let (pv1, call) = provider_get pe ''https://api.enso.build/api/v1/shortcuts/route'' (Some (enso_quote_params req))
            (Some (enso_headers (enso_api_key s))) (qr_timeout_ms req) pv
      in case call of
           Inl e \<Rightarrow> (pv1, Inl e)
         | Inr c \<Rightarrow> (record_response_credits pe c pv1, read_enso_quote pe req c))"

section \<open>Any provider\<close>

text \<open>The method of the plugin's class; DefiLlama has no quotes of its own.\<close>

definition plugin_get_price ::
    "settings \<Rightarrow> plugin \<Rightarrow> provider_env \<Rightarrow> price_request \<Rightarrow> provider_state \<Rightarrow> provider_state \<times> price_result res" where
  "plugin_get_price s p pe req pv =
     (if pl_id p = ''defillama'' then llama_get_price pe req pv
      else if pl_id p = ''curve'' then curve_get_price pe req pv
      else if pl_id p = ''lifi'' then lifi_get_price s pe req pv
      else if pl_id p = ''enso'' then enso_get_price s pe req pv
      else (pv, base_get_price p req))"

definition plugin_get_quote ::
    "settings \<Rightarrow> plugin \<Rightarrow> provider_env \<Rightarrow> quote_request \<Rightarrow> provider_state \<Rightarrow> provider_state \<times> quote_result res" where
  "plugin_get_quote s p pe req pv =
     (if pl_id p = ''curve'' then curve_get_quote pe req pv
      else if pl_id p = ''lifi'' then lifi_get_quote s pe req pv
      else if pl_id p = ''enso'' then enso_get_quote s pe req pv
      else (pv, base_get_quote p req))"

section \<open>What every reader of an answer promises\<close>

definition identifies :: "token_ref option \<Rightarrow> token_ref \<Rightarrow> bool" where
  "identifies r t \<longleftrightarrow> (\<exists>t'. r = Some t' \<and> tr_chain_id t' = tr_chain_id t \<and> tr_address t' = tr_address t)"

definition sound_price :: "string \<Rightarrow> price_request \<Rightarrow> price_result \<Rightarrow> bool" where
  "sound_price pid req r \<longleftrightarrow> p_provider r = pid \<and> valid_price_result r \<and> identifies (p_token r) (pr_token req)
     \<and> p_vault_context r = None"

definition sound_quote :: "string \<Rightarrow> quote_request \<Rightarrow> quote_result \<Rightarrow> bool" where
  "sound_quote pid req r \<longleftrightarrow> q_provider r = pid \<and> valid_quote_result r \<and> identifies (q_token_in r) (qr_token_in req)
     \<and> identifies (q_token_out r) (qr_token_out req) \<and> q_amount_in r = Some (qr_amount_in req)
     \<and> q_vault_context r = None"

text \<open>A call that was answered with an HTTP error.\<close>

definition http_failure :: "wall \<Rightarrow> string \<Rightarrow> http_call_result \<Rightarrow> http_status_failure option" where
  "http_failure w name call =
     (if hcr_timeout call \<or> hcr_http_error call \<noteq> None then None
      else Option.bind (hcr_response call) (\<lambda>r. non_200_status w r name))"

definition rate_limited_error :: "string \<Rightarrow> int option \<Rightarrow> error_info" where
  "rate_limited_error name retry_after_ms =
     \<lparr>ei_type = RATE_LIMITED, ei_message = name @ '' returned '' @ int_str 429, ei_code = Some 429,
      ei_retry_after_ms = retry_after_ms\<rparr>"

locale price_reader =
  fixes pid name :: string
    and read :: "provider_env \<Rightarrow> price_request \<Rightarrow> http_call_result \<Rightarrow> price_result res"
  assumes read_sound: "read pe req call = Inr r \<Longrightarrow> sound_price pid req r"
    and read_failure: "http_failure (pe_wall pe) name call = Some f \<Longrightarrow>
      read pe req call = error_price_result pid req (hsf_status f) (hcr_latency_ms call) (status_error_info f)"
begin

lemma rate_limited:
  assumes "\<not> hcr_timeout call" "hcr_http_error call = None" "hcr_response call = Some resp"
    and "hr_status_code resp = 429" "0 \<le> hcr_latency_ms call"
  shows "\<exists>r. read pe req call = Inr r \<and> p_status r = ERROR
    \<and> p_error r = Some (rate_limited_error name (parse_retry_after_ms (pe_wall pe) resp))"
proof -
  obtain f where f: "http_failure (pe_wall pe) name call = Some f"
    "f = \<lparr>hsf_status = ERROR, hsf_error_type = RATE_LIMITED, hsf_message = name @ '' returned '' @ int_str 429,
        hsf_http_status_code = 429, hsf_retry_after_ms = parse_retry_after_ms (pe_wall pe) resp\<rparr>"
    using assms by (simp add: http_failure_def non_200_status_def status_from_http_code_def)
  show ?thesis
    using read_failure[OF f(1), of req] assms(5)
    by (auto simp: f(2) rate_limited_error_def error_price_result_def mk_price_result_def valid_price_result_def valid_price_def
        status_error_info_def)
qed

end

locale quote_reader =
  fixes pid name :: string
    and read :: "provider_env \<Rightarrow> quote_request \<Rightarrow> http_call_result \<Rightarrow> quote_result res"
  assumes read_sound: "read pe req call = Inr r \<Longrightarrow> sound_quote pid req r"
    and read_failure: "http_failure (pe_wall pe) name call = Some f \<Longrightarrow>
      read pe req call = error_quote_result pid req (hsf_status f) (hcr_latency_ms call) (status_error_info f)"
begin

lemma rate_limited:
  assumes "\<not> hcr_timeout call" "hcr_http_error call = None" "hcr_response call = Some resp"
    and "hr_status_code resp = 429" "0 \<le> hcr_latency_ms call" "uint256_field (Some (qr_amount_in req))"
  shows "\<exists>r. read pe req call = Inr r \<and> q_status r = ERROR
    \<and> q_error r = Some (rate_limited_error name (parse_retry_after_ms (pe_wall pe) resp))"
proof -
  obtain f where f: "http_failure (pe_wall pe) name call = Some f"
    "f = \<lparr>hsf_status = ERROR, hsf_error_type = RATE_LIMITED, hsf_message = name @ '' returned '' @ int_str 429,
        hsf_http_status_code = 429, hsf_retry_after_ms = parse_retry_after_ms (pe_wall pe) resp\<rparr>"
    using assms by (simp add: http_failure_def non_200_status_def status_from_http_code_def)
  show ?thesis
    using read_failure[OF f(1), of req] assms(5,6)
    by (auto simp: f(2) rate_limited_error_def error_quote_result_def mk_quote_result_def valid_quote_result_def uint256_field_def
        status_error_info_def)
qed

end

section \<open>Lemmas on the readers\<close>

lemma identifies_self [simp]: "identifies (Some t) t"
  by (simp add: identifies_def)

lemma identifies_with_metadata [simp]: "with_token_metadata t v = Inr t' \<Longrightarrow> identifies (Some t') t"
  by (auto simp: identifies_def dest: with_token_metadata_identity)

lemma error_price_sound [simp]: "error_price_result pid req st ms e = Inr r \<Longrightarrow> sound_price pid req r"
  by (auto simp: error_price_result_def sound_price_def)

lemma price_failure_sound [simp]: "price_failure pid req f = Inr r \<Longrightarrow> sound_price pid req r"
  by (simp add: price_failure_def)

lemma ok_price_sound:
  "ok_price_result pid t p ms u = Inr r \<Longrightarrow> identifies (Some t) (pr_token req) \<Longrightarrow> sound_price pid req r"
  by (auto simp: ok_price_result_def sound_price_def)

lemma error_quote_sound [simp]: "error_quote_result pid req st ms e = Inr r \<Longrightarrow> sound_quote pid req r"
  by (auto simp: error_quote_result_def sound_quote_def)

lemma quote_failure_sound [simp]: "quote_failure pid req f = Inr r \<Longrightarrow> sound_quote pid req r"
  by (simp add: quote_failure_def)

lemma ok_quote_sound:
  "ok_quote_result pid req ti to a m i g ms u rt = Inr r \<Longrightarrow> identifies (Some ti) (qr_token_in req) \<Longrightarrow>
     identifies (Some to) (qr_token_out req) \<Longrightarrow> sound_quote pid req r"
  by (auto simp: ok_quote_result_def sound_quote_def)

lemmas reader_intros = error_price_sound price_failure_sound ok_price_sound error_quote_sound quote_failure_sound
  ok_quote_sound identifies_self identifies_with_metadata

lemma http_failure_outcome:
  "http_failure w name call = Some f \<Longrightarrow> jo_failure (json_transport_outcome w call name m) =
     Some \<lparr>tf_reason = Reason_non_200, tf_status = hsf_status f, tf_error_type = hsf_error_type f,
       tf_message = hsf_message f, tf_latency_ms = hcr_latency_ms call,
       tf_http_status_code = Some (hsf_http_status_code f), tf_retry_after_ms = hsf_retry_after_ms f\<rparr>"
  by (auto simp: http_failure_def json_transport_outcome_def failed_outcome_def split: if_splits option.splits
      bind_splits)

lemma llama_price_sound: "read_llama_price pe req coin call = Inr r \<Longrightarrow> sound_price ''defillama'' req r"
  unfolding read_llama_price_def Let_def
  by (auto split: option.splits prod.splits json.splits intro: reader_intros)

lemma curve_price_sound: "read_curve_price pe req call = Inr r \<Longrightarrow> sound_price ''curve'' req r"
  unfolding read_curve_price_def Let_def
  by (auto split: option.splits prod.splits intro: reader_intros)

lemma lifi_price_sound: "read_lifi_price pe req call = Inr r \<Longrightarrow> sound_price ''lifi'' req r"
  unfolding read_lifi_price_def Let_def
  by (auto split: option.splits prod.splits intro: reader_intros)

lemma enso_price_sound: "read_enso_price pe req call = Inr r \<Longrightarrow> sound_price ''enso'' req r"
  unfolding read_enso_price_def Let_def
  by (auto split: option.splits prod.splits intro: reader_intros)

lemma curve_payload_sound: "read_curve_payload pe req ms d = Inr r \<Longrightarrow> sound_quote ''curve'' req r"
  unfolding read_curve_payload_def Let_def
  by (auto split: option.splits intro: reader_intros)

lemma curve_quote_sound: "read_curve_quote pe req call = Inr r \<Longrightarrow> sound_quote ''curve'' req r"
  unfolding read_curve_quote_def Let_def
  by (auto split: option.splits if_splits intro: reader_intros curve_payload_sound)

lemma lifi_payload_sound: "read_lifi_payload pe req ms d = Inr r \<Longrightarrow> sound_quote ''lifi'' req r"
  unfolding read_lifi_payload_def Let_def
  by (auto split: option.splits intro: reader_intros)

lemma lifi_quote_sound: "read_lifi_quote pe req call = Inr r \<Longrightarrow> sound_quote ''lifi'' req r"
  unfolding read_lifi_quote_def Let_def
  by (auto split: option.splits prod.splits intro: reader_intros lifi_payload_sound)

lemma enso_payload_sound: "read_enso_payload pe req ms d = Inr r \<Longrightarrow> sound_quote ''enso'' req r"
  unfolding read_enso_payload_def Let_def
  by (auto split: option.splits intro: reader_intros)

lemma enso_quote_sound: "read_enso_quote pe req call = Inr r \<Longrightarrow> sound_quote ''enso'' req r"
  unfolding read_enso_quote_def Let_def
  by (auto split: option.splits prod.splits intro: reader_intros enso_payload_sound)

lemma failed_price_reader:
  "jo_failure out = Some \<lparr>tf_reason = Reason_non_200, tf_status = hsf_status f, tf_error_type = hsf_error_type f,
       tf_message = hsf_message f, tf_latency_ms = ms,
       tf_http_status_code = Some (hsf_http_status_code f), tf_retry_after_ms = hsf_retry_after_ms f\<rparr> \<Longrightarrow>
   (case (jo_failure out, jo_payload out) of
        (Some f, _) \<Rightarrow> price_failure pid req f | (None, None) \<Rightarrow> a | (None, Some d) \<Rightarrow> g d)
     = error_price_result pid req (hsf_status f) ms (status_error_info f)"
  by (simp add: price_failure_def failure_error_info_def status_error_info_def)

lemma failed_quote_reader:
  "jo_failure out = Some \<lparr>tf_reason = Reason_non_200, tf_status = hsf_status f, tf_error_type = hsf_error_type f,
       tf_message = hsf_message f, tf_latency_ms = ms,
       tf_http_status_code = Some (hsf_http_status_code f), tf_retry_after_ms = hsf_retry_after_ms f\<rparr> \<Longrightarrow>
   (case (jo_failure out, jo_payload out) of
        (Some f, _) \<Rightarrow> quote_failure pid req f | (None, None) \<Rightarrow> a | (None, Some d) \<Rightarrow> g d)
     = error_quote_result pid req (hsf_status f) ms (status_error_info f)"
  by (simp add: quote_failure_def failure_error_info_def status_error_info_def)

lemma curve_quote_failure:
  "http_failure (pe_wall pe) ''Curve'' call = Some f \<Longrightarrow>
     read_curve_quote pe req call = error_quote_result ''curve'' req (hsf_status f) (hcr_latency_ms call) (status_error_info f)"
  by (auto simp: http_failure_def read_curve_quote_def split: if_splits option.splits bind_splits)

interpretation llama_prices: price_reader "''defillama''" "''DefiLlama''" "\<lambda>pe req. read_llama_price pe req coin" for coin
  by unfold_locales (erule llama_price_sound, simp only: read_llama_price_def Let_def,
      rule failed_price_reader, erule http_failure_outcome)

interpretation curve_prices: price_reader "''curve''" "''Curve''" read_curve_price
  by unfold_locales (erule curve_price_sound, simp only: read_curve_price_def Let_def,
      rule failed_price_reader, erule http_failure_outcome)

interpretation lifi_prices: price_reader "''lifi''" "''LI.FI''" read_lifi_price
  by unfold_locales (erule lifi_price_sound, simp only: read_lifi_price_def Let_def,
      rule failed_price_reader, erule http_failure_outcome)

interpretation enso_prices: price_reader "''enso''" "''Enso''" read_enso_price
  by unfold_locales (erule enso_price_sound, simp only: read_enso_price_def Let_def,
      rule failed_price_reader, erule http_failure_outcome)

interpretation curve_quotes: quote_reader "''curve''" "''Curve''" read_curve_quote
  by unfold_locales (erule curve_quote_sound, erule curve_quote_failure)

interpretation lifi_quotes: quote_reader "''lifi''" "''LI.FI''" read_lifi_quote
  by unfold_locales (erule lifi_quote_sound, simp only: read_lifi_quote_def Let_def,
      rule failed_quote_reader, erule http_failure_outcome)

interpretation enso_quotes: quote_reader "''enso''" "''Enso''" read_enso_quote
  by unfold_locales (erule enso_quote_sound, simp only: read_enso_quote_def Let_def,
      rule failed_quote_reader, erule http_failure_outcome)

section \<open>Lemmas on the plugins\<close>

lemma provider_get_rbind_sound:
  assumes "(case provider_get pe url params headers t pv of (pv1, call) \<Rightarrow> (f pv1 call, rbind call g)) = (pv', Inr r)"
    and "\<And>call. g call = Inr r \<Longrightarrow> P r"
  shows "P r"
  using assms by (auto split: prod.splits)

lemma plugin_price_sound: "plugin_get_price s p pe req pv = (pv', Inr r) \<Longrightarrow> sound_price (pl_id p) req r"
  by (auto simp: plugin_get_price_def llama_get_price_def curve_get_price_def lifi_get_price_def enso_get_price_def
      base_get_price_def sound_price_def[of "pl_id p"] Let_def dest!: llama_prices.read_sound curve_prices.read_sound
      lifi_prices.read_sound enso_prices.read_sound split: if_splits sum.splits prod.splits)
     (auto simp: sound_price_def)

lemma plugin_quote_sound: "plugin_get_quote s p pe req pv = (pv', Inr r) \<Longrightarrow> sound_quote (pl_id p) req r"
  by (auto simp: plugin_get_quote_def curve_get_quote_def lifi_get_quote_def enso_get_quote_def
      base_get_quote_def sound_quote_def[of "pl_id p"] Let_def dest!: curve_quotes.read_sound
      lifi_quotes.read_sound enso_quotes.read_sound split: if_splits sum.splits prod.splits)
     (auto simp: sound_quote_def)

text \<open>The call of a provider whose network always gives the same answer.\<close>

definition answered_call :: "provider_env \<Rightarrow> raw_response \<Rightarrow> http_call_result" where
  "answered_call pe raw =
     \<lparr>hcr_latency_ms = elapsed_ms (ck_started (pe_clock pe)) (ck_ended (pe_clock pe)),
      hcr_response = Some (to_http_response raw), hcr_timeout = False, hcr_timeout_error_type = None,
      hcr_transport_error_type = None, hcr_http_error = None\<rparr>"

definition network_answers :: "provider_env \<Rightarrow> raw_response \<Rightarrow> bool" where
  "network_answers pe raw \<longleftrightarrow> (\<forall>c i rq t. pe_net pe c i rq t = Answered raw)"

lemma provider_get_answered:
  assumes "network_answers pe raw" "0 < hc_attempts (pv_client pv)"
  shows "snd (provider_get pe url params headers t pv) = Inr (answered_call pe raw)"
proof -
  have "\<And>c i rq t. pe_net pe c i rq t = Answered raw" using assms(1) by (simp add: network_answers_def)
  then obtain h where "timed_get (pe_net pe) (pe_clock pe) url params headers t (pv_client pv) = (h, Inr (answered_call pe raw))"
    unfolding answered_call_def by (rule timed_get_answered[OF _ assms(2)])
  then show ?thesis by (simp add: provider_get_def)
qed

lemma answered_price:
  assumes "network_answers pe raw" "0 < hc_attempts (pv_client pv)" "map_of CHAINS (pr_chain_id req) = Some c"
  shows "snd (plugin_get_price s p pe req pv) =
     (if pl_id p = ''defillama'' then read_llama_price pe req (defillama_name c @ '':'' @ tr_address (pr_token req)) (answered_call pe raw)
      else if pl_id p = ''curve'' then read_curve_price pe req (answered_call pe raw)
      else if pl_id p = ''lifi'' then read_lifi_price pe req (answered_call pe raw)
      else if pl_id p = ''enso'' then read_enso_price pe req (answered_call pe raw)
      else base_get_price p req)"
  by (simp add: plugin_get_price_def llama_get_price_def curve_get_price_def lifi_get_price_def enso_get_price_def
      chain_of_def assms(3) Let_def split_beta provider_get_answered[OF assms(1,2)])

lemma answered_quote:
  assumes "network_answers pe raw" "0 < hc_attempts (pv_client pv)"
  shows "snd (plugin_get_quote s p pe req pv) =
     (if pl_id p = ''curve'' then read_curve_quote pe req (answered_call pe raw)
      else if pl_id p = ''lifi'' then read_lifi_quote pe req (answered_call pe raw)
      else if pl_id p = ''enso'' then read_enso_quote pe req (answered_call pe raw)
      else base_get_quote p req)"
  by (simp add: plugin_get_quote_def curve_get_quote_def lifi_get_quote_def enso_get_quote_def
      Let_def split_beta provider_get_answered[OF assms])

section \<open>Properties\<close>

text \<open>C15: Whatever a provider answers, a result of its plugin passes the validators of the data model, carries
  the plugin's id, names the token asked for (for a quote both tokens and the input amount) and has no vault
  context yet; a successful one has a positive price within the bounds or a positive output amount.\<close>

theorem provider_results_sound:
  assumes "plugin_get_price s p pe req pv = (pv', Inr r)"
    and "plugin_get_quote s p2 pe2 qreq pv2 = (pv2', Inr q)"
  shows "valid_price_result r \<and> p_provider r = pl_id p \<and> identifies (p_token r) (pr_token req) \<and> p_vault_context r = None
    \<and> valid_quote_result q \<and> q_provider q = pl_id p2 \<and> identifies (q_token_in q) (qr_token_in qreq)
    \<and> identifies (q_token_out q) (qr_token_out qreq) \<and> q_amount_in q = Some (qr_amount_in qreq) \<and> q_vault_context q = None
    \<and> (p_status r = OK \<longrightarrow> (\<exists>x. p_price_usd r = Some x \<and> 0 < x)) \<and> (q_status q = OK \<longrightarrow> (\<exists>a. q_amount_out q = Some a \<and> 0 < a))"
  using plugin_price_sound[OF assms(1)] plugin_quote_sound[OF assms(2)]
  by (auto simp: sound_price_def sound_quote_def valid_price_result_def valid_quote_result_def valid_price_def
      split: option.splits)

text \<open>A DefiLlama-like payload, a Curve route and a refusal.\<close>

definition example_provider_env :: "raw_response \<Rightarrow> provider_env" where
  "example_provider_env raw = \<lparr>pe_net = (\<lambda>c i rq t. Answered raw),
     pe_clock = \<lparr>ck_client = (1, 1, 1), ck_started = 1, ck_ended = 1 + 1 / 200, ck_failed = (2, 2), ck_others = (\<lambda>h. h)\<rparr>,
     pe_wall = example_wall, pe_time = \<lparr>tl_scaled = (\<lambda>d v. Some (v / of_int d)), tl_iso = (\<lambda>s. None)\<rparr>, pe_monotonic = 2\<rparr>"

definition example_provider_state :: provider_state where
  "example_provider_state = \<lparr>pv_client = HttpClient example_options 0,
     pv_credits = \<lparr>cr_used = None, cr_limit = None, cr_remaining = None, cr_updated = None, cr_updated_at = None\<rparr>\<rparr>"

definition example_plugin :: "string \<Rightarrow> plugin" where
  "example_plugin pid = mk_plugin pid True True [1] False True None"

definition price_answer :: raw_response where
  "price_answer = \<lparr>rr_status = 200, rr_json = Some (JObj [(''usdPrice'', JInt 2), (''timestamp'', JNull)]), rr_headers = []\<rparr>"

definition quote_answer :: raw_response where
  "quote_answer = \<lparr>rr_status = 200, rr_json = Some (JList [JObj [(''amountOut'', JList [JInt 9])]]), rr_headers = []\<rparr>"

lemma example_attempts: "0 < hc_attempts (pv_client example_provider_state)"
  by (simp add: example_provider_state_def HttpClient_def example_options_def Let_def)

lemma example_answers: "network_answers (example_provider_env raw) raw"
  by (simp add: network_answers_def example_provider_env_def)

lemmas example_reading = answered_call_def example_provider_env_def example_plugin_def mk_plugin_def
  to_http_response_def outcome_defs invalid_json_def elapsed_ms_def trunc_rat_def Let_def payload_simps

lemma example_price_read: "snd (plugin_get_price default_settings (example_plugin ''curve'')
    (example_provider_env price_answer) example_request example_provider_state) = Inr example_response"
proof -
  have d: "parse_positive_decimal (JInt 2) = Some 2"
    by (simp add: parse_positive_decimal_def parse_decimal_def check_decimal_def num_digits.simps MAX_DECIMAL_DIGITS_def
        adjusted_def MAX_ABS_DECIMAL_EXPONENT_def)
  have "read_curve_price (example_provider_env price_answer) example_request
      (answered_call (example_provider_env price_answer) price_answer) = Inr example_response"
    by (simp add: read_curve_price_def price_answer_def example_reading price_keys_def d parse_datetime_def
        ok_price_result_def mk_price_result_def valid_price_result_def valid_price_def adjusted_def num_digits.simps
        MAX_NORMALIZED_DECIMAL_EXPONENT_def)
  moreover obtain ch where "map_of CHAINS (pr_chain_id example_request) = Some ch" by (simp add: CHAINS_def)
  from answered_price[OF example_answers example_attempts this]
  have "snd (plugin_get_price default_settings (example_plugin ''curve'') (example_provider_env price_answer)
      example_request example_provider_state) = read_curve_price (example_provider_env price_answer) example_request
      (answered_call (example_provider_env price_answer) price_answer)"
    by (simp add: example_plugin_def mk_plugin_def)
  ultimately show ?thesis by simp
qed

lemma example_quote_read: "snd (plugin_get_quote default_settings (example_plugin ''curve'')
    (example_provider_env quote_answer) example_quote_request example_provider_state) = Inr example_quote_response"
proof -
  have d: "parse_int (JInt 9) = Inr (Some 9)" "parse_int JNull = Inr None" "parse_decimal JNull = None"
    by (simp_all add: parse_int_def in_uint256_def MAX_UINT256_def parse_decimal_def)
  have "read_curve_quote (example_provider_env quote_answer) example_quote_request
      (answered_call (example_provider_env quote_answer) quote_answer) = Inr example_quote_response"
    by (simp add: read_curve_quote_def quote_answer_def example_reading extract_curve_quote_payload_def first_dict_def
        read_curve_payload_def parse_curve_amount_def d positive_or_none_def parse_datetime_def decimal_to_bps_def
        ok_quote_result_def mk_quote_result_def valid_quote_result_def uint256_field_def MAX_UINT256_def List.map_filter_simps
        normalize_route_def)
  moreover from answered_quote[OF example_answers example_attempts]
  have "snd (plugin_get_quote default_settings (example_plugin ''curve'') (example_provider_env quote_answer)
      example_quote_request example_provider_state) = read_curve_quote (example_provider_env quote_answer) example_quote_request
      (answered_call (example_provider_env quote_answer) quote_answer)"
    by (simp add: example_plugin_def mk_plugin_def)
  ultimately show ?thesis by simp
qed

theorem provider_results_sound_witness:
  "valid_price_result example_response \<and> valid_quote_result example_quote_response
   \<and> p_provider example_response = pl_id (example_plugin ''curve'')"
  using provider_results_sound[OF surjective_pairing[of "plugin_get_price default_settings (example_plugin ''curve'')
      (example_provider_env price_answer) example_request example_provider_state", unfolded example_price_read]
    surjective_pairing[of "plugin_get_quote default_settings (example_plugin ''curve'')
      (example_provider_env quote_answer) example_quote_request example_provider_state", unfolded example_quote_read]]
  by simp

text \<open>When a provider answers with status 429 and a delay in seconds, the result of its plugin makes the
  circuit breaker hold back calls for that delay, limited to five minutes or the open period if longer.\<close>

theorem rate_limit_reaches_circuit:
  assumes "network_answers pe raw" "0 < hc_attempts (pv_client pv)"
    and "ck_started (pe_clock pe) \<le> ck_ended (pe_clock pe)"
    and "rr_status raw = 429" "map_of (hr_headers (to_http_response raw)) ''retry-after'' = Some (int_str n)"
    and "0 < n" "n \<le> MAX_UINT256"
    and "pl_id p \<in> set known_provider_ids" "map_of CHAINS (pr_chain_id req) = Some c"
    and "pl_id p2 \<in> {''curve'', ''lifi'', ''enso''}" "0 \<le> qr_amount_in qreq" "qr_amount_in qreq \<le> MAX_UINT256"
  shows "(\<exists>r. snd (plugin_get_price s p pe req pv) = Inr r \<and> p_status r = ERROR \<and> is_rate_limited (price_outcome r)
      \<and> map_option (rate_limit_delay_s cfg) (p_error r) = Some (min (of_int n) (of_int (max (open_duration_s cfg) 300))))
    \<and> (\<exists>q. snd (plugin_get_quote s p2 pe qreq pv) = Inr q \<and> q_status q = ERROR \<and> is_rate_limited (quote_outcome q)
      \<and> map_option (rate_limit_delay_s cfg) (q_error q) = Some (min (of_int n) (of_int (max (open_duration_s cfg) 300))))"
proof
  let ?call = "answered_call pe raw" let ?resp = "to_http_response raw"
  have call: "\<not> hcr_timeout ?call" "hcr_http_error ?call = None" "hcr_response ?call = Some ?resp"
    "hr_status_code ?resp = 429" "0 \<le> hcr_latency_ms ?call"
    using assms(3,4) by (simp_all add: answered_call_def to_http_response_def elapsed_ms_nonneg)
  have retry: "parse_retry_after_ms (pe_wall pe) ?resp = Some (n * 1000)"
    using assms(5-7) by (intro retry_after_text) simp_all
  define limited where "limited e \<longleftrightarrow> (\<exists>name. e = Some (rate_limited_error name (Some (n * 1000))))" for e
  have delay: "map_option (rate_limit_delay_s cfg) e = Some (min (of_int n) (of_int (max (open_duration_s cfg) 300)))"
    "is_rate_limited (st, e)" if "limited e" for e and st
    using that assms(6) by (auto simp: limited_def rate_limited_error_def rate_limit_delay_s_def MAX_RATE_LIMIT_BACKOFF_S_def is_rate_limited_def Let_def)
  have "\<exists>r. snd (plugin_get_price s p pe req pv) = Inr r \<and> p_status r = ERROR \<and> limited (p_error r)"
    unfolding answered_price[OF assms(1,2,9)] limited_def
    using assms(8) llama_prices.rate_limited[OF call, of pe req "defillama_name c @ '':'' @ tr_address (pr_token req)"]
      curve_prices.rate_limited[OF call, of pe req] lifi_prices.rate_limited[OF call, of pe req]
      enso_prices.rate_limited[OF call, of pe req]
    by (auto simp: known_provider_ids_def retry)
  then show "\<exists>r. snd (plugin_get_price s p pe req pv) = Inr r \<and> p_status r = ERROR \<and> is_rate_limited (price_outcome r)
      \<and> map_option (rate_limit_delay_s cfg) (p_error r) = Some (min (of_int n) (of_int (max (open_duration_s cfg) 300)))"
    using delay by blast
  have amount: "uint256_field (Some (qr_amount_in qreq))" using assms(11,12) by (simp add: uint256_field_def)
  have "\<exists>q. snd (plugin_get_quote s p2 pe qreq pv) = Inr q \<and> q_status q = ERROR \<and> limited (q_error q)"
    unfolding answered_quote[OF assms(1,2)] limited_def
    using assms(10) curve_quotes.rate_limited[OF call amount, of pe]
      lifi_quotes.rate_limited[OF call amount, of pe] enso_quotes.rate_limited[OF call amount, of pe]
    by (auto simp: retry)
  then show "\<exists>q. snd (plugin_get_quote s p2 pe qreq pv) = Inr q \<and> q_status q = ERROR \<and> is_rate_limited (quote_outcome q)
      \<and> map_option (rate_limit_delay_s cfg) (q_error q) = Some (min (of_int n) (of_int (max (open_duration_s cfg) 300)))"
    using delay by blast
qed

definition busy_answer :: raw_response where
  "busy_answer = \<lparr>rr_status = 429, rr_json = None, rr_headers = [(''Retry-After'', ''30'')]\<rparr>"

theorem rate_limit_reaches_circuit_witness:
  "\<exists>r. snd (plugin_get_price default_settings (example_plugin ''curve'') (example_provider_env busy_answer)
       example_request example_provider_state) = Inr r
     \<and> map_option (rate_limit_delay_s (circuit_config default_settings)) (p_error r) = Some 30"
proof -
  let ?pe = "example_provider_env busy_answer"
  obtain c where c: "map_of CHAINS (pr_chain_id example_request) = Some c" by (simp add: CHAINS_def)
  have h: "map_of (hr_headers (to_http_response busy_answer)) ''retry-after'' = Some (int_str 30)"
  proof -
    have "int_str 30 = ''30''" "py_lower ''Retry-After'' = ''retry-after''"
      by code_simp+
    then show ?thesis by (simp add: to_http_response_def busy_answer_def)
  qed
  have "(30::int) \<le> MAX_UINT256" "qr_amount_in example_quote_request \<le> MAX_UINT256" by (simp_all add: MAX_UINT256_def)
  note rl = rate_limit_reaches_circuit[OF example_answers example_attempts _ _ h _ this(1) _ c _ _ this(2),
      of "example_plugin ''curve''" "example_plugin ''curve''" default_settings "circuit_config default_settings"]
  from rl have "\<exists>r. snd (plugin_get_price default_settings (example_plugin ''curve'') ?pe
       example_request example_provider_state) = Inr r
     \<and> map_option (rate_limit_delay_s (circuit_config default_settings)) (p_error r)
       = Some (min 30 (of_int (max (open_duration_s (circuit_config default_settings)) 300)))"
    by (auto simp: example_plugin_def mk_plugin_def known_provider_ids_def busy_answer_def example_provider_env_def)
  then show ?thesis by (simp add: circuit_config_def default_settings_def)
qed

text \<open>The responses a fan-out waits for come from the plugins it runs.\<close>

definition price_answers_from_plugins :: "settings \<Rightarrow> price_request \<Rightarrow> plugin list \<Rightarrow> price_result run_env \<Rightarrow> bool" where
  "price_answers_from_plugins s req plugins env \<longleftrightarrow>
     (\<forall>r \<in> plugin_responses env. \<exists>p \<in> set plugins. \<exists>pe pv. snd (plugin_get_price s p pe req pv) = Inr r)"

definition quote_answers_from_plugins :: "settings \<Rightarrow> quote_request \<Rightarrow> plugin list \<Rightarrow> quote_result run_env \<Rightarrow> bool" where
  "quote_answers_from_plugins s req plugins env \<longleftrightarrow>
     (\<forall>r \<in> plugin_responses env. \<exists>p \<in> set plugins. \<exists>pe pv. snd (plugin_get_quote s p pe req pv) = Inr r)"

lemma price_answer_valid:
  "price_answers_from_plugins s req ps env \<Longrightarrow> r \<in> plugin_responses env \<Longrightarrow> valid_price_result r"
  unfolding price_answers_from_plugins_def using plugin_price_sound[of s _ _ req _ _ r]
  by (metis surjective_pairing sound_price_def)

lemma quote_answer_valid:
  "quote_answers_from_plugins s req ps env \<Longrightarrow> r \<in> plugin_responses env \<Longrightarrow> valid_quote_result r"
  unfolding quote_answers_from_plugins_def using plugin_quote_sound[of s _ _ req _ _ r]
  by (metis surjective_pairing sound_quote_def)

text \<open>C14: A fan-out over the program's own plugins, whatever their networks answer and however the calls end,
  returns only results that pass the validators of the data model; its successes fit the request.\<close>

theorem provider_fan_out_valid:
  assumes "run_prices s env plugins req d sh = (Inr results, st)" "price_answers_from_plugins s req plugins env"
    and "run_quotes s env2 plugins2 qreq d2 sh2 = (Inr quotes, st2)" "quote_answers_from_plugins s qreq plugins2 env2"
  shows "(\<forall>r \<in> set results. valid_price_result r \<and> (p_status r = OK \<longrightarrow> price_fits req r))
    \<and> (\<forall>q \<in> set quotes. valid_quote_result q \<and> (q_status q = OK \<longrightarrow> quote_fits qreq q))"
proof -
  note run_p = assms(1)[unfolded run_prices_def] and run_q = assms(3)[unfolded run_quotes_def]
  show ?thesis
  proof (intro conjI ballI impI)
    show "valid_price_result r" if "r \<in> set results" for r
      using price_results.run_valid[OF run_p _ that] price_answer_valid[OF assms(2)] by blast
    show "price_fits req r" if "r \<in> set results" "p_status r = OK" for r
      by (rule prices.run_fits[OF run_p that])
    show "valid_quote_result x" if "x \<in> set quotes" for x
      using quote_results.run_valid[OF run_q _ that] quote_answer_valid[OF assms(4)] by blast
    show "quote_fits qreq x" if "x \<in> set quotes" "q_status x = OK" for x
      by (rule quotes.run_fits[OF run_q that])
  qed
qed

theorem provider_fan_out_valid_witness:
  "list_all valid_price_result (projr (fst example_run)) \<and> list_all valid_quote_result (projr (fst example_quote_run))
   \<and> projr (fst example_run) \<noteq> [] \<and> projr (fst example_quote_run) \<noteq> []"
proof -
  obtain rs where rs: "example_run = (Inr rs, snd example_run)" "rs \<noteq> []"
    using example_run_result(1) by (cases example_run) auto
  obtain qs where qs: "example_quote_run = (Inr qs, snd example_quote_run)" "qs \<noteq> []"
    using example_quote_run_result(1) by (cases example_quote_run) (fastforce split: sum.splits)
  have "price_answers_from_plugins default_settings example_request example_plugins example_env"
    using example_price_read unfolding example_plugin_def by (auto simp: price_answers_from_plugins_def plugin_responses_def example_env_def example_plugins_def example_plugin_def)
  moreover have "quote_answers_from_plugins default_settings example_quote_request example_plugins example_quote_env"
    using example_quote_read unfolding example_plugin_def by (auto simp: quote_answers_from_plugins_def plugin_responses_def example_quote_env_def example_plugins_def example_plugin_def)
  ultimately show ?thesis
    using provider_fan_out_valid[OF rs(1) _ qs(1)] rs(2) qs(2) by (simp add: list_all_iff arg_cong[OF rs(1), of fst]
        arg_cong[OF qs(1), of fst])
qed

end
