(* ===== verification/ProviderClasses.thy ===== *)
theory ProviderClasses
  imports Providers
begin

text \<open>
  The constructors of the provider classes (\<open>providers/defillama.py\<close>, \<open>curve.py\<close>, \<open>lifi.py\<close>, \<open>enso.py\<close>) and the
  loop-free construction of the enabled ones by the registry (\<open>providers/registry.py\<close>). Plugins keeps the part of the
  objects the registry reads and HttpClient their clients; that both are what is built here is
  \<open>built_plugins_agree\<close> and \<open>built_clients_agree\<close>.
\<close>

section \<open>Objects\<close>

record provider_object =
  po_plugin :: plugin
  po_client :: http_client
  po_api_key :: "string option"
  po_deny_exchanges :: "string list"
  po_credits :: credits

definition no_credits :: credits where
  "no_credits = \<lparr>cr_used = None, cr_limit = None, cr_remaining = None, cr_updated = None, cr_updated_at = None\<rparr>"

definition ALL_CHAINS :: "int list" where "ALL_CHAINS = [1, 10, 100, 137, 42161, 43114]"

text \<open>\<open>ProviderPlugin.__init__\<close> on the attributes of the class.\<close>

definition init_plugin :: "string \<Rightarrow> bool \<Rightarrow> bool \<Rightarrow> int list \<Rightarrow> bool \<Rightarrow> bool \<Rightarrow> string option \<Rightarrow> plugin" where
  "init_plugin pid price quote supported requires_key available unavailable_reason =
     \<lparr>pl_id = pid, pl_supports_price = price, pl_supports_quote = quote, pl_supported_chains = supported,
      pl_requires_api_key = requires_key, pl_available = available, pl_unavailable_reason = unavailable_reason,
      pl_enabled_chains = supported\<rparr>"

definition DefiLlamaProvider :: "http_client \<Rightarrow> provider_object" where
  "DefiLlamaProvider client =
     \<lparr>po_plugin = init_plugin ''defillama'' True False ALL_CHAINS False True None,
      po_client = client, po_api_key = None, po_deny_exchanges = [], po_credits = no_credits\<rparr>"

definition CurveProvider :: "http_client \<Rightarrow> provider_object" where
  "CurveProvider client =
     \<lparr>po_plugin = init_plugin ''curve'' True True ALL_CHAINS False True None,
      po_client = client, po_api_key = None, po_deny_exchanges = [], po_credits = no_credits\<rparr>"

definition LiFiProvider :: "http_client \<Rightarrow> string option \<Rightarrow> string list option \<Rightarrow> bool \<Rightarrow> string option \<Rightarrow> provider_object" where
  "LiFiProvider client api_key deny_exchanges available unavailable_reason =
     \<lparr>po_plugin = init_plugin ''lifi'' True True ALL_CHAINS True available unavailable_reason,
      po_client = client, po_api_key = api_key,
      po_deny_exchanges = (case deny_exchanges of None \<Rightarrow> [] | Some d \<Rightarrow> d), po_credits = no_credits\<rparr>"

definition EnsoProvider :: "http_client \<Rightarrow> string option \<Rightarrow> bool \<Rightarrow> string option \<Rightarrow> provider_object" where
  "EnsoProvider client api_key available unavailable_reason =
     \<lparr>po_plugin = init_plugin ''enso'' True True ALL_CHAINS True available unavailable_reason,
      po_client = client, po_api_key = api_key, po_deny_exchanges = [], po_credits = no_credits\<rparr>"

section \<open>The registry\<close>

text \<open>\<open>_build_plugins\<close>: the dictionary that grows, one provider after the other.\<close>

definition build_provider_objects :: "settings \<Rightarrow> (string \<Rightarrow> rat) \<Rightarrow> (string, provider_object) odict" where
  "build_provider_objects s now =
     (let enabled = set (providers_enabled s);
          client = (\<lambda>pid. new_http_client s pid (now pid));
          p0 = [];
          p1 = (if ''defillama'' \<in> enabled
                then AList.update ''defillama'' (DefiLlamaProvider (client ''defillama'')) p0 else p0);
          p2 = (if ''curve'' \<in> enabled then AList.update ''curve'' (CurveProvider (client ''curve'')) p1 else p1);
          p3 = (if ''lifi'' \<in> enabled then
                  (let lifi_available = nonempty_key (lifi_api_key s);
                       lifi_reason = (if lifi_available then None else Some ''missing_api_key'')
                   in AList.update ''lifi'' (LiFiProvider (client ''lifi'') (lifi_api_key s) (Some (lifi_deny_exchanges s))
                        lifi_available lifi_reason) p2)
                else p2);
          p4 = (if ''enso'' \<in> enabled then
                  (let enso_available = nonempty_key (enso_api_key s);
                       enso_reason = (if enso_available then None else Some ''missing_api_key'')
                   in AList.update ''enso'' (EnsoProvider (client ''enso'') (enso_api_key s) enso_available enso_reason) p3)
                else p3)
      in p4)"

lemmas provider_object_defs = DefiLlamaProvider_def CurveProvider_def LiFiProvider_def EnsoProvider_def

lemma built_plugins_agree: "map (\<lambda>(pid, p). (pid, po_plugin p)) (build_provider_objects s now) = build_plugins s"
  by (simp add: build_provider_objects_def build_plugins_def provider_object_defs init_plugin_def mk_plugin_def ALL_CHAINS_def
      SUPPORTED_CHAINS_def Let_def CHAINS_def)

lemma built_clients_agree: "map (\<lambda>(pid, p). (pid, po_client p)) (build_provider_objects s now) = http_clients s now"
  by (simp add: build_provider_objects_def http_clients_def build_plugins_def provider_object_defs Let_def)

text \<open>A provider that needs a key and has none is built, and says why it is not available.\<close>

lemma key_decides_availability:
  "list_all (\<lambda>(pid, p). (pl_available (po_plugin p) \<longleftrightarrow> \<not> pl_requires_api_key (po_plugin p) \<or> nonempty_key (po_api_key p))
     \<and> (pl_unavailable_reason (po_plugin p) = (if pl_available (po_plugin p) then None else Some ''missing_api_key''))
     \<and> pl_id (po_plugin p) = pid) (build_provider_objects s now)"
  by (simp add: build_provider_objects_def provider_object_defs init_plugin_def Let_def)

end
