(* ===== verification/Gateway.thy ===== *)
theory Gateway
  imports ApiKeys Config
begin

text \<open>
  The guard in front of every endpoint (\<open>app/main.py\<close>): request ids, authentication and rate limits.
  What the endpoint itself does is the parameter \<open>handler\<close>. Headers are association lists under the
  names the code uses. Between authentication and the rate limit the store is open to other
  requests; the environment says what they do. Metrics and the access log are left out.
\<close>

section \<open>Requests and responses\<close>

record http_request =
  hq_path :: string
  hq_authorization :: "string option"
  hq_x_api_key :: "string option"
  hq_request_id :: "string option"
  hq_client_host :: "string option"

datatype 'b body = Detail string string | Content 'b

record 'b http_response =
  hr_status :: int
  hr_body :: "'b body"
  hr_headers :: "(string, string) odict"

text \<open>What \<open>request.state\<close> keeps of the authentication, for the access log.\<close>

record auth_state =
  as_status :: string
  as_reason :: "string option"
  as_key_id :: "string option"

record gateway =
  gw_store :: key_store
  gw_anon :: anon_limiter

record gate_env =
  ge_uuid :: string
  ge_now_auth :: int
  ge_others :: "key_store \<Rightarrow> key_store"
  ge_now_consume :: int
  ge_now_anon :: int

section \<open>The middleware\<close>

definition invalid_request_exception_handler :: "string \<Rightarrow> string \<Rightarrow> 'b http_response" where
  "invalid_request_exception_handler t m = \<lparr>hr_status = 400, hr_body = Detail t m, hr_headers = []\<rparr>"

definition call_next :: "(http_request \<Rightarrow> 'b http_response res) \<Rightarrow> http_request \<Rightarrow> 'b http_response res" where
  "call_next handler req =
     (case handler req of
        Inl (InvalidRequestError t m) \<Rightarrow> Inr (invalid_request_exception_handler t m)
      | r \<Rightarrow> r)"

definition alnum :: "char \<Rightarrow> bool" where
  "alnum c \<longleftrightarrow> (let n = char_code c in is_dec_digit c \<or> (65 \<le> n \<and> n \<le> 90) \<or> (97 \<le> n \<and> n \<le> 122))"

definition request_id_re :: "string \<Rightarrow> bool" where
  "request_id_re v =
     (case v of [] \<Rightarrow> False
      | c # cs \<Rightarrow> alnum c \<and> length cs \<le> 127 \<and> list_all (\<lambda>x. alnum x \<or> x \<in> set ''._:-'') cs)"

definition init_request_id :: "string \<Rightarrow> http_request \<Rightarrow> string" where
  "init_request_id uuid req =
     (case hq_request_id req of Some v \<Rightarrow> if request_id_re v then v else uuid | None \<Rightarrow> uuid)"

definition auth_failure_message :: "auth_failure_reason option \<Rightarrow> string" where
  "auth_failure_message reason =
     (case reason of
        Some MISSING_AUTHORIZATION \<Rightarrow>
          ''Missing API key - provide via Authorization: Bearer <key> or x-api-key header''
      | Some INVALID_AUTHORIZATION \<Rightarrow> ''Invalid Authorization header''
      | Some REVOKED \<Rightarrow> ''API key revoked''
      | Some EXPIRED \<Rightarrow> ''API key expired''
      | _ \<Rightarrow> ''Invalid API key'')"

definition set_headers :: "(string, string) odict \<Rightarrow> 'b http_response \<Rightarrow> 'b http_response" where
  "set_headers hs r = r\<lparr>hr_headers := fold (\<lambda>(k, v). AList.update k v) hs (hr_headers r)\<rparr>"

definition unauthorized_response :: "auth_failure_reason option \<Rightarrow> 'b http_response" where
  "unauthorized_response reason = \<lparr>hr_status = 401, hr_body = Detail ''UNAUTHORIZED'' (auth_failure_message reason),
     hr_headers = [(''WWW-Authenticate'', ''Bearer'')]\<rparr>"

definition rate_limited_response :: "string \<Rightarrow> rate_limit_result \<Rightarrow> string \<Rightarrow> 'b http_response" where
  "rate_limited_response message rl request_id =
     set_headers (rate_limit_headers rl @ [(''X-Request-ID'', request_id)])
       \<lparr>hr_status = 429, hr_body = Detail ''RATE_LIMITED'' message, hr_headers = []\<rparr>"

definition apply_response_headers :: "string \<Rightarrow> rate_limit_result option \<Rightarrow> 'b http_response \<Rightarrow> 'b http_response" where
  "apply_response_headers request_id rl r =
     set_headers ((''X-Request-ID'', request_id) # (case rl of None \<Rightarrow> [] | Some x \<Rightarrow> rate_limit_headers x)) r"

definition should_allow_unauthenticated :: "settings \<Rightarrow> auth_failure_reason option \<Rightarrow> bool" where
  "should_allow_unauthenticated s reason \<longleftrightarrow> api_key_unauth_access_enabled s \<and> reason = Some MISSING_AUTHORIZATION"

definition anonymous_client_id :: "http_request \<Rightarrow> string" where
  "anonymous_client_id req = (case hq_client_host req of None \<Rightarrow> ''unknown'' | Some h \<Rightarrow> if h = [] then ''unknown'' else h)"

definition unprotected :: auth_state where
  "unprotected = \<lparr>as_status = ''unprotected'', as_reason = None, as_key_id = None\<rparr>"

definition authorize :: "settings \<Rightarrow> (string \<Rightarrow> string) \<Rightarrow> gate_env \<Rightarrow> http_request \<Rightarrow> string \<Rightarrow> gateway
    \<Rightarrow> ('b http_response option \<times> rate_limit_result option \<times> auth_state) res \<times> gateway" where
  "authorize s sha env req request_id gw =
     (if \<not> api_key_auth_enabled s \<or> \<not> py_startswith (hq_path req) ''/v1/'' then (Inr (None, None, unprotected), gw)
      else
        let (auth, st1) = authenticate_request_headers sha (hq_authorization req) (hq_x_api_key req)
               (ge_now_auth env) (gw_store gw)
        in if au_authenticated auth then
             let a = \<lparr>as_status = ''authenticated'', as_reason = None, as_key_id = au_public_id auth\<rparr>;
                 limit = (case au_rate_limit_rpm auth of Some n \<Rightarrow> n | None \<Rightarrow> api_key_rate_limit_rpm s);
                 (r, st2) = consume_rate_limit (the (au_public_id auth)) limit (ge_now_consume env) (ge_others env st1)
             in (rbind r (\<lambda>rl. if rl_allowed rl then Inr (None, Some rl, a)
                   else Inr (Some (rate_limited_response ''API key rate limit exceeded'' rl request_id), None, a)),
                 gw\<lparr>gw_store := st2\<rparr>)
           else if should_allow_unauthenticated s (au_failure_reason auth) then
             let a = \<lparr>as_status = ''anonymous'', as_reason = map_option auth_reason_text (au_failure_reason auth), as_key_id = None\<rparr>;
                 (r, l) = anon_consume (anonymous_client_id req) (api_key_unauth_min_interval_seconds s)
                    (ge_now_anon env) (gw_anon gw)
             in (rbind r (\<lambda>rl. if rl_allowed rl then Inr (None, Some rl, a)
                   else Inr (Some (rate_limited_response ''Anonymous rate limit exceeded'' rl request_id), None, a)),
                 gw\<lparr>gw_store := st1, gw_anon := l\<rparr>)
           else
             (Inr (Some (set_headers [(''X-Request-ID'', request_id)] (unauthorized_response (au_failure_reason auth))), None,
                   \<lparr>as_status = ''unauthorized'', as_reason = map_option auth_reason_text (au_failure_reason auth), as_key_id = None\<rparr>),
              gw\<lparr>gw_store := st1\<rparr>))"

definition request_observability_middleware :: "settings \<Rightarrow> (string \<Rightarrow> string) \<Rightarrow> gate_env
    \<Rightarrow> (http_request \<Rightarrow> 'b http_response res) \<Rightarrow> http_request \<Rightarrow> gateway \<Rightarrow> 'b http_response res \<times> gateway" where
  "request_observability_middleware s sha env handler req gw =
     (let request_id = init_request_id (ge_uuid env) req in
      case authorize s sha env req request_id gw of
        (Inl e, gw1) \<Rightarrow> (Inl e, gw1)
      | (Inr (Some short_circuit, _), gw1) \<Rightarrow> (Inr short_circuit, gw1)
      | (Inr (None, rl, _), gw1) \<Rightarrow>
          (rbind (call_next handler req) (\<lambda>r. Inr (apply_response_headers request_id rl r)), gw1))"

section \<open>Lemmas\<close>

text \<open>The credential the store is asked about.\<close>

definition presented_credential :: "http_request \<Rightarrow> string option" where
  "presented_credential req =
     (case parse_bearer_credential (hq_authorization req) of
        Inr c \<Rightarrow> Some c
      | Inl _ \<Rightarrow> (case hq_x_api_key req of None \<Rightarrow> None
          | Some k \<Rightarrow> if py_strip k = [] then None else Some (py_strip k)))"

lemma authenticate_headers_cases:
  "authenticate_request_headers sha (hq_authorization req) (hq_x_api_key req) now st =
     (case presented_credential req of
        Some c \<Rightarrow> authenticate_key sha c now st
      | None \<Rightarrow> (auth_failure (case parse_bearer_credential (hq_authorization req) of Inl f \<Rightarrow> f), st))"
  by (auto simp: authenticate_request_headers_def presented_credential_def split: sum.splits option.splits)

lemma auth_failure_views [simp]:
  "\<not> au_authenticated (auth_failure f)" "au_failure_reason (auth_failure f) = Some f"
  by (simp_all add: auth_failure_def)

lemma auth_success_views [simp]:
  "au_authenticated (auth_success p l n)" "au_public_id (auth_success p l n) = Some p"
  "au_rate_limit_rpm (auth_success p l n) = n"
  by (simp_all add: auth_success_def)

lemma authenticate_key_not_missing:
  "au_failure_reason (fst (authenticate_key sha key now st)) \<noteq> Some MISSING_AUTHORIZATION"
  by (auto simp: authenticate_key_def auth_row_failure_reason_def auth_success_def split: option.splits if_splits)

lemma missing_authorization:
  "parse_bearer_credential a = Inl MISSING_AUTHORIZATION \<longleftrightarrow> a = None \<or> a = Some []"
  by (auto simp: parse_bearer_credential_def Let_def split: option.splits list.splits if_splits)

lemma map_of_fold_update: "map_of (fold (\<lambda>(k, v). AList.update k v) hs d) k =
   (case map_of (rev hs) k of None \<Rightarrow> map_of d k | Some v \<Rightarrow> Some v)"
  by (induction hs arbitrary: d) (auto simp: map_add_def od_simps split: option.splits)

lemma header_set: "map_of (hr_headers (set_headers hs r)) k =
   (case map_of (rev hs) k of None \<Rightarrow> map_of (hr_headers r) k | Some v \<Rightarrow> Some v)"
  by (simp add: set_headers_def map_of_fold_update)

lemma consume_rate_limit_allowed:
  assumes "consume_rate_limit p n now st = (Inr r, st')"
  shows "rl_limit r = n \<and> (rl_allowed r \<longleftrightarrow> rl_request_count r \<le> n)"
  using assms by (auto simp: consume_rate_limit_def Let_def split: if_splits prod.splits)

lemma anon_consume_allowed:
  assumes "anon_consume c m now l = (Inr r, l')"
  shows "rl_limit r = 1 \<and> (rl_allowed r \<longleftrightarrow> rl_request_count r \<le> 1)"
  using assms by (auto simp: anon_consume_def anon_consume_bucket_def Let_def split: if_splits prod.splits)

section \<open>Properties\<close>

text \<open>C35: A guarded request reaches its endpoint only within its rate limit, and only with a credential
  whose key is live, matches its stored hash and has not expired, or, when anonymous access is
  enabled, with no credential at all; its limit is the key's own or else the configured one.\<close>

theorem guarded_access:
  assumes "api_key_auth_enabled s" "py_startswith (hq_path req) ''/v1/''"
    and "authorize s sha env req request_id gw = (Inr (None, rl, a), gw')"
  shows "\<exists>r. rl = Some r \<and> rl_allowed r \<and> rl_request_count r \<le> rl_limit r
    \<and> (case presented_credential req of
         Some key \<Rightarrow> \<exists>p secret l h rpm e. parse_key key = Some (p, secret) \<and> live_keys (gw_store gw) p = Some (l, h, rpm, e)
           \<and> h = hash_secret sha p secret \<and> (e = None \<or> ge_now_auth env < the e)
           \<and> rl_limit r = (case rpm of Some n \<Rightarrow> n | None \<Rightarrow> api_key_rate_limit_rpm s)
       | None \<Rightarrow> api_key_unauth_access_enabled s \<and> hq_authorization req \<in> {None, Some []} \<and> rl_limit r = 1)"
proof -
  obtain auth st1 where auth: "authenticate_request_headers sha (hq_authorization req) (hq_x_api_key req)
      (ge_now_auth env) (gw_store gw) = (auth, st1)" by fastforce
  show ?thesis
  proof (cases "au_authenticated auth")
    case True
    then obtain key where key: "presented_credential req = Some key"
      "auth = fst (authenticate_key sha key (ge_now_auth env) (gw_store gw))"
      using auth by (auto simp: authenticate_headers_cases split: option.splits)
    obtain q c l h rpm e where k: "parse_key key = Some (q, c)" "live_keys (gw_store gw) q = Some (l, h, rpm, e)"
      "h = hash_secret sha q c" "e = None \<or> ge_now_auth env < the e" "auth = auth_success q l rpm"
      using authenticated_result[of sha key "ge_now_auth env" "gw_store gw"] True key(2) by auto
    let ?n = "case rpm of Some n \<Rightarrow> n | None \<Rightarrow> api_key_rate_limit_rpm s"
    obtain x st2 where x: "consume_rate_limit q ?n (ge_now_consume env) (ge_others env st1) = (x, st2)" by fastforce
    then obtain r where "x = Inr r" "rl = Some r" "rl_allowed r"
      using assms auth k(5) by (auto simp: authorize_def Let_def split: if_splits)
    then show ?thesis using consume_rate_limit_allowed x key(1) k by auto
  next
    case False
    obtain x l where x: "anon_consume (anonymous_client_id req) (api_key_unauth_min_interval_seconds s) (ge_now_anon env)
        (gw_anon gw) = (x, l)" by fastforce
    have allow: "should_allow_unauthenticated s (au_failure_reason auth)"
      using assms auth False by (auto simp: authorize_def split: if_splits)
    then obtain r where r: "x = Inr r" "rl = Some r" "rl_allowed r"
      using assms auth False x by (auto simp: authorize_def Let_def split: if_splits)
    have none: "presented_credential req = None"
      using auth allow authenticate_key_not_missing[of sha _ "ge_now_auth env" "gw_store gw"]
      by (auto simp: authenticate_headers_cases should_allow_unauthenticated_def split: option.splits) (metis fst_conv)
    then obtain f where f: "parse_bearer_credential (hq_authorization req) = Inl f"
      by (auto simp: presented_credential_def split: sum.splits)
    then have "f = MISSING_AUTHORIZATION"
      using auth allow none by (auto simp: authenticate_headers_cases should_allow_unauthenticated_def)
    then show ?thesis using anon_consume_allowed x r none f allow missing_authorization[of "hq_authorization req"]
      by (auto simp: should_allow_unauthenticated_def)
  qed
qed

definition example_gateway :: gateway where
  "example_gateway = \<lparr>gw_store = snd (issue_key (\<lambda>x. x) ''ops'' example_id ''s3cret'' 5 example_store),
     gw_anon = AnonymousRateLimiter\<rparr>"

definition example_gate_env :: gate_env where
  "example_gate_env = \<lparr>ge_uuid = ''0000'', ge_now_auth = 100, ge_others = (\<lambda>s. s), ge_now_consume = 100, ge_now_anon = 100\<rparr>"

abbreviation example_http :: http_request where
  "example_http \<equiv> \<lparr>hq_path = ''/v1/price'', hq_authorization = None,
     hq_x_api_key = Some '' tpa_live_00112233445566aa.s3cret '', hq_request_id = Some ''bad id'', hq_client_host = None\<rparr>"

theorem guarded_access_witness:
  "\<exists>r a gw. authorize default_settings (\<lambda>x. x) example_gate_env example_http ''0000'' example_gateway
      = (Inr (None :: unit http_response option, Some r, a), gw) \<and> rl_limit r = 300 \<and> rl_request_count r \<le> 300"
proof -
  let ?x = "authorize default_settings (\<lambda>x. x) example_gate_env example_http ''0000'' example_gateway
    :: (unit http_response option \<times> rate_limit_result option \<times> auth_state) res \<times> gateway"
  have "case fst ?x of Inr (None, Some r, a) \<Rightarrow> True | _ \<Rightarrow> False" by code_simp
  then obtain r a where x: "?x = (Inr (None, Some r, a), snd ?x)"
    by (auto simp: prod_eq_iff split: sum.splits option.splits)
  have c: "api_key_auth_enabled default_settings" "py_startswith (hq_path example_http) ''/v1/''" by code_simp+
  have p: "presented_credential example_http = Some ''tpa_live_00112233445566aa.s3cret''"
    "parse_key ''tpa_live_00112233445566aa.s3cret'' = Some (example_id, ''s3cret'')" by code_simp+
  have l: "live_keys (gw_store example_gateway) example_id = Some (''ops'', hash_secret (\<lambda>x. x) example_id ''s3cret'', None, None)"
    "api_key_rate_limit_rpm default_settings = 300"
    by code_simp+
  have "rl_limit r = 300 \<and> rl_request_count r \<le> rl_limit r"
    using guarded_access[OF c x] by (auto simp: p l)
  then show ?thesis using x by (intro exI conjI) auto
qed

text \<open>Every response carries a request id: the caller's when it is a well-formed one, else a fresh
  one, so that nothing else of the caller's header is ever reflected.\<close>

theorem response_request_id:
  assumes "request_observability_middleware s sha env handler req gw = (Inr r, gw')"
  shows "\<exists>v. map_of (hr_headers r) ''X-Request-ID'' = Some v
    \<and> (if \<exists>u. hq_request_id req = Some u \<and> request_id_re u then hq_request_id req = Some v else v = ge_uuid env)"
proof -
  let ?v = "init_request_id (ge_uuid env) req"
  have v: "if \<exists>u. hq_request_id req = Some u \<and> request_id_re u then hq_request_id req = Some ?v else ?v = ge_uuid env"
    by (auto simp: init_request_id_def split: option.splits)
  have rl: "map_of (rate_limit_headers x) ''X-Request-ID'' = None" for x by (simp add: rate_limit_headers_def)
  have rv: "map_of (rev (rate_limit_headers x)) ''X-Request-ID'' = None" for x by (simp add: rate_limit_headers_def)
  have lim: "map_of (hr_headers (rate_limited_response m x ?v)) ''X-Request-ID'' = Some ?v" for m x
    by (simp add: rate_limited_response_def header_set)
  have app: "map_of (hr_headers (apply_response_headers ?v x y)) ''X-Request-ID'' = Some ?v" for x y
    by (auto simp: apply_response_headers_def header_set map_add_def rv split: option.splits)
  have una: "map_of (hr_headers (set_headers [(''X-Request-ID'', ?v)] y)) ''X-Request-ID'' = Some ?v" for y
    by (simp add: header_set)
  have short: "map_of (hr_headers x) ''X-Request-ID'' = Some ?v"
    if "authorize s sha env req ?v gw = (Inr (Some x, y), gw1)" for x y gw1
    using that by (auto simp: authorize_def Let_def lim una split: if_splits prod.splits)
  obtain o' gw1 where o: "authorize s sha env req ?v gw = (o', gw1)" by fastforce
  have "map_of (hr_headers r) ''X-Request-ID'' = Some ?v"
    using assms o short app
    by (auto simp: request_observability_middleware_def Let_def split: sum.splits prod.splits option.splits)
  then show ?thesis using v by blast
qed

theorem response_request_id_witness:
  "\<exists>r gw. request_observability_middleware default_settings (\<lambda>x. x) example_gate_env
      (\<lambda>_. Inl (InvalidRequestError ''UNKNOWN_PROVIDER'' ''x'')) example_http example_gateway = (Inr (r :: unit http_response), gw)
     \<and> hr_status r = 400 \<and> map_of (hr_headers r) ''X-Request-ID'' = Some ''0000''"
proof -
  let ?x = "request_observability_middleware default_settings (\<lambda>x. x) example_gate_env
      (\<lambda>_. Inl (InvalidRequestError ''UNKNOWN_PROVIDER'' ''x'')) example_http example_gateway :: unit http_response res \<times> gateway"
  have "case fst ?x of Inl e \<Rightarrow> False | Inr r \<Rightarrow> hr_status r = 400" by code_simp
  then obtain r where r: "?x = (Inr r, snd ?x)" "hr_status r = 400" by (auto simp: prod_eq_iff split: sum.splits)
  have "\<not> request_id_re ''bad id''" by code_simp
  then have "map_of (hr_headers r) ''X-Request-ID'' = Some ''0000''"
    using response_request_id[OF r(1)] by (auto simp: example_gate_env_def)
  then show ?thesis using r by (intro exI conjI) auto
qed

end
