(* ===== verification/Metrics.thy ===== *)
theory Metrics
  imports Prelude
begin

text \<open>
  The metrics (\<open>observability/metrics.py\<close>). \<open>prometheus_client\<close> is modelled by its documentation: a metric has one
  child per tuple of label values, created with value 0 when first asked for; \<open>inc\<close>, \<open>dec\<close> and \<open>set\<close> change the
  value of a child, \<open>observe\<close> adds an observation to it. \<open>None\<close> is the value NaN.
\<close>

section \<open>The metrics\<close>

datatype metric =
    ENSO_CREDITS_USED | ENSO_CREDITS_LIMIT | ENSO_CREDITS_REMAINING | ENSO_CREDITS_UPDATED
  | HTTP_REQUESTS_TOTAL | HTTP_REQUEST_LATENCY_SECONDS | HTTP_INFLIGHT_REQUESTS
  | PARTIAL_RESPONSES_TOTAL | ALL_FAILED_RESPONSES_TOTAL
  | PROVIDER_CALLS_TOTAL | PROVIDER_CALL_LATENCY_SECONDS | PROVIDER_AVAILABLE
  | VAULT_RESOLUTION_TOTAL | VAULT_RESOLUTION_LATENCY_SECONDS
  | AUTH_TOTAL | RATE_LIMIT_TOTAL | ADMISSION_REJECTIONS_TOTAL | ADMISSION_INFLIGHT_UNITS
  | PROVIDER_INFLIGHT_CALLS | PROVIDER_POOL_TIMEOUTS_TOTAL | PROVIDER_TRANSPORT_RECYCLES_TOTAL
  | PROVIDER_CIRCUIT_STATE | PROVIDER_CIRCUIT_TRANSITIONS_TOTAL | PROCESS_CLOSE_WAIT_SOCKETS
  | TOKEN_LOGO_PUBLIC_TOTAL | TOKEN_LOGO_ACQUISITION_TOTAL | TOKEN_LOGO_DUE | TOKEN_LOGO_ACQUISITION_ACTIVE
  | TOKEN_LOGO_SOURCE_REFRESH_AGE_SECONDS

datatype metric_kind = Counter | Gauge | Histogram

text \<open>Kind, name and label names of a metric.\<close>

fun metric_decl :: "metric \<Rightarrow> metric_kind \<times> string \<times> string list" where
  "metric_decl ENSO_CREDITS_USED = (Gauge, ''price_api_enso_credits_used'', [])"
| "metric_decl ENSO_CREDITS_LIMIT = (Gauge, ''price_api_enso_credits_limit'', [])"
| "metric_decl ENSO_CREDITS_REMAINING = (Gauge, ''price_api_enso_credits_remaining'', [])"
| "metric_decl ENSO_CREDITS_UPDATED = (Gauge, ''price_api_enso_credits_updated_timestamp_seconds'', [])"
| "metric_decl HTTP_REQUESTS_TOTAL = (Counter, ''price_api_http_requests_total'', [''endpoint'', ''method'', ''status_class''])"
| "metric_decl HTTP_REQUEST_LATENCY_SECONDS = (Histogram, ''price_api_http_request_latency_seconds'', [''endpoint'', ''method''])"
| "metric_decl HTTP_INFLIGHT_REQUESTS = (Gauge, ''price_api_http_inflight_requests'', [])"
| "metric_decl PARTIAL_RESPONSES_TOTAL = (Counter, ''price_api_partial_responses_total'', [''endpoint''])"
| "metric_decl ALL_FAILED_RESPONSES_TOTAL = (Counter, ''price_api_all_failed_responses_total'', [''endpoint''])"
| "metric_decl PROVIDER_CALLS_TOTAL = (Counter, ''price_api_provider_calls_total'', [''provider'', ''operation'', ''status''])"
| "metric_decl PROVIDER_CALL_LATENCY_SECONDS = (Histogram, ''price_api_provider_call_latency_seconds'', [''provider'', ''operation''])"
| "metric_decl PROVIDER_AVAILABLE = (Gauge, ''price_api_provider_available'', [''provider''])"
| "metric_decl VAULT_RESOLUTION_TOTAL = (Counter, ''price_api_vault_resolution_total'', [''result'', ''vault_type''])"
| "metric_decl VAULT_RESOLUTION_LATENCY_SECONDS = (Histogram, ''price_api_vault_resolution_latency_seconds'', [''vault_type''])"
| "metric_decl AUTH_TOTAL = (Counter, ''price_api_auth_total'', [''result''])"
| "metric_decl RATE_LIMIT_TOTAL = (Counter, ''price_api_rate_limit_total'', [''endpoint''])"
| "metric_decl ADMISSION_REJECTIONS_TOTAL = (Counter, ''price_api_admission_rejections_total'', [''reason'', ''operation''])"
| "metric_decl ADMISSION_INFLIGHT_UNITS = (Gauge, ''price_api_admission_inflight_units'', [''scope'', ''operation''])"
| "metric_decl PROVIDER_INFLIGHT_CALLS = (Gauge, ''price_api_provider_inflight_calls'', [''provider'', ''operation''])"
| "metric_decl PROVIDER_POOL_TIMEOUTS_TOTAL = (Counter, ''price_api_provider_pool_timeouts_total'', [''provider'', ''operation''])"
| "metric_decl PROVIDER_TRANSPORT_RECYCLES_TOTAL = (Counter, ''price_api_provider_transport_recycles_total'', [''provider'', ''reason''])"
| "metric_decl PROVIDER_CIRCUIT_STATE = (Gauge, ''price_api_provider_circuit_state'', [''provider'', ''chain_id'', ''operation''])"
| "metric_decl PROVIDER_CIRCUIT_TRANSITIONS_TOTAL =
     (Counter, ''price_api_provider_circuit_transitions_total'', [''provider'', ''chain_id'', ''operation'', ''state''])"
| "metric_decl PROCESS_CLOSE_WAIT_SOCKETS = (Gauge, ''price_api_process_close_wait_sockets'', [])"
| "metric_decl TOKEN_LOGO_PUBLIC_TOTAL = (Counter, ''price_api_token_logo_public_total'', [''result''])"
| "metric_decl TOKEN_LOGO_ACQUISITION_TOTAL = (Counter, ''price_api_token_logo_acquisition_total'', [''outcome'', ''source''])"
| "metric_decl TOKEN_LOGO_DUE = (Gauge, ''price_api_token_logo_due'', [])"
| "metric_decl TOKEN_LOGO_ACQUISITION_ACTIVE = (Gauge, ''price_api_token_logo_acquisition_active'', [])"
| "metric_decl TOKEN_LOGO_SOURCE_REFRESH_AGE_SECONDS =
     (Gauge, ''price_api_token_logo_source_refresh_age_seconds'', [''source'', ''chain_id''])"

section \<open>The registry of values\<close>

type_synonym child = "metric \<times> string list"

record metric_store =
  mx_values :: "(child, rat option) odict"
  mx_observed :: "(child, rat list) odict"

definition metric_value :: "child \<Rightarrow> metric_store \<Rightarrow> rat option" where
  "metric_value c st = (case map_of (mx_values st) c of None \<Rightarrow> Some 0 | Some v \<Rightarrow> v)"

definition child_set :: "child \<Rightarrow> rat option \<Rightarrow> metric_store \<Rightarrow> metric_store" where
  "child_set c v st = st\<lparr>mx_values := AList.update c v (mx_values st)\<rparr>"

definition child_add :: "child \<Rightarrow> rat \<Rightarrow> metric_store \<Rightarrow> metric_store" where
  "child_add c d st = child_set c (map_option (\<lambda>v. v + d) (metric_value c st)) st"

definition child_observe :: "child \<Rightarrow> rat \<Rightarrow> metric_store \<Rightarrow> metric_store" where
  "child_observe c x st = st\<lparr>mx_observed := AList.update c
     ((case map_of (mx_observed st) c of None \<Rightarrow> [] | Some xs \<Rightarrow> xs) @ [x]) (mx_observed st)\<rparr>"

text \<open>The store after the module is loaded: the credit gauges are NaN until an observation.\<close>

definition init_metrics :: metric_store where
  "init_metrics = fold (\<lambda>m. child_set (m, []) None) [ENSO_CREDITS_USED, ENSO_CREDITS_LIMIT, ENSO_CREDITS_REMAINING]
     \<lparr>mx_values = [], mx_observed = []\<rparr>"

section \<open>Labels\<close>

definition KNOWN_ENDPOINTS :: "string list" where
  "KNOWN_ENDPOINTS = [''/v1/price'', ''/v1/quote'', ''/v1/health'', ''/v1/ready'', ''/v1/providers'', ''/v1/token'', ''/metrics'',
     ''/token-logos/{chain_id}/{address}'']"

definition KNOWN_METHODS :: "string list" where
  "KNOWN_METHODS = [''GET'', ''POST'', ''PUT'', ''PATCH'', ''DELETE'', ''HEAD'', ''OPTIONS'']"

text \<open>\<open>str.upper\<close>; the micro sign and the y with diaeresis, whose capitals are beyond Latin-1, are kept.\<close>

definition py_upper_char :: "char \<Rightarrow> string" where
  "py_upper_char c = (let n = char_code c in
     if (97 \<le> n \<and> n \<le> 122) \<or> (224 \<le> n \<and> n \<le> 254 \<and> n \<noteq> 247) then [char_of (n - 32)]
     else if n = 223 then ''SS'' else [c])"

definition py_upper :: "string \<Rightarrow> string" where
  "py_upper s = concat (map py_upper_char s)"

definition normalize_endpoint :: "string \<Rightarrow> string" where
  "normalize_endpoint endpoint =
     (if py_startswith endpoint ''/token-logos/'' then ''/token-logos/{chain_id}/{address}''
      else if endpoint \<in> set KNOWN_ENDPOINTS then endpoint else ''/unknown'')"

definition normalize_method :: "string \<Rightarrow> string" where
  "normalize_method m = (let normalized = py_upper m in if normalized \<in> set KNOWN_METHODS then normalized else ''OTHER'')"

section \<open>Requests\<close>

definition status_class :: "int \<Rightarrow> string" where
  "status_class status_code = int_str (status_code div 100) @ ''xx''"

definition observe_http_request :: "string \<Rightarrow> string \<Rightarrow> int \<Rightarrow> rat \<Rightarrow> metric_store \<Rightarrow> metric_store" where
  "observe_http_request path meth status_code duration st =
     (let endpoint = normalize_endpoint path; m = normalize_method meth in
      child_observe (HTTP_REQUEST_LATENCY_SECONDS, [endpoint, m]) duration
        (child_add (HTTP_REQUESTS_TOTAL, [endpoint, m, status_class status_code]) 1 st))"

definition inc_inflight_request :: "metric_store \<Rightarrow> metric_store" where
  "inc_inflight_request = child_add (HTTP_INFLIGHT_REQUESTS, []) 1"

definition dec_inflight_request :: "metric_store \<Rightarrow> metric_store" where
  "dec_inflight_request = child_add (HTTP_INFLIGHT_REQUESTS, []) (- 1)"

definition record_partial_response :: "string \<Rightarrow> metric_store \<Rightarrow> metric_store" where
  "record_partial_response endpoint = child_add (PARTIAL_RESPONSES_TOTAL, [normalize_endpoint endpoint]) 1"

definition record_all_failed_response :: "string \<Rightarrow> metric_store \<Rightarrow> metric_store" where
  "record_all_failed_response endpoint = child_add (ALL_FAILED_RESPONSES_TOTAL, [normalize_endpoint endpoint]) 1"

definition record_auth_result :: "string \<Rightarrow> metric_store \<Rightarrow> metric_store" where
  "record_auth_result result = child_add (AUTH_TOTAL, [result]) 1"

definition record_rate_limited :: "string \<Rightarrow> metric_store \<Rightarrow> metric_store" where
  "record_rate_limited endpoint = child_add (RATE_LIMIT_TOTAL, [normalize_endpoint endpoint]) 1"

text \<open>\<open>record_aggregate_metrics\<close> of the routes.\<close>

definition record_aggregate_metrics :: "string \<Rightarrow> int \<Rightarrow> int \<Rightarrow> bool \<Rightarrow> metric_store \<Rightarrow> metric_store" where
  "record_aggregate_metrics endpoint requested failed partial st =
     (let st1 = (if partial then record_partial_response endpoint st else st) in
      if requested > 0 \<and> failed = requested then record_all_failed_response endpoint st1 else st1)"

section \<open>Providers, vaults and admission\<close>

definition record_provider_call :: "string \<Rightarrow> string \<Rightarrow> string \<Rightarrow> int \<Rightarrow> metric_store \<Rightarrow> metric_store" where
  "record_provider_call provider operation status latency_ms st =
     child_observe (PROVIDER_CALL_LATENCY_SECONDS, [provider, operation]) (of_int (max latency_ms 0) / 1000)
       (child_add (PROVIDER_CALLS_TOTAL, [provider, operation, status]) 1 st)"

definition set_provider_available :: "string \<Rightarrow> bool \<Rightarrow> metric_store \<Rightarrow> metric_store" where
  "set_provider_available provider available = child_set (PROVIDER_AVAILABLE, [provider]) (Some (if available then 1 else 0))"

definition record_vault_resolution :: "string \<Rightarrow> string \<Rightarrow> rat \<Rightarrow> metric_store \<Rightarrow> metric_store" where
  "record_vault_resolution result vault_type duration st =
     child_observe (VAULT_RESOLUTION_LATENCY_SECONDS, [vault_type]) duration
       (child_add (VAULT_RESOLUTION_TOTAL, [result, vault_type]) 1 st)"

definition record_admission_rejection :: "string \<Rightarrow> string \<Rightarrow> metric_store \<Rightarrow> metric_store" where
  "record_admission_rejection reason operation = child_add (ADMISSION_REJECTIONS_TOTAL, [reason, operation]) 1"

definition set_admission_inflight_units :: "string \<Rightarrow> string \<Rightarrow> int \<Rightarrow> metric_store \<Rightarrow> metric_store" where
  "set_admission_inflight_units scope operation units =
     child_set (ADMISSION_INFLIGHT_UNITS, [scope, operation]) (Some (of_int units))"

definition inc_provider_inflight_call :: "string \<Rightarrow> string \<Rightarrow> metric_store \<Rightarrow> metric_store" where
  "inc_provider_inflight_call provider operation = child_add (PROVIDER_INFLIGHT_CALLS, [provider, operation]) 1"

definition dec_provider_inflight_call :: "string \<Rightarrow> string \<Rightarrow> metric_store \<Rightarrow> metric_store" where
  "dec_provider_inflight_call provider operation = child_add (PROVIDER_INFLIGHT_CALLS, [provider, operation]) (- 1)"

definition record_provider_pool_timeout :: "string \<Rightarrow> string \<Rightarrow> metric_store \<Rightarrow> metric_store" where
  "record_provider_pool_timeout provider operation = child_add (PROVIDER_POOL_TIMEOUTS_TOTAL, [provider, operation]) 1"

definition record_provider_transport_recycle :: "string \<Rightarrow> string \<Rightarrow> metric_store \<Rightarrow> metric_store" where
  "record_provider_transport_recycle provider reason = child_add (PROVIDER_TRANSPORT_RECYCLES_TOTAL, [provider, reason]) 1"

definition circuit_state_value :: "string \<Rightarrow> rat" where
  "circuit_state_value state = (if state = ''half_open'' then 1 else if state = ''open'' then 2 else 0)"

definition set_provider_circuit_state :: "string \<Rightarrow> int \<Rightarrow> string \<Rightarrow> string \<Rightarrow> metric_store \<Rightarrow> metric_store" where
  "set_provider_circuit_state provider chain_id operation state =
     child_set (PROVIDER_CIRCUIT_STATE, [provider, int_str chain_id, operation]) (Some (circuit_state_value state))"

definition record_provider_circuit_transition :: "string \<Rightarrow> int \<Rightarrow> string \<Rightarrow> string \<Rightarrow> metric_store \<Rightarrow> metric_store" where
  "record_provider_circuit_transition provider chain_id operation state =
     child_add (PROVIDER_CIRCUIT_TRANSITIONS_TOTAL, [provider, int_str chain_id, operation, state]) 1"

definition set_process_close_wait_sockets :: "int \<Rightarrow> metric_store \<Rightarrow> metric_store" where
  "set_process_close_wait_sockets n = child_set (PROCESS_CLOSE_WAIT_SOCKETS, []) (Some (of_int n))"

section \<open>Logos\<close>

definition record_logo_public_read :: "string \<Rightarrow> metric_store \<Rightarrow> metric_store" where
  "record_logo_public_read result = child_add (TOKEN_LOGO_PUBLIC_TOTAL, [result]) 1"

definition record_logo_acquisition :: "string \<Rightarrow> string \<Rightarrow> metric_store \<Rightarrow> metric_store" where
  "record_logo_acquisition outcome source = child_add (TOKEN_LOGO_ACQUISITION_TOTAL, [outcome, source]) 1"

definition set_logo_due_count :: "int \<Rightarrow> metric_store \<Rightarrow> metric_store" where
  "set_logo_due_count n = child_set (TOKEN_LOGO_DUE, []) (Some (of_int n))"

definition set_logo_acquisition_active :: "int \<Rightarrow> metric_store \<Rightarrow> metric_store" where
  "set_logo_acquisition_active n = child_set (TOKEN_LOGO_ACQUISITION_ACTIVE, []) (Some (of_int n))"

definition set_logo_source_refresh_age :: "string \<Rightarrow> int \<Rightarrow> rat \<Rightarrow> metric_store \<Rightarrow> metric_store" where
  "set_logo_source_refresh_age source chain_id age_seconds =
     child_set (TOKEN_LOGO_SOURCE_REFRESH_AGE_SECONDS, [source, int_str chain_id]) (Some age_seconds)"

section \<open>Lemmas\<close>

lemma metric_value_set [simp]: "metric_value c (child_set c' v st) = (if c = c' then v else metric_value c st)"
  by (simp add: metric_value_def child_set_def od_simps)

lemma metric_value_add [simp]:
  "metric_value c (child_add c' d st) = (if c = c' then map_option (\<lambda>v. v + d) (metric_value c st) else metric_value c st)"
  by (simp add: child_add_def)

lemma metric_value_observe [simp]: "metric_value c (child_observe c' x st) = metric_value c st"
  by (simp add: metric_value_def child_observe_def)

text \<open>The children of a metric and the sum of their values.\<close>

definition series :: "metric \<Rightarrow> metric_store \<Rightarrow> string list set" where
  "series m st = {ls. (m, ls) \<in> fst ` set (mx_values st)}"

definition metric_total :: "metric \<Rightarrow> metric_store \<Rightarrow> rat" where
  "metric_total m st = (\<Sum>ls \<in> series m st. case metric_value (m, ls) st of None \<Rightarrow> 0 | Some v \<Rightarrow> v)"

lemma series_set: "series m (child_set (m', ls) v st) = (if m = m' then insert ls (series m st) else series m st)"
  by (auto simp: series_def child_set_def dom_update)

lemma series_add [simp]: "series m (child_add (m', ls) d st) = (if m = m' then insert ls (series m st) else series m st)"
  by (simp add: child_add_def series_set)

lemma series_observe [simp]: "series m (child_observe c x st) = series m st"
  by (simp add: series_def child_observe_def)

lemma finite_series [simp]: "finite (series m st)"
proof -
  have "series m st \<subseteq> snd ` fst ` set (mx_values st)" by (force simp: series_def)
  then show ?thesis by (rule finite_subset) simp
qed

lemma value_outside_series: "ls \<notin> series m st \<Longrightarrow> metric_value (m, ls) st = Some 0"
  by (simp add: series_def metric_value_def flip: map_of_eq_None_iff)

text \<open>Adding to a child that is a number adds to the total of its metric.\<close>

lemma metric_total_add:
  assumes "metric_value (m, ls) st \<noteq> None"
  shows "metric_total m (child_add (m, ls) d st) = metric_total m st + d"
proof -
  obtain v where v: "metric_value (m, ls) st = Some v" using assms by auto
  let ?f = "\<lambda>l. case metric_value (m, l) st of None \<Rightarrow> 0 | Some v \<Rightarrow> v"
  let ?g = "\<lambda>l. case metric_value (m, l) (child_add (m, ls) d st) of None \<Rightarrow> 0 | Some v \<Rightarrow> v"
  have g: "sum ?g (series m st - {ls}) = sum ?f (series m st - {ls})" by (rule sum.cong) auto
  have "metric_total m (child_add (m, ls) d st) = sum ?g (insert ls (series m st - {ls}))"
    by (simp add: metric_total_def)
  also have "\<dots> = v + d + sum ?f (series m st - {ls})" by (subst sum.insert) (simp_all add: g v)
  also have "v + sum ?f (series m st - {ls}) = metric_total m st"
  proof (cases "ls \<in> series m st")
    case True
    then show ?thesis by (simp add: metric_total_def sum.remove[of _ ls] v)
  next
    case False
    then show ?thesis using value_outside_series[OF False] v by (simp add: metric_total_def)
  qed
  ultimately show ?thesis by simp
qed

lemma metric_total_other: "m \<noteq> m' \<Longrightarrow> metric_total m (child_add (m', ls) d st) = metric_total m st"
  by (simp add: metric_total_def)

lemma metric_total_observe [simp]: "metric_total m (child_observe c x st) = metric_total m st"
  by (simp add: metric_total_def)

section \<open>Properties\<close>

text \<open>A served request, as the middleware reports it: path, method, status and duration.\<close>

type_synonym served = "string \<times> string \<times> int \<times> rat"

definition observe_all :: "served list \<Rightarrow> metric_store \<Rightarrow> metric_store" where
  "observe_all = fold (\<lambda>(path, m, status, duration). observe_http_request path m status duration)"

definition status_classes :: "string set" where
  "status_classes = {''1xx'', ''2xx'', ''3xx'', ''4xx'', ''5xx''}"

definition http_labels :: "string list set" where
  "http_labels = (\<lambda>(e, m, c). [e, m, c]) ` (insert ''/unknown'' (set KNOWN_ENDPOINTS) \<times> insert ''OTHER'' (set KNOWN_METHODS) \<times> status_classes)"

lemma normalize_endpoint_known: "normalize_endpoint e \<in> insert ''/unknown'' (set KNOWN_ENDPOINTS)"
  by (simp add: normalize_endpoint_def KNOWN_ENDPOINTS_def)

lemma normalize_method_known: "normalize_method m \<in> insert ''OTHER'' (set KNOWN_METHODS)"
  by (simp add: normalize_method_def Let_def)

lemma status_class_known:
  assumes "100 \<le> s" "s \<le> (599::int)"
  shows "status_class s \<in> status_classes"
proof -
  have "s div 100 \<in> {1, 2, 3, 4, 5}" using assms by auto
  moreover have "int_str 1 = ''1''" "int_str 2 = ''2''" "int_str 3 = ''3''" "int_str 4 = ''4''" "int_str 5 = ''5''"
    by code_simp+
  ultimately show ?thesis by (auto simp: status_class_def status_classes_def)
qed

lemma observe_series:
  assumes "\<forall>(p, m, s, d) \<in> set reqs. 100 \<le> s \<and> s \<le> 599" "series HTTP_REQUESTS_TOTAL st \<subseteq> http_labels"
  shows "series HTTP_REQUESTS_TOTAL (observe_all reqs st) \<subseteq> http_labels"
  using assms
proof (induction reqs arbitrary: st)
  case (Cons r reqs)
  obtain p m s d where r: "r = (p, m, s, d)" by (cases r)
  have "status_class s \<in> status_classes" using Cons.prems(1) by (intro status_class_known) (auto simp: r)
  then have "[normalize_endpoint p, normalize_method m, status_class s] \<in> http_labels" unfolding http_labels_def
    by (intro image_eqI[where x = "(normalize_endpoint p, normalize_method m, status_class s)"] SigmaI
        normalize_endpoint_known normalize_method_known) simp_all
  then have "series HTTP_REQUESTS_TOTAL (observe_http_request p m s d st) \<subseteq> http_labels"
    using Cons.prems(2) by (simp add: observe_http_request_def Let_def)
  with Cons show ?case by (simp add: observe_all_def r)
qed (simp add: observe_all_def)

lemma observe_total:
  assumes "\<forall>ls. metric_value (HTTP_REQUESTS_TOTAL, ls) st \<noteq> None"
  shows "metric_total HTTP_REQUESTS_TOTAL (observe_all reqs st) = metric_total HTTP_REQUESTS_TOTAL st + of_nat (length reqs)"
  using assms
proof (induction reqs arbitrary: st)
  case (Cons r reqs)
  obtain p m s d where r: "r = (p, m, s, d)" by (cases r)
  have "\<forall>ls. metric_value (HTTP_REQUESTS_TOTAL, ls) (observe_http_request p m s d st) \<noteq> None"
    using Cons.prems by (simp add: observe_http_request_def Let_def)
  moreover have "metric_total HTTP_REQUESTS_TOTAL (observe_http_request p m s d st) = metric_total HTTP_REQUESTS_TOTAL st + 1"
    using Cons.prems by (simp add: observe_http_request_def Let_def metric_total_add)
  ultimately show ?case using Cons.IH[of "observe_http_request p m s d st"] by (simp add: observe_all_def r)
qed (simp add: observe_all_def)

lemma init_requests:
  "series HTTP_REQUESTS_TOTAL init_metrics = {}" "metric_value (HTTP_REQUESTS_TOTAL, ls) init_metrics = Some 0"
proof -
  show s: "series HTTP_REQUESTS_TOTAL init_metrics = {}"
    by (simp add: init_metrics_def series_set) (simp add: series_def)
  then show "metric_value (HTTP_REQUESTS_TOTAL, ls) init_metrics = Some 0" by (intro value_outside_series) simp
qed

lemma card_http_labels: "finite http_labels" "card http_labels \<le> 360"
proof -
  let ?D = "insert ''/unknown'' (set KNOWN_ENDPOINTS) \<times> insert ''OTHER'' (set KNOWN_METHODS) \<times> status_classes"
  have f: "finite ?D" by (simp add: status_classes_def)
  then show "finite http_labels" by (simp add: http_labels_def)
  have "card (set (''/unknown'' # KNOWN_ENDPOINTS)) \<le> 9" "card (set (''OTHER'' # KNOWN_METHODS)) \<le> 8"
    by (rule order.trans[OF card_length], simp add: KNOWN_ENDPOINTS_def KNOWN_METHODS_def)+
  moreover have "card status_classes \<le> 5" by (simp add: status_classes_def)
  ultimately have "card ?D \<le> 9 * (8 * 5)" by (simp only: card_cartesian_product list.set) (intro mult_le_mono)
  then show "card http_labels \<le> 360" unfolding http_labels_def using card_image_le[OF f] order.trans by fastforce
qed

text \<open>Whatever clients send, the request counter has at most 9 endpoints times 8 methods times 5 status classes of
  children, and their values add up to the number of requests served.\<close>

theorem request_counter_bounded:
  assumes "\<forall>(p, m, s, d) \<in> set reqs. 100 \<le> s \<and> s \<le> 599"
  shows "card (series HTTP_REQUESTS_TOTAL (observe_all reqs init_metrics)) \<le> 360
    \<and> metric_total HTTP_REQUESTS_TOTAL (observe_all reqs init_metrics) = of_nat (length reqs)"
proof
  have "series HTTP_REQUESTS_TOTAL (observe_all reqs init_metrics) \<subseteq> http_labels"
    by (rule observe_series[OF assms]) (simp add: init_requests)
  from card_mono[OF card_http_labels(1) this] card_http_labels(2)
  show "card (series HTTP_REQUESTS_TOTAL (observe_all reqs init_metrics)) \<le> 360" by linarith
  show "metric_total HTTP_REQUESTS_TOTAL (observe_all reqs init_metrics) = of_nat (length reqs)"
    using observe_total[of init_metrics reqs] by (simp add: init_requests metric_total_def)
qed

theorem request_counter_bounded_witness:
  "metric_total HTTP_REQUESTS_TOTAL (observe_all [(''/v1/price'', ''get'', 200, 1/10), (''/secret/'', ''BREW'', 404, 0)] init_metrics) = 2
   \<and> card (series HTTP_REQUESTS_TOTAL (observe_all [(''/v1/price'', ''get'', 200, 1/10), (''/secret/'', ''BREW'', 404, 0)] init_metrics)) \<le> 360"
  using request_counter_bounded[of "[(''/v1/price'', ''get'', 200, 1/10), (''/secret/'', ''BREW'', 404, 0)]"] by simp

end
