(* ===== verification/Logging.thy ===== *)
theory Logging
  imports TextLines
begin

text \<open>
  Logging (\<open>observability/logging.py\<close>) and the count of sockets in CLOSE-WAIT (\<open>observability/system.py\<close>). A log
  payload is a Python value; \<open>json.dumps\<close> prints it. The files of \<open>/proc\<close> are a parameter.
\<close>

section \<open>Values of a log line\<close>

datatype log_value =
    L_none | L_bool bool | L_int int | L_float rat | L_str string
  | L_list "log_value list" | L_tuple "log_value list" | L_dict "(string \<times> log_value) list"

definition SENSITIVE_KEYS :: "string list" where
  "SENSITIVE_KEYS = [''authorization'', ''x-api-key'', ''x-lifi-api-key'', ''lifi_api_key'', ''enso_api_key'']"

definition REDACTED :: string where "REDACTED = ''***REDACTED***''"

definition redact_str :: "string \<Rightarrow> string" where
  "redact_str v =
     (let lowered = py_lower v in
      if py_contains ''bearer '' lowered then REDACTED
      else if py_contains ''api_key'' lowered \<and> length v > 6 then REDACTED
      else v)"

fun redact :: "log_value \<Rightarrow> log_value" where
  "redact (L_dict items) =
     L_dict (map (\<lambda>(k, item). (k, if py_lower k \<in> set SENSITIVE_KEYS then L_str REDACTED else redact item)) items)"
| "redact (L_list items) = L_list (map redact items)"
| "redact (L_tuple items) = L_tuple (map redact items)"
| "redact (L_str v) = L_str (redact_str v)"
| "redact v = v"

section \<open>The context of a request\<close>

record request_context =
  cx_request_id :: "string option"
  cx_path :: "string option"
  cx_method :: "string option"

definition empty_context :: request_context where
  "empty_context = \<lparr>cx_request_id = None, cx_path = None, cx_method = None\<rparr>"

text \<open>A token keeps the values that were set before.\<close>

definition bind_request_context :: "string \<Rightarrow> string \<Rightarrow> string \<Rightarrow> request_context \<Rightarrow> request_context \<times> request_context" where
  "bind_request_context request_id path meth cx =
     (cx, \<lparr>cx_request_id = Some request_id, cx_path = Some path, cx_method = Some meth\<rparr>)"

definition reset_request_context :: "request_context \<Rightarrow> request_context \<Rightarrow> request_context" where
  "reset_request_context token cx =
     cx\<lparr>cx_request_id := cx_request_id token, cx_path := cx_path token, cx_method := cx_method token\<rparr>"

section \<open>Formatting\<close>

record log_config =
  lc_env :: string
  lc_version :: string
  lc_level :: string
  lc_json :: bool

definition configure_logging :: "string \<Rightarrow> string \<Rightarrow> string \<Rightarrow> string \<Rightarrow> log_config" where
  "configure_logging level log_format app_env app_version =
     \<lparr>lc_env = app_env, lc_version = app_version, lc_level = level, lc_json = (py_lower log_format = ''json'')\<rparr>"

text \<open>The class and the text of an exception, \<open>None\<close> where \<open>exc_info\<close> has none.\<close>

record log_record =
  lr_levelname :: string
  lr_name :: string
  lr_message :: string
  lr_extra :: "(string, log_value) odict"
  lr_exc_info :: "(string option \<times> string option) option"

definition EXTRA_KEYS :: "string list" where
  "EXTRA_KEYS = [''status_code'', ''latency_ms'', ''auth_status'', ''auth_reason'', ''api_key_id'', ''provider'', ''operation'',
     ''provider_status'', ''error_type'', ''transport_error_type'', ''timeout_ms'', ''provider_global_limit'']"

definition optional_str :: "string option \<Rightarrow> log_value" where
  "optional_str v = (case v of None \<Rightarrow> L_none | Some t \<Rightarrow> L_str t)"

definition exc_items :: "log_record \<Rightarrow> (string, log_value) odict" where
  "exc_items r =
     (case lr_exc_info r of
        None \<Rightarrow> []
      | Some (t, v) \<Rightarrow> [(''exc_type'', L_str (case t of Some n \<Rightarrow> n | None \<Rightarrow> ''Exception'')),
          (''exc_message'', L_str (case v of Some m \<Rightarrow> m | None \<Rightarrow> []))])"

definition log_payload :: "log_config \<Rightarrow> request_context \<Rightarrow> string \<Rightarrow> log_record \<Rightarrow> log_value" where
  "log_payload cfg cx ts r =
     L_dict ([(''ts'', L_str ts), (''level'', L_str (lr_levelname r)), (''logger'', L_str (lr_name r)),
       (''msg'', L_str (lr_message r)), (''request_id'', optional_str (cx_request_id cx)), (''path'', optional_str (cx_path cx)),
       (''method'', optional_str (cx_method cx)), (''env'', L_str (lc_env cfg)), (''version'', L_str (lc_version cfg))]
       @ List.map_filter (\<lambda>k. case map_of (lr_extra r) k of
            None \<Rightarrow> None | Some v \<Rightarrow> if v = L_none then None else Some (k, v)) EXTRA_KEYS
       @ exc_items r)"

text \<open>What \<open>json.dumps\<close> is given.\<close>

definition format_record :: "log_config \<Rightarrow> request_context \<Rightarrow> string \<Rightarrow> log_record \<Rightarrow> log_value" where
  "format_record cfg cx ts r = redact (log_payload cfg cx ts r)"

section \<open>Sockets in CLOSE-WAIT\<close>

text \<open>The targets of the descriptors of the process (\<open>None\<close> where reading one fails) and the two socket tables.\<close>

record proc_fs =
  pf_fd :: "string option list option"
  pf_tcp :: "string option"
  pf_tcp6 :: "string option"

definition process_socket_inodes :: "string option list \<Rightarrow> string set" where
  "process_socket_inodes targets =
     set (map (\<lambda>t. py_removesuffix '']'' (py_removeprefix ''socket:['' t))
       (filter (\<lambda>t. py_startswith t ''socket:['' \<and> py_endswith t '']'') (List.map_filter id targets)))"

definition count_close_wait_in_table :: "string option \<Rightarrow> string set \<Rightarrow> int" where
  "count_close_wait_in_table table socket_inodes =
     (case table of
        None \<Rightarrow> 0
      | Some t \<Rightarrow> int (length (filter (\<lambda>line. let parts = py_words line in
            length parts \<ge> 10 \<and> parts ! 3 = ''08'' \<and> parts ! 9 \<in> socket_inodes) (drop 1 (py_splitlines t)))))"

definition count_process_close_wait_sockets :: "proc_fs \<Rightarrow> int option" where
  "count_process_close_wait_sockets fs =
     (case pf_fd fs of
        None \<Rightarrow> None
      | Some targets \<Rightarrow>
          let socket_inodes = process_socket_inodes targets in
          if socket_inodes = {} then Some 0
          else Some (count_close_wait_in_table (pf_tcp fs) socket_inodes + count_close_wait_in_table (pf_tcp6 fs) socket_inodes))"

section \<open>Lemmas\<close>

text \<open>A value without anything that looks like a credential.\<close>

definition clean_str :: "string \<Rightarrow> bool" where
  "clean_str v \<longleftrightarrow> \<not> py_contains ''bearer '' (py_lower v) \<and> \<not> py_contains ''api_key'' (py_lower v)"

fun clean :: "log_value \<Rightarrow> bool" where
  "clean (L_dict items) \<longleftrightarrow> list_all (\<lambda>(k, item). if py_lower k \<in> set SENSITIVE_KEYS then item = L_str REDACTED else clean item) items"
| "clean (L_list items) \<longleftrightarrow> list_all clean items"
| "clean (L_tuple items) \<longleftrightarrow> list_all clean items"
| "clean (L_str v) \<longleftrightarrow> clean_str v"
| "clean v \<longleftrightarrow> True"

lemma clean_REDACTED: "clean_str REDACTED"
  by code_simp

text \<open>The bound on the length is no restriction: a text that names \<open>api_key\<close> is longer.\<close>

lemma redact_str_eq: "redact_str v = (if clean_str v then v else REDACTED)"
  using contains_length[of "''api_key''" "py_lower v"]
  by (auto simp: redact_str_def clean_str_def Let_def py_lower_def)

lemma redacted_clean: "clean (redact v)"
  by (induction v rule: redact.induct) (auto simp: list_all_iff redact_str_eq clean_REDACTED)

lemma map_fixed: "map f xs = xs \<longleftrightarrow> (\<forall>x \<in> set xs. f x = x)"
  by (induction xs) auto

lemma redact_id_iff: "redact v = v \<longleftrightarrow> clean v"
proof (induction v rule: redact.induct)
  case (1 items)
  have "(case x of (k, item) \<Rightarrow> (k, if py_lower k \<in> set SENSITIVE_KEYS then L_str REDACTED else redact item)) = x
      \<longleftrightarrow> (case x of (k, item) \<Rightarrow> if py_lower k \<in> set SENSITIVE_KEYS then item = L_str REDACTED else clean item)"
    if "x \<in> set items" for x
    using 1[OF that] by (cases x) auto
  then show ?case by (simp add: map_fixed list_all_iff)
next
  case (2 items)
  then show ?case by (simp add: map_fixed list_all_iff)
next
  case (3 items)
  then show ?case by (simp add: map_fixed list_all_iff)
next
  case (4 v)
  then show ?case using clean_REDACTED by (auto simp: redact_str_eq)
qed auto

lemma count_close_wait_bounds: "count_process_close_wait_sockets fs = Some n \<Longrightarrow> 0 \<le> n"
  by (auto simp: count_process_close_wait_sockets_def count_close_wait_in_table_def Let_def split: option.splits if_splits)

section \<open>Properties\<close>


end
