(* ===== verification/Serving.thy ===== *)
theory Serving
  imports Gateway Metrics Logging Plugins
begin

text \<open>
  Serving a request (\<open>app/main.py\<close>): the middleware with everything it reports (metrics, access log, request
  context), which Gateway leaves out, the life of the application, and the small routes (\<open>health.py\<close>,
  \<open>providers.py\<close>, \<open>metrics.py\<close>). What the endpoint and other requests do to the metrics meanwhile is the
  environment's \<open>se_during\<close>.
\<close>

section \<open>Authorisation with its metrics\<close>

definition when_enabled :: "settings \<Rightarrow> (metric_store \<Rightarrow> metric_store) \<Rightarrow> metric_store \<Rightarrow> metric_store" where
  "when_enabled s f ms = (if metrics_enabled s then f ms else ms)"

definition record_auth_failure_metrics :: "settings \<Rightarrow> auth_failure_reason option \<Rightarrow> metric_store \<Rightarrow> metric_store" where
  "record_auth_failure_metrics s reason =
     when_enabled s (record_auth_result (case reason of Some r \<Rightarrow> auth_reason_text r | None \<Rightarrow> auth_reason_text INVALID_KEY))"

text \<open>The last component is what \<open>request.state\<close> holds afterwards, also when the consumption of the limit raised.\<close>

definition authorize_and_rate_limit :: "settings \<Rightarrow> (string \<Rightarrow> string) \<Rightarrow> gate_env \<Rightarrow> http_request \<Rightarrow> string \<Rightarrow> gateway \<Rightarrow> metric_store
    \<Rightarrow> ('b http_response option \<times> rate_limit_result option) res \<times> gateway \<times> metric_store \<times> auth_state" where
  "authorize_and_rate_limit s sha env req request_id gw ms =
     (if \<not> api_key_auth_enabled s \<or> \<not> py_startswith (hq_path req) ''/v1/'' then (Inr (None, None), gw, ms, unprotected)
      else
        let (auth, st1) = authenticate_request_headers sha (hq_authorization req) (hq_x_api_key req)
               (ge_now_auth env) (gw_store gw)
        in if au_authenticated auth then
             let a = \<lparr>as_status = ''authenticated'', as_reason = None, as_key_id = au_public_id auth\<rparr>;
                 ms1 = when_enabled s (record_auth_result ''ok'') ms;
                 limit = (case au_rate_limit_rpm auth of Some n \<Rightarrow> n | None \<Rightarrow> api_key_rate_limit_rpm s);
                 (r, st2) = consume_rate_limit (the (au_public_id auth)) limit (ge_now_consume env) (ge_others env st1);
                 gw1 = gw\<lparr>gw_store := st2\<rparr>
             in case r of
                  Inl e \<Rightarrow> (Inl e, gw1, ms1, a)
                | Inr rl \<Rightarrow> if rl_allowed rl then (Inr (None, Some rl), gw1, ms1, a)
                    else (Inr (Some (rate_limited_response ''API key rate limit exceeded'' rl request_id), None), gw1,
                          when_enabled s (record_rate_limited (hq_path req)) ms1, a)
           else if should_allow_unauthenticated s (au_failure_reason auth) then
             let a = \<lparr>as_status = ''anonymous'', as_reason = map_option auth_reason_text (au_failure_reason auth), as_key_id = None\<rparr>;
                 ms1 = when_enabled s (record_auth_result ''unauth_ok'') ms;
                 (r, l) = anon_consume (anonymous_client_id req) (api_key_unauth_min_interval_seconds s)
                    (ge_now_anon env) (gw_anon gw);
                 gw1 = gw\<lparr>gw_store := st1, gw_anon := l\<rparr>
             in case r of
                  Inl e \<Rightarrow> (Inl e, gw1, ms1, a)
                | Inr rl \<Rightarrow> if rl_allowed rl then (Inr (None, Some rl), gw1, ms1, a)
                    else (Inr (Some (rate_limited_response ''Anonymous rate limit exceeded'' rl request_id), None), gw1,
                          when_enabled s (\<lambda>m. record_rate_limited (hq_path req) (record_auth_result ''unauth_rate_limited'' m)) ms1, a)
           else
             (Inr (Some (set_headers [(''X-Request-ID'', request_id)] (unauthorized_response (au_failure_reason auth))), None),
              gw\<lparr>gw_store := st1\<rparr>, record_auth_failure_metrics s (au_failure_reason auth) ms,
              \<lparr>as_status = ''unauthorized'', as_reason = map_option auth_reason_text (au_failure_reason auth), as_key_id = None\<rparr>))"

section \<open>The middleware\<close>

record server =
  sv_gateway :: gateway
  sv_metrics :: metric_store
  sv_context :: request_context
  sv_log :: "log_record list"

record serve_env =
  se_gate :: gate_env
  se_method :: string
  se_started :: rat
  se_finished :: rat
  se_exc_text :: "exc \<Rightarrow> string"
  se_during :: "metric_store \<Rightarrow> metric_store"

definition py_trunc :: "rat \<Rightarrow> int" where
  "py_trunc x = (if x < 0 then - \<lfloor>- x\<rfloor> else \<lfloor>x\<rfloor>)"

definition access_record :: "int \<Rightarrow> int \<Rightarrow> auth_state \<Rightarrow> log_record" where
  "access_record status_code elapsed_ms a =
     \<lparr>lr_levelname = ''INFO'', lr_name = ''price_api.http'', lr_message = ''http_request'',
      lr_extra = [(''status_code'', L_int status_code), (''latency_ms'', L_int elapsed_ms)]
        @ List.map_filter (\<lambda>(k, v). map_option (\<lambda>t. (k, L_str t)) v)
            [(''auth_status'', Some (as_status a)), (''auth_reason'', as_reason a), (''api_key_id'', as_key_id a)],
      lr_exc_info = None\<rparr>"

definition unhandled_record :: "exc \<Rightarrow> string \<Rightarrow> log_record" where
  "unhandled_record e exc_text =
     \<lparr>lr_levelname = ''ERROR'', lr_name = ''price_api.http'', lr_message = ''unhandled_exception'',
      lr_extra = [(''status_code'', L_int 500), (''error_type'', L_str ''UNHANDLED_EXCEPTION'')],
      lr_exc_info = Some (Some (exc_class_name e), Some exc_text)\<rparr>"

definition finalize_observability ::
    "settings \<Rightarrow> serve_env \<Rightarrow> http_request \<Rightarrow> int \<Rightarrow> auth_state \<Rightarrow> request_context \<Rightarrow> server \<Rightarrow> server" where
  "finalize_observability s env req status_code a token sv =
     (let elapsed = se_finished env - se_started env in
      sv\<lparr>sv_metrics := when_enabled s (\<lambda>m. dec_inflight_request
             (observe_http_request (hq_path req) (se_method env) status_code elapsed m)) (sv_metrics sv),
         sv_log := sv_log sv @ [access_record status_code (py_trunc (elapsed * 1000)) a],
         sv_context := reset_request_context token (sv_context sv)\<rparr>)"

text \<open>The body of the \<open>try\<close>.\<close>

definition answer_request :: "settings \<Rightarrow> (string \<Rightarrow> string) \<Rightarrow> serve_env \<Rightarrow> (http_request \<Rightarrow> 'b http_response res) \<Rightarrow> http_request
    \<Rightarrow> string \<Rightarrow> server \<Rightarrow> 'b http_response res \<times> auth_state \<times> server" where
  "answer_request s sha env handler req request_id sv =
     (let (authorized, gw, ms, a) = authorize_and_rate_limit s sha (se_gate env) req request_id (sv_gateway sv) (sv_metrics sv);
          sv1 = sv\<lparr>sv_gateway := gw, sv_metrics := ms\<rparr>
      in case authorized of
           Inl e \<Rightarrow> (Inl e, a, sv1)
         | Inr (Some short_circuit, _) \<Rightarrow> (Inr short_circuit, a, sv1)
         | Inr (None, rl) \<Rightarrow> (rbind (call_next handler req) (\<lambda>r. Inr (apply_response_headers request_id rl r)), a,
                               sv1\<lparr>sv_metrics := se_during env ms\<rparr>))"

text \<open>Its \<open>except\<close> clause.\<close>

definition log_unhandled :: "serve_env \<Rightarrow> 'a res \<Rightarrow> server \<Rightarrow> server" where
  "log_unhandled env outcome sv =
     (case outcome of
        Inl e \<Rightarrow> if e = CancelledError then sv else sv\<lparr>sv_log := sv_log sv @ [unhandled_record e (se_exc_text env e)]\<rparr>
      | Inr _ \<Rightarrow> sv)"

definition final_status :: "'b http_response res \<Rightarrow> int" where
  "final_status outcome = (case outcome of Inl e \<Rightarrow> 500 | Inr r \<Rightarrow> hr_status r)"

definition serve :: "settings \<Rightarrow> (string \<Rightarrow> string) \<Rightarrow> serve_env \<Rightarrow> (http_request \<Rightarrow> 'b http_response res) \<Rightarrow> http_request
    \<Rightarrow> server \<Rightarrow> 'b http_response res \<times> server" where
  "serve s sha env handler req sv =
     (let request_id = init_request_id (ge_uuid (se_gate env)) req;
          (token, cx) = bind_request_context request_id (hq_path req) (se_method env) (sv_context sv);
          (outcome, a, sv1) = answer_request s sha env handler req request_id
            (sv\<lparr>sv_metrics := when_enabled s inc_inflight_request (sv_metrics sv), sv_context := cx\<rparr>)
      in (outcome, finalize_observability s env req (final_status outcome) a token (log_unhandled env outcome sv1)))"

section \<open>The life of the application\<close>

datatype lifespan_call = Start_metadata | Start_registry | Serve_requests | Close_metadata | Close_vaults | Close_registry

text \<open>Calls in order until one raises.\<close>

fun call_all :: "(lifespan_call \<Rightarrow> unit res) \<Rightarrow> lifespan_call list \<Rightarrow> lifespan_call list \<times> unit res" where
  "call_all f [] = ([], Inr ())"
| "call_all f (c # cs) =
     (case f c of Inl e \<Rightarrow> ([c], Inl e) | Inr _ \<Rightarrow> (let (done, r) = call_all f cs in (c # done, r)))"

definition lifespan :: "(lifespan_call \<Rightarrow> unit res) \<Rightarrow> lifespan_call list \<times> unit res" where
  "lifespan f =
     (case call_all f [Start_metadata, Start_registry] of
        (started, Inl e) \<Rightarrow> (started, Inl e)
      | (started, Inr _) \<Rightarrow>
          let body = f Serve_requests; (closed, r) = call_all f [Close_metadata, Close_vaults, Close_registry]
          in (started @ Serve_requests # closed, case r of Inl e \<Rightarrow> Inl e | Inr _ \<Rightarrow> body))"

section \<open>The small routes\<close>

definition health_endpoint :: string where "health_endpoint = ''ok''"

definition providers_endpoint :: "registry \<Rightarrow> provider_capability list" where
  "providers_endpoint g = capabilities g"

text \<open>The body is \<open>generate_latest\<close> of the registry of values.\<close>

definition metrics_endpoint :: "(metric_store \<Rightarrow> string) \<Rightarrow> settings \<Rightarrow> metric_store \<Rightarrow> string http_response" where
  "metrics_endpoint generate_latest s ms =
     (if \<not> metrics_enabled s then \<lparr>hr_status = 404, hr_body = Detail [] ''Metrics are disabled'', hr_headers = []\<rparr>
      else \<lparr>hr_status = 200, hr_body = Content (generate_latest ms), hr_headers = []\<rparr>)"

section \<open>Lemmas\<close>

lemma authorize_projection:
  assumes "authorize_and_rate_limit s sha env req request_id gw ms = (out, gw', ms', a)"
  shows "authorize s sha env req request_id gw = (rbind out (\<lambda>(sc, rl). Inr (sc, rl, a)), gw')"
  using assms by (auto simp: authorize_and_rate_limit_def authorize_def Let_def split: if_splits prod.splits sum.splits)

lemma authorize_keeps:
  assumes "authorize_and_rate_limit s sha env req request_id gw ms = (out, gw', ms', a)" "m \<notin> {AUTH_TOTAL, RATE_LIMIT_TOTAL}"
  shows "metric_value (m, ls) ms' = metric_value (m, ls) ms" "series m ms' = series m ms"
  using assms by (auto simp: authorize_and_rate_limit_def record_auth_failure_metrics_def when_enabled_def record_auth_result_def
      record_rate_limited_def Let_def split: if_splits prod.splits sum.splits)

lemma metric_total_cong:
  "series m ms' = series m ms \<Longrightarrow> (\<And>ls. metric_value (m, ls) ms' = metric_value (m, ls) ms) \<Longrightarrow> metric_total m ms' = metric_total m ms"
  by (simp add: metric_total_def)

text \<open>Nothing else counts or finishes requests meanwhile, and the two metrics are numbers.\<close>

definition quiet_metrics :: "serve_env \<Rightarrow> metric_store \<Rightarrow> bool" where
  "quiet_metrics env ms \<longleftrightarrow>
     (\<forall>x m ls. m = HTTP_REQUESTS_TOTAL \<or> m = HTTP_INFLIGHT_REQUESTS \<longrightarrow>
        metric_value (m, ls) (se_during env x) = metric_value (m, ls) x \<and> series m (se_during env x) = series m x)
   \<and> (\<forall>ls. metric_value (HTTP_REQUESTS_TOTAL, ls) ms \<noteq> None) \<and> metric_value (HTTP_INFLIGHT_REQUESTS, []) ms \<noteq> None"

lemma lifespan_closes:
  assumes "f Start_metadata = Inr ()" "f Start_registry = Inr ()" "f Close_metadata = Inr ()" "f Close_vaults = Inr ()"
    "f Close_registry = Inr ()"
  shows "lifespan f = ([Start_metadata, Start_registry, Serve_requests, Close_metadata, Close_vaults, Close_registry], f Serve_requests)"
  using assms by (simp add: lifespan_def Let_def)

text \<open>When closing the metadata resolver raises, the vault resolver and the provider clients stay open; when the start of the
  registry raises, the metadata resolver already started stays open.\<close>

lemma failing_close_leaks:
  assumes "f Start_metadata = Inr ()" "f Start_registry = Inr ()" "f Close_metadata = Inl e"
  shows "Close_vaults \<notin> set (fst (lifespan f)) \<and> Close_registry \<notin> set (fst (lifespan f))"
  using assms by (simp add: lifespan_def Let_def)

lemma failing_start_leaks:
  assumes "f Start_metadata = Inr ()" "f Start_registry = Inl e"
  shows "Close_metadata \<notin> set (fst (lifespan f))"
  using assms by (simp add: lifespan_def Let_def)

lemma log_unhandled_views [simp]:
  "sv_gateway (log_unhandled env out sv) = sv_gateway sv" "sv_metrics (log_unhandled env out sv) = sv_metrics sv"
  "sv_context (log_unhandled env out sv) = sv_context sv"
  by (simp_all add: log_unhandled_def split: sum.splits)

lemma log_unhandled_log: "\<exists>errors. sv_log (log_unhandled env out sv) = sv_log sv @ errors \<and> length errors \<le> 1"
  by (auto simp: log_unhandled_def split: sum.splits)

lemma finalize_views [simp]:
  "sv_gateway (finalize_observability s env req n a token sv) = sv_gateway sv"
  "sv_log (finalize_observability s env req n a token sv)
     = sv_log sv @ [access_record n (py_trunc ((se_finished env - se_started env) * 1000)) a]"
  by (simp_all add: finalize_observability_def Let_def)

lemma answer_request_gateway:
  fixes handler :: "http_request \<Rightarrow> 'b http_response res"
  assumes "answer_request s sha env handler req rid sv = (outcome, a, sv1)"
  shows "(outcome, sv_gateway sv1) = (case authorize s sha (se_gate env) req rid (sv_gateway sv) of
        (Inl e, gw1) \<Rightarrow> (Inl e, gw1)
      | (Inr (Some short_circuit, _), gw1) \<Rightarrow> (Inr short_circuit, gw1)
      | (Inr (None, rl, _), gw1) \<Rightarrow> (rbind (call_next handler req) (\<lambda>r. Inr (apply_response_headers rid rl r)), gw1))"
proof -
  obtain out :: "('b http_response option \<times> rate_limit_result option) res" and gw ms b
    where r: "authorize_and_rate_limit s sha (se_gate env) req rid (sv_gateway sv) (sv_metrics sv)
      = (out, gw, ms, b)" by (metis prod_cases4)
  show ?thesis using assms unfolding authorize_projection[OF r] answer_request_def Let_def r
    by (auto split: sum.splits option.splits)
qed

lemma answer_request_keeps:
  fixes handler :: "http_request \<Rightarrow> 'b http_response res"
  assumes "answer_request s sha env handler req rid sv = (outcome, a, sv1)" "quiet_metrics env ms0"
    "m = HTTP_REQUESTS_TOTAL \<or> m = HTTP_INFLIGHT_REQUESTS"
  shows "metric_value (m, ls) (sv_metrics sv1) = metric_value (m, ls) (sv_metrics sv)"
    "series m (sv_metrics sv1) = series m (sv_metrics sv)" "sv_log sv1 = sv_log sv" "sv_context sv1 = sv_context sv"
proof -
  obtain out :: "('b http_response option \<times> rate_limit_result option) res" and gw ms b
    where r: "authorize_and_rate_limit s sha (se_gate env) req rid (sv_gateway sv) (sv_metrics sv)
      = (out, gw, ms, b)" by (metis prod_cases4)
  have "m \<notin> {AUTH_TOTAL, RATE_LIMIT_TOTAL}" using assms(3) by auto
  note keep = authorize_keeps[OF r this]
  have cases: "sv1 = sv\<lparr>sv_gateway := gw, sv_metrics := ms\<rparr> \<or> sv1 = sv\<lparr>sv_gateway := gw, sv_metrics := se_during env ms\<rparr>"
    using assms(1) by (auto simp: answer_request_def r Let_def split: sum.splits option.splits)
  show "metric_value (m, ls) (sv_metrics sv1) = metric_value (m, ls) (sv_metrics sv)"
    "series m (sv_metrics sv1) = series m (sv_metrics sv)" "sv_log sv1 = sv_log sv" "sv_context sv1 = sv_context sv"
    using cases keep assms(2,3) unfolding quiet_metrics_def by auto
qed

section \<open>Properties\<close>

text \<open>C12: Reporting changes nothing: whatever is counted and logged on the way, a request gets the response of the plain
  middleware, whose guarantees on access and request ids therefore hold of the served one, and leaves the same stores.\<close>

theorem serving_refines_gateway:
  "(fst (serve s sha env handler req sv), sv_gateway (snd (serve s sha env handler req sv)))
     = request_observability_middleware s sha (se_gate env) handler req (sv_gateway sv)"
proof -
  let ?id = "init_request_id (ge_uuid (se_gate env)) req"
  let ?sv = "sv\<lparr>sv_metrics := when_enabled s inc_inflight_request (sv_metrics sv),
      sv_context := snd (bind_request_context ?id (hq_path req) (se_method env) (sv_context sv))\<rparr>"
  obtain outcome a sv1 where r: "answer_request s sha env handler req ?id ?sv = (outcome, a, sv1)" by (metis prod_cases3)
  have "(fst (serve s sha env handler req sv), sv_gateway (snd (serve s sha env handler req sv))) = (outcome, sv_gateway sv1)"
    using r by (simp add: serve_def bind_request_context_def)
  then show ?thesis using answer_request_gateway[OF r] by (simp add: request_observability_middleware_def Let_def)
qed


section \<open>Witness\<close>

definition example_serve_env :: serve_env where
  "example_serve_env = \<lparr>se_gate = example_gate_env, se_method = ''get'', se_started = 1, se_finished = 3/2,
     se_exc_text = (\<lambda>e. []), se_during = (\<lambda>m. m)\<rparr>"

definition example_server :: server where
  "example_server = \<lparr>sv_gateway = example_gateway, sv_metrics = init_metrics, sv_context = empty_context, sv_log = []\<rparr>"


end
