(* ===== verification/SettingsSources.thy ===== *)
theory SettingsSources
  imports Config
begin

text \<open>
  Where the settings come from (\<open>app/config.py\<close>): the sources in the order of \<open>settings_customise_sources\<close>, the path of
  the TOML file and the names under which a field may appear. What each source yields is a dictionary, a parameter;
  as \<open>pydantic_settings\<close> documents, the dictionaries are merged, nested ones key by key, a source before another one
  winning, and a field is the first of its aliases found in the result. Reading a text as a number is pydantic's.
\<close>

section \<open>The configuration file\<close>

text \<open>\<open>_config_file_path\<close> over the variable \<open>PRICE_API_CONFIG_FILE\<close>; a path is its text.\<close>

definition config_file_path :: "(string \<Rightarrow> bool) \<Rightarrow> string option \<Rightarrow> string res" where
  "config_file_path is_file configured =
     (if configured = None \<or> configured = Some [] then Inr ''config/app.toml''
      else let path = the configured in
        if \<not> py_startswith path ''/'' then Inl (ValueError ''PRICE_API_CONFIG_FILE must be an absolute path'')
        else if \<not> is_file path then Inl (ValueError ''PRICE_API_CONFIG_FILE must point to an existing file'')
        else Inr path)"

section \<open>Sources\<close>

type_synonym source_dict = "(string \<times> json) list"

record raw_sources =
  src_init :: source_dict
  src_env :: source_dict
  src_dotenv :: source_dict
  src_toml :: "string \<Rightarrow> source_dict"
  src_secrets :: source_dict

definition settings_customise_sources :: "(string \<Rightarrow> bool) \<Rightarrow> string option \<Rightarrow> raw_sources \<Rightarrow> source_dict list res" where
  "settings_customise_sources is_file configured r =
     rbind (config_file_path is_file configured) (\<lambda>path.
       Inr [src_init r, src_env r, src_dotenv r, src_toml r path, src_secrets r])"

text \<open>\<open>deep_update\<close> of pydantic: the second dictionary wins, dictionaries under one key are merged.\<close>

fun deep_update :: "source_dict \<Rightarrow> source_dict \<Rightarrow> source_dict" where
  "deep_update d [] = d"
| "deep_update d ((k, JObj b) # u) =
     deep_update (AList.update k (JObj (case map_of d k of Some (JObj a) \<Rightarrow> deep_update a b | _ \<Rightarrow> b)) d) u"
| "deep_update d ((k, v) # u) = deep_update (AList.update k v d) u"

definition merge_sources :: "source_dict list \<Rightarrow> source_dict" where
  "merge_sources sources = foldl (\<lambda>state s. deep_update s state) [] sources"

section \<open>Aliases\<close>

definition plain :: "string \<Rightarrow> string \<times> string list list" where
  "plain name = (name, [[name]])"

definition nested :: "string \<Rightarrow> string \<Rightarrow> string \<Rightarrow> string \<times> string list list" where
  "nested name section key = (name, [[name], [section, key]])"

definition settings_aliases :: "(string \<times> string list list) list" where
  "settings_aliases =
     [plain ''app_env'',
      plain ''app_version'',
      plain ''log_level'',
      plain ''log_format'',
      plain ''log_request_body'',
      plain ''metrics_enabled'',
      plain ''enable_readiness_strict'',
      nested ''chain_ids'' ''chains'' ''ids'',
      plain ''ethereum_rpc_url'',
      plain ''optimism_rpc_url'',
      plain ''gnosis_rpc_url'',
      plain ''polygon_rpc_url'',
      plain ''arbitrum_rpc_url'',
      plain ''avalanche_rpc_url'',
      nested ''rpc_request_timeout_ms'' ''rpc'' ''request_timeout_ms'',
      nested ''provider_request_timeout_ms'' ''timeouts'' ''provider_request_timeout_ms'',
      nested ''provider_max_retries'' ''timeouts'' ''provider_max_retries'',
      nested ''provider_http_trust_env'' ''timeouts'' ''provider_http_trust_env'',
      nested ''provider_pool_timeout_ms'' ''transport'' ''provider_pool_timeout_ms'',
      nested ''provider_connect_timeout_ms'' ''transport'' ''provider_connect_timeout_ms'',
      nested ''provider_read_timeout_ms'' ''transport'' ''provider_read_timeout_ms'',
      nested ''provider_write_timeout_ms'' ''transport'' ''provider_write_timeout_ms'',
      nested ''provider_max_connections_per_provider'' ''transport'' ''provider_max_connections_per_provider'',
      nested ''provider_max_keepalive_connections_per_provider'' ''transport'' ''provider_max_keepalive_connections_per_provider'',
      nested ''provider_keepalive_expiry_s'' ''transport'' ''provider_keepalive_expiry_s'',
      nested ''provider_client_ttl_s'' ''transport'' ''provider_client_ttl_s'',
      nested ''provider_client_max_requests'' ''transport'' ''provider_client_max_requests'',
      nested ''provider_recycle_pool_timeout_threshold'' ''transport'' ''provider_recycle_pool_timeout_threshold'',
      nested ''provider_recycle_window_s'' ''transport'' ''provider_recycle_window_s'',
      nested ''provider_fanout_per_request'' ''concurrency'' ''provider_fanout_per_request'',
      nested ''provider_global_limit'' ''concurrency'' ''provider_global_limit'',
      nested ''provider_global_units'' ''concurrency'' ''provider_global_units'',
      nested ''provider_per_provider_units'' ''concurrency'' ''provider_per_provider_units'',
      nested ''vault_global_units'' ''concurrency'' ''vault_global_units'',
      nested ''admission_acquire_timeout_ms'' ''concurrency'' ''admission_acquire_timeout_ms'',
      nested ''web3_limit'' ''concurrency'' ''web3_limit'',
      nested ''provider_circuit_failure_window_s'' ''circuit_breakers'' ''failure_window_s'',
      nested ''provider_circuit_failure_threshold'' ''circuit_breakers'' ''failure_threshold'',
      nested ''provider_circuit_open_duration_s'' ''circuit_breakers'' ''open_duration_s'',
      nested ''provider_circuit_half_open_probe_count'' ''circuit_breakers'' ''half_open_probe_count'',
      nested ''vault_positive_cache_ttl_s'' ''vault'' ''positive_cache_ttl_s'',
      nested ''vault_negative_cache_ttl_s'' ''vault'' ''negative_cache_ttl_s'',
      nested ''vault_cache_max_entries'' ''vault'' ''cache_max_entries'',
      nested ''close_wait_ready_threshold'' ''readiness'' ''close_wait_ready_threshold'',
      nested ''token_metadata_db_path'' ''token_metadata'' ''db_path'',
      nested ''api_key_auth_enabled'' ''security'' ''api_key_auth_enabled'',
      nested ''api_key_db_path'' ''security'' ''api_key_db_path'',
      nested ''api_key_rate_limit_rpm'' ''security'' ''api_key_rate_limit_rpm'',
      nested ''api_key_unauth_access_enabled'' ''security'' ''api_key_unauth_access_enabled'',
      (''api_key_unauth_min_interval_seconds'', [[''api_key_unauth_min_interval_seconds''], [''security'', ''api_key_unauth_min_interval_seconds''], [''api_key_unauth_rate_limit_rps''], [''security'', ''api_key_unauth_rate_limit_rps'']]),
      nested ''providers_enabled'' ''providers'' ''enabled'',
      nested ''price_provider_priority'' ''providers'' ''price_priority'',
      nested ''quote_provider_priority'' ''providers'' ''quote_priority'',
      plain ''lifi_api_key'',
      (''lifi_deny_exchanges'', [[''lifi_deny_exchanges''], [''providers'', ''lifi'', ''deny_exchanges'']]),
      plain ''enso_api_key'']"

fun search_path :: "json \<Rightarrow> string list \<Rightarrow> json option" where
  "search_path v [] = Some v"
| "search_path v (k # ks) =
     (case v of JObj d \<Rightarrow> (case map_of d k of None \<Rightarrow> None | Some w \<Rightarrow> search_path w ks) | _ \<Rightarrow> None)"

fun first_given :: "'a option list \<Rightarrow> 'a option" where
  "first_given [] = None"
| "first_given (Some x # xs) = Some x"
| "first_given (None # xs) = first_given xs"

text \<open>The value of a field before its validation, \<open>None\<close> where its default is taken.\<close>

definition setting_value :: "source_dict list \<Rightarrow> string \<Rightarrow> json option" where
  "setting_value sources name =
     (case map_of settings_aliases name of
        None \<Rightarrow> None
      | Some aliases \<Rightarrow> first_given (map (search_path (JObj (merge_sources sources))) aliases))"

section \<open>Merging\<close>

text \<open>Dictionaries have every key once, at every depth.\<close>

fun json_dict :: "json \<Rightarrow> bool" where
  "json_dict (JObj d) \<longleftrightarrow> distinct (map fst d) \<and> (\<forall>v \<in> set (map snd d). json_dict v)"
| "json_dict v \<longleftrightarrow> True"

definition is_obj :: "json \<Rightarrow> bool" where
  "is_obj v \<longleftrightarrow> (case v of JObj d \<Rightarrow> True | _ \<Rightarrow> False)"

definition merged :: "json option \<Rightarrow> json \<Rightarrow> json" where
  "merged old v = (case (old, v) of (Some (JObj a), JObj b) \<Rightarrow> JObj (deep_update a b) | _ \<Rightarrow> v)"

lemma merged_plain: "\<not> is_obj v \<Longrightarrow> merged old v = v"
  by (cases v) (simp_all add: merged_def is_obj_def split: option.splits json.splits)

lemma deep_update_Cons: "deep_update d ((k, v) # u) = deep_update (AList.update k (merged (map_of d k) v) d) u"
  by (cases v) (auto simp: merged_def split: option.splits json.splits)

lemma map_of_deep_update:
  "distinct (map fst u) \<Longrightarrow>
   map_of (deep_update d u) k = (case map_of u k of None \<Rightarrow> map_of d k | Some v \<Rightarrow> Some (merged (map_of d k) v))"
proof (induction u arbitrary: d)
  case (Cons e u)
  obtain j v where e: "e = (j, v)" by (cases e)
  have "map_of u j = None" using Cons.prems e by (auto simp: map_of_eq_None_iff)
  then show ?case using Cons.prems unfolding e deep_update_Cons
    by (simp add: Cons.IH update_conv' split: option.splits)
qed simp

text \<open>A path a dictionary says nothing about, or at which it has a value that is no dictionary.\<close>

fun clear_path :: "string list \<Rightarrow> source_dict \<Rightarrow> bool" where
  "clear_path [] d \<longleftrightarrow> False"
| "clear_path [k] d \<longleftrightarrow> (case map_of d k of None \<Rightarrow> True | Some v \<Rightarrow> \<not> is_obj v)"
| "clear_path (k # j # ks) d \<longleftrightarrow> (case map_of d k of None \<Rightarrow> True | Some v \<Rightarrow> (case v of JObj b \<Rightarrow> clear_path (j # ks) b | _ \<Rightarrow> False))"

lemma search_deep_update:
  "clear_path p u \<Longrightarrow> clear_path p d \<Longrightarrow> json_dict (JObj u) \<Longrightarrow>
   search_path (JObj (deep_update d u)) p =
     (case search_path (JObj u) p of Some v \<Rightarrow> Some v | None \<Rightarrow> search_path (JObj d) p)
   \<and> clear_path p (deep_update d u)"
proof (induction p u arbitrary: d rule: clear_path.induct)
  case (2 k u)
  have dist: "distinct (map fst u)" using 2(3) by simp
  show ?case
  proof (cases "map_of u k")
    case None
    then show ?thesis using 2(2) by (simp add: map_of_deep_update[OF dist])
  next
    case (Some v)
    then have "\<not> is_obj v" using 2(1) by simp
    then show ?thesis using Some by (simp add: map_of_deep_update[OF dist] merged_plain)
  qed
next
  case (3 k j ks u)
  have dist: "distinct (map fst u)" using 3(4) by simp
  show ?case
  proof (cases "map_of u k")
    case None
    then show ?thesis using 3(3) by (simp add: map_of_deep_update[OF dist])
  next
    case (Some v)
    then obtain b where v: "v = JObj b" and b: "clear_path (j # ks) b" using 3(2) by (auto split: json.splits)
    have jb: "json_dict (JObj b)" using 3(4) map_of_SomeD[OF Some] v by fastforce
    show ?thesis
    proof (cases "map_of d k")
      case None
      then show ?thesis using b Some v by (simp add: map_of_deep_update[OF dist] merged_def split: option.splits)
    next
      case d: (Some w)
      then obtain a where w: "w = JObj a" "clear_path (j # ks) a" using 3(3) by (auto split: json.splits)
      show ?thesis using 3(1)[OF Some v b w(2) jb] Some v d w
        by (simp add: map_of_deep_update[OF dist] merged_def split: option.splits)
    qed
  qed
qed simp

lemma values_update: "snd ` set (AList.update k v d) \<subseteq> insert v (snd ` set d)"
  by (induction d) auto

lemma json_dict_update: "json_dict (JObj d) \<Longrightarrow> json_dict v \<Longrightarrow> json_dict (JObj (AList.update k v d))"
proof -
  assume d: "json_dict (JObj d)" and v: "json_dict v"
  have "json_dict w" if "w \<in> snd ` set (AList.update k v d)" for w
    using values_update[of k v d] that d v by fastforce
  then show ?thesis using distinct_update[of d k v] d by simp
qed

lemma json_dict_deep_update: "json_dict (JObj d) \<Longrightarrow> json_dict (JObj u) \<Longrightarrow> json_dict (JObj (deep_update d u))"
proof (induction d u rule: deep_update.induct)
  case (2 d k b u)
  have b: "json_dict (JObj b)" using 2(4) by simp
  have "json_dict (JObj (case map_of d k of Some (JObj a) \<Rightarrow> deep_update a b | _ \<Rightarrow> b))"
  proof (cases "\<exists>a. map_of d k = Some (JObj a)")
    case True
    then obtain a where a: "map_of d k = Some (JObj a)" by blast
    then have "json_dict (JObj a)" using 2(3) map_of_SomeD[OF a] by fastforce
    then show ?thesis using 2(1)[OF a refl _ b] a by simp
  next
    case False
    then show ?thesis using b by (auto split: option.splits json.splits)
  qed
  then have "json_dict (JObj (AList.update k (JObj (case map_of d k of Some (JObj a) \<Rightarrow> deep_update a b | _ \<Rightarrow> b)) d))"
    by (rule json_dict_update[OF 2(3)])
  then show ?case using 2(2)[OF _] 2(4) by simp
qed (simp_all add: json_dict_update del: json_dict.simps(1), simp_all add: json_dict_update)

lemma first_given_append: "first_given (xs @ ys) = (case first_given xs of None \<Rightarrow> first_given ys | Some v \<Rightarrow> Some v)"
  by (induction xs rule: first_given.induct) simp_all

lemma first_given_single: "first_given [x] = x"
  by (cases x) simp_all

lemma merge_sources_path:
  assumes "p \<noteq> []"
  shows "\<forall>s \<in> set sources. json_dict (JObj s) \<and> clear_path p s \<Longrightarrow>
    search_path (JObj (merge_sources sources)) p = first_given (map (\<lambda>s. search_path (JObj s) p) sources)
    \<and> clear_path p (merge_sources sources) \<and> json_dict (JObj (merge_sources sources))"
proof (induction sources rule: rev_induct)
  case Nil
  obtain k ks where "p = k # ks" using assms by (cases p) auto
  then show ?case by (cases ks) (simp_all add: merge_sources_def)
next
  case (snoc s sources)
  let ?m = "merge_sources sources"
  have m: "merge_sources (sources @ [s]) = deep_update s ?m" by (simp add: merge_sources_def)
  show ?case unfolding m
    using search_deep_update[of p ?m s] json_dict_deep_update[of s ?m] snoc
    by (simp add: first_given_append first_given_single split: option.splits del: json_dict.simps)
qed

section \<open>Properties\<close>

text \<open>Every field has an alias, the first one its own name.\<close>

lemma aliases_ok:
  "list_all (\<lambda>(name, ps). ps \<noteq> [] \<and> hd ps = [name] \<and> list_all (\<lambda>p. p \<noteq> []) ps) settings_aliases"
  by code_simp

lemma first_given_concat: "first_given (map first_given xss) = first_given (concat xss)"
proof (induction xss)
  case (Cons x xss)
  then show ?case by (cases "first_given x") (simp_all add: first_given_append)
qed simp



text \<open>The documents give the environment precedence over the TOML file. A value under the old name of the anonymous interval
  does not have it: the new name in the file comes first.\<close>

lemma old_name_loses:
  "setting_value [[], [(''api_key_unauth_rate_limit_rps'', JStr ''7'')], [],
      [(''security'', JObj [(''api_key_unauth_min_interval_seconds'', JInt 5)])], []]
     ''api_key_unauth_min_interval_seconds'' = Some (JInt 5)"
  by code_simp

text \<open>The file named by \<open>PRICE_API_CONFIG_FILE\<close> is used exactly when it is an existing absolute path; any other value is an
  error, never a silent fall-back to the default file, which is used only without the variable.\<close>

theorem config_file_exact:
  "(config_file_path is_file configured = Inr path \<longleftrightarrow>
      (if configured \<in> {None, Some []} then path = ''config/app.toml''
       else configured = Some path \<and> py_startswith path ''/'' \<and> is_file path))
   \<and> (settings_customise_sources is_file configured r = Inr sources \<longleftrightarrow>
        (\<exists>p. config_file_path is_file configured = Inr p
          \<and> sources = [src_init r, src_env r, src_dotenv r, src_toml r p, src_secrets r]))"
  by (auto simp: config_file_path_def settings_customise_sources_def Let_def)

end
