(* ===== verification/Application.thy ===== *)
theory Application
  imports Serving Providers LogoService SettingsSources
begin

text \<open>
  The application around the services: the shared objects of \<open>app/dependencies.py\<close> with their caches, the start and the
  shutdown of everything \<open>app/main.py\<close> starts, down to the clients and tasks, what the registry reports when it is
  built, and the document of the interface. A getter's body may run while other threads call getters; what they do
  is the argument \<open>during\<close>.
\<close>

section \<open>Shared objects (\<open>app/dependencies.py\<close>)\<close>

datatype app_object =
  Settings_object | Registry_object | Vault_resolver_object | Aggregator_object | Metadata_resolver_object
  | Key_store_object | Anonymous_limiter_object

text \<open>An object is the number of its construction; \<open>ap_built\<close> holds class and arguments of each one.\<close>

record app_state =
  ap_cached :: "(app_object \<times> nat) list"
  ap_built :: "(app_object \<times> nat list) list"

type_synonym 'a app = "app_state \<Rightarrow> 'a res \<times> app_state"

definition app_bind :: "'a app \<Rightarrow> ('a \<Rightarrow> 'b app) \<Rightarrow> 'b app" where
  "app_bind m f = (\<lambda>st. case m st of (Inl e, st') \<Rightarrow> (Inl e, st') | (Inr x, st') \<Rightarrow> f x st')"

text \<open>A constructor may raise: \<open>outcome\<close> says so by class and number.\<close>

definition construct :: "(app_object \<Rightarrow> nat \<Rightarrow> unit res) \<Rightarrow> app_object \<Rightarrow> nat list \<Rightarrow> nat app" where
  "construct outcome k args st =
     (case outcome k (length (ap_built st)) of
        Inl e \<Rightarrow> (Inl e, st)
      | Inr _ \<Rightarrow> (Inr (length (ap_built st)), st\<lparr>ap_built := ap_built st @ [(k, args)]\<rparr>))"

text \<open>\<open>lru_cache(maxsize=1)\<close> on a function without arguments: a value is kept, an exception is not; the body runs without a
  lock, and a value another thread has stored meanwhile stays.\<close>

definition lru_cache :: "app_object \<Rightarrow> (app_state \<Rightarrow> app_state) \<Rightarrow> nat app \<Rightarrow> nat app" where
  "lru_cache k during body st =
     (case map_of (ap_cached st) k of
        Some i \<Rightarrow> (Inr i, st)
      | None \<Rightarrow>
          (case body st of
             (Inl e, st1) \<Rightarrow> (Inl e, during st1)
           | (Inr i, st1) \<Rightarrow>
               (let st2 = during st1 in
                (Inr i, if map_of (ap_cached st2) k = None then st2\<lparr>ap_cached := (k, i) # ap_cached st2\<rparr> else st2))))"

type_synonym app_env = "(app_object \<Rightarrow> nat \<Rightarrow> unit res) \<times> (app_object \<Rightarrow> app_state \<Rightarrow> app_state)"

definition get_settings :: "app_env \<Rightarrow> nat app" where
  "get_settings env = lru_cache Settings_object (snd env Settings_object) (construct (fst env) Settings_object [])"

definition get_provider_registry :: "app_env \<Rightarrow> nat app" where
  "get_provider_registry env = lru_cache Registry_object (snd env Registry_object)
     (app_bind (get_settings env) (\<lambda>settings. construct (fst env) Registry_object [settings]))"

definition get_vault_resolver :: "app_env \<Rightarrow> nat app" where
  "get_vault_resolver env = lru_cache Vault_resolver_object (snd env Vault_resolver_object)
     (app_bind (get_settings env) (\<lambda>settings. construct (fst env) Vault_resolver_object [settings]))"

definition get_aggregator_service :: "app_env \<Rightarrow> nat app" where
  "get_aggregator_service env = lru_cache Aggregator_object (snd env Aggregator_object)
     (app_bind (get_settings env) (\<lambda>settings.
      app_bind (get_provider_registry env) (\<lambda>registry.
      app_bind (get_vault_resolver env) (\<lambda>vault_resolver.
        construct (fst env) Aggregator_object [settings, registry, vault_resolver]))))"

definition get_token_metadata_resolver :: "app_env \<Rightarrow> nat app" where
  "get_token_metadata_resolver env = lru_cache Metadata_resolver_object (snd env Metadata_resolver_object)
     (app_bind (get_settings env) (\<lambda>settings. construct (fst env) Metadata_resolver_object [settings]))"

definition get_api_key_store :: "app_env \<Rightarrow> nat app" where
  "get_api_key_store env = lru_cache Key_store_object (snd env Key_store_object)
     (app_bind (get_settings env) (\<lambda>settings. construct (fst env) Key_store_object [settings]))"

definition get_anonymous_rate_limiter :: "app_env \<Rightarrow> nat app" where
  "get_anonymous_rate_limiter env = lru_cache Anonymous_limiter_object (snd env Anonymous_limiter_object)
     (construct (fst env) Anonymous_limiter_object [])"

fun get_object :: "app_env \<Rightarrow> app_object \<Rightarrow> nat app" where
  "get_object env Settings_object = get_settings env"
| "get_object env Registry_object = get_provider_registry env"
| "get_object env Vault_resolver_object = get_vault_resolver env"
| "get_object env Aggregator_object = get_aggregator_service env"
| "get_object env Metadata_resolver_object = get_token_metadata_resolver env"
| "get_object env Key_store_object = get_api_key_store env"
| "get_object env Anonymous_limiter_object = get_anonymous_rate_limiter env"

definition app_start :: app_state where
  "app_start = \<lparr>ap_cached = [], ap_built = []\<rparr>"

text \<open>Calls one after the other, each with its own outcomes of the constructors.\<close>

fun get_all :: "((app_object \<Rightarrow> nat \<Rightarrow> unit res) \<times> app_object) list \<Rightarrow> app_state \<Rightarrow> (app_object \<times> nat res) list \<times> app_state" where
  "get_all [] st = ([], st)"
| "get_all ((outcome, k) # calls) st =
     (let (r, st1) = get_object (outcome, \<lambda>_. id) k st; (rs, st2) = get_all calls st1 in ((k, r) # rs, st2))"

text \<open>Every object built is in the cache, under its class; the parts of the aggregator are the shared ones.\<close>

definition app_ok :: "app_state \<Rightarrow> bool" where
  "app_ok st \<longleftrightarrow>
     distinct (map fst (ap_cached st))
   \<and> (\<forall>k i. map_of (ap_cached st) k = Some i \<longleftrightarrow> i < length (ap_built st) \<and> fst (ap_built st ! i) = k)
   \<and> (\<forall>args. (Aggregator_object, args) \<in> set (ap_built st) \<longrightarrow>
        map Some args = map (map_of (ap_cached st)) [Settings_object, Registry_object, Vault_resolver_object])"

text \<open>What is cached stays so, and only classes of \<open>D\<close> are new.\<close>

definition app_ext :: "app_object set \<Rightarrow> app_state \<Rightarrow> app_state \<Rightarrow> bool" where
  "app_ext D st st' \<longleftrightarrow> map_of (ap_cached st) \<subseteq>\<^sub>m map_of (ap_cached st')
     \<and> (\<forall>k. k \<notin> D \<longrightarrow> map_of (ap_cached st') k = map_of (ap_cached st) k)"

definition getter_ok :: "app_object set \<Rightarrow> app_object \<Rightarrow> nat app \<Rightarrow> bool" where
  "getter_ok D k m \<longleftrightarrow>
     (\<forall>st r st'. app_ok st \<longrightarrow> m st = (r, st') \<longrightarrow>
        app_ok st' \<and> app_ext D st st' \<and> (\<forall>i. r = Inr i \<longrightarrow> map_of (ap_cached st') k = Some i))"

text \<open>The body of a getter: it ends with a construction that is not in the cache yet.\<close>

definition fresh_build :: "app_object \<Rightarrow> app_state \<Rightarrow> nat \<Rightarrow> app_state \<Rightarrow> bool" where
  "fresh_build k st i st' \<longleftrightarrow>
     (\<exists>args. i = length (ap_built st) \<and> st' = st\<lparr>ap_built := ap_built st @ [(k, args)]\<rparr>
       \<and> (k = Aggregator_object \<longrightarrow>
            map Some args = map (map_of (ap_cached st)) [Settings_object, Registry_object, Vault_resolver_object]))"

definition body_ok :: "app_object set \<Rightarrow> app_object \<Rightarrow> (app_state \<Rightarrow> bool) \<Rightarrow> nat app \<Rightarrow> bool" where
  "body_ok D k Q m \<longleftrightarrow>
     (\<forall>st r st'. app_ok st \<longrightarrow> Q st \<longrightarrow> m st = (r, st') \<longrightarrow>
        (case r of Inl e \<Rightarrow> app_ok st' \<and> app_ext D st st'
         | Inr i \<Rightarrow> \<exists>st0. app_ok st0 \<and> app_ext D st st0 \<and> fresh_build k st0 i st'))"

lemma app_ext_trans: "app_ext D a b \<Longrightarrow> app_ext D b c \<Longrightarrow> app_ext D a c"
  unfolding app_ext_def using map_le_trans by metis

lemma app_ext_refl [simp]: "app_ext D st st"
  by (simp add: app_ext_def)

lemma app_ext_mono: "app_ext D a b \<Longrightarrow> D \<subseteq> E \<Longrightarrow> app_ext E a b"
  unfolding app_ext_def by blast

lemma app_ext_cached: "app_ext D st st' \<Longrightarrow> map_of (ap_cached st) k = Some i \<Longrightarrow> map_of (ap_cached st') k = Some i"
  unfolding app_ext_def map_le_def by (metis domI)

lemma getter_mono: "getter_ok D k m \<Longrightarrow> D \<subseteq> E \<Longrightarrow> getter_ok E k m"
  unfolding getter_ok_def using app_ext_mono by metis

lemma body_construct:
  assumes "\<And>st. Q st \<Longrightarrow> k = Aggregator_object \<Longrightarrow>
    map Some args = map (map_of (ap_cached st)) [Settings_object, Registry_object, Vault_resolver_object]"
  shows "body_ok D k Q (construct outcome k args)"
  unfolding body_ok_def construct_def
  using assms by (auto simp: fresh_build_def split: sum.splits intro!: exI)

lemma body_bind:
  assumes m: "getter_ok D d m" and f: "\<And>i. body_ok D k (\<lambda>st. Q st \<and> map_of (ap_cached st) d = Some i) (f i)"
    and Q: "\<And>st st'. Q st \<Longrightarrow> app_ext D st st' \<Longrightarrow> Q st'"
  shows "body_ok D k Q (app_bind m f)"
  unfolding body_ok_def
proof (intro allI impI)
  fix st r st' assume st: "app_ok st" "Q st" and run: "app_bind m f st = (r, st')"
  obtain q st1 where q: "m st = (q, st1)" by fastforce
  note m1 = m[unfolded getter_ok_def, rule_format, OF st(1) q]
  show "case r of Inl e \<Rightarrow> app_ok st' \<and> app_ext D st st'
      | Inr i \<Rightarrow> \<exists>st0. app_ok st0 \<and> app_ext D st st0 \<and> fresh_build k st0 i st'"
  proof (cases q)
    case (Inl e)
    then show ?thesis using run q m1 by (auto simp: app_bind_def)
  next
    case (Inr i)
    then have "f i st1 = (r, st')" using run q by (simp add: app_bind_def)
    with f[unfolded body_ok_def, rule_format, of st1 i r st'] m1 Q[OF st(2)] Inr
    show ?thesis by (auto split: sum.splits intro: app_ext_trans)
  qed
qed

lemma getter_lru:
  assumes body: "body_ok D k (\<lambda>_. True) m" and "k \<notin> D"
  shows "getter_ok (insert k D) k (lru_cache k id m)"
  unfolding getter_ok_def
proof (intro allI impI)
  fix st r st' assume st: "app_ok st" and run: "lru_cache k id m st = (r, st')"
  obtain q st1 where q: "m st = (q, st1)" by fastforce
  note b = body[unfolded body_ok_def, rule_format, OF st TrueI q]
  show "app_ok st' \<and> app_ext (insert k D) st st' \<and> (\<forall>i. r = Inr i \<longrightarrow> map_of (ap_cached st') k = Some i)"
  proof (cases "map_of (ap_cached st) k")
    case (Some i)
    then show ?thesis using st run by (auto simp: lru_cache_def)
  next
    case None
    show ?thesis
    proof (cases q)
      case (Inl e)
      then show ?thesis using None run q b by (auto simp: lru_cache_def intro: app_ext_mono)
    next
      case (Inr i)
      then obtain st0 args where b: "app_ok st0" "app_ext D st st0" "i = length (ap_built st0)"
        "st1 = st0\<lparr>ap_built := ap_built st0 @ [(k, args)]\<rparr>"
        "k = Aggregator_object \<longrightarrow>
            map Some args = map (map_of (ap_cached st0)) [Settings_object, Registry_object, Vault_resolver_object]"
        using b by (auto simp: fresh_build_def)
      have n: "map_of (ap_cached st0) k = None" using b(2) None assms(2) by (auto simp: app_ext_def)
      have r: "r = Inr i" "st' = st1\<lparr>ap_cached := (k, i) # ap_cached st1\<rparr>"
        using run None q Inr n b(4) by (simp_all add: lru_cache_def)
      have "app_ok st'"
        unfolding app_ok_def r(2) b(4)
      proof (intro conjI allI impI)
        show "distinct (map fst (ap_cached (st0\<lparr>ap_built := ap_built st0 @ [(k, args)], ap_cached := (k, i) #
            ap_cached (st0\<lparr>ap_built := ap_built st0 @ [(k, args)]\<rparr>)\<rparr>)))"
          using b(1) n by (simp add: app_ok_def map_of_eq_None_iff)
      qed (use b n in \<open>auto simp: app_ok_def nth_append less_Suc_eq split: if_splits\<close>)
      moreover have "app_ext (insert k D) st st'"
        using b(2) n None by (auto simp: r b(4) app_ext_def map_le_def)
      ultimately show ?thesis by (simp add: r)
    qed
  qed
qed

text \<open>Calls that are not interleaved.\<close>

abbreviation alone :: "(app_object \<Rightarrow> nat \<Rightarrow> unit res) \<Rightarrow> app_env" where
  "alone outcome \<equiv> (outcome, \<lambda>_. id)"

lemma settings_getter: "getter_ok {Settings_object} Settings_object (get_settings (alone outcome))"
  unfolding get_settings_def snd_conv by (rule getter_lru) (auto intro: body_construct)

lemma one_part_getter:
  assumes "k \<noteq> Settings_object" "k \<noteq> Aggregator_object"
  shows "getter_ok {k, Settings_object} k (lru_cache k id
    (app_bind (get_settings (alone outcome)) (\<lambda>settings. construct o2 k [settings])))"
  using assms by (intro getter_lru body_bind[OF settings_getter] body_construct) auto

lemma registry_getter: "getter_ok {Registry_object, Settings_object} Registry_object (get_provider_registry (alone outcome))"
  unfolding get_provider_registry_def by (simp add: one_part_getter)

lemma vault_getter: "getter_ok {Vault_resolver_object, Settings_object} Vault_resolver_object (get_vault_resolver (alone outcome))"
  unfolding get_vault_resolver_def by (simp add: one_part_getter)

lemma aggregator_getter:
  "getter_ok {Aggregator_object, Settings_object, Registry_object, Vault_resolver_object} Aggregator_object
     (get_aggregator_service (alone outcome))"
proof -
  let ?D = "{Settings_object, Registry_object, Vault_resolver_object}"
  have "getter_ok ?D Settings_object (get_settings (alone outcome))"
    "getter_ok ?D Registry_object (get_provider_registry (alone outcome))"
    "getter_ok ?D Vault_resolver_object (get_vault_resolver (alone outcome))"
    using getter_mono[OF settings_getter] getter_mono[OF registry_getter] getter_mono[OF vault_getter] by auto
  then have "body_ok ?D Aggregator_object (\<lambda>_. True)
     (app_bind (get_settings (alone outcome)) (\<lambda>settings.
      app_bind (get_provider_registry (alone outcome)) (\<lambda>registry.
      app_bind (get_vault_resolver (alone outcome)) (\<lambda>vault_resolver.
        construct outcome Aggregator_object [settings, registry, vault_resolver]))))"
    by (intro body_bind body_construct) (auto intro: app_ext_cached)
  from getter_lru[OF this] show ?thesis by (simp add: get_aggregator_service_def)
qed

lemma get_object_ok: "getter_ok UNIV k (get_object (alone outcome) k)"
proof (cases k)
  case Anonymous_limiter_object
  have "getter_ok {Anonymous_limiter_object} Anonymous_limiter_object (get_anonymous_rate_limiter (alone outcome))"
    unfolding get_anonymous_rate_limiter_def snd_conv by (rule getter_lru) (auto intro: body_construct)
  with Anonymous_limiter_object show ?thesis by (auto intro: getter_mono)
qed (use getter_mono[OF settings_getter] getter_mono[OF registry_getter] getter_mono[OF vault_getter]
    getter_mono[OF aggregator_getter] getter_mono[OF one_part_getter]
    in \<open>auto simp: get_token_metadata_resolver_def get_api_key_store_def\<close>)

lemma get_all_ok:
  "app_ok st \<Longrightarrow> get_all calls st = (rs, st') \<Longrightarrow>
   app_ok st' \<and> app_ext UNIV st st' \<and> (\<forall>(k, r) \<in> set rs. \<forall>i. r = Inr i \<longrightarrow> map_of (ap_cached st') k = Some i)"
proof (induction calls arbitrary: st rs st')
  case (Cons call calls)
  obtain outcome k where c: "call = (outcome, k)" by (cases call)
  obtain r st1 where r: "get_object (alone outcome) k st = (r, st1)" by fastforce
  obtain rs' st2 where rs: "get_all calls st1 = (rs', st2)" by fastforce
  have res: "rs = (k, r) # rs'" "st' = st2" using Cons.prems(2) r rs by (simp_all add: c)
  note one = get_object_ok[unfolded getter_ok_def, rule_format, OF Cons.prems(1) r]
  note rest = Cons.IH[OF conjunct1[OF one] rs]
  have "map_of (ap_cached st2) k = Some i" if "r = Inr i" for i
    using one rest that by (blast intro: app_ext_cached)
  with one rest show ?case unfolding res by (auto intro: app_ext_trans)
qed simp

text \<open>C21: The objects of the application are singletons: as long as the getters are called one after the other, in any order and
  with any constructor failing at any time, every class is built at most once, all calls for a class that succeed give the
  same object, and the aggregator works on the same settings, registry and vault resolver as everybody else.\<close>

theorem objects_are_singletons:
  assumes "get_all calls app_start = (results, st)"
  shows "distinct (map fst (ap_built st))
    \<and> (\<forall>k i j. (k, Inr i) \<in> set results \<and> (k, Inr j) \<in> set results \<longrightarrow> i = j)
    \<and> (\<forall>i. (Aggregator_object, Inr i) \<in> set results \<longrightarrow>
         i < length (ap_built st) \<and> (\<exists>s g v. ap_built st ! i = (Aggregator_object, [s, g, v])
           \<and> (\<forall>j. (Settings_object, Inr j) \<in> set results \<longrightarrow> j = s)
           \<and> (\<forall>j. (Registry_object, Inr j) \<in> set results \<longrightarrow> j = g)
           \<and> (\<forall>j. (Vault_resolver_object, Inr j) \<in> set results \<longrightarrow> j = v)))"
proof -
  have "app_ok app_start" by (simp add: app_ok_def app_start_def)
  note ok = get_all_ok[OF this assms]
  then have cached: "map_of (ap_cached st) k = Some i" if "(k, Inr i) \<in> set results" for k i using that by fastforce
  have index: "map_of (ap_cached st) k = Some i \<longleftrightarrow> i < length (ap_built st) \<and> fst (ap_built st ! i) = k" for k i
    using ok by (simp add: app_ok_def)
  have d: "distinct (map fst (ap_built st))"
    unfolding distinct_conv_nth by (metis index length_map nth_map option.inject)
  have same: "i = j" if "map_of (ap_cached st) k = Some i" "(k, Inr j) \<in> set results" for k i j
    using that cached[of k j] by simp
  have parts: "\<exists>s g v. ap_built st ! i = (Aggregator_object, [s, g, v]) \<and> map_of (ap_cached st) Settings_object = Some s
      \<and> map_of (ap_cached st) Registry_object = Some g \<and> map_of (ap_cached st) Vault_resolver_object = Some v"
    if ag: "(Aggregator_object, Inr i) \<in> set results" for i
  proof -
    obtain args where a: "ap_built st ! i = (Aggregator_object, args)" "i < length (ap_built st)"
      using cached[OF ag] index by (cases "ap_built st ! i") auto
    then have "(Aggregator_object, args) \<in> set (ap_built st)" by (metis nth_mem)
    then have "map Some args = map (map_of (ap_cached st)) [Settings_object, Registry_object, Vault_resolver_object]"
      using ok by (simp add: app_ok_def)
    then show ?thesis using a by (auto simp: map_eq_Cons_conv)
  qed
  show ?thesis
  proof (intro conjI d allI impI)
    fix k i j assume "(k, Inr i) \<in> set results \<and> (k, Inr j) \<in> set results"
    then show "i = j" using same[of k i j] cached[of k i] by blast
  next
    fix i assume ag: "(Aggregator_object, Inr i) \<in> set results"
    show "i < length (ap_built st)" using cached[OF ag] index by simp
    from parts[OF ag] obtain s g v where p: "ap_built st ! i = (Aggregator_object, [s, g, v])"
      "map_of (ap_cached st) Settings_object = Some s" "map_of (ap_cached st) Registry_object = Some g"
      "map_of (ap_cached st) Vault_resolver_object = Some v" by blast
    show "\<exists>s g v. ap_built st ! i = (Aggregator_object, [s, g, v])
        \<and> (\<forall>j. (Settings_object, Inr j) \<in> set results \<longrightarrow> j = s)
        \<and> (\<forall>j. (Registry_object, Inr j) \<in> set results \<longrightarrow> j = g)
        \<and> (\<forall>j. (Vault_resolver_object, Inr j) \<in> set results \<longrightarrow> j = v)"
      using p same by (intro exI[of _ s] exI[of _ g] exI[of _ v]) auto
  qed
qed

theorem objects_are_singletons_witness:
  "distinct (map fst (ap_built (snd (get_all
      [(\<lambda>k n. if k = Vault_resolver_object then Inl (ValueError ''broken'') else Inr (), Aggregator_object),
       (\<lambda>_ _. Inr (), Aggregator_object), (\<lambda>_ _. Inr (), Registry_object)] app_start))))
   \<and> length (ap_built (snd (get_all
      [(\<lambda>k n. if k = Vault_resolver_object then Inl (ValueError ''broken'') else Inr (), Aggregator_object),
       (\<lambda>_ _. Inr (), Aggregator_object), (\<lambda>_ _. Inr (), Registry_object)] app_start))) = 4"
proof -
  let ?calls = "[(\<lambda>k n. if k = Vault_resolver_object then Inl (ValueError ''broken'') else Inr (), Aggregator_object),
       (\<lambda>_ _. Inr (), Aggregator_object), (\<lambda>_ _. Inr (), Registry_object)]"
  have "length (ap_built (snd (get_all ?calls app_start))) = 4" by code_simp
  with objects_are_singletons[of ?calls "fst (get_all ?calls app_start)" "snd (get_all ?calls app_start)"] show ?thesis by simp
qed

text \<open>Without a lock they need not be: the aggregator is not built when the application starts, and two first requests, whose
  getters FastAPI runs in threads of its pool, may each get an aggregator of their own, with capacities of its own.\<close>

lemma two_first_requests_two_aggregators:
  "(let (r1, st) = get_aggregator_service
          (\<lambda>_ _. Inr (), \<lambda>k. if k = Aggregator_object then (\<lambda>st. snd (get_aggregator_service (alone (\<lambda>_ _. Inr ())) st)) else id) app_start;
        (r2, st2) = get_aggregator_service (alone (\<lambda>_ _. Inr ())) st
    in r1 = Inr 3 \<and> r2 = Inr 4 \<and> map fst (ap_built st) = [Settings_object, Registry_object, Vault_resolver_object,
        Aggregator_object, Aggregator_object])"
  by code_simp

end
