(* ===== verification/Lifecycle.thy ===== *)
theory Lifecycle
  imports Application
begin

text \<open>
  What the application starts and has to close again (\<open>app/main.py\<close>, \<open>providers/registry.py\<close>,
  \<open>vault/resolver.py\<close>, \<open>token_metadata/resolver.py\<close>, \<open>token_metadata/logo_acquirer.py\<close>, \<open>web3/client.py\<close>): the task
  that watches the credits, the maintenance of the logos, the connections to the nodes and the HTTP clients. Which of
  the calls that close something raise is the record \<open>close_env\<close>. \<open>Serving.lifespan\<close> is the order of the calls; here
  they act on the resources.
\<close>

section \<open>Resources\<close>

text \<open>\<open>rr_monitors\<close> counts the tasks that run, \<open>rr_closed\<close> names the underlying clients that have been closed.\<close>

record registry_runtime =
  rr_registry :: registry
  rr_clients :: "(string, http_client) odict"
  rr_credit_task :: bool
  rr_monitors :: nat
  rr_closed :: "(string \<times> nat) list"

record metadata_runtime =
  mt_chain_ids :: "int list"
  mt_logo :: logo_service
  mt_owns_client :: bool
  mt_acquirer_open :: bool
  mt_rpc_open :: "int list"

record app_runtime =
  ar_registry :: registry_runtime
  ar_metadata :: metadata_runtime
  ar_vault_rpc_open :: "int list"

text \<open>How the maintenance task ended while the service waited for it: not in time, with an exception, or well.\<close>

datatype task_ending = Ended_in_time | Ended_late | Ended_raising exc

record close_env =
  ce_task :: task_ending
  ce_acquirer :: "exc option"
  ce_metadata_rpc :: "int \<Rightarrow> exc option"
  ce_vault_rpc :: "int \<Rightarrow> exc option"
  ce_http :: "string \<Rightarrow> exc option"

section \<open>The connections to the nodes\<close>

text \<open>\<open>AsyncRpcClient.aclose\<close>: one client after the other, until one raises.\<close>

fun rpc_aclose :: "(int \<Rightarrow> exc option) \<Rightarrow> int list \<Rightarrow> unit res \<times> int list" where
  "rpc_aclose fails [] = (Inr (), [])"
| "rpc_aclose fails (c # cs) = (case fails c of Some e \<Rightarrow> (Inl e, c # cs) | None \<Rightarrow> rpc_aclose fails cs)"

definition vault_aclose :: "close_env \<Rightarrow> app_runtime \<Rightarrow> unit res \<times> app_runtime" where
  "vault_aclose ce ar = (let (r, open_rpc) = rpc_aclose (ce_vault_rpc ce) (ar_vault_rpc_open ar) in (r, ar\<lparr>ar_vault_rpc_open := open_rpc\<rparr>))"

section \<open>The metadata resolver\<close>

definition acquirer_aclose :: "close_env \<Rightarrow> metadata_runtime \<Rightarrow> unit res \<times> metadata_runtime" where
  "acquirer_aclose ce mt =
     (if mt_owns_client mt
      then (case ce_acquirer ce of Some e \<Rightarrow> (Inl e, mt) | None \<Rightarrow> (Inr (), mt\<lparr>mt_acquirer_open := False\<rparr>))
      else (Inr (), mt))"

definition metadata_start :: "metadata_runtime \<Rightarrow> metadata_runtime" where
  "metadata_start mt = mt\<lparr>mt_logo := start_service (mt_chain_ids mt) (mt_logo mt)\<rparr>"

text \<open>\<open>TokenLogoService.aclose\<close>: a task that is late is cancelled, its own exception is raised again.\<close>

definition logo_aclose :: "close_env \<Rightarrow> metadata_runtime \<Rightarrow> unit res \<times> metadata_runtime" where
  "logo_aclose ce mt =
     (let sv = mt_logo mt in
      if sv_running sv then
        (case ce_task ce of
           Ended_raising e \<Rightarrow> (Inl e, mt\<lparr>mt_logo := sv\<lparr>sv_stopped := True\<rparr>\<rparr>)
         | _ \<Rightarrow> acquirer_aclose ce (mt\<lparr>mt_logo := close_service sv\<rparr>))
      else acquirer_aclose ce (mt\<lparr>mt_logo := sv\<lparr>sv_stopped := True\<rparr>\<rparr>))"

definition metadata_aclose :: "close_env \<Rightarrow> metadata_runtime \<Rightarrow> unit res \<times> metadata_runtime" where
  "metadata_aclose ce mt =
     (case logo_aclose ce mt of
        (Inl e, mt1) \<Rightarrow> (Inl e, mt1)
      | (Inr _, mt1) \<Rightarrow> (let (r, open_rpc) = rpc_aclose (ce_metadata_rpc ce) (mt_rpc_open mt1) in (r, mt1\<lparr>mt_rpc_open := open_rpc\<rparr>)))"

section \<open>The registry\<close>

definition registry_start :: "registry_runtime \<Rightarrow> registry_runtime" where
  "registry_start rr =
     (case map_of (rg_plugins (rr_registry rr)) ''enso'' of
        None \<Rightarrow> rr
      | Some enso \<Rightarrow>
          if pl_available enso \<and> metrics_enabled (rg_settings (rr_registry rr)) \<and> \<not> rr_credit_task rr
          then rr\<lparr>rr_credit_task := True, rr_monitors := rr_monitors rr + 1\<rparr>
          else rr)"

text \<open>\<open>HttpClient.close\<close> closes the replaced clients first and cannot raise before the one in use.\<close>

fun close_clients ::
    "(string \<Rightarrow> exc option) \<Rightarrow> (string, http_client) odict \<Rightarrow> unit res \<times> (string, http_client) odict \<times> (string \<times> nat) list" where
  "close_clients fails [] = (Inr (), [], [])"
| "close_clients fails ((pid, h) # cs) =
     (let (h1, closed) = close_client h in
      case fails pid of
        Some e \<Rightarrow> (Inl e, (pid, h1) # cs, map (Pair pid) (butlast closed))
      | None \<Rightarrow> (let (r, cs1, closed1) = close_clients fails cs in (r, (pid, h1) # cs1, map (Pair pid) closed @ closed1)))"

definition registry_aclose :: "close_env \<Rightarrow> registry_runtime \<Rightarrow> unit res \<times> registry_runtime" where
  "registry_aclose ce rr =
     (let rr1 = (if rr_credit_task rr then rr\<lparr>rr_credit_task := False, rr_monitors := rr_monitors rr - 1\<rparr> else rr);
          (r, clients, closed) = close_clients (ce_http ce) (rr_clients rr1)
      in (r, rr1\<lparr>rr_clients := clients, rr_closed := rr_closed rr1 @ closed\<rparr>))"

section \<open>The lifespan\<close>

text \<open>The objects as they are built, before anything is started.\<close>

definition registry_runtime_of :: "settings \<Rightarrow> (string \<Rightarrow> rat) \<Rightarrow> registry_runtime" where
  "registry_runtime_of s now =
     \<lparr>rr_registry = ProviderRegistry s, rr_clients = http_clients s now, rr_credit_task = False, rr_monitors = 0, rr_closed = []\<rparr>"

text \<open>The calls of \<open>lifespan\<close> on the resources; \<open>body\<close> is what happens to them while requests are served.\<close>

fun lifespan_act :: "close_env \<Rightarrow> (app_runtime \<Rightarrow> unit res \<times> app_runtime) \<Rightarrow> lifespan_call \<Rightarrow> app_runtime \<Rightarrow> unit res \<times> app_runtime" where
  "lifespan_act ce body Start_metadata ar = (Inr (), ar\<lparr>ar_metadata := metadata_start (ar_metadata ar)\<rparr>)"
| "lifespan_act ce body Start_registry ar = (Inr (), ar\<lparr>ar_registry := registry_start (ar_registry ar)\<rparr>)"
| "lifespan_act ce body Serve_requests ar = body ar"
| "lifespan_act ce body Close_metadata ar = (let (r, mt) = metadata_aclose ce (ar_metadata ar) in (r, ar\<lparr>ar_metadata := mt\<rparr>))"
| "lifespan_act ce body Close_vaults ar = vault_aclose ce ar"
| "lifespan_act ce body Close_registry ar = (let (r, rr) = registry_aclose ce (ar_registry ar) in (r, ar\<lparr>ar_registry := rr\<rparr>))"

fun act_all :: "(lifespan_call \<Rightarrow> app_runtime \<Rightarrow> unit res \<times> app_runtime) \<Rightarrow> lifespan_call list \<Rightarrow> app_runtime \<Rightarrow> unit res \<times> app_runtime" where
  "act_all act [] ar = (Inr (), ar)"
| "act_all act (c # cs) ar = (case act c ar of (Inl e, ar1) \<Rightarrow> (Inl e, ar1) | (Inr _, ar1) \<Rightarrow> act_all act cs ar1)"

definition run_lifespan :: "close_env \<Rightarrow> (app_runtime \<Rightarrow> unit res \<times> app_runtime) \<Rightarrow> app_runtime \<Rightarrow> unit res \<times> app_runtime" where
  "run_lifespan ce body ar =
     (case act_all (lifespan_act ce body) [Start_metadata, Start_registry] ar of
        (Inl e, ar1) \<Rightarrow> (Inl e, ar1)
      | (Inr _, ar1) \<Rightarrow>
          (let (served, ar2) = lifespan_act ce body Serve_requests ar1;
               (closed, ar3) = act_all (lifespan_act ce body) [Close_metadata, Close_vaults, Close_registry] ar2
           in (case closed of Inl e \<Rightarrow> Inl e | Inr _ \<Rightarrow> served, ar3)))"

section \<open>Lemmas\<close>

definition no_close_fails :: "close_env \<Rightarrow> bool" where
  "no_close_fails ce \<longleftrightarrow> ce_task ce \<in> {Ended_in_time, Ended_late} \<and> ce_acquirer ce = None
     \<and> ce_metadata_rpc ce = (\<lambda>_. None) \<and> ce_vault_rpc ce = (\<lambda>_. None) \<and> ce_http ce = (\<lambda>_. None)"

definition one_monitor :: "registry_runtime \<Rightarrow> bool" where
  "one_monitor rr \<longleftrightarrow> rr_monitors rr = (if rr_credit_task rr then 1 else 0)"

text \<open>The underlying clients a registry holds: in use, or replaced and waiting to be closed.\<close>

definition held_clients :: "registry_runtime \<Rightarrow> (string \<times> nat) set" where
  "held_clients rr = (\<Union>(pid, h) \<in> set (rr_clients rr). Pair pid ` (insert (hc_client h) (fst ` set (hc_closing h))))"

lemma rpc_aclose_all: "rpc_aclose (\<lambda>_. None) cs = (Inr (), [])"
  by (induction cs) simp_all

lemma close_clients_all:
  "close_clients (\<lambda>_. None) cs = (Inr (), map (\<lambda>(pid, h). (pid, h\<lparr>hc_closing := []\<rparr>)) cs,
     concat (map (\<lambda>(pid, h). map (Pair pid) (map fst (hc_closing h) @ [hc_client h])) cs))"
  by (induction cs) (auto simp: close_client_def)

lemma one_monitor_start: "one_monitor rr \<Longrightarrow> one_monitor (registry_start rr)"
  by (simp add: registry_start_def one_monitor_def split: option.splits)

lemma registry_start_clients [simp]: "rr_clients (registry_start rr) = rr_clients rr" "rr_closed (registry_start rr) = rr_closed rr"
  by (simp_all add: registry_start_def split: option.splits)

text \<open>Starting twice starts one task.\<close>

lemma registry_start_idempotent: "registry_start (registry_start rr) = registry_start rr"
  by (simp add: registry_start_def split: option.splits)

lemma registry_aclose_all:
  assumes "one_monitor rr" "ce_http ce = (\<lambda>_. None)" "registry_aclose ce rr = (r, rr')"
  shows "r = Inr () \<and> \<not> rr_credit_task rr' \<and> rr_monitors rr' = 0 \<and> (\<forall>(pid, h) \<in> set (rr_clients rr'). hc_closing h = [])
    \<and> set (rr_closed rr') = set (rr_closed rr) \<union> held_clients rr"
proof -
  let ?clients = "map (\<lambda>(pid, h). (pid, h\<lparr>hc_closing := []\<rparr>)) (rr_clients rr)"
  let ?closed = "concat (map (\<lambda>(pid, h). map (Pair pid) (map fst (hc_closing h) @ [hc_client h])) (rr_clients rr))"
  have closed: "set ?closed = held_clients rr" by (auto simp: held_clients_def)
  have clients: "\<forall>(pid, h) \<in> set ?clients. hc_closing h = []" by auto
  let ?rr = "rr\<lparr>rr_credit_task := False, rr_monitors := 0, rr_clients := ?clients, rr_closed := rr_closed rr @ ?closed\<rparr>"
  have "registry_aclose ce rr = (Inr (), ?rr)"
    using assms(1) by (simp add: registry_aclose_def assms(2) close_clients_all Let_def one_monitor_def del: map_append concat.simps split: if_splits)
  then have "r = Inr ()" "rr' = ?rr" using assms(3) by simp_all
  then show ?thesis using closed clients by simp
qed

lemma metadata_aclose_all:
  assumes "no_close_fails ce" "metadata_aclose ce mt = (r, mt')"
  shows "r = Inr () \<and> \<not> sv_running (mt_logo mt') \<and> sv_stopped (mt_logo mt') \<and> mt_rpc_open mt' = []
    \<and> mt_owns_client mt' = mt_owns_client mt \<and> (mt_owns_client mt' \<longrightarrow> \<not> mt_acquirer_open mt')"
proof -
  have "fst (logo_aclose ce mt) = Inr () \<and> \<not> sv_running (mt_logo (snd (logo_aclose ce mt)))
    \<and> sv_stopped (mt_logo (snd (logo_aclose ce mt))) \<and> mt_owns_client (snd (logo_aclose ce mt)) = mt_owns_client mt
    \<and> (mt_owns_client mt \<longrightarrow> \<not> mt_acquirer_open (snd (logo_aclose ce mt)))"
    using assms(1)
    by (cases "sv_running (mt_logo mt)"; cases "ce_task ce")
       (simp_all add: no_close_fails_def logo_aclose_def acquirer_aclose_def close_service_def Let_def)
  moreover obtain q mt1 where "logo_aclose ce mt = (q, mt1)" by fastforce
  ultimately show ?thesis using assms by (auto simp: metadata_aclose_def no_close_fails_def rpc_aclose_all)
qed

section \<open>Properties\<close>


section \<open>Witness\<close>

definition example_runtime :: app_runtime where
  "example_runtime = \<lparr>ar_registry = registry_runtime_of (default_settings\<lparr>enso_api_key := Some ''k''\<rparr>) (\<lambda>_. 0),
     ar_metadata = \<lparr>mt_chain_ids = [1], mt_logo = \<lparr>sv_settings = DEFAULT_LOGO_MAINTENANCE_SETTINGS, sv_db = empty_db, sv_asked = [],
       sv_chain_ids = [], sv_running = False, sv_stopped = False, sv_active = 0\<rparr>, mt_owns_client = True, mt_acquirer_open = True,
       mt_rpc_open = [1]\<rparr>, ar_vault_rpc_open = [1]\<rparr>"

definition example_close :: close_env where
  "example_close = \<lparr>ce_task = Ended_late, ce_acquirer = None, ce_metadata_rpc = (\<lambda>_. None), ce_vault_rpc = (\<lambda>_. None), ce_http = (\<lambda>_. None)\<rparr>"

text \<open>The serving replaces the client of one provider and ends with an exception.\<close>

definition example_body :: "app_runtime \<Rightarrow> unit res \<times> app_runtime" where
  "example_body ar = (Inl (ValueError ''boom''), ar\<lparr>ar_registry := (ar_registry ar)\<lparr>rr_clients :=
     map (\<lambda>(pid, h). (pid, if pid = ''curve'' then recycle ''ttl'' 9 h else h)) (rr_clients (ar_registry ar))\<rparr>\<rparr>)"


end
