(* ===== verification/Resolver.thy ===== *)
theory Resolver
  imports Adapters Config
begin

text \<open>
  Resolving vault tokens to their underlying tokens (\<open>vault/resolver.py\<close>): the positive and the
  negative cache with expiry, pruning and least-recently-used trimming, the detection through
  both adapters, and the conversion of price and quote requests. A detection suspends while it
  waits for the semaphore and for the node; what other requests do to the caches then, and the
  clock readings, are in \<open>detect_env\<close>. The metrics of the outcome are left out.
\<close>

section \<open>Vaults\<close>

record vault_info =
  vi_vault_type :: vault_type
  vi_underlying_token :: string
  vi_assets_per_share_unit :: int
  vi_share_unit :: int
  vi_underlying_unit :: int
  vi_convert_fn :: "int \<Rightarrow> int"

definition from_erc4626 :: "erc4626_info \<Rightarrow> vault_info" where
  "from_erc4626 v = \<lparr>vi_vault_type = ERC4626, vi_underlying_token = e4_underlying_token v,
     vi_assets_per_share_unit = e4_assets_per_share_unit v, vi_share_unit = 10 ^ nat (e4_share_decimals v),
     vi_underlying_unit = 10 ^ nat (e4_underlying_decimals v), vi_convert_fn = e4_convert_shares_to_assets v\<rparr>"

definition from_yearn_v2 :: "yearn_info \<Rightarrow> vault_info" where
  "from_yearn_v2 v = \<lparr>vi_vault_type = YEARN_V2, vi_underlying_token = y2_underlying_token v,
     vi_assets_per_share_unit = y2_price_per_share v, vi_share_unit = 10 ^ nat (y2_share_decimals v),
     vi_underlying_unit = 10 ^ nat (y2_underlying_decimals v), vi_convert_fn = y2_convert_shares_to_assets v\<rparr>"

definition convert_shares_to_assets :: "vault_info \<Rightarrow> int \<Rightarrow> int" where
  "convert_shares_to_assets v shares = vi_convert_fn v shares"

definition convert_assets_to_shares :: "vault_info \<Rightarrow> int \<Rightarrow> int res" where
  "convert_assets_to_shares v assets =
     (if vi_assets_per_share_unit v = 0
      then Inl (InvalidRequestError ''INVALID_VAULT_RATE'' ''Invalid vault share_to_asset_rate'')
      else Inr ((assets * vi_share_unit v) div vi_assets_per_share_unit v))"

definition price_per_share :: "vault_info \<Rightarrow> rat res" where
  "price_per_share v =
     (if vi_underlying_unit v = 0
      then Inl (InvalidRequestError ''INVALID_VAULT_RATE'' ''Invalid vault price_per_share'')
      else Inr (dec_div (of_int (vi_assets_per_share_unit v)) (of_int (vi_underlying_unit v))))"

section \<open>The caches\<close>

type_synonym vault_key = "int \<times> string"

record vault_cache =
  vca_positive :: "(vault_key, vault_info \<times> rat) odict"
  vca_negative :: "(vault_key, rat) odict"
  vca_next_prune_at :: rat

definition init_vault_cache :: vault_cache where
  "init_vault_cache = \<lparr>vca_positive = [], vca_negative = [], vca_next_prune_at = 0\<rparr>"

definition CACHE_PRUNE_INTERVAL_S :: rat where "CACHE_PRUNE_INTERVAL_S = 1"

definition move_to_end :: "'k \<Rightarrow> ('k, 'v) odict \<Rightarrow> ('k, 'v) odict" where
  "move_to_end k d = (case map_of d k of None \<Rightarrow> d | Some v \<Rightarrow> AList.delete k d @ [(k, v)])"

text \<open>\<open>while len(cache) > max: cache.popitem(last=False)\<close>.\<close>

fun trim_cache :: "int \<Rightarrow> ('k, 'v) odict \<Rightarrow> ('k, 'v) odict" where
  "trim_cache max_entries [] = []"
| "trim_cache max_entries (e # d) =
     (if int (length (e # d)) > max_entries then trim_cache max_entries d else e # d)"

definition prune_expired :: "rat \<Rightarrow> vault_cache \<Rightarrow> vault_cache" where
  "prune_expired now c =
     c\<lparr>vca_positive := filter (\<lambda>e. \<not> now \<ge> snd (snd e)) (vca_positive c),
       vca_negative := filter (\<lambda>e. \<not> now \<ge> snd e) (vca_negative c)\<rparr>"

definition prune_expired_if_due :: "rat \<Rightarrow> vault_cache \<Rightarrow> vault_cache" where
  "prune_expired_if_due now c =
     (if now < vca_next_prune_at c then c
      else prune_expired now (c\<lparr>vca_next_prune_at := now + CACHE_PRUNE_INTERVAL_S\<rparr>))"

definition cached_negative :: "vault_key \<Rightarrow> rat \<Rightarrow> vault_cache \<Rightarrow> (bool \<times> vault_info option) \<times> vault_cache" where
  "cached_negative key now c =
     (case map_of (vca_negative c) key of
        None \<Rightarrow> ((False, None), c)
      | Some expires_at \<Rightarrow>
          if now < expires_at then ((True, None), c\<lparr>vca_negative := move_to_end key (vca_negative c)\<rparr>)
          else ((False, None), c\<lparr>vca_negative := AList.delete key (vca_negative c)\<rparr>))"

definition cached_vault :: "vault_key \<Rightarrow> rat \<Rightarrow> vault_cache \<Rightarrow> (bool \<times> vault_info option) \<times> vault_cache" where
  "cached_vault key now c0 =
     (let c = prune_expired_if_due now c0 in
      case map_of (vca_positive c) key of
        None \<Rightarrow> cached_negative key now c
      | Some (vault, expires_at) \<Rightarrow>
          if now < expires_at
          then ((True, Some vault), c\<lparr>vca_positive := move_to_end key (vca_positive c)\<rparr>)
          else cached_negative key now (c\<lparr>vca_positive := AList.delete key (vca_positive c)\<rparr>))"

definition store_positive :: "settings \<Rightarrow> vault_key \<Rightarrow> vault_info \<times> rat \<Rightarrow> vault_cache \<Rightarrow> vault_cache" where
  "store_positive s key entry c =
     c\<lparr>vca_positive := trim_cache (vault_cache_max_entries s)
         (move_to_end key (AList.update key entry (vca_positive c)))\<rparr>"

definition store_negative :: "settings \<Rightarrow> vault_key \<Rightarrow> rat \<Rightarrow> vault_cache \<Rightarrow> vault_cache" where
  "store_negative s key expires_at c =
     c\<lparr>vca_negative := trim_cache (vault_cache_max_entries s)
         (move_to_end key (AList.update key expires_at (vca_negative c)))\<rparr>"

section \<open>Detection\<close>

record resolver =
  rv_cache :: vault_cache
  rv_rpc :: rpc_client

definition VaultResolver :: "settings \<Rightarrow> resolver" where
  "VaultResolver s = \<lparr>rv_cache = init_vault_cache, rv_rpc = AsyncRpcClient (rpc_urls_by_chain s)\<rparr>"

record detect_env =
  de_now :: rat
  de_waiting :: "vault_cache \<Rightarrow> vault_cache"
  de_now_locked :: rat
  de_during_erc4626 :: "vault_cache \<Rightarrow> vault_cache"
  de_during_yearn :: "vault_cache \<Rightarrow> vault_cache"
  de_now_done :: rat

text \<open>The libraries and the node, as every resolution sees them.\<close>

record chain_env =
  ce_eth :: eth_lib
  ce_abi :: abi_lib
  ce_answers :: rpc_answer

definition found_vault :: "settings \<Rightarrow> detect_env \<Rightarrow> vault_key \<Rightarrow> vault_info \<Rightarrow> resolver
    \<Rightarrow> vault_info option res \<times> resolver" where
  "found_vault s env key vault r =
     (let c = store_positive s key (vault, de_now_done env + of_int (vault_positive_cache_ttl_s s)) (rv_cache r)
      in (Inr (Some vault), r\<lparr>rv_cache := c\<lparr>vca_negative := AList.delete key (vca_negative c)\<rparr>\<rparr>))"

definition detect_uncached :: "settings \<Rightarrow> chain_env \<Rightarrow> detect_env \<Rightarrow> string \<Rightarrow> int \<Rightarrow> resolver
    \<Rightarrow> vault_info option res \<times> resolver" where
  "detect_uncached s ce env address chain_id r =
     (let key = (chain_id, py_lower address) in
      case e4_detect (ce_eth ce) (ce_abi ce) (ce_answers ce) address chain_id (rv_rpc r) of
        (Inl e, rpc) \<Rightarrow> (Inl e, r\<lparr>rv_rpc := rpc, rv_cache := de_during_erc4626 env (rv_cache r)\<rparr>)
      | (Inr (Some v), rpc) \<Rightarrow>
          found_vault s env key (from_erc4626 v) (r\<lparr>rv_rpc := rpc, rv_cache := de_during_erc4626 env (rv_cache r)\<rparr>)
      | (Inr None, rpc) \<Rightarrow>
          let r1 = r\<lparr>rv_rpc := rpc, rv_cache := de_during_erc4626 env (rv_cache r)\<rparr> in
          case y2_detect (ce_eth ce) (ce_abi ce) (ce_answers ce) address chain_id (rv_rpc r1) of
            (Inl e, rpc) \<Rightarrow> (Inl e, r1\<lparr>rv_rpc := rpc, rv_cache := de_during_yearn env (rv_cache r1)\<rparr>)
          | (Inr (Some v), rpc) \<Rightarrow>
              found_vault s env key (from_yearn_v2 v) (r1\<lparr>rv_rpc := rpc, rv_cache := de_during_yearn env (rv_cache r1)\<rparr>)
          | (Inr None, rpc) \<Rightarrow>
              let c = de_during_yearn env (rv_cache r1)
              in (Inr None, r1\<lparr>rv_rpc := rpc, rv_cache :=
                    store_negative s key (de_now_done env + of_int (vault_negative_cache_ttl_s s)) c\<rparr>))"

definition detect_vault :: "settings \<Rightarrow> chain_env \<Rightarrow> detect_env \<Rightarrow> string \<Rightarrow> int \<Rightarrow> resolver
    \<Rightarrow> vault_info option res \<times> resolver" where
  "detect_vault s ce env address chain_id r =
     (let key = (chain_id, py_lower address);
          ((hit, cached), c1) = cached_vault key (de_now env) (rv_cache r)
      in if hit then (Inr cached, r\<lparr>rv_cache := c1\<rparr>)
         else let ((hit, cached), c2) = cached_vault key (de_now_locked env) (de_waiting env c1)
              in if hit then (Inr cached, r\<lparr>rv_cache := c2\<rparr>)
                 else detect_uncached s ce env address chain_id (r\<lparr>rv_cache := c2\<rparr>))"

section \<open>Converting requests\<close>

definition underlying_token_ref :: "eth_lib \<Rightarrow> token_ref \<Rightarrow> string \<Rightarrow> token_ref res" where
  "underlying_token_ref eth base underlying =
     mk_token_ref eth (tr_chain_id base) underlying (tr_symbol base) (tr_decimals base) None"

definition vault_context_of :: "eth_lib \<Rightarrow> vault_info \<Rightarrow> rpc_value \<Rightarrow> vault_context res" where
  "vault_context_of eth v block =
     rbind (price_per_share v) (\<lambda>pps.
       case block of
         RInt n \<Rightarrow> mk_vault_context eth
           \<lparr>vc_vault_type = Some (vi_vault_type v), vc_underlying_token = Some (vi_underlying_token v),
            vc_underlying_token_in = None, vc_underlying_token_out = None, vc_price_per_share = Some pps,
            vc_price_per_share_token_in = None, vc_price_per_share_token_out = None, vc_block_number = n\<rparr>
       | _ \<Rightarrow> Inl (ValueError ''block_number''))"

definition rpc_not_configured :: exc where
  "rpc_not_configured =
     InvalidRequestError ''RPC_NOT_CONFIGURED'' ''Vault resolution requires the requested chain RPC''"

definition resolver_block :: "chain_env \<Rightarrow> int \<Rightarrow> resolver \<Rightarrow> rpc_value res \<times> resolver" where
  "resolver_block ce chain_id r =
     (let (b, rpc) = block_number (ce_answers ce) chain_id (rv_rpc r) in (b, r\<lparr>rv_rpc := rpc\<rparr>))"

definition resolve_price_request :: "settings \<Rightarrow> chain_env \<Rightarrow> detect_env \<Rightarrow> price_request \<Rightarrow> resolver
    \<Rightarrow> (price_request \<times> vault_context) res \<times> resolver" where
  "resolve_price_request s ce env req r =
     (if \<not> configured (rv_rpc r) (pr_chain_id req) then (Inl rpc_not_configured, r)
      else case detect_vault s ce env (tr_address (pr_token req)) (pr_chain_id req) r of
        (Inl e, r1) \<Rightarrow> (Inl e, r1)
      | (Inr None, r1) \<Rightarrow> (Inl (InvalidRequestError ''INVALID_VAULT'' ''Token is not a supported vault''), r1)
      | (Inr (Some vault), r1) \<Rightarrow>
          case underlying_token_ref (ce_eth ce) (pr_token req) (vi_underlying_token vault) of
            Inl e \<Rightarrow> (Inl e, r1)
          | Inr underlying \<Rightarrow>
              case resolver_block ce (pr_chain_id req) r1 of
                (Inl e, r2) \<Rightarrow> (Inl e, r2)
              | (Inr block, r2) \<Rightarrow>
                  (rbind (vault_context_of (ce_eth ce) vault block) (\<lambda>context.
                     Inr (\<lparr>pr_chain_id = pr_chain_id req, pr_token = underlying, pr_timeout_ms = None\<rparr>, context)), r2))"

record quote_vault_resolution =
  qv_input_vault_context :: "vault_context option"
  qv_output_vault_context :: "vault_context option"
  qv_output_assets_to_shares :: "(int \<Rightarrow> int res) option"

definition resolve_side :: "settings \<Rightarrow> chain_env \<Rightarrow> detect_env \<Rightarrow> token_ref \<Rightarrow> int \<Rightarrow> resolver
    \<Rightarrow> (token_ref \<times> vault_info option) res \<times> resolver" where
  "resolve_side s ce env token chain_id r =
     (case detect_vault s ce env (tr_address token) chain_id r of
        (Inl e, r1) \<Rightarrow> (Inl e, r1)
      | (Inr None, r1) \<Rightarrow> (Inr (token, None), r1)
      | (Inr (Some v), r1) \<Rightarrow>
          (rbind (underlying_token_ref (ce_eth ce) token (vi_underlying_token v)) (\<lambda>t. Inr (t, Some v)), r1))"

definition optional_context :: "eth_lib \<Rightarrow> vault_info option \<Rightarrow> rpc_value \<Rightarrow> vault_context option res" where
  "optional_context eth v block =
     (case v of None \<Rightarrow> Inr None | Some x \<Rightarrow> rbind (vault_context_of eth x block) (\<lambda>c. Inr (Some c)))"

definition resolve_quote_request :: "settings \<Rightarrow> chain_env \<Rightarrow> detect_env \<Rightarrow> detect_env \<Rightarrow> quote_request \<Rightarrow> resolver
    \<Rightarrow> (quote_request \<times> quote_vault_resolution option) res \<times> resolver" where
  "resolve_quote_request s ce env_in env_out req r =
     (if \<not> configured (rv_rpc r) (qr_chain_id req) then (Inl rpc_not_configured, r)
      else case resolve_side s ce env_in (qr_token_in req) (qr_chain_id req) r of
        (Inl e, r1) \<Rightarrow> (Inl e, r1)
      | (Inr (token_in, vault_in), r1) \<Rightarrow>
          let amount_in = (case vault_in of None \<Rightarrow> qr_amount_in req
                           | Some v \<Rightarrow> convert_shares_to_assets v (qr_amount_in req)) in
          case resolve_side s ce env_out (qr_token_out req) (qr_chain_id req) r1 of
            (Inl e, r2) \<Rightarrow> (Inl e, r2)
          | (Inr (token_out, vault_out), r2) \<Rightarrow>
              if vault_in = None \<and> vault_out = None then
                (Inl (InvalidRequestError ''INVALID_VAULT''
                   ''use_underlying=true provided but neither token_in nor token_out is a supported vault''), r2)
              else case resolver_block ce (qr_chain_id req) r2 of
                (Inl e, r3) \<Rightarrow> (Inl e, r3)
              | (Inr block, r3) \<Rightarrow>
                  (rbind (optional_context (ce_eth ce) vault_in block) (\<lambda>ctx_in.
                   rbind (optional_context (ce_eth ce) vault_out block) (\<lambda>ctx_out.
                   Inr (\<lparr>qr_chain_id = qr_chain_id req, qr_token_in = token_in, qr_token_out = token_out,
                          qr_amount_in = amount_in, qr_timeout_ms = None\<rparr>,
                        Some \<lparr>qv_input_vault_context = ctx_in, qv_output_vault_context = ctx_out,
                          qv_output_assets_to_shares = map_option convert_assets_to_shares vault_out\<rparr>))), r3))"

section \<open>Lemmas on the caches\<close>

lemma move_to_end_map_of [od_simps]: "map_of (move_to_end k d) k' = map_of d k'"
  by (auto simp: move_to_end_def od_simps map_add_def split: option.splits)

lemma distinct_move_to_end: "distinct (map fst d) \<Longrightarrow> distinct (map fst (move_to_end k d))"
  using delete_notin_dom[of k d]
  by (auto simp: move_to_end_def distinct_delete image_iff split: option.splits)

lemma length_move_to_end: "distinct (map fst d) \<Longrightarrow> length (move_to_end k d) = length d"
proof (cases "map_of d k")
  case (Some v)
  assume "distinct (map fst d)"
  then have "length (AList.delete k d) + 1 = length d" using Some
  proof (induction d)
    case (Cons x d)
    show ?case
    proof (cases "fst x = k")
      case True
      then have "k \<notin> fst ` set d" using Cons.prems(1) by auto
      then have "AList.delete k d = d" by (rule delete_id)
      with True show ?thesis by (cases x) simp
    next
      case False
      with Cons show ?thesis by (cases x) auto
    qed
  qed simp
  with Some show ?thesis by (simp add: move_to_end_def)
qed (simp add: move_to_end_def)

lemma trim_cache_drop: "0 \<le> m \<Longrightarrow> trim_cache m d = drop (length d - nat m) d"
  by (induction m d rule: trim_cache.induct) (auto simp: Suc_diff_le)

lemma length_trim_cache: "0 \<le> m \<Longrightarrow> int (length (trim_cache m d)) \<le> m"
  by (simp add: trim_cache_drop)

lemma distinct_trim_cache: "0 \<le> m \<Longrightarrow> distinct (map fst d) \<Longrightarrow> distinct (map fst (trim_cache m d))"
  by (simp add: trim_cache_drop flip: drop_map)

lemma trim_cache_last:
  assumes "1 \<le> m" "d \<noteq> []" "distinct (map fst d)"
  shows "map_of (trim_cache m d) (fst (last d)) = Some (snd (last d))"
proof -
  have t: "trim_cache m d = drop (length d - nat m) d" using assms(1) by (simp add: trim_cache_drop)
  have "length d - nat m < length d" using assms by (cases d) auto
  then have "last d \<in> set (trim_cache m d)" unfolding t by (metis drop_eq_Nil last_drop last_in_set not_le)
  then show ?thesis using distinct_trim_cache[of m d] assms
    by (intro map_of_is_SomeI) auto
qed

lemma filter_map_of_distinct:
  "distinct (map fst d) \<Longrightarrow>
   map_of (filter P d) k = (case map_of d k of None \<Rightarrow> None | Some v \<Rightarrow> if P (k, v) then Some v else None)"
proof (induction d)
  case (Cons x d)
  have "map_of d (fst x) = None" using Cons.prems by (auto simp: map_of_eq_None_iff)
  with Cons show ?case by (cases x) auto
qed simp

definition cache_inv :: "settings \<Rightarrow> vault_cache \<Rightarrow> bool" where
  "cache_inv s c \<longleftrightarrow>
     distinct (map fst (vca_positive c)) \<and> distinct (map fst (vca_negative c))
   \<and> int (length (vca_positive c)) \<le> vault_cache_max_entries s
   \<and> int (length (vca_negative c)) \<le> vault_cache_max_entries s"

lemma length_filter_le_int: "int (length d) \<le> m \<Longrightarrow> int (length (filter P d)) \<le> m"
  using length_filter_le[of P d] by linarith

lemma length_delete_int: "int (length d) \<le> m \<Longrightarrow> int (length (AList.delete k d)) \<le> m"
  using length_delete_le[of k d] by linarith

lemma cache_inv_prune: "cache_inv s c \<Longrightarrow> cache_inv s (prune_expired_if_due now c)"
  by (auto simp: cache_inv_def prune_expired_if_due_def prune_expired_def distinct_map_filter
      intro: length_filter_le_int)

lemma cache_inv_negative: "cache_inv s c \<Longrightarrow> cache_inv s (snd (cached_negative key now c))"
  by (auto simp: cache_inv_def cached_negative_def distinct_move_to_end length_move_to_end distinct_delete
      intro: length_delete_int split: option.splits)

lemma cache_inv_cached:
  assumes "cache_inv s c"
  shows "cache_inv s (snd (cached_vault key now c))"
proof -
  let ?c = "prune_expired_if_due now c"
  have p: "cache_inv s ?c" using assms by (rule cache_inv_prune)
  then have "cache_inv s (?c\<lparr>vca_positive := AList.delete key (vca_positive ?c)\<rparr>)"
    "cache_inv s (?c\<lparr>vca_positive := move_to_end key (vca_positive ?c)\<rparr>)"
    by (auto simp: cache_inv_def distinct_delete distinct_move_to_end length_move_to_end intro: length_delete_int)
  with p show ?thesis
    by (auto simp: cached_vault_def Let_def cache_inv_negative split: option.splits)
qed

lemma cache_inv_store:
  assumes "cache_inv s c" "1 \<le> vault_cache_max_entries s"
  shows "cache_inv s (store_positive s key e c)" "cache_inv s (store_negative s key t c)"
  using assms by (auto simp: cache_inv_def store_positive_def store_negative_def
      intro!: distinct_trim_cache distinct_move_to_end length_trim_cache distinct_update)

lemma store_positive_lookup:
  assumes "cache_inv s c" "1 \<le> vault_cache_max_entries s"
  shows "map_of (vca_positive (store_positive s key e c)) key = Some e"
proof -
  let ?d = "AList.update key e (vca_positive c)" let ?m = "move_to_end key ?d"
  have d: "distinct (map fst ?d)" using assms(1) by (simp add: cache_inv_def distinct_update)
  have m: "?m = AList.delete key ?d @ [(key, e)]" by (simp add: move_to_end_def od_simps)
  show ?thesis
    using trim_cache_last[OF assms(2), of ?m] distinct_move_to_end[OF d, of key] m
    by (simp add: store_positive_def)
qed

section \<open>Lemmas on conversions\<close>

definition vault_ok :: "vault_info \<Rightarrow> bool" where
  "vault_ok v \<longleftrightarrow> 0 < vi_assets_per_share_unit v \<and> 0 < vi_share_unit v \<and> 0 < vi_underlying_unit v
     \<and> (\<forall>shares. vi_convert_fn v shares = (shares * vi_assets_per_share_unit v) div vi_share_unit v)"

lemma vault_ok_erc4626: "0 < e4_assets_per_share_unit v \<Longrightarrow> vault_ok (from_erc4626 v)"
  by (simp add: vault_ok_def from_erc4626_def e4_convert_shares_to_assets_def)

lemma vault_ok_yearn: "0 < y2_price_per_share v \<Longrightarrow> vault_ok (from_yearn_v2 v)"
  by (simp add: vault_ok_def from_yearn_v2_def y2_convert_shares_to_assets_def)

lemma div_mult_le': "0 < (b::int) \<Longrightarrow> a div b * b \<le> a \<and> a < a div b * b + b"
  using div_mult_mod_eq[of a b] pos_mod_bound[of b a] pos_mod_sign[of b a] by linarith

lemma round_trip_shares:
  assumes "0 < (r::int)" "0 < u"
  shows "((x * r) div u * u) div r \<le> x"
proof -
  have "(x * r) div u * u \<le> x * r" using div_mult_le'[OF assms(2), of "x * r"] by simp
  then have "((x * r) div u * u) div r \<le> (x * r) div r" using assms(1) by (intro zdiv_mono1)
  then show ?thesis using assms(1) by simp
qed

lemma round_trip_shares_lower:
  assumes "0 < (r::int)" "0 < u"
  shows "x \<le> ((x * r) div u * u) div r + u div r + 1"
proof -
  let ?a = "(x * r) div u" let ?s = "(?a * u) div r"
  have "x * r < ?a * u + u" using div_mult_le'[OF assms(2), of "x * r"] by simp
  also have "\<dots> < (?s * r + r) + (u div r * r + r)"
    using div_mult_le'[OF assms(1), of "?a * u"] div_mult_le'[OF assms(1), of u] by simp
  finally have "x * r < (?s + u div r + 2) * r" by (simp add: algebra_simps)
  then have "x < ?s + u div r + 2" using assms(1) mult_less_cancel_right_pos by blast
  then show ?thesis by simp
qed

section \<open>What detection and resolution give\<close>

definition cache_vaults_ok :: "vault_cache \<Rightarrow> bool" where
  "cache_vaults_ok c \<longleftrightarrow> (\<forall>e \<in> set (vca_positive c). vault_ok (fst (snd e)))"

lemma cache_vaults_ok_prune: "cache_vaults_ok c \<Longrightarrow> cache_vaults_ok (prune_expired_if_due now c)"
  by (auto simp: cache_vaults_ok_def prune_expired_if_due_def prune_expired_def)

lemma set_delete_subset: "set (AList.delete k d) \<subseteq> set d"
  by (induction d) auto

lemma set_move_to_end: "set (move_to_end k d) \<subseteq> set d"
  using set_delete_subset[of k d] by (auto simp: move_to_end_def dest: map_of_SomeD split: option.splits)

lemma set_trim_cache: "set (trim_cache m d) \<subseteq> set d"
  by (induction m d rule: trim_cache.induct) auto

lemma set_update_subset: "set (AList.update k v d) \<subseteq> insert (k, v) (set d)"
  by (induction d) auto

lemma cached_negative_positive [simp]: "vca_positive (snd (cached_negative key now c)) = vca_positive c"
  by (auto simp: cached_negative_def split: option.splits)

lemma cached_negative_none [simp]: "snd (fst (cached_negative key now c)) = None"
  by (auto simp: cached_negative_def split: option.splits)

lemma cached_vault_ok:
  assumes "cache_vaults_ok c"
  shows "cache_vaults_ok (snd (cached_vault key now c))"
    "fst (cached_vault key now c) = (hit, Some v) \<Longrightarrow> vault_ok v"
proof -
  have p: "cache_vaults_ok (prune_expired_if_due now c)" using assms by (rule cache_vaults_ok_prune)
  then show "cache_vaults_ok (snd (cached_vault key now c))"
    using set_move_to_end[of key "vca_positive (prune_expired_if_due now c)"]
      set_delete_subset[of key "vca_positive (prune_expired_if_due now c)"]
    by (fastforce simp: cached_vault_def cache_vaults_ok_def Let_def split: option.splits)
  have n: "fst (cached_negative key now c') \<noteq> (hit, Some v)" for c'
    using cached_negative_none[of key now c'] by (metis option.distinct(1) snd_conv)
  show "vault_ok v" if h: "fst (cached_vault key now c) = (hit, Some v)"
    using h p n by (fastforce simp: cached_vault_def cache_vaults_ok_def Let_def dest: map_of_SomeD split: option.splits if_splits)
qed

lemma store_positive_ok: "cache_vaults_ok c \<Longrightarrow> vault_ok (fst e) \<Longrightarrow> cache_vaults_ok (store_positive s key e c)"
  using set_trim_cache[of "vault_cache_max_entries s" "move_to_end key (AList.update key e (vca_positive c))"]
    set_move_to_end[of key "AList.update key e (vca_positive c)"] set_update_subset[of key e "vca_positive c"]
  by (fastforce simp: cache_vaults_ok_def store_positive_def)

text \<open>Other requests only ever leave well-formed caches behind.\<close>

definition env_ok :: "detect_env \<Rightarrow> bool" where
  "env_ok env \<longleftrightarrow> (\<forall>c. cache_vaults_ok c \<longrightarrow> cache_vaults_ok (de_waiting env c)
     \<and> cache_vaults_ok (de_during_erc4626 env c) \<and> cache_vaults_ok (de_during_yearn env c))"

lemma found_vault_ok:
  assumes "cache_vaults_ok (rv_cache r)" "vault_ok v" "found_vault s env key v r = (res, r')"
  shows "cache_vaults_ok (rv_cache r') \<and> res = Inr (Some v)"
  using assms store_positive_ok[of "rv_cache r" "(v, de_now_done env + of_int (vault_positive_cache_ttl_s s))" s key]
  by (auto simp: found_vault_def cache_vaults_ok_def Let_def)

lemma detect_uncached_ok:
  assumes eth: "eth_ok (ce_eth ce)" and env: "env_ok env" and c: "cache_vaults_ok (rv_cache r)"
    and d: "detect_uncached s ce env address chain_id r = (res, r')"
  shows "cache_vaults_ok (rv_cache r') \<and> (\<forall>v. res = Inr (Some v) \<longrightarrow> vault_ok v)"
proof -
  obtain x rpc where e4: "e4_detect (ce_eth ce) (ce_abi ce) (ce_answers ce) address chain_id (rv_rpc r) = (x, rpc)"
    by fastforce
  have c1: "cache_vaults_ok (de_during_erc4626 env (rv_cache r))"
    "cache_vaults_ok (de_during_yearn env (de_during_erc4626 env (rv_cache r)))"
    using env c by (auto simp: env_ok_def)
  obtain y rpc2 where y2: "y2_detect (ce_eth ce) (ce_abi ce) (ce_answers ce) address chain_id rpc = (y, rpc2)"
    by fastforce
  have p4: "vault_ok (from_erc4626 v)" if "x = Inr (Some v)" for v
    using rpc_postD[OF post_detect[OF e4_multicall_sound[OF eth] e4_calls_sound[OF eth]] e4[unfolded that e4_detect_def]]
    by (auto simp: sound_vault_def intro: vault_ok_erc4626)
  have p2: "vault_ok (from_yearn_v2 v)" if "y = Inr (Some v)" for v
    using rpc_postD[OF post_detect[OF y2_multicall_sound[OF eth] y2_calls_sound[OF eth]] y2[unfolded that y2_detect_def]]
    by (auto simp: sound_vault_def intro: vault_ok_yearn)
  have neg: "cache_vaults_ok (store_negative s key t c) = cache_vaults_ok c" for key t c
    by (simp add: cache_vaults_ok_def store_negative_def)
  show ?thesis using d e4 y2 c1 p4 p2
    by (auto simp: detect_uncached_def Let_def neg split: sum.splits option.splits dest!: found_vault_ok[rotated 2])
qed

lemma detect_vault_ok:
  assumes "eth_ok (ce_eth ce)" "env_ok env" "cache_vaults_ok (rv_cache r)"
    "detect_vault s ce env address chain_id r = (res, r')"
  shows "cache_vaults_ok (rv_cache r') \<and> (\<forall>v. res = Inr (Some v) \<longrightarrow> vault_ok v)"
proof -
  let ?key = "(chain_id, py_lower address)"
  obtain h1 v1 c1 where a: "cached_vault ?key (de_now env) (rv_cache r) = ((h1, v1), c1)" by (metis prod.collapse)
  obtain h2 v2 c2 where b: "cached_vault ?key (de_now_locked env) (de_waiting env c1) = ((h2, v2), c2)"
    by (metis prod.collapse)
  note k1 = cached_vault_ok[OF assms(3), of ?key "de_now env"]
  have w: "cache_vaults_ok (de_waiting env c1)" using k1(1) a assms(2) by (simp add: env_ok_def)
  note k2 = cached_vault_ok[OF w, of ?key "de_now_locked env"]
  show ?thesis
  proof (cases "h1 \<or> h2")
    case True
    then show ?thesis using assms(4) a b k1 k2 by (auto simp: detect_vault_def Let_def split: if_splits)
  next
    case False
    then have "detect_uncached s ce env address chain_id (r\<lparr>rv_cache := c2\<rparr>) = (res, r')"
      using assms(4) a b by (simp add: detect_vault_def Let_def)
    from detect_uncached_ok[OF assms(1,2) _ this] k2(1) b show ?thesis by simp
  qed
qed

lemma vault_ok_price: "vault_ok v \<Longrightarrow> price_per_share v = Inr p \<Longrightarrow> 0 < p"
  by (auto simp: vault_ok_def price_per_share_def intro!: dec_div_pos)

lemma vault_context_of_pos:
  assumes "vault_context_of eth v block = Inr ctx" "vault_ok v"
  shows "\<exists>p. vc_price_per_share ctx = Some p \<and> 0 < p \<and> price_per_share v = Inr p"
  using assms by (cases block) (auto simp: vault_context_of_def mk_vault_context_def valid_rate_def
      dest: vault_ok_price split: if_splits)

section \<open>Properties\<close>

text \<open>A cache lookup answers exactly by expiry: an unexpired positive entry gives its vault,
  otherwise an unexpired negative entry gives "no vault", otherwise nothing is cached; the periodic
  pruning never changes the answer.\<close>

theorem cache_lookup_by_expiry:
  assumes "cache_inv s c"
  shows "fst (cached_vault key now c) =
    (case map_of (vca_positive c) key of
       Some (vault, expires_at) \<Rightarrow> if now < expires_at then (True, Some vault)
         else (case map_of (vca_negative c) key of Some t \<Rightarrow> (now < t, None) | None \<Rightarrow> (False, None))
     | None \<Rightarrow> (case map_of (vca_negative c) key of Some t \<Rightarrow> (now < t, None) | None \<Rightarrow> (False, None)))"
proof -
  let ?c = "prune_expired_if_due now c"
  have pos: "map_of (vca_positive ?c) key = (case map_of (vca_positive c) key of None \<Rightarrow> None
      | Some e \<Rightarrow> if now < vca_next_prune_at c \<or> now < snd e then Some e else None)"
    and neg: "map_of (vca_negative ?c) key = (case map_of (vca_negative c) key of None \<Rightarrow> None
      | Some t \<Rightarrow> if now < vca_next_prune_at c \<or> now < t then Some t else None)"
    using assms by (auto simp: cache_inv_def prune_expired_if_due_def prune_expired_def filter_map_of_distinct
        split: option.splits)
  show ?thesis
    by (auto simp: cached_vault_def Let_def cached_negative_def pos neg split: option.splits if_splits)
qed

theorem cache_lookup_by_expiry_witness:
  "fst (cached_vault (1, ''0xa'') 5 \<lparr>vca_positive = [], vca_negative = [((1, ''0xa''), 9)], vca_next_prune_at = 0\<rparr>)
   = (True, None)"
  using cache_lookup_by_expiry[of default_settings "\<lparr>vca_positive = [], vca_negative = [((1, ''0xa''), 9)], vca_next_prune_at = 0\<rparr>"
      "(1, ''0xa'')" 5]
  by (simp add: cache_inv_def default_settings_def)

text \<open>Both caches stay within \<open>vault_cache_max_entries\<close> entries with distinct keys under
  lookups and stores, and an entry just stored is there to be found.\<close>

theorem cache_bounded:
  assumes "cache_inv s c" "1 \<le> vault_cache_max_entries s"
  shows "cache_inv s (snd (cached_vault key now c)) \<and> cache_inv s (store_positive s key entry c)
    \<and> cache_inv s (store_negative s key t c)
    \<and> map_of (vca_positive (store_positive s key entry c)) key = Some entry"
  using cache_inv_cached[OF assms(1)] cache_inv_store[OF assms] store_positive_lookup[OF assms] by simp

theorem cache_bounded_witness:
  "map_of (vca_positive (store_positive (default_settings\<lparr>vault_cache_max_entries := 1\<rparr>) (1, ''0xb'')
     (from_erc4626 \<lparr>e4_vault_address = [], e4_underlying_token = [], e4_share_decimals = 6, e4_underlying_decimals = 6,
        e4_assets_per_share_unit = 7\<rparr>, 60) init_vault_cache)) (1, ''0xb'')
   = Some (from_erc4626 \<lparr>e4_vault_address = [], e4_underlying_token = [], e4_share_decimals = 6, e4_underlying_decimals = 6,
        e4_assets_per_share_unit = 7\<rparr>, 60)"
  using cache_bounded[of "default_settings\<lparr>vault_cache_max_entries := 1\<rparr>" init_vault_cache]
  by (simp add: cache_inv_def init_vault_cache_def default_settings_def)

text \<open>Converting shares to assets and back never gains shares and loses at most one share plus
  the shares one base unit of the asset is worth, for every vault a detection can return.\<close>

theorem conversion_round_trip:
  assumes "eth_ok (ce_eth ce)" "env_ok env" "cache_vaults_ok (rv_cache r)"
    and "detect_vault s ce env address chain_id r = (Inr (Some v), r')"
  shows "\<exists>back. convert_assets_to_shares v (convert_shares_to_assets v shares) = Inr back
    \<and> back \<le> shares \<and> shares \<le> back + vi_share_unit v div vi_assets_per_share_unit v + 1"
proof -
  have ok: "vault_ok v" using detect_vault_ok[OF assms] by blast
  then show ?thesis
    using round_trip_shares[of "vi_assets_per_share_unit v" "vi_share_unit v" shares]
      round_trip_shares_lower[of "vi_assets_per_share_unit v" "vi_share_unit v" shares]
    by (simp add: vault_ok_def convert_assets_to_shares_def convert_shares_to_assets_def)
qed

definition example_chain_env :: chain_env where
  "example_chain_env = \<lparr>ce_eth = lower_eth, ce_abi = no_abi, ce_answers = example_answers\<rparr>"

definition example_detect_env :: detect_env where
  "example_detect_env = \<lparr>de_now = 1, de_waiting = (\<lambda>c. c), de_now_locked = 1, de_during_erc4626 = (\<lambda>c. c),
     de_during_yearn = (\<lambda>c. c), de_now_done = 2\<rparr>"

definition example_resolver :: resolver where
  "example_resolver = \<lparr>rv_cache = init_vault_cache, rv_rpc = example_client\<rparr>"

lemma example_env_ok: "env_ok example_detect_env" "cache_vaults_ok (rv_cache example_resolver)"
  by (simp_all add: env_ok_def example_detect_env_def cache_vaults_ok_def example_resolver_def init_vault_cache_def)

abbreviation example_vault :: vault_info where
  "example_vault \<equiv> from_erc4626 \<lparr>e4_vault_address = addr (CHR ''a''), e4_underlying_token = addr (CHR ''b''),
     e4_share_decimals = 6, e4_underlying_decimals = 6, e4_assets_per_share_unit = 1500000\<rparr>"

lemma example_detect_vault:
  "\<exists>r'. detect_vault default_settings example_chain_env example_detect_env (addr (CHR ''a'')) 1 example_resolver
     = (Inr (Some example_vault), r')"
proof -
  obtain c where "e4_detect lower_eth no_abi example_answers (addr (CHR ''a'')) 1 example_client =
    (Inr (Some \<lparr>e4_vault_address = addr (CHR ''a''), e4_underlying_token = addr (CHR ''b''), e4_share_decimals = 6,
     e4_underlying_decimals = 6, e4_assets_per_share_unit = 1500000\<rparr>), c)"
    using example_detect by (metis prod.collapse)
  then show ?thesis
    by (simp add: detect_vault_def detect_uncached_def found_vault_def example_chain_env_def example_detect_env_def
        example_resolver_def init_vault_cache_def cached_vault_def cached_negative_def prune_expired_if_due_def
        prune_expired_def Let_def)
qed

theorem conversion_round_trip_witness:
  "\<exists>back. convert_assets_to_shares example_vault (convert_shares_to_assets example_vault 1000001) = Inr back
     \<and> back \<le> 1000001 \<and> 1000001 \<le> back + 1"
proof -
  obtain r' where d: "detect_vault default_settings example_chain_env example_detect_env (addr (CHR ''a'')) 1 example_resolver
     = (Inr (Some example_vault), r')" using example_detect_vault by blast
  have "eth_ok (ce_eth example_chain_env)" by (simp add: example_chain_env_def lower_eth_ok)
  from conversion_round_trip[OF this example_env_ok d, of 1000001] show ?thesis
    by (simp add: from_erc4626_def)
qed

text \<open>A resolved price request keeps the chain, asks for the vault's underlying token and comes
  with a positive rate, so that scaling a positive price by it gives a positive price.\<close>

theorem resolved_price_request_sound:
  assumes "eth_ok (ce_eth ce)" "env_ok env" "cache_vaults_ok (rv_cache r)"
    and "resolve_price_request s ce env req r = (Inr (req', ctx), r')"
  shows "pr_chain_id req' = pr_chain_id req
    \<and> (\<exists>v r1 p. detect_vault s ce env (tr_address (pr_token req)) (pr_chain_id req) r = (Inr (Some v), r1)
        \<and> normalize_address (ce_eth ce) (vi_underlying_token v) = Inr (tr_address (pr_token req'))
        \<and> vc_price_per_share ctx = Some p \<and> 0 < p \<and> price_per_share v = Inr p)"
proof -
  obtain v r1 u block r2 where d: "detect_vault s ce env (tr_address (pr_token req)) (pr_chain_id req) r = (Inr (Some v), r1)"
    and u: "underlying_token_ref (ce_eth ce) (pr_token req) (vi_underlying_token v) = Inr u"
    and c: "vault_context_of (ce_eth ce) v block = Inr ctx"
    and q: "req' = \<lparr>pr_chain_id = pr_chain_id req, pr_token = u, pr_timeout_ms = None\<rparr>"
    using assms(4) by (auto simp: resolve_price_request_def split: if_splits sum.splits option.splits prod.splits)
  have "vault_ok v" using detect_vault_ok[OF assms(1-3) d] by blast
  moreover have "normalize_address (ce_eth ce) (vi_underlying_token v) = Inr (tr_address u)"
    using u by (auto simp: underlying_token_ref_def mk_token_ref_def split: option.splits if_splits)
  ultimately show ?thesis using d q vault_context_of_pos[OF c] by simp
qed

theorem resolved_price_request_sound_witness:
  "\<exists>req' ctx r' p. resolve_price_request default_settings example_chain_env example_detect_env
      \<lparr>pr_chain_id = 1, pr_token = \<lparr>tr_chain_id = 1, tr_address = addr (CHR ''a''), tr_symbol = None,
         tr_decimals = None, tr_logo_url = None\<rparr>, pr_timeout_ms = None\<rparr> example_resolver = (Inr (req', ctx), r')
     \<and> vc_price_per_share ctx = Some p \<and> 0 < p"
proof -
  let ?req = "\<lparr>pr_chain_id = 1, pr_token = \<lparr>tr_chain_id = 1, tr_address = addr (CHR ''a''), tr_symbol = None,
         tr_decimals = None, tr_logo_url = None\<rparr>, pr_timeout_ms = None\<rparr>"
  let ?run = "resolve_price_request default_settings example_chain_env example_detect_env ?req example_resolver"
  have "case fst ?run of Inl e \<Rightarrow> False | Inr x \<Rightarrow> True" by code_simp
  then obtain req' ctx r' where run: "?run = (Inr (req', ctx), r')"
    by (metis (no_types, lifting) prod.collapse sum.case(1) sum.exhaust_sel sumE surj_pair)
  have "eth_ok (ce_eth example_chain_env)" by (simp add: example_chain_env_def lower_eth_ok)
  from resolved_price_request_sound[OF this example_env_ok run] run show ?thesis by blast
qed

end
