(* ===== verification/VaultUnderlying.thy ===== *)
theory VaultUnderlying
  imports Resolver Capacity
begin

text \<open>
  Pricing a vault through its underlying token (\<open>core/vault_underlying.py\<close>): the resolution of a
  request under the vault limiter, and the adaptation of the providers' results afterwards.
  Results are mutated in place by the code and returned updated here; no validator runs on the
  assigned fields. Metrics and log lines are left out.
\<close>

section \<open>Outcome of a resolution\<close>

datatype vault_resolution_status = NOT_REQUESTED | NOT_VAULT | RESOLVED | FAILED

record vault_resolution_failure =
  vf_reason :: string
  vf_latency_ms :: int

definition failure_error_info :: error_info where
  "failure_error_info = mk_error VAULT_RESOLUTION_FAILED
     ''Vault underlying resolution failed; provider request was not attempted''"

record resolved_price_request =
  rp_request :: price_request
  rp_status :: vault_resolution_status
  rp_vault_context :: "vault_context option"
  rp_failure :: "vault_resolution_failure option"

definition mk_resolved_price :: "resolved_price_request \<Rightarrow> resolved_price_request res" where
  "mk_resolved_price x =
     (if (rp_status x = RESOLVED) \<noteq> (rp_vault_context x \<noteq> None)
        then Inl (ValueError ''resolved price status requires exactly one vault context'')
      else if (rp_status x = FAILED) \<noteq> (rp_failure x \<noteq> None)
        then Inl (ValueError ''failed price status requires exactly one resolution failure'')
      else Inr x)"

record resolved_quote_request =
  rq_request :: quote_request
  rq_status :: vault_resolution_status
  rq_vault_resolution :: "quote_vault_resolution option"
  rq_failure :: "vault_resolution_failure option"

definition mk_resolved_quote :: "resolved_quote_request \<Rightarrow> resolved_quote_request res" where
  "mk_resolved_quote x =
     (if (rq_status x = RESOLVED) \<noteq> (case rq_vault_resolution x of None \<Rightarrow> False | Some _ \<Rightarrow> True)
        then Inl (ValueError ''resolved quote status requires exactly one vault resolution'')
      else if (rq_status x = FAILED) \<noteq> (rq_failure x \<noteq> None)
        then Inl (ValueError ''failed quote status requires exactly one resolution failure'')
      else Inr x)"

section \<open>The service\<close>

record vault_service =
  vs_limiter :: limiter
  vs_resolver :: resolver

definition VaultUnderlyingService :: "settings \<Rightarrow> vault_service res" where
  "VaultUnderlyingService s =
     rbind (WeightedLimiter (vault_global_units s)) (\<lambda>l. Inr \<lparr>vs_limiter = l, vs_resolver = VaultResolver s\<rparr>)"

text \<open>
  The environment of one resolution: clock readings and wake-ups of the limiter, what others do
  to the limiter during the resolution, and the elapsed milliseconds of a failure.
\<close>

record vault_env =
  ve_now :: "rat \<times> rat"
  ve_wakes :: "vault_service wake list"
  ve_detect_in :: detect_env
  ve_detect_out :: detect_env
  ve_others :: "limiter \<Rightarrow> limiter"
  ve_elapsed_ms :: int

definition put_vault_limiter :: "limiter \<Rightarrow> vault_service \<Rightarrow> vault_service" where
  "put_vault_limiter l sv = sv\<lparr>vs_limiter := l\<rparr>"

definition elapsed_ms :: "vault_env \<Rightarrow> int" where
  "elapsed_ms env = max 0 (ve_elapsed_ms env)"

definition failed_price_resolution :: "vault_env \<Rightarrow> price_request \<Rightarrow> string \<Rightarrow> resolved_price_request res" where
  "failed_price_resolution env req reason = mk_resolved_price
     \<lparr>rp_request = req, rp_status = FAILED, rp_vault_context = None,
      rp_failure = Some \<lparr>vf_reason = reason, vf_latency_ms = elapsed_ms env\<rparr>\<rparr>"

definition failed_quote_resolution :: "vault_env \<Rightarrow> quote_request \<Rightarrow> string \<Rightarrow> resolved_quote_request res" where
  "failed_quote_resolution env req reason = mk_resolved_quote
     \<lparr>rq_request = req, rq_status = FAILED, rq_vault_resolution = None,
      rq_failure = Some \<lparr>vf_reason = reason, vf_latency_ms = elapsed_ms env\<rparr>\<rparr>"

text \<open>The \<open>except\<close> clauses of both resolutions.\<close>

definition on_resolution_error :: "(string \<Rightarrow> 'x res) \<Rightarrow> 'x res \<Rightarrow> exc \<Rightarrow> 'x res" where
  "on_resolution_error failed not_vault e =
     (case e of
        InvalidRequestError t m \<Rightarrow> if t = ''INVALID_VAULT'' then not_vault else failed t
      | _ \<Rightarrow> if e = CancelledError then Inl e else failed ''INTERNAL'')"

text \<open>\<open>finally: await reservation.release()\<close>.\<close>

definition release_vault :: "vault_env \<Rightarrow> reservation \<Rightarrow> vault_service \<Rightarrow> vault_service" where
  "release_vault env rsv sv = sv\<lparr>vs_limiter := snd (rsv_release rsv (ve_others env (vs_limiter sv)))\<rparr>"

definition resolve_price :: "settings \<Rightarrow> chain_env \<Rightarrow> vault_env \<Rightarrow> price_request \<Rightarrow> bool \<Rightarrow> vault_service
    \<Rightarrow> resolved_price_request res \<times> vault_service" where
  "resolve_price s ce env req use_underlying sv =
     (if \<not> use_underlying then
        (mk_resolved_price \<lparr>rp_request = req, rp_status = NOT_REQUESTED, rp_vault_context = None,
           rp_failure = None\<rparr>, sv)
      else case try_acquire vs_limiter put_vault_limiter 1 (admission_acquire_timeout_ms s) (ve_now env)
             (ve_wakes env) sv of
        (Inl e, sv1) \<Rightarrow> (Inl e, sv1)
      | (Inr None, sv1) \<Rightarrow> (failed_price_resolution env req ''VAULT_CAPACITY'', sv1)
      | (Inr (Some rsv), sv1) \<Rightarrow>
          let (r, rv) = resolve_price_request s ce (ve_detect_in env) req (vs_resolver sv1);
              outcome =
                (case r of
                   Inr (resolved_req, ctx) \<Rightarrow>
                     (if vc_price_per_share ctx = None then failed_price_resolution env req ''INVALID_VAULT_RATE''
                      else mk_resolved_price \<lparr>rp_request = resolved_req, rp_status = RESOLVED,
                             rp_vault_context = Some ctx, rp_failure = None\<rparr>)
                 | Inl e \<Rightarrow> on_resolution_error (failed_price_resolution env req)
                     (mk_resolved_price \<lparr>rp_request = req, rp_status = NOT_VAULT, rp_vault_context = None,
                        rp_failure = None\<rparr>) e)
          in (outcome, release_vault env rsv (sv1\<lparr>vs_resolver := rv\<rparr>)))"

definition invalid_quote_resolution_reason :: "quote_vault_resolution option \<Rightarrow> string option" where
  "invalid_quote_resolution_reason resolution =
     (case resolution of
        None \<Rightarrow> Some ''MISSING_VAULT_RESOLUTION''
      | Some q \<Rightarrow>
          (let contexts = [qv_input_vault_context q, qv_output_vault_context q] in
           if list_all (\<lambda>c. c = None) contexts then Some ''MISSING_VAULT_CONTEXT''
           else if list_ex (\<lambda>c. case c of None \<Rightarrow> False | Some x \<Rightarrow> vc_price_per_share x = None) contexts
             then Some ''INVALID_VAULT_RATE''
           else if qv_output_vault_context q \<noteq> None
                  \<and> (case qv_output_assets_to_shares q of None \<Rightarrow> True | Some _ \<Rightarrow> False)
             then Some ''MISSING_VAULT_CONVERTER''
           else None))"

definition resolve_quote :: "settings \<Rightarrow> chain_env \<Rightarrow> vault_env \<Rightarrow> quote_request \<Rightarrow> bool \<Rightarrow> vault_service
    \<Rightarrow> resolved_quote_request res \<times> vault_service" where
  "resolve_quote s ce env req use_underlying sv =
     (if \<not> use_underlying then
        (mk_resolved_quote \<lparr>rq_request = req, rq_status = NOT_REQUESTED, rq_vault_resolution = None,
           rq_failure = None\<rparr>, sv)
      else case try_acquire vs_limiter put_vault_limiter 2 (admission_acquire_timeout_ms s) (ve_now env)
             (ve_wakes env) sv of
        (Inl e, sv1) \<Rightarrow> (Inl e, sv1)
      | (Inr None, sv1) \<Rightarrow> (failed_quote_resolution env req ''VAULT_CAPACITY'', sv1)
      | (Inr (Some rsv), sv1) \<Rightarrow>
          let (r, rv) = resolve_quote_request s ce (ve_detect_in env) (ve_detect_out env) req (vs_resolver sv1);
              outcome =
                (case r of
                   Inr (resolved_req, resolution) \<Rightarrow>
                     (case invalid_quote_resolution_reason resolution of
                        Some reason \<Rightarrow> failed_quote_resolution env req reason
                      | None \<Rightarrow> mk_resolved_quote \<lparr>rq_request = resolved_req, rq_status = RESOLVED,
                             rq_vault_resolution = resolution, rq_failure = None\<rparr>)
                 | Inl e \<Rightarrow> on_resolution_error (failed_quote_resolution env req)
                     (mk_resolved_quote \<lparr>rq_request = req, rq_status = NOT_VAULT, rq_vault_resolution = None,
                        rq_failure = None\<rparr>) e)
          in (outcome, release_vault env rsv (sv1\<lparr>vs_resolver := rv\<rparr>)))"

section \<open>Adapting price results\<close>

definition vault_share_to_asset_multiplier :: "rat option \<Rightarrow> rat res" where
  "vault_share_to_asset_multiplier pps =
     (case pps of
        None \<Rightarrow> Inl (InvalidRequestError ''INVALID_VAULT_RATE'' ''Invalid vault price_per_share'')
      | Some p \<Rightarrow> if p \<le> 0 then Inl (InvalidRequestError ''INVALID_VAULT_RATE'' ''Invalid vault price_per_share'')
                 else Inr p)"

definition apply_price_context :: "vault_context option \<Rightarrow> price_result list \<Rightarrow> price_result list" where
  "apply_price_context vault_context results =
     (case vault_context of
        None \<Rightarrow> results
      | Some ctx \<Rightarrow>
          (case vault_share_to_asset_multiplier (vc_price_per_share ctx) of
             Inl _ \<Rightarrow> results
           | Inr multiplier \<Rightarrow>
               map (\<lambda>r. if p_status r \<noteq> OK then r
                        else r\<lparr>p_price_usd := map_option (\<lambda>p. dec_mul p multiplier) (p_price_usd r),
                               p_vault_context := Some ctx\<rparr>) results))"

section \<open>Adapting quote results\<close>

definition is_valid_converted_amount :: "int \<Rightarrow> bool \<Rightarrow> bool" where
  "is_valid_converted_amount v allow_zero \<longleftrightarrow> (if allow_zero then v \<ge> 0 else v > 0) \<and> v \<le> MAX_UINT256"

definition convert_quote_output_amounts ::
    "int option \<Rightarrow> int option \<Rightarrow> (int \<Rightarrow> int res) \<Rightarrow> (int \<times> int option) res" where
  "convert_quote_output_amounts amount_out amount_out_min assets_to_shares =
     (case amount_out of
        None \<Rightarrow> Inl (ValueError ''Successful quote result is missing amount_out'')
      | Some a \<Rightarrow>
          rbind (assets_to_shares a) (\<lambda>converted.
          rbind (case amount_out_min of None \<Rightarrow> Inr None
                 | Some m \<Rightarrow> rbind (assets_to_shares m) (\<lambda>x. Inr (Some x))) (\<lambda>converted_min.
            if \<not> is_valid_converted_amount converted False
              then Inl (ValueError ''Converted amount_out is outside uint256 bounds'')
            else case converted_min of
              None \<Rightarrow> Inr (converted, None)
            | Some m \<Rightarrow> if \<not> is_valid_converted_amount m True \<or> m > converted
                then Inl (ValueError ''Converted amount_out_min is invalid'')
                else Inr (converted, Some m))))"

definition mark_quote_conversion_failure :: "quote_result \<Rightarrow> quote_result" where
  "mark_quote_conversion_failure r =
     r\<lparr>q_status := ERROR, q_amount_out := None, q_amount_out_min := None,
       q_error := Some (mk_error INVALID_VAULT_CONVERSION
         ''Failed to convert output amount into vault share base units'')\<rparr>"

definition quote_vault_context :: "eth_lib \<Rightarrow> vault_context option \<Rightarrow> vault_context option \<Rightarrow> vault_context option res" where
  "quote_vault_context eth input output =
     (case (input, output) of
        (None, None) \<Rightarrow> Inr None
      | (Some i, None) \<Rightarrow> Inr (Some (i\<lparr>vc_underlying_token := None,
            vc_underlying_token_in := vc_underlying_token i, vc_underlying_token_out := None,
            vc_price_per_share := None, vc_price_per_share_token_in := vc_price_per_share i,
            vc_price_per_share_token_out := None\<rparr>))
      | (None, Some out) \<Rightarrow> Inr (Some (out\<lparr>vc_underlying_token := None,
            vc_underlying_token_in := None, vc_underlying_token_out := vc_underlying_token out,
            vc_price_per_share := None, vc_price_per_share_token_in := None,
            vc_price_per_share_token_out := vc_price_per_share out\<rparr>))
      | (Some i, Some out) \<Rightarrow>
          rbind (mk_vault_context eth
            \<lparr>vc_vault_type = (if vc_vault_type i = vc_vault_type out then vc_vault_type i else None),
             vc_underlying_token = None, vc_underlying_token_in = vc_underlying_token i,
             vc_underlying_token_out = vc_underlying_token out, vc_price_per_share = None,
             vc_price_per_share_token_in = vc_price_per_share i,
             vc_price_per_share_token_out = vc_price_per_share out,
             vc_block_number = vc_block_number i\<rparr>) (\<lambda>c. Inr (Some c)))"

definition adapt_quote_result ::
    "eth_lib \<Rightarrow> quote_request \<Rightarrow> quote_vault_resolution \<Rightarrow> quote_result \<Rightarrow> quote_result res" where
  "adapt_quote_result eth req q r0 =
     (if q_status r0 \<noteq> OK then Inr r0
      else
        let r = r0\<lparr>q_amount_in := Some (qr_amount_in req)\<rparr>;
            finish = (\<lambda>r. rbind (quote_vault_context eth (qv_input_vault_context q) (qv_output_vault_context q))
                       (\<lambda>c. Inr (r\<lparr>q_vault_context := c\<rparr>)))
        in case qv_output_vault_context q of
             None \<Rightarrow> finish r
           | Some _ \<Rightarrow>
               (case qv_output_assets_to_shares q of
                  None \<Rightarrow> Inr (mark_quote_conversion_failure r)
                | Some to_shares \<Rightarrow>
                    (case convert_quote_output_amounts (q_amount_out r) (q_amount_out_min r) to_shares of
                       Inl _ \<Rightarrow> Inr (mark_quote_conversion_failure r)
                     | Inr (converted, converted_min) \<Rightarrow>
                         finish (r\<lparr>q_amount_out := Some converted, q_amount_out_min := converted_min\<rparr>))))"

definition apply_quote_resolution ::
    "eth_lib \<Rightarrow> quote_request \<Rightarrow> quote_vault_resolution option \<Rightarrow> quote_result list \<Rightarrow> quote_result list res" where
  "apply_quote_resolution eth req resolution results =
     (case resolution of None \<Rightarrow> Inr results | Some q \<Rightarrow> rmap_list (adapt_quote_result eth req q) results)"

section \<open>Lemmas\<close>

lemma failed_resolution_Inr [simp]:
  "failed_price_resolution env req reason = Inr \<lparr>rp_request = req, rp_status = FAILED, rp_vault_context = None,
      rp_failure = Some \<lparr>vf_reason = reason, vf_latency_ms = elapsed_ms env\<rparr>\<rparr>"
  "failed_quote_resolution env qreq reason = Inr \<lparr>rq_request = qreq, rq_status = FAILED, rq_vault_resolution = None,
      rq_failure = Some \<lparr>vf_reason = reason, vf_latency_ms = elapsed_ms env\<rparr>\<rparr>"
  by (simp_all add: failed_price_resolution_def mk_resolved_price_def failed_quote_resolution_def mk_resolved_quote_def)

lemma mk_resolved_simps [simp]:
  "mk_resolved_price \<lparr>rp_request = req, rp_status = RESOLVED, rp_vault_context = Some c, rp_failure = None\<rparr>
     = Inr \<lparr>rp_request = req, rp_status = RESOLVED, rp_vault_context = Some c, rp_failure = None\<rparr>"
  "mk_resolved_price \<lparr>rp_request = req, rp_status = NOT_VAULT, rp_vault_context = None, rp_failure = None\<rparr>
     = Inr \<lparr>rp_request = req, rp_status = NOT_VAULT, rp_vault_context = None, rp_failure = None\<rparr>"
  "mk_resolved_price \<lparr>rp_request = req, rp_status = NOT_REQUESTED, rp_vault_context = None, rp_failure = None\<rparr>
     = Inr \<lparr>rp_request = req, rp_status = NOT_REQUESTED, rp_vault_context = None, rp_failure = None\<rparr>"
  "mk_resolved_quote \<lparr>rq_request = q, rq_status = RESOLVED, rq_vault_resolution = Some v, rq_failure = None\<rparr>
     = Inr \<lparr>rq_request = q, rq_status = RESOLVED, rq_vault_resolution = Some v, rq_failure = None\<rparr>"
  "mk_resolved_quote \<lparr>rq_request = q, rq_status = NOT_VAULT, rq_vault_resolution = None, rq_failure = None\<rparr>
     = Inr \<lparr>rq_request = q, rq_status = NOT_VAULT, rq_vault_resolution = None, rq_failure = None\<rparr>"
  "mk_resolved_quote \<lparr>rq_request = q, rq_status = NOT_REQUESTED, rq_vault_resolution = None, rq_failure = None\<rparr>
     = Inr \<lparr>rq_request = q, rq_status = NOT_REQUESTED, rq_vault_resolution = None, rq_failure = None\<rparr>"
  by (simp_all add: mk_resolved_price_def mk_resolved_quote_def)

text \<open>An acquisition raises only when its task is cancelled.\<close>

lemma acquire_wakes_raise:
  "acquire_wakes get put units timeout_ms deadline a wakes s = (Inl e, s') \<Longrightarrow> e = CancelledError"
proof (induction get put units timeout_ms deadline a wakes s rule: acquire_wakes.induct)
  case (6 get put units timeout_ms deadline rem f now wakes s)
  then show ?case by (auto split: prod.splits)
qed auto

lemma try_acquire_raise: "try_acquire get put units timeout_ms clock wakes s = (Inl e, s') \<Longrightarrow> e = CancelledError"
  by (auto simp: try_acquire_def dest: acquire_wakes_raise split: prod.splits)

lemma on_resolution_error_cases:
  assumes "on_resolution_error (\<lambda>r. Inr (f r)) (Inr n) e = x"
  obtains "e = CancelledError" "x = Inl e" | m where "e = InvalidRequestError ''INVALID_VAULT'' m" "x = Inr n"
  | r where "x = Inr (f r)"
  using assms by (auto simp: on_resolution_error_def split: exc.splits if_splits)

lemma valid_quote_vault_context [simp]: "valid_quote_result (r\<lparr>q_vault_context := c\<rparr>) = valid_quote_result r"
  by (simp add: valid_quote_result_def)

lemma converted_amounts_valid:
  assumes "convert_quote_output_amounts a m f = Inr (x, y)"
  shows "0 < x \<and> x \<le> MAX_UINT256 \<and> (\<forall>z. y = Some z \<longrightarrow> 0 \<le> z \<and> z \<le> x)
    \<and> (\<exists>n. a = Some n \<and> f n = Inr x) \<and> (y = None \<longleftrightarrow> m = None)"
proof -
  obtain n where n: "a = Some n" using assms by (cases a) (simp_all add: convert_quote_output_amounts_def)
  obtain c where c: "f n = Inr c" using assms n by (cases "f n") (simp_all add: convert_quote_output_amounts_def)
  show ?thesis
  proof (cases m)
    case None
    then have "is_valid_converted_amount c False" "x = c" "y = None"
      using assms n c by (simp_all add: convert_quote_output_amounts_def split: if_splits)
    then show ?thesis using n c None by (simp add: is_valid_converted_amount_def)
  next
    case (Some k)
    obtain d where d: "f k = Inr d"
      using assms n c Some by (cases "f k") (simp_all add: convert_quote_output_amounts_def)
    have "is_valid_converted_amount c False" "is_valid_converted_amount d True" "d \<le> c" "x = c" "y = Some d"
      using assms n c d Some by (simp_all add: convert_quote_output_amounts_def split: if_splits)
    then show ?thesis using n c Some by (simp add: is_valid_converted_amount_def)
  qed
qed

text \<open>What an outcome tells about the request that is passed on, and about the failure.\<close>

lemma resolve_price_request_kept:
  assumes "resolve_price s ce env req use_underlying sv = (Inr x, sv')"
  shows "(rp_status x \<noteq> RESOLVED \<longrightarrow> rp_request x = req \<and> rp_vault_context x = None)
    \<and> (rp_status x = FAILED \<longrightarrow> (\<exists>reason. rp_failure x = Some \<lparr>vf_reason = reason, vf_latency_ms = elapsed_ms env\<rparr>))"
proof -
  have "\<lbrakk>on_resolution_error (failed_price_resolution env req) (Inr n) e = Inr y; rp_status n = NOT_VAULT;
      rp_request n = req; rp_vault_context n = None\<rbrakk>
    \<Longrightarrow> rp_request y = req \<and> rp_vault_context y = None \<and> (rp_status y = FAILED \<longrightarrow> (\<exists>reason.
      rp_failure y = Some \<lparr>vf_reason = reason, vf_latency_ms = elapsed_ms env\<rparr>))" for n e y
    by (auto simp: on_resolution_error_def split: exc.splits if_splits)
  note err = this[of "\<lparr>rp_request = req, rp_status = NOT_VAULT, rp_vault_context = None, rp_failure = None\<rparr>", simplified]
  show ?thesis using assms
    by (auto simp: resolve_price_def Let_def dest: err split: if_splits sum.splits option.splits prod.splits)
qed

lemma resolve_quote_request_kept:
  assumes "resolve_quote s ce env req use_underlying sv = (Inr x, sv')"
  shows "(rq_status x \<noteq> RESOLVED \<longrightarrow> rq_request x = req \<and> rq_vault_resolution x = None)
    \<and> (rq_status x = FAILED \<longrightarrow> (\<exists>reason. rq_failure x = Some \<lparr>vf_reason = reason, vf_latency_ms = elapsed_ms env\<rparr>))"
proof -
  have "\<lbrakk>on_resolution_error (failed_quote_resolution env req) (Inr n) e = Inr y; rq_status n = NOT_VAULT;
      rq_request n = req; rq_vault_resolution n = None\<rbrakk>
    \<Longrightarrow> rq_request y = req \<and> rq_vault_resolution y = None \<and> (rq_status y = FAILED \<longrightarrow> (\<exists>reason.
      rq_failure y = Some \<lparr>vf_reason = reason, vf_latency_ms = elapsed_ms env\<rparr>))" for n e y
    by (auto simp: on_resolution_error_def split: exc.splits if_splits)
  note err = this[of "\<lparr>rq_request = req, rq_status = NOT_VAULT, rq_vault_resolution = None, rq_failure = None\<rparr>", simplified]
  have res: "\<exists>q. resolution = Some q" if "invalid_quote_resolution_reason resolution = None" for resolution
    using that by (cases resolution) (simp_all add: invalid_quote_resolution_reason_def)
  show ?thesis using assms
    by (auto simp: resolve_quote_def Let_def mk_resolved_quote_def dest: err res
        split: if_splits sum.splits option.splits prod.splits)
qed

lemma resolve_quote_vaults:
  assumes "resolve_quote s ce env req use_underlying sv = (Inr x, sv')" "rq_status x = RESOLVED"
  shows "rq_vault_resolution x \<noteq> None"
proof -
  have res: "\<exists>q. resolution = Some q" if "invalid_quote_resolution_reason resolution = None" for resolution
    using that by (cases resolution) (simp_all add: invalid_quote_resolution_reason_def)
  show ?thesis using assms
    by (auto simp: resolve_quote_def Let_def on_resolution_error_def mk_resolved_quote_def dest: res
        split: if_splits sum.splits option.splits prod.splits exc.splits)
qed

section \<open>Properties\<close>

text \<open>A price resolution ends with a well-formed outcome unless its task is cancelled: a resolved
  request comes with the context of a positive rate, and in every other case the providers would
  be asked for the request as it came.\<close>

theorem price_resolution_outcome:
  assumes "eth_ok (ce_eth ce)" "env_ok (ve_detect_in env)"
    and "\<And>w. w \<in> set (ve_wakes env) \<Longrightarrow> \<forall>x. cache_vaults_ok (rv_cache (vs_resolver x)) \<longrightarrow>
           cache_vaults_ok (rv_cache (vs_resolver (wk_others w x)))"
    and "cache_vaults_ok (rv_cache (vs_resolver sv))"
    and "resolve_price s ce env req use_underlying sv = (res, sv')"
  shows "case res of
      Inl e \<Rightarrow> e = CancelledError
    | Inr x \<Rightarrow>
        (rp_status x = NOT_REQUESTED \<longleftrightarrow> \<not> use_underlying)
      \<and> (rp_status x = FAILED \<longleftrightarrow> rp_failure x \<noteq> None)
      \<and> (if rp_status x = RESOLVED
         then \<exists>ctx p. rp_vault_context x = Some ctx \<and> vc_price_per_share ctx = Some p \<and> 0 < p
         else rp_vault_context x = None \<and> rp_request x = req)"
proof (cases use_underlying)
  case False
  then show ?thesis using assms(5) by (auto simp: resolve_price_def)
next
  case True
  obtain acq sv1 where a: "try_acquire vs_limiter put_vault_limiter 1 (admission_acquire_timeout_ms s) (ve_now env)
      (ve_wakes env) sv = (acq, sv1)" by fastforce
  have keep: "cache_vaults_ok (rv_cache (vs_resolver sv1))"
  proof -
    have wakes: "cache_vaults_ok (rv_cache (vs_resolver s'))"
      if "acquire_wakes vs_limiter put_vault_limiter u tm dl st ws x = (r, s')"
        "\<And>w. w \<in> set ws \<Longrightarrow> \<forall>x. cache_vaults_ok (rv_cache (vs_resolver x)) \<longrightarrow>
           cache_vaults_ok (rv_cache (vs_resolver (wk_others w x)))"
        "cache_vaults_ok (rv_cache (vs_resolver x))" for u tm dl st ws x r s'
      using that
    proof (induction ws arbitrary: st x)
      case Nil
      then show ?case by (cases st) auto
    next
      case (Cons w ws)
      have w: "cache_vaults_ok (rv_cache (vs_resolver (wk_others w x)))" using Cons.prems(2)[of w] Cons.prems(3) by simp
      then have p: "cache_vaults_ok (rv_cache (vs_resolver (put_vault_limiter l (wk_others w x))))" for l
        by (simp add: put_vault_limiter_def)
      show ?case using Cons.prems w Cons.IH[OF _ _ p]
        by (cases st; cases w) (auto split: prod.splits)
    qed
    obtain b l where bl: "try_acquire_start 1 (admission_acquire_timeout_ms s) (fst (ve_now env)) (snd (ve_now env))
        (vs_limiter sv) = (b, l)" by fastforce
    show ?thesis
      by (rule wakes[where x = "put_vault_limiter l sv" and ws = "ve_wakes env" and r = acq])
         (use a bl assms(3,4) in \<open>auto simp: try_acquire_def put_vault_limiter_def\<close>)
  qed
  have raise: "e = CancelledError" if "acq = Inl e" for e using try_acquire_raise a that by metis
  obtain r rv where r: "resolve_price_request s ce (ve_detect_in env) req (vs_resolver sv1) = (r, rv)" by fastforce
  have pos: "\<exists>p. vc_price_per_share ctx = Some p \<and> 0 < p" if "r = Inr (q, ctx)" for q ctx
    using resolved_price_request_sound[OF assms(1,2) keep r[unfolded that]] by blast
  show ?thesis
  proof (cases r)
    case (Inr qc)
    then show ?thesis using assms(5) True a r pos[of "fst qc" "snd qc"] raise
      by (auto simp: resolve_price_def Let_def split: sum.splits option.splits prod.splits)
  next
    case (Inl e)
    then show ?thesis using assms(5) True a r raise
      by (auto simp: resolve_price_def Let_def on_resolution_error_def
          split: sum.splits option.splits exc.splits if_splits)
  qed
qed

definition example_service :: vault_service where
  "example_service = \<lparr>vs_limiter = \<lparr>lim_capacity = 16, lim_used = 3\<rparr>, vs_resolver = example_resolver\<rparr>"

definition example_vault_env :: vault_env where
  "example_vault_env = \<lparr>ve_now = (1, 1), ve_wakes = [], ve_detect_in = example_detect_env,
     ve_detect_out = example_detect_env, ve_others = (\<lambda>l. l), ve_elapsed_ms = 4\<rparr>"

abbreviation example_vault_request :: price_request where
  "example_vault_request \<equiv> \<lparr>pr_chain_id = 1, pr_token = \<lparr>tr_chain_id = 1, tr_address = addr (CHR ''a''),
     tr_symbol = None, tr_decimals = None, tr_logo_url = None\<rparr>, pr_timeout_ms = None\<rparr>"

theorem price_resolution_outcome_witness:
  "\<exists>x. fst (resolve_price default_settings example_chain_env example_vault_env example_vault_request True
      example_service) = Inr x \<and> rp_status x = RESOLVED \<and> (\<exists>ctx p. rp_vault_context x = Some ctx
        \<and> vc_price_per_share ctx = Some p \<and> 0 < p)"
proof -
  let ?run = "resolve_price default_settings example_chain_env example_vault_env example_vault_request True example_service"
  have "case fst ?run of Inl e \<Rightarrow> False | Inr x \<Rightarrow> rp_status x = RESOLVED" by code_simp
  then obtain x where x: "fst ?run = Inr x" "rp_status x = RESOLVED" by (auto split: sum.splits)
  then have run: "?run = (Inr x, snd ?run)" by (simp add: prod_eq_iff)
  have h: "eth_ok (ce_eth example_chain_env)" "env_ok (ve_detect_in example_vault_env)"
    "cache_vaults_ok (rv_cache (vs_resolver example_service))"
    using example_env_ok by (simp_all add: example_chain_env_def lower_eth_ok example_vault_env_def example_service_def)
  from price_resolution_outcome[OF h(1,2) _ h(3) run] x show ?thesis by (simp add: example_vault_env_def)
qed

text \<open>When no other request interferes, resolving a price or a quote leaves the vault limiter as
  it was, whatever the outcome: the units taken are given back on every path.\<close>

theorem vault_resolution_restores_limiter:
  assumes "quiet (ve_wakes env)" "ve_others env = (\<lambda>l. l)" "0 \<le> lim_used (vs_limiter sv)"
  shows "vs_limiter (snd (resolve_price s ce env req use_underlying sv)) = vs_limiter sv
    \<and> vs_limiter (snd (resolve_quote s ce env qreq use_underlying sv)) = vs_limiter sv"
proof -
  have same: "put_vault_limiter (vs_limiter sv) sv = sv" by (simp add: put_vault_limiter_def)
  have given_back: "case acq of Inr (Some r) \<Rightarrow> snd (rsv_release r (vs_limiter sv1)) = vs_limiter sv
      | _ \<Rightarrow> vs_limiter sv1 = vs_limiter sv"
    if t: "try_acquire vs_limiter put_vault_limiter n tm now (ve_wakes env) sv = (acq, sv1)" and "0 < n"
    for n tm now acq sv1
  proof -
    have l: "vs_limiter sv1 = add_used (granted_units acq) (vs_limiter sv)"
      using try_acquire_quiet[where get = vs_limiter and put = put_vault_limiter, OF same assms(1) t]
      by (simp add: put_vault_limiter_def)
    have "snd (rsv_release r (vs_limiter sv1)) = vs_limiter sv" if "acq = Inr (Some r)" for r
      using try_acquire_grant[OF t[unfolded that] \<open>0 < n\<close>] l that \<open>0 < n\<close> assms(3)
      by (simp add: rsv_release_def lim_release_def add_used_def)
    then show ?thesis using l by (auto simp: add_used_def split: sum.splits option.splits)
  qed
  have p: "vs_limiter (snd (resolve_price s ce env req use_underlying sv)) = vs_limiter sv"
  proof -
    obtain acq sv1 where a: "try_acquire vs_limiter put_vault_limiter 1 (admission_acquire_timeout_ms s) (ve_now env)
      (ve_wakes env) sv = (acq, sv1)" by fastforce
    show ?thesis using given_back[OF a] a assms(2)
      by (auto simp: resolve_price_def release_vault_def Let_def split: sum.splits option.splits prod.splits)
  qed
  moreover have "vs_limiter (snd (resolve_quote s ce env qreq use_underlying sv)) = vs_limiter sv"
  proof -
    obtain acq sv1 where a: "try_acquire vs_limiter put_vault_limiter 2 (admission_acquire_timeout_ms s) (ve_now env)
      (ve_wakes env) sv = (acq, sv1)" by fastforce
    show ?thesis using given_back[OF a] a assms(2)
      by (auto simp: resolve_quote_def release_vault_def Let_def split: sum.splits option.splits prod.splits)
  qed
  ultimately show ?thesis by simp
qed

theorem vault_resolution_restores_limiter_witness:
  "vs_limiter (snd (resolve_price default_settings example_chain_env example_vault_env example_vault_request True
      example_service)) = \<lparr>lim_capacity = 16, lim_used = 3\<rparr>"
  using vault_resolution_restores_limiter[of example_vault_env example_service default_settings example_chain_env
      example_vault_request True]
  by (simp add: example_vault_env_def example_service_def)

lemma adapted_quote_result:
  assumes v: "valid_quote_result r" and a: "adapt_quote_result eth req q r = Inr r'"
    and amount: "0 \<le> qr_amount_in req" "qr_amount_in req \<le> MAX_UINT256"
  shows "valid_quote_result r' \<and> q_provider r' = q_provider r
      \<and> (q_status r' = OK \<longrightarrow> q_status r = OK \<and> q_amount_in r' = Some (qr_amount_in req)
          \<and> (case qv_output_vault_context q of
               None \<Rightarrow> q_amount_out r' = q_amount_out r
             | Some _ \<Rightarrow> (\<exists>f a x. qv_output_assets_to_shares q = Some f \<and> q_amount_out r = Some a
                 \<and> f a = Inr x \<and> q_amount_out r' = Some x \<and> 0 < x)))"
proof (cases "q_status r = OK")
  case False
  then show ?thesis using v a by (auto simp: adapt_quote_result_def)
next
  case True
  have u: "uint256_field (Some (qr_amount_in req))" using amount by (simp add: uint256_field_def)
  have v1: "valid_quote_result (r\<lparr>q_amount_in := Some (qr_amount_in req)\<rparr>)"
    using v u by (simp add: valid_quote_result_def)
  have v2: "valid_quote_result (mark_quote_conversion_failure (r\<lparr>q_amount_in := Some (qr_amount_in req)\<rparr>))"
    using v u by (simp add: valid_quote_result_def mark_quote_conversion_failure_def uint256_field_def)
  show ?thesis
  proof (cases "qv_output_vault_context q")
    case None
    then show ?thesis using a True v1 by (auto simp: adapt_quote_result_def Let_def)
  next
    case (Some ctx)
    show ?thesis
    proof (cases "\<exists>f x. qv_output_assets_to_shares q = Some f
        \<and> convert_quote_output_amounts (q_amount_out r) (q_amount_out_min r) f = Inr x")
      case False
      then have "r' = mark_quote_conversion_failure (r\<lparr>q_amount_in := Some (qr_amount_in req)\<rparr>)"
        using a True Some by (auto simp: adapt_quote_result_def Let_def split: option.splits sum.splits)
      then show ?thesis using v2 by (simp add: mark_quote_conversion_failure_def)
    next
      case True
      then obtain f x y where f: "qv_output_assets_to_shares q = Some f"
        and c: "convert_quote_output_amounts (q_amount_out r) (q_amount_out_min r) f = Inr (x, y)" by auto
      have r': "\<exists>c. r' = r\<lparr>q_amount_in := Some (qr_amount_in req), q_amount_out := Some x, q_amount_out_min := y,
          q_vault_context := c\<rparr>"
        using a \<open>q_status r = OK\<close> Some f c by (auto simp: adapt_quote_result_def Let_def)
      note cv = converted_amounts_valid[OF c]
      have "valid_quote_result r'" using r' v u cv \<open>q_status r = OK\<close>
        by (auto simp: valid_quote_result_def uint256_field_def split: option.splits)
      then show ?thesis using r' cv f Some \<open>q_status r = OK\<close> by auto
    qed
  qed
qed

text \<open>Adapting quotes to vaults keeps every result valid and never turns a failure into a
  success: a result that is still successful carries the amount the caller asked for and, for a
  vault output, the provider's amount converted to a positive number of shares.\<close>

theorem adapted_quotes_valid:
  assumes "\<forall>r \<in> set results. valid_quote_result r" "0 \<le> qr_amount_in req" "qr_amount_in req \<le> MAX_UINT256"
    and "apply_quote_resolution eth req (Some q) results = Inr results'"
  shows "length results' = length results \<and> (\<forall>i < length results.
      let r = results ! i; r' = results' ! i in
        valid_quote_result r' \<and> q_provider r' = q_provider r
      \<and> (q_status r' = OK \<longrightarrow> q_status r = OK \<and> q_amount_in r' = Some (qr_amount_in req)
          \<and> (case qv_output_vault_context q of
               None \<Rightarrow> q_amount_out r' = q_amount_out r
             | Some _ \<Rightarrow> (\<exists>f a x. qv_output_assets_to_shares q = Some f \<and> q_amount_out r = Some a
                 \<and> f a = Inr x \<and> q_amount_out r' = Some x \<and> 0 < x))))"
proof -
  have l: "length results' = length results" "\<forall>i < length results. adapt_quote_result eth req q (results ! i) = Inr (results' ! i)"
    using rmap_list_Inr[of "adapt_quote_result eth req q" results results'] assms(4)
    by (auto simp: apply_quote_resolution_def)
  show ?thesis unfolding Let_def
  proof (intro conjI[OF l(1)] allI impI)
    fix i assume "i < length results"
    then show "valid_quote_result (results' ! i) \<and> q_provider (results' ! i) = q_provider (results ! i)
      \<and> (q_status (results' ! i) = OK \<longrightarrow> q_status (results ! i) = OK
          \<and> q_amount_in (results' ! i) = Some (qr_amount_in req)
          \<and> (case qv_output_vault_context q of
               None \<Rightarrow> q_amount_out (results' ! i) = q_amount_out (results ! i)
             | Some _ \<Rightarrow> (\<exists>f a x. qv_output_assets_to_shares q = Some f \<and> q_amount_out (results ! i) = Some a
                 \<and> f a = Inr x \<and> q_amount_out (results' ! i) = Some x \<and> 0 < x)))"
      using adapted_quote_result[of "results ! i" eth req q "results' ! i"] l(2) assms(1-3) by simp
  qed
qed

theorem adapted_quotes_valid_witness:
  "\<exists>r'. apply_quote_resolution lower_eth \<lparr>qr_chain_id = 1, qr_token_in = pr_token example_vault_request,
        qr_token_out = pr_token example_vault_request, qr_amount_in = 5, qr_timeout_ms = None\<rparr>
      (Some \<lparr>qv_input_vault_context = None, qv_output_vault_context = Some \<lparr>vc_vault_type = None, vc_underlying_token = None,
          vc_underlying_token_in = None, vc_underlying_token_out = None, vc_price_per_share = Some 2,
          vc_price_per_share_token_in = None, vc_price_per_share_token_out = None, vc_block_number = 1\<rparr>,
        qv_output_assets_to_shares = Some (\<lambda>a. Inr (a div 2))\<rparr>)
      [\<lparr>q_provider = ''curve'', q_status = OK, q_token_in = None, q_token_out = None, q_amount_in = Some 9,
        q_amount_out = Some 8, q_amount_out_min = None, q_price_impact_bps = None, q_estimated_gas = None,
        q_latency_ms = 5, q_as_of = None, q_error = None, q_route = None, q_vault_context = None\<rparr>] = Inr [r']
     \<and> valid_quote_result r' \<and> q_amount_in r' = Some 5 \<and> q_amount_out r' = Some 4"
proof -
  let ?req = "\<lparr>qr_chain_id = 1, qr_token_in = pr_token example_vault_request,
        qr_token_out = pr_token example_vault_request, qr_amount_in = 5, qr_timeout_ms = None\<rparr>"
  let ?q = "\<lparr>qv_input_vault_context = None, qv_output_vault_context = Some \<lparr>vc_vault_type = None, vc_underlying_token = None,
          vc_underlying_token_in = None, vc_underlying_token_out = None, vc_price_per_share = Some 2,
          vc_price_per_share_token_in = None, vc_price_per_share_token_out = None, vc_block_number = 1\<rparr>,
        qv_output_assets_to_shares = Some (\<lambda>a. Inr (a div 2))\<rparr>"
  let ?r = "\<lparr>q_provider = ''curve'', q_status = OK, q_token_in = None, q_token_out = None, q_amount_in = Some 9,
        q_amount_out = Some 8, q_amount_out_min = None, q_price_impact_bps = None, q_estimated_gas = None,
        q_latency_ms = 5, q_as_of = None, q_error = None, q_route = None, q_vault_context = None\<rparr>"
  have v: "\<forall>r \<in> set [?r]. valid_quote_result r" by (simp add: valid_quote_result_def uint256_field_def MAX_UINT256_def)
  obtain r' where e: "apply_quote_resolution lower_eth ?req (Some ?q) [?r] = Inr [r']" and ok: "q_status r' = OK"
    by (simp add: apply_quote_resolution_def adapt_quote_result_def convert_quote_output_amounts_def
        is_valid_converted_amount_def quote_vault_context_def MAX_UINT256_def Let_def)
  from adapted_quotes_valid[OF v _ _ e] e ok show ?thesis by (simp add: MAX_UINT256_def)
qed

text \<open>Scaling a price by a vault's rate is not validated again: a valid price and a positive rate
  can give a result whose price breaks the bound on the decimal exponent that every price result
  is constructed under.\<close>

theorem scaled_price_escapes_bounds:
  "\<exists>r ctx. valid_price_result r \<and> vc_price_per_share ctx = Some 10
     \<and> \<not> list_all valid_price_result (apply_price_context (Some ctx) [r])"
proof -
  let ?ctx = "\<lparr>vc_vault_type = Some ERC4626, vc_underlying_token = None, vc_underlying_token_in = None,
      vc_underlying_token_out = None, vc_price_per_share = Some 10, vc_price_per_share_token_in = None,
      vc_price_per_share_token_out = None, vc_block_number = 1\<rparr>"
  let ?r = "\<lparr>p_provider = ''curve'', p_status = OK, p_token = None, p_price_usd = Some (10 ^ 100), p_latency_ms = 1,
      p_as_of = None, p_error = None, p_vault_context = None\<rparr>"
  have a: "adjusted (10 ^ 100) = 100" using pow10_nat[of 100] pow10_nat[of 101] by (intro adjusted_unique) simp_all
  have f: "fits 28 (10 ^ 100 * 10 :: rat)"
    unfolding fits_def by (intro exI[of _ 1] exI[of _ 101]) simp
  have "dec_mul (10 ^ 100) 10 = 10 ^ 101" using round_sig_fits_id[OF f] by (simp add: dec_mul_def)
  moreover have "adjusted (10 ^ 101) = 101" using pow10_nat[of 101] pow10_nat[of 102] by (intro adjusted_unique) simp_all
  ultimately have "\<not> list_all valid_price_result (apply_price_context (Some ?ctx) [?r])"
    by (simp add: apply_price_context_def vault_share_to_asset_multiplier_def valid_price_result_def valid_price_def
        MAX_NORMALIZED_DECIMAL_EXPONENT_def)
  moreover have "valid_price_result ?r" using a
    by (simp add: valid_price_result_def valid_price_def MAX_NORMALIZED_DECIMAL_EXPONENT_def)
  ultimately show ?thesis by (intro exI[of _ ?r] exI[of _ ?ctx]) simp
qed

end
