(* ===== verification/Selection.thy ===== *)
theory Selection
  imports Domain
begin

text \<open>
  Choosing among the providers' results: \<open>core/selection.py\<close> (the order of the providers and
  the selected result) and \<open>core/normalizer.py\<close> (requests, order of the results and the
  summaries). The price and the quote function of each pair are the same code over another
  record, so the loops are defined once over the fields they read.
\<close>

section \<open>Provider order\<close>

fun append_unseen :: "(string \<Rightarrow> bool) \<Rightarrow> string list \<Rightarrow> string list \<times> string set \<Rightarrow> string list \<times> string set" where
  "append_unseen keep [] (ordered, seen) = (ordered, seen)"
| "append_unseen keep (x # xs) (ordered, seen) =
     (if keep x \<and> x \<notin> seen then append_unseen keep xs (ordered @ [x], insert x seen)
      else append_unseen keep xs (ordered, seen))"

definition build_provider_order :: "string list \<Rightarrow> string list option \<Rightarrow> string list \<Rightarrow> string list" where
  "build_provider_order available_ids requested_ids default_priority =
     (let available = set available_ids;
          first = append_unseen (\<lambda>x. x \<in> available)
            (case requested_ids of Some r \<Rightarrow> r | None \<Rightarrow> default_priority) ([], {})
      in fst (append_unseen (\<lambda>x. True) (sort available_ids) first))"

section \<open>Indexing and selecting results\<close>

definition index_by :: "('r \<Rightarrow> string) \<Rightarrow> 'r list \<Rightarrow> (string, 'r) odict" where
  "index_by provider results = foldl (\<lambda>d r. AList.update (provider r) r d) [] results"

definition index_price_results :: "price_result list \<Rightarrow> (string, price_result) odict" where
  "index_price_results = index_by p_provider"

definition index_quote_results :: "quote_result list \<Rightarrow> (string, quote_result) odict" where
  "index_quote_results = index_by q_provider"

fun select_first :: "('r \<Rightarrow> provider_status) \<Rightarrow> string list \<Rightarrow> (string, 'r) odict \<Rightarrow> 'r option" where
  "select_first status [] by_provider = None"
| "select_first status (p # order) by_provider =
     (case map_of by_provider p of
        None \<Rightarrow> select_first status order by_provider
      | Some r \<Rightarrow> if status r = OK then Some r else select_first status order by_provider)"

definition select_price_result :: "string list \<Rightarrow> (string, price_result) odict \<Rightarrow> price_result option" where
  "select_price_result = select_first p_status"

definition select_quote_result :: "string list \<Rightarrow> (string, quote_result) odict \<Rightarrow> quote_result option" where
  "select_quote_result = select_first q_status"

section \<open>Requests\<close>

definition apply_remap :: "eth_lib \<Rightarrow> int \<Rightarrow> token_ref \<Rightarrow> (token_ref \<times> token_ref option) res" where
  "apply_remap eth chain_id ref =
     (case resolve_remap chain_id (tr_address ref) of
        None \<Rightarrow> Inr (ref, None)
      | Some canonical \<Rightarrow>
          rbind (mk_token_ref eth chain_id canonical None None None) (\<lambda>t. Inr (t, Some ref)))"

definition normalize_token_request ::
    "eth_lib \<Rightarrow> int \<Rightarrow> string \<Rightarrow> (token_ref \<times> token_ref option) res" where
  "normalize_token_request eth chain_id token =
     rbind (mk_token_ref eth chain_id token None None None) (apply_remap eth chain_id)"

definition normalize_price_request ::
    "eth_lib \<Rightarrow> int \<Rightarrow> string \<Rightarrow> (price_request \<times> token_ref option) res" where
  "normalize_price_request eth chain_id token =
     rbind (mk_token_ref eth chain_id token None None None) (\<lambda>t.
     rbind (apply_remap eth chain_id t) (\<lambda>(ref, original).
       Inr (\<lparr>pr_chain_id = chain_id, pr_token = ref, pr_timeout_ms = None\<rparr>, original)))"

definition normalize_quote_request ::
    "eth_lib \<Rightarrow> int \<Rightarrow> string \<Rightarrow> string \<Rightarrow> string
     \<Rightarrow> (quote_request \<times> token_ref option \<times> token_ref option) res" where
  "normalize_quote_request eth chain_id token_in token_out amount_in =
     rbind (parse_positive_int amount_in ''amount_in'') (\<lambda>amount.
     rbind (mk_token_ref eth chain_id token_in None None None) (\<lambda>tin.
     rbind (mk_token_ref eth chain_id token_out None None None) (\<lambda>tout.
     rbind (apply_remap eth chain_id tin) (\<lambda>(ref_in, original_in).
     rbind (apply_remap eth chain_id tout) (\<lambda>(ref_out, original_out).
       Inr (\<lparr>qr_chain_id = chain_id, qr_token_in = ref_in, qr_token_out = ref_out,
              qr_amount_in = amount, qr_timeout_ms = None\<rparr>, original_in, original_out))))))"

section \<open>Order of the results\<close>

definition status_rank :: "provider_status \<Rightarrow> nat" where
  "status_rank st = (if st = OK then 0 else 1)"

definition sort_price_results :: "price_result list \<Rightarrow> price_result list" where
  "sort_price_results = sort_key (\<lambda>r. (status_rank (p_status r), p_provider r))"

definition sort_quote_results :: "quote_result list \<Rightarrow> quote_result list" where
  "sort_quote_results = sort_key (\<lambda>r. (status_rank (q_status r), q_provider r))"

section \<open>Summaries\<close>

text \<open>\<open>statistics.median\<close> of decimals: the two middle values are averaged in the context.\<close>

definition median_dec :: "rat list \<Rightarrow> rat" where
  "median_dec xs =
     (let data = sort xs; n = length data; i = n div 2 in
      if n mod 2 = 1 then data ! i else dec_div (dec_add (data ! (i - 1)) (data ! i)) 2)"

definition deviation_bps :: "rat list \<Rightarrow> int option" where
  "deviation_bps prices =
     (if length prices < 2 then None
      else let low = Min (set prices); high = Max (set prices)
           in if low = 0 then None
              else let spread = dec_div (dec_sub high low) low
                   in Some (round_half_even (dec_mul spread 10000)))"

definition build_price_summary :: "price_result list \<Rightarrow> price_summary" where
  "build_price_summary results =
     (let successful = filter (\<lambda>r. p_status r = OK) results;
          prices = List.map_filter p_price_usd successful
      in \<lparr>ps_requested = int (length results),
          ps_successful = int (length successful),
          ps_failed = int (length results) - int (length successful),
          ps_high_price = (if prices = [] then None else Some (Max (set prices))),
          ps_low_price = (if prices = [] then None else Some (Min (set prices))),
          ps_median_price = (if prices = [] then None else Some (median_dec prices)),
          ps_deviation_bps = (if prices = [] then None else deviation_bps prices)\<rparr>)"

definition build_quote_summary :: "quote_result list \<Rightarrow> quote_summary" where
  "build_quote_summary results =
     (let successful = filter (\<lambda>r. q_status r = OK) results;
          amounts = sort (List.map_filter q_amount_out successful);
          mid = length amounts div 2
      in \<lparr>qs_requested = int (length results),
          qs_successful = int (length successful),
          qs_failed = int (length results) - int (length successful),
          qs_high_amount_out = (if amounts = [] then None else Some (Max (set amounts))),
          qs_low_amount_out = (if amounts = [] then None else Some (Min (set amounts))),
          qs_median_amount_out =
            (if amounts = [] then None
             else if length amounts mod 2 = 1 then Some (amounts ! mid)
             else Some ((amounts ! (mid - 1) + amounts ! mid) div 2))\<rparr>)"

section \<open>Lemmas on the order\<close>

lemma append_unseen_dedup:
  "append_unseen keep xs (ordered, seen) =
     (ordered @ dedup_from seen (filter keep xs), seen \<union> set (filter keep xs))"
  by (induction keep xs "(ordered, seen)" arbitrary: ordered seen rule: append_unseen.induct) auto

lemma dedup_from_sorted_distinct: "sorted xs \<Longrightarrow> sorted (dedup_from S xs)"
  by (induction xs arbitrary: S) (auto simp: set_dedup_from)

lemma build_provider_order_eq:
  "build_provider_order av req dflt =
     (let pref = dedup (filter (\<lambda>x. x \<in> set av) (case req of Some r \<Rightarrow> r | None \<Rightarrow> dflt))
      in pref @ dedup_from (set pref) (sort av))"
  by (simp add: build_provider_order_def append_unseen_dedup Let_def set_dedup_from)

section \<open>Lemmas on indexing and selection\<close>

lemma index_by_map_of:
  assumes "distinct (map f rs)"
  shows "map_of (index_by f rs) p = find (\<lambda>r. f r = p) rs"
  using assms
proof (induction rs rule: rev_induct)
  case (snoc r rs)
  have "find (\<lambda>r. f r = p) (rs @ [r]) =
      (case find (\<lambda>r. f r = p) rs of Some x \<Rightarrow> Some x | None \<Rightarrow> if f r = p then Some r else None)"
    by (induction rs) auto
  moreover have "f r = p \<Longrightarrow> find (\<lambda>r. f r = p) rs = None"
    using snoc.prems by (auto simp: find_None_iff image_iff)
  ultimately show ?case using snoc by (auto simp: index_by_def od_simps split: option.splits)
qed (simp add: index_by_def)

lemma index_by_in:
  assumes "distinct (map f rs)"
  shows "map_of (index_by f rs) p = Some r \<longleftrightarrow> r \<in> set rs \<and> f r = p"
  using assms by (auto simp: index_by_map_of find_Some_iff distinct_conv_nth in_set_conv_nth)

lemma select_first_Some:
  "select_first st order d = Some r \<longleftrightarrow>
   (\<exists>as p bs. order = as @ p # bs \<and> map_of d p = Some r \<and> st r = OK
      \<and> (\<forall>q \<in> set as. \<forall>x. map_of d q = Some x \<longrightarrow> st x \<noteq> OK))"
proof (induction order)
  case (Cons q order)
  show ?case (is "?L \<longleftrightarrow> ?R")
  proof (cases "\<exists>x. map_of d q = Some x \<and> st x = OK")
    case True
    then obtain x where x: "map_of d q = Some x" "st x = OK" by blast
    show ?thesis
    proof
      assume ?L
      with x have "r = x" by simp
      with x show ?R by (intro exI[of _ "[]"] exI[of _ q] exI[of _ order]) auto
    next
      assume ?R
      then obtain as p bs where *: "q # order = as @ p # bs" "map_of d p = Some r" "st r = OK"
        "\<forall>q \<in> set as. \<forall>x. map_of d q = Some x \<longrightarrow> st x \<noteq> OK" by blast
      with x have "as = []" by (cases as) auto
      with * x show ?L by auto
    qed
  next
    case False
    then have step: "select_first st (q # order) d = select_first st order d"
      by (auto split: option.splits)
    show ?thesis unfolding step Cons.IH
    proof
      assume "\<exists>as p bs. order = as @ p # bs \<and> map_of d p = Some r \<and> st r = OK
          \<and> (\<forall>q \<in> set as. \<forall>x. map_of d q = Some x \<longrightarrow> st x \<noteq> OK)"
      then obtain as p bs where *: "order = as @ p # bs" "map_of d p = Some r" "st r = OK"
        "\<forall>q \<in> set as. \<forall>x. map_of d q = Some x \<longrightarrow> st x \<noteq> OK" by blast
      with False show ?R by (intro exI[of _ "q # as"] exI[of _ p] exI[of _ bs]) auto
    next
      assume ?R
      then obtain as p bs where *: "q # order = as @ p # bs" "map_of d p = Some r" "st r = OK"
        "\<forall>q \<in> set as. \<forall>x. map_of d q = Some x \<longrightarrow> st x \<noteq> OK" by blast
      with False obtain as' where "as = q # as'" by (cases as) auto
      with * show "\<exists>as p bs. order = as @ p # bs \<and> map_of d p = Some r \<and> st r = OK
          \<and> (\<forall>q \<in> set as. \<forall>x. map_of d q = Some x \<longrightarrow> st x \<noteq> OK)" by auto
    qed
  qed
qed simp

lemma select_first_None:
  "select_first st order d = None \<longleftrightarrow> (\<forall>p \<in> set order. \<forall>r. map_of d p = Some r \<longrightarrow> st r \<noteq> OK)"
  by (induction order) (auto split: option.splits)

section \<open>Lemmas on the summaries\<close>

lemma map_filter_set: "set (List.map_filter f xs) = {y. \<exists>x \<in> set xs. f x = Some y}"
  by (auto simp: map_filter_def) force

lemma map_filter_mset:
  "mset xs = mset ys \<Longrightarrow> mset (List.map_filter f xs) = mset (List.map_filter f ys)"
  by (simp add: map_filter_def flip: mset_filter) (metis mset_filter mset_map)

lemma sorted_nth_between:
  fixes xs :: "'a::linorder list"
  assumes "i < length xs"
  shows "Min (set xs) \<le> sort xs ! i \<and> sort xs ! i \<le> Max (set xs)"
proof -
  have "sort xs ! i \<in> set xs" using assms by (metis length_sort nth_mem set_sort)
  then show ?thesis by simp
qed

lemma median_dec_between:
  assumes "xs \<noteq> []" "\<forall>x \<in> set xs. 0 < x \<and> fits 27 x"
  shows "Min (set xs) \<le> median_dec xs \<and> median_dec xs \<le> Max (set xs)"
proof (cases "length xs mod 2 = 1")
  case True
  then have "length xs div 2 < length xs" using assms(1) by (cases xs) auto
  with True show ?thesis using sorted_nth_between[of "length xs div 2" xs]
    by (simp add: median_dec_def Let_def)
next
  case False
  let ?i = "length xs div 2"
  have i: "?i < length xs" "?i - 1 < length xs" using assms(1) by (cases xs; simp)+
  let ?a = "sort xs ! (?i - 1)" let ?b = "sort xs ! ?i"
  have mem: "?a \<in> set xs" "?b \<in> set xs" using i by (metis length_sort nth_mem set_sort)+
  have "?a \<le> ?b" using i by (intro sorted_nth_mono) auto
  with mem assms(2) dec_average_between[of ?a ?b] have
    "?a \<le> dec_div (dec_add ?a ?b) 2" "dec_div (dec_add ?a ?b) 2 \<le> ?b" by auto
  with False i sorted_nth_between[of "?i - 1" xs] sorted_nth_between[of ?i xs] show ?thesis
    by (simp add: median_dec_def Let_def)
qed

lemma median_dec_mset:
  assumes "mset xs = mset ys"
  shows "median_dec xs = median_dec ys"
proof -
  have "sort xs = sort ys" using assms by (intro sort_key_unique) auto
  moreover have "length xs = length ys" using assms by (rule mset_eq_length)
  ultimately show ?thesis by (simp add: median_dec_def Let_def)
qed

lemma deviation_bps_mset:
  assumes "mset xs = mset ys"
  shows "deviation_bps xs = deviation_bps ys"
  using assms mset_eq_length[OF assms] mset_eq_setD[OF assms] by (simp add: deviation_bps_def)

lemma deviation_bps_nonneg:
  assumes "\<forall>x \<in> set xs. 0 < x" "deviation_bps xs = Some d"
  shows "0 \<le> d"
proof -
  let ?l = "Min (set xs)" let ?h = "Max (set xs)"
  have ne: "xs \<noteq> []" using assms(2) by (auto simp: deviation_bps_def)
  then have l: "0 < ?l" "?l \<le> ?h" using assms(1) by auto
  have "0 \<le> dec_mul (dec_div (dec_sub ?h ?l) ?l) 10000"
  proof (cases "?h = ?l")
    case False
    then have "0 < dec_sub ?h ?l" using l by (simp add: dec_sub_def round_sig_pos)
    then have "0 < dec_div (dec_sub ?h ?l) ?l" using l by (intro dec_div_pos)
    then show ?thesis by (intro less_imp_le dec_mul_pos) auto
  qed (simp add: dec_defs)
  then have "0 \<le> round_half_even (dec_mul (dec_div (dec_sub ?h ?l) ?l) 10000)"
    using round_half_even_ge_int[of 0] by simp
  then show ?thesis using assms(2) by (auto simp: deviation_bps_def Let_def split: if_splits)
qed

lemma ok_price_rows:
  "set (List.map_filter p_price_usd (filter (\<lambda>r. p_status r = OK) rs)) =
   {v. \<exists>r \<in> set rs. p_status r = OK \<and> p_price_usd r = Some v}"
  by (auto simp: map_filter_set)

lemma avg_between: "(a::int) \<le> b \<Longrightarrow> a \<le> (a + b) div 2 \<and> (a + b) div 2 \<le> b"
  by auto

section \<open>Properties\<close>

text \<open>The provider order names every available provider once and no other; the requested
  ones (the defaults when none are requested) come first in the order given, the rest follow
  alphabetically.\<close>

theorem provider_order_correct:
  shows "let order = build_provider_order available requested default_priority;
      wanted = dedup (filter (\<lambda>x. x \<in> set available) (case requested of Some r \<Rightarrow> r | None \<Rightarrow> default_priority))
    in distinct order \<and> set order = set available \<and> take (length wanted) order = wanted
       \<and> sorted (drop (length wanted) order)"
  by (auto simp: build_provider_order_eq Let_def distinct_dedup_from set_dedup_from
      dedup_from_sorted_distinct)

text \<open>The selected price is the successful result of the first provider in the order that
  has one, when results have distinct providers; nothing is selected exactly when no
  provider of the order succeeded.\<close>

theorem selected_price_is_first_success:
  assumes "distinct (map p_provider results)"
    and "selected = select_price_result order (index_price_results results)"
  shows "(case selected of
      None \<Rightarrow> \<forall>r \<in> set results. p_provider r \<in> set order \<longrightarrow> p_status r \<noteq> OK
    | Some r \<Rightarrow> r \<in> set results \<and> p_status r = OK \<and>
        (\<exists>before after. order = before @ p_provider r # after \<and>
           (\<forall>r' \<in> set results. p_provider r' \<in> set before \<longrightarrow> p_status r' \<noteq> OK)))"
proof (cases selected)
  case None
  then have "select_first p_status order (index_by p_provider results) = None"
    using assms(2) by (simp add: select_price_result_def index_price_results_def)
  then show ?thesis unfolding None by (auto simp: select_first_None index_by_in[OF assms(1)])
next
  case (Some r)
  with assms(2) obtain as p bs where *: "order = as @ p # bs"
    "map_of (index_by p_provider results) p = Some r" "p_status r = OK"
    "\<forall>q \<in> set as. \<forall>x. map_of (index_by p_provider results) q = Some x \<longrightarrow> p_status x \<noteq> OK"
    using select_first_Some[of p_status order "index_by p_provider results" r]
    by (auto simp: select_price_result_def index_price_results_def)
  then show ?thesis using Some by (auto simp: index_by_in[OF assms(1)])
qed

abbreviation example_price :: "string \<Rightarrow> provider_status \<Rightarrow> rat option \<Rightarrow> price_result" where
  "example_price p st v \<equiv> \<lparr>p_provider = p, p_status = st, p_token = None, p_price_usd = v,
     p_latency_ms = 5, p_as_of = None, p_error = None, p_vault_context = None\<rparr>"

theorem selected_price_is_first_success_witness:
  "select_price_result [''enso'', ''curve''] (index_price_results
      [example_price ''curve'' OK (Some 2), example_price ''enso'' NO_ROUTE None]) =
   Some (example_price ''curve'' OK (Some 2))
   \<and> (\<exists>before after. [''enso'', ''curve''] = before @ ''curve'' # after)"
  using selected_price_is_first_success[OF _ refl,
      of "[example_price ''curve'' OK (Some 2), example_price ''enso'' NO_ROUTE None]" "[''enso'', ''curve'']"]
  by (auto simp: select_price_result_def index_price_results_def index_by_def)


lemma fits_int: "\<bar>n\<bar> < 10 ^ 27 \<Longrightarrow> fits 27 (of_int n)"
  unfolding fits_def by (intro exI[of _ n] exI[of _ 0]) simp


text \<open>A quote summary counts every result once, its lowest and highest amount are attained,
  and the median amount lies between them.\<close>

theorem quote_summary_correct:
  assumes "\<forall>r \<in> set results. valid_quote_result r" and "s = build_quote_summary results"
  shows "qs_successful s + qs_failed s = int (length results)
    \<and> (if \<forall>r \<in> set results. q_status r \<noteq> OK
       then qs_low_amount_out s = None \<and> qs_high_amount_out s = None \<and> qs_median_amount_out s = None
       else \<exists>lo hi m. qs_low_amount_out s = Some lo \<and> qs_high_amount_out s = Some hi
          \<and> qs_median_amount_out s = Some m \<and> 0 < lo \<and> lo \<le> m \<and> m \<le> hi
          \<and> (\<exists>r \<in> set results. q_status r = OK \<and> q_amount_out r = Some lo)
          \<and> (\<exists>r \<in> set results. q_status r = OK \<and> q_amount_out r = Some hi))"
proof -
  let ?ok = "filter (\<lambda>r. q_status r = OK) results"
  let ?as = "List.map_filter q_amount_out ?ok"
  have rows: "set ?as = {v. \<exists>r \<in> set results. q_status r = OK \<and> q_amount_out r = Some v}"
    by (auto simp: map_filter_set)
  have some: "\<exists>v. q_amount_out r = Some v \<and> 0 < v" if "r \<in> set results" "q_status r = OK" for r
    using assms(1) that by (force simp: valid_quote_result_def split: option.splits)
  show ?thesis
  proof (cases "\<forall>r \<in> set results. q_status r \<noteq> OK")
    case True
    then have "?ok = []" by (auto simp: filter_empty_conv)
    then show ?thesis using True by (simp add: assms(2) build_quote_summary_def Let_def map_filter_simps)
  next
    case False
    then have ne: "?as \<noteq> []" using some rows by (metis (mono_tags, lifting) empty_iff list.set(1) mem_Collect_eq)
    have mm: "Min (set ?as) \<in> set ?as" "Max (set ?as) \<in> set ?as" using ne by auto
    have pos: "0 < v" if "v \<in> set ?as" for v using that some by (fastforce simp: rows)
    let ?i = "length ?as div 2"
    have i: "?i < length ?as" "?i - 1 < length ?as" using ne by (cases ?as; simp)+
    note b = sorted_nth_between[OF i(1)] sorted_nth_between[OF i(2)]
    have "sort ?as ! (?i - 1) \<le> sort ?as ! ?i" using i by (intro sorted_nth_mono) auto
    note avg = avg_between[OF this]
    have low: "0 < Min (set ?as)" using mm(1) pos by blast
    have sne: "sort ?as \<noteq> []" using ne by (metis length_0_conv length_sort)
    define m where "m = (if length ?as mod 2 = 1 then sort ?as ! ?i
        else (sort ?as ! (?i - 1) + sort ?as ! ?i) div 2)"
    have med: "qs_median_amount_out s = Some m"
      using ne sne by (simp add: assms(2) build_quote_summary_def Let_def m_def)
    have bounds: "Min (set ?as) \<le> m" "m \<le> Max (set ?as)"
      using b avg unfolding m_def by (auto simp only: split: if_splits)
    have "qs_low_amount_out s = Some (Min (set ?as))" "qs_high_amount_out s = Some (Max (set ?as))"
      "qs_successful s + qs_failed s = int (length results)"
      using ne sne by (simp_all add: assms(2) build_quote_summary_def Let_def)
    moreover have "\<exists>r \<in> set results. q_status r = OK \<and> q_amount_out r = Some (Min (set ?as))"
      "\<exists>r \<in> set results. q_status r = OK \<and> q_amount_out r = Some (Max (set ?as))"
      using mm rows by blast+
    ultimately show ?thesis using False low med bounds by (simp only: if_False) blast
  qed
qed

abbreviation example_quote :: "string \<Rightarrow> provider_status \<Rightarrow> int option \<Rightarrow> quote_result" where
  "example_quote p st v \<equiv> \<lparr>q_provider = p, q_status = st, q_token_in = None, q_token_out = None,
     q_amount_in = None, q_amount_out = v, q_amount_out_min = None, q_price_impact_bps = None,
     q_estimated_gas = None, q_latency_ms = 5, q_as_of = None, q_error = None, q_route = None,
     q_vault_context = None\<rparr>"

theorem quote_summary_correct_witness:
  "\<exists>m. qs_median_amount_out (build_quote_summary
      [example_quote ''curve'' OK (Some 7), example_quote ''enso'' OK (Some 4)]) = Some m \<and> 4 \<le> m \<and> m \<le> 7"
  using quote_summary_correct[OF _ refl,
      of "[example_quote ''curve'' OK (Some 7), example_quote ''enso'' OK (Some 4)]"]
  by (fastforce simp: valid_quote_result_def uint256_field_def MAX_UINT256_def build_quote_summary_def
      map_filter_simps Let_def)

text \<open>The summary of the prices does not depend on the order in which the providers
  answered.\<close>

theorem price_summary_order_independent:
  assumes "mset results = mset results'"
  shows "build_price_summary results = build_price_summary results'"
proof -
  have ok: "mset (filter (\<lambda>r. p_status r = OK) results) = mset (filter (\<lambda>r. p_status r = OK) results')"
    using assms by simp
  note ps = map_filter_mset[OF ok, of p_price_usd]
  have "List.map_filter p_price_usd (filter (\<lambda>r. p_status r = OK) results) = [] \<longleftrightarrow>
      List.map_filter p_price_usd (filter (\<lambda>r. p_status r = OK) results') = []"
    using ps by (metis mset_zero_iff)
  then show ?thesis
    using mset_eq_length[OF assms] mset_eq_length[OF ok] mset_eq_setD[OF ps] median_dec_mset[OF ps]
      deviation_bps_mset[OF ps]
    by (simp add: build_price_summary_def Let_def)
qed

theorem price_summary_order_independent_witness:
  "build_price_summary [example_price ''curve'' OK (Some 2), example_price ''enso'' OK (Some 4)] =
   build_price_summary [example_price ''enso'' OK (Some 4), example_price ''curve'' OK (Some 2)]"
  by (rule price_summary_order_independent) simp

end
