(* ===== verification/Aggregator.thy ===== *)
theory Aggregator
  imports VaultUnderlying Selection Runner
begin

text \<open>
  One aggregation over the providers (\<open>core/aggregator.py\<close>): the providers are chosen, vault
  tokens are replaced by their underlying ones when asked for, the providers are asked, and their
  results are adapted, ordered and summarised. The service shares its runner and its vault service
  with all requests: while it waits for one of them the others may change the other one. What the
  fan-out did (\<open>run_state\<close>) is returned beside the outcome, as an observation.
\<close>

section \<open>The service\<close>

record aggregator =
  ag_settings :: settings
  ag_registry :: registry
  ag_runner :: shared
  ag_vault :: vault_service

definition AggregatorService :: "settings \<Rightarrow> registry \<Rightarrow> aggregator res" where
  "AggregatorService s g =
     rbind (ProviderOperationRunner s) (\<lambda>runner.
     rbind (VaultUnderlyingService s) (\<lambda>vault.
       Inr \<lparr>ag_settings = s, ag_registry = g, ag_runner = runner, ag_vault = vault\<rparr>))"

record 'r agg_env =
  ae_vault :: vault_env
  ae_during_vault :: "shared \<Rightarrow> shared"
  ae_run :: "'r run_env"
  ae_during_run :: "vault_service \<Rightarrow> vault_service"

definition NO_PROVIDERS :: exc where
  "NO_PROVIDERS = InvalidRequestError ''NO_PROVIDERS'' ''No providers available for this request''"

definition effective_timeout :: "settings \<Rightarrow> int option \<Rightarrow> int" where
  "effective_timeout s timeout_ms =
     (case timeout_ms of Some t \<Rightarrow> t | None \<Rightarrow> provider_request_timeout_ms s)"

section \<open>Prices\<close>

definition vault_resolution_price_failures ::
    "plugin list \<Rightarrow> price_request \<Rightarrow> vault_resolution_failure \<Rightarrow> price_result list res" where
  "vault_resolution_price_failures plugins req failure =
     rmap_list (\<lambda>p. mk_price_result
       \<lparr>p_provider = pl_id p, p_status = ERROR, p_token = Some (pr_token req), p_price_usd = None,
        p_latency_ms = vf_latency_ms failure, p_as_of = None, p_error = Some failure_error_info,
        p_vault_context = None\<rparr>) plugins"

definition price_answers :: "settings \<Rightarrow> price_result run_env \<Rightarrow> plugin list \<Rightarrow> price_request
    \<Rightarrow> resolved_price_request \<Rightarrow> int option \<Rightarrow> shared \<Rightarrow> price_result list res \<times> price_result run_state" where
  "price_answers s env selected req resolved timeout_ms sh =
     (let resolved_req = (case timeout_ms of None \<Rightarrow> rp_request resolved
                          | Some t \<Rightarrow> (rp_request resolved)\<lparr>pr_timeout_ms := Some t\<rparr>);
          price_deadline = effective_timeout s timeout_ms + 100
      in if rp_status resolved = FAILED
         then case rp_failure resolved of
                None \<Rightarrow> (Inl (OtherException ''AssertionError''), init_run sh)
              | Some f \<Rightarrow> (vault_resolution_price_failures selected req f, init_run sh)
         else run_prices s env selected resolved_req price_deadline sh)"

definition present_prices ::
    "vault_context option \<Rightarrow> price_result list \<Rightarrow> price_result list \<times> price_summary \<times> bool" where
  "present_prices vault_context results =
     (let ordered = sort_price_results (apply_price_context vault_context results);
          summary = build_price_summary ordered
      in (ordered, summary, ps_failed summary > 0))"

definition aggregate_prices :: "chain_env \<Rightarrow> price_result agg_env \<Rightarrow> price_request \<Rightarrow> string list option \<Rightarrow> bool
    \<Rightarrow> int option \<Rightarrow> aggregator
    \<Rightarrow> (price_result list \<times> price_summary \<times> bool) res \<times> price_result run_state \<times> aggregator" where
  "aggregate_prices ce env req provider_ids use_underlying timeout_ms ag =
     (case registry_resolve (ag_registry ag) provider_ids PRICE (pr_chain_id req) of
        Inl e \<Rightarrow> (Inl e, init_run (ag_runner ag), ag)
      | Inr selected \<Rightarrow>
          if selected = [] then (Inl NO_PROVIDERS, init_run (ag_runner ag), ag)
          else
            let (r, v) = resolve_price (ag_settings ag) ce (ae_vault env) req use_underlying (ag_vault ag);
                sh = ae_during_vault env (ag_runner ag)
            in case r of
                 Inl e \<Rightarrow> (Inl e, init_run sh, ag\<lparr>ag_vault := v, ag_runner := sh\<rparr>)
               | Inr resolved \<Rightarrow>
                   let (answers, run) = price_answers (ag_settings ag) (ae_run env) selected req resolved timeout_ms sh
                   in (rbind answers (\<lambda>results. Inr (present_prices (rp_vault_context resolved) results)), run,
                       ag\<lparr>ag_vault := ae_during_run env v, ag_runner := rs_shared run\<rparr>))"

definition aggregator_circuit_open_providers :: "aggregator \<Rightarrow> int \<Rightarrow> string \<Rightarrow> rat \<Rightarrow> string set" where
  "aggregator_circuit_open_providers ag = runner_circuit_open_providers (ag_runner ag)"

section \<open>Quotes\<close>

definition vault_resolution_quote_failures ::
    "plugin list \<Rightarrow> quote_request \<Rightarrow> vault_resolution_failure \<Rightarrow> quote_result list res" where
  "vault_resolution_quote_failures plugins req failure =
     rmap_list (\<lambda>p. mk_quote_result
       \<lparr>q_provider = pl_id p, q_status = ERROR, q_token_in = Some (qr_token_in req),
        q_token_out = Some (qr_token_out req), q_amount_in = Some (qr_amount_in req), q_amount_out = None,
        q_amount_out_min = None, q_price_impact_bps = None, q_estimated_gas = None,
        q_latency_ms = vf_latency_ms failure, q_as_of = None, q_error = Some failure_error_info,
        q_route = None, q_vault_context = None\<rparr>) plugins"

definition quote_answers :: "settings \<Rightarrow> quote_result run_env \<Rightarrow> plugin list \<Rightarrow> quote_request
    \<Rightarrow> resolved_quote_request \<Rightarrow> int option \<Rightarrow> shared \<Rightarrow> quote_result list res \<times> quote_result run_state" where
  "quote_answers s env selected req resolved timeout_ms sh =
     (let resolved_req = (case timeout_ms of None \<Rightarrow> rq_request resolved
                          | Some t \<Rightarrow> (rq_request resolved)\<lparr>qr_timeout_ms := Some t\<rparr>);
          quote_deadline = effective_timeout s timeout_ms + 300
      in if rq_status resolved = FAILED
         then case rq_failure resolved of
                None \<Rightarrow> (Inl (OtherException ''AssertionError''), init_run sh)
              | Some f \<Rightarrow> (vault_resolution_quote_failures selected req f, init_run sh)
         else run_quotes s env selected resolved_req quote_deadline sh)"

definition present_quotes :: "quote_result list \<Rightarrow> quote_result list \<times> quote_summary \<times> bool" where
  "present_quotes results =
     (let ordered = sort_quote_results results; summary = build_quote_summary ordered
      in (ordered, summary, qs_failed summary > 0))"

definition aggregate_quotes :: "chain_env \<Rightarrow> quote_result agg_env \<Rightarrow> quote_request \<Rightarrow> string list option \<Rightarrow> bool
    \<Rightarrow> int option \<Rightarrow> aggregator
    \<Rightarrow> (quote_result list \<times> quote_summary \<times> bool) res \<times> quote_result run_state \<times> aggregator" where
  "aggregate_quotes ce env req provider_ids use_underlying timeout_ms ag =
     (case registry_resolve (ag_registry ag) provider_ids QUOTE (qr_chain_id req) of
        Inl e \<Rightarrow> (Inl e, init_run (ag_runner ag), ag)
      | Inr selected \<Rightarrow>
          if selected = [] then (Inl NO_PROVIDERS, init_run (ag_runner ag), ag)
          else
            let (r, v) = resolve_quote (ag_settings ag) ce (ae_vault env) req use_underlying (ag_vault ag);
                sh = ae_during_vault env (ag_runner ag)
            in case r of
                 Inl e \<Rightarrow> (Inl e, init_run sh, ag\<lparr>ag_vault := v, ag_runner := sh\<rparr>)
               | Inr resolved \<Rightarrow>
                   let (answers, run) = quote_answers (ag_settings ag) (ae_run env) selected req resolved timeout_ms sh
                   in (rbind answers (\<lambda>results.
                       rbind (apply_quote_resolution (ce_eth ce) req (rq_vault_resolution resolved) results)
                         (\<lambda>adapted. Inr (present_quotes adapted))), run,
                       ag\<lparr>ag_vault := ae_during_run env v, ag_runner := rs_shared run\<rparr>))"

section \<open>Lemmas\<close>

lemma price_failures_Inr:
  assumes "0 \<le> vf_latency_ms f"
  shows "vault_resolution_price_failures plugins req f = Inr (map (\<lambda>p.
       \<lparr>p_provider = pl_id p, p_status = ERROR, p_token = Some (pr_token req), p_price_usd = None,
        p_latency_ms = vf_latency_ms f, p_as_of = None, p_error = Some failure_error_info,
        p_vault_context = None\<rparr>) plugins)"
  unfolding vault_resolution_price_failures_def using assms
  by (induction plugins) (simp_all add: mk_price_result_def valid_price_result_def valid_price_def)

lemma init_run_views [simp]: "rs_shared (init_run sh) = sh" "rs_calls (init_run sh) = []" "rs_runnable (init_run sh) = []"
  by (simp_all add: init_run_def)

lemma apply_price_context_providers [simp]: "map p_provider (apply_price_context c rs) = map p_provider rs"
  by (auto simp: apply_price_context_def comp_def split: option.splits sum.splits)

lemma apply_price_context_status [simp]: "map p_status (apply_price_context c rs) = map p_status rs"
  by (auto simp: apply_price_context_def comp_def split: option.splits sum.splits)

lemma price_answers_provider:
  assumes "price_answers s env selected req resolved timeout_ms sh = (Inr rs, st)"
    and "waits_ok env (length (rs_runnable st))"
  shows "mset (map p_provider rs) = mset (map pl_id selected)"
proof (cases "rp_status resolved = FAILED")
  case True
  then obtain f where f: "vault_resolution_price_failures selected req f = Inr rs"
    using assms(1) by (auto simp: price_answers_def split: option.splits)
  have "map p_provider rs = map pl_id selected"
    by (rule rmap_list_map[OF f[unfolded vault_resolution_price_failures_def]]) auto
  then show ?thesis by simp
next
  case False
  then show ?thesis using assms(1) prices.run_answered[OF _ assms(2)]
    by (simp add: price_answers_def run_prices_def price_ops_def)
qed

lemma summary_counts:
  "ps_requested (build_price_summary rs) = int (length rs)"
  "0 < ps_failed (build_price_summary rs) \<longleftrightarrow> (\<exists>r \<in> set rs. p_status r \<noteq> OK)"
proof -
  have "length (filter (\<lambda>r. p_status r = OK) rs) < length rs \<longleftrightarrow> (\<exists>r \<in> set rs. p_status r \<noteq> OK)"
    by (metis (mono_tags, lifting) filter_True length_filter_less nat_neq_iff)
  then show "ps_requested (build_price_summary rs) = int (length rs)"
    "0 < ps_failed (build_price_summary rs) \<longleftrightarrow> (\<exists>r \<in> set rs. p_status r \<noteq> OK)"
    by (simp_all add: build_price_summary_def Let_def)
qed

lemma present_prices_correct:
  assumes "present_prices c rs = (ordered, summary, partial)"
  shows "mset (map p_provider ordered) = mset (map p_provider rs)
    \<and> sorted (map (\<lambda>r. (status_rank (p_status r), p_provider r)) ordered)
    \<and> summary = build_price_summary ordered \<and> (partial \<longleftrightarrow> (\<exists>r \<in> set ordered. p_status r \<noteq> OK))"
proof -
  have o: "ordered = sort_price_results (apply_price_context c rs)" "summary = build_price_summary ordered"
    "partial = (ps_failed summary > 0)" using assms by (auto simp: present_prices_def Let_def)
  have "mset (map p_provider ordered) = mset (map p_provider (apply_price_context c rs))"
    by (simp add: o(1) sort_price_results_def del: apply_price_context_providers)
  then show ?thesis using o summary_counts(2)[of ordered] by (simp add: o(1) sort_price_results_def)
qed

lemma aggregated_prices_core:
  assumes "aggregate_prices ce env req provider_ids use_underlying timeout_ms ag
      = (Inr (ordered, summary, partial), run, ag')"
    and "waits_ok (ae_run env) (length (rs_runnable run))"
  shows "\<exists>plugins. registry_resolve (ag_registry ag) provider_ids PRICE (pr_chain_id req) = Inr plugins
    \<and> plugins \<noteq> [] \<and> mset (map p_provider ordered) = mset (map pl_id plugins)
    \<and> sorted (map (\<lambda>r. (status_rank (p_status r), p_provider r)) ordered)
    \<and> summary = build_price_summary ordered \<and> ps_requested summary = int (length plugins)
    \<and> (partial \<longleftrightarrow> (\<exists>r \<in> set ordered. p_status r \<noteq> OK))"
proof -
  obtain plugins resolved v rs sh where r: "registry_resolve (ag_registry ag) provider_ids PRICE (pr_chain_id req) = Inr plugins"
      "plugins \<noteq> []"
    and a: "price_answers (ag_settings ag) (ae_run env) plugins req resolved timeout_ms sh = (Inr rs, run)"
    and p: "present_prices (rp_vault_context resolved) rs = (ordered, summary, partial)"
    using assms(1) by (auto simp: aggregate_prices_def Let_def split: sum.splits if_splits prod.splits)
  note m = price_answers_provider[OF a assms(2)] present_prices_correct[OF p]
  then have "length ordered = length plugins" by (metis mset_eq_length length_map)
  with m r summary_counts(1)[of ordered] show ?thesis by auto
qed

lemma aggregated_quotes_core:
  assumes "aggregate_quotes ce env req provider_ids use_underlying timeout_ms ag
      = (Inr (ordered, summary, partial), run, ag')"
    and "\<forall>r \<in> plugin_responses (ae_run env). valid_quote_result r"
    and "0 \<le> qr_amount_in req" "qr_amount_in req \<le> MAX_UINT256"
  shows "\<forall>r \<in> set ordered. valid_quote_result r \<and> (q_status r = OK \<longrightarrow> q_amount_in r = Some (qr_amount_in req))"
proof -
  obtain plugins resolved v rs sh adapted w where
    q: "resolve_quote (ag_settings ag) ce (ae_vault env) req use_underlying (ag_vault ag) = (Inr resolved, v)"
    and a: "quote_answers (ag_settings ag) (ae_run env) plugins req resolved timeout_ms sh = (Inr rs, w)"
    and ad: "apply_quote_resolution (ce_eth ce) req (rq_vault_resolution resolved) rs = Inr adapted"
    and o: "ordered = sort_quote_results adapted"
    using assms(1) by (auto simp: aggregate_quotes_def present_quotes_def Let_def split: sum.splits if_splits prod.splits)
  note kept = resolve_quote_request_kept[OF q]
  have valid: "valid_quote_result r" if "r \<in> set rs" for r
  proof (cases "rq_status resolved = FAILED")
    case True
    then obtain f where "vault_resolution_quote_failures plugins req f = Inr rs"
      using a by (auto simp: quote_answers_def split: option.splits)
    then show ?thesis using that by (auto simp: vault_resolution_quote_failures_def dest!: rmap_list_set)
  next
    case False
    then show ?thesis using a quote_results.run_valid[OF _ assms(2) that]
      by (simp add: quote_answers_def run_quotes_def)
  qed
  have "valid_quote_result r \<and> (q_status r = OK \<longrightarrow> q_amount_in r = Some (qr_amount_in req))"
    if r: "r \<in> set adapted" for r
  proof (cases "rq_vault_resolution resolved")
    case None
    then have rs: "r \<in> set rs" using r ad by (simp add: apply_quote_resolution_def)
    have "q_amount_in r = Some (qr_amount_in req)" if "q_status r = OK"
    proof (cases "rq_status resolved = FAILED")
      case True
      then obtain f where "vault_resolution_quote_failures plugins req f = Inr rs"
        using a by (auto simp: quote_answers_def split: option.splits)
      then show ?thesis using rs that by (auto simp: vault_resolution_quote_failures_def dest!: rmap_list_set)
    next
      case False
      obtain x where x: "run_quotes (ag_settings ag) (ae_run env) plugins x (effective_timeout (ag_settings ag) timeout_ms + 300) sh
          = (Inr rs, w)" "qr_amount_in x = qr_amount_in (rq_request resolved)"
        using a False by (cases timeout_ms) (auto simp: quote_answers_def)
      have "rq_status resolved \<noteq> RESOLVED" using resolve_quote_vaults[OF q] None by auto
      then have "rq_request resolved = req" using kept by simp
      then show ?thesis using quotes.run_fits[OF x(1)[unfolded run_quotes_def] rs that] x(2)
        by (auto simp: quote_fits_def)
    qed
    then show ?thesis using valid[OF rs] by blast
  next
    case (Some vr)
    then obtain r0 where "r0 \<in> set rs" "adapt_quote_result (ce_eth ce) req vr r0 = Inr r"
      using ad r by (auto simp: apply_quote_resolution_def dest: rmap_list_set)
    then show ?thesis using adapted_quote_result[OF valid _ assms(3,4)] by blast
  qed
  then show ?thesis by (simp add: o sort_quote_results_def)
qed

lemma adapt_quote_provider: "adapt_quote_result eth req q r = Inr r' \<Longrightarrow> q_provider r' = q_provider r"
  by (auto simp: adapt_quote_result_def mark_quote_conversion_failure_def Let_def
      split: if_splits option.splits sum.splits prod.splits)

lemma apply_quote_resolution_providers:
  "apply_quote_resolution eth req resolution rs = Inr rs' \<Longrightarrow> map q_provider rs' = map q_provider rs"
  by (auto simp: apply_quote_resolution_def adapt_quote_provider split: option.splits elim!: rmap_list_map)

lemma quote_answers_provider:
  assumes "quote_answers s env selected req resolved timeout_ms sh = (Inr rs, st)"
    and "waits_ok env (length (rs_runnable st))"
  shows "mset (map q_provider rs) = mset (map pl_id selected)"
proof (cases "rq_status resolved = FAILED")
  case True
  then obtain f where f: "vault_resolution_quote_failures selected req f = Inr rs"
    using assms(1) by (auto simp: quote_answers_def split: option.splits)
  have "map q_provider rs = map pl_id selected"
    by (rule rmap_list_map[OF f[unfolded vault_resolution_quote_failures_def]]) auto
  then show ?thesis by simp
next
  case False
  then show ?thesis using assms(1) quotes.run_answered[OF _ assms(2)]
    by (simp add: quote_answers_def run_quotes_def quote_ops_def)
qed

lemma aggregated_quote_providers:
  assumes "aggregate_quotes ce env req provider_ids use_underlying timeout_ms ag
      = (Inr (ordered, summary, partial), run, ag')"
    and "waits_ok (ae_run env) (length (rs_runnable run))"
  shows "\<exists>plugins. registry_resolve (ag_registry ag) provider_ids QUOTE (qr_chain_id req) = Inr plugins
    \<and> plugins \<noteq> [] \<and> mset (map q_provider ordered) = mset (map pl_id plugins)
    \<and> summary = build_quote_summary ordered"
proof -
  obtain plugins resolved v rs sh adapted where r: "registry_resolve (ag_registry ag) provider_ids QUOTE (qr_chain_id req) = Inr plugins"
      "plugins \<noteq> []"
    and a: "quote_answers (ag_settings ag) (ae_run env) plugins req resolved timeout_ms sh = (Inr rs, run)"
    and q: "apply_quote_resolution (ce_eth ce) req (rq_vault_resolution resolved) rs = Inr adapted"
    and p: "present_quotes adapted = (ordered, summary, partial)"
    using assms(1) by (auto simp: aggregate_quotes_def Let_def split: sum.splits if_splits prod.splits)
  have "mset (map q_provider ordered) = mset (map q_provider adapted)"
    using p by (auto simp: present_quotes_def sort_quote_results_def Let_def)
  then show ?thesis using quote_answers_provider[OF a assms(2)] apply_quote_resolution_providers[OF q] r p
    by (auto simp: present_quotes_def Let_def)
qed

text \<open>What a run or an aggregation raises: an overload, a cancellation, or the error of a data model.\<close>

definition run_error :: "exc \<Rightarrow> bool" where
  "run_error e \<longleftrightarrow> e = SERVICE_OVERLOADED \<or> e = CancelledError \<or> (\<exists>m. e = ValueError m) \<or> (\<exists>m. e = OtherException m)"

definition ops_raise_value_errors :: "('q, 'r) run_ops \<Rightarrow> 'q \<Rightarrow> bool" where
  "ops_raise_value_errors ops req \<longleftrightarrow> (\<forall>p reason e. ro_static ops p req reason = Inl e \<longrightarrow> run_error e)
     \<and> (\<forall>pid d e. ro_deadline ops pid req d = Inl e \<longrightarrow> run_error e) \<and> (\<forall>pid x e. ro_internal ops pid req x = Inl e \<longrightarrow> run_error e)"

lemma rmap_list_Inl: "rmap_list f xs = Inl e \<Longrightarrow> \<exists>x \<in> set xs. f x = Inl e"
proof (induction xs)
  case (Cons a xs)
  then show ?case by (cases "f a"; cases "rmap_list f xs") auto
qed simp

lemma acquire_provider_raises: "acquire_provider s env i pid sh = (Inl e, sh') \<Longrightarrow> run_error e"
  by (auto simp: acquire_provider_def provider_limiter_def WeightedLimiter_def run_error_def Let_def
      dest!: try_acquire_raise split: sum.splits option.splits if_splits)

lemma admit_plugin_raises:
  assumes "ops_raise_value_errors ops req" "admit_plugin s ops env req i p st = (Inl e, st')"
  shows "run_error e"
  using assms(2)
proof (cases rule: admit_plugin_cases)
  case (allowed cb st2 acq sh)
  then show ?thesis using assms(1) acquire_provider_raises
    by (auto simp: ops_raise_value_errors_def elim: add_static_cases split: sum.splits option.splits)
qed (use assms(1) in \<open>auto simp: ops_raise_value_errors_def elim!: add_static_cases\<close>)

lemma admit_all_raises:
  assumes "ops_raise_value_errors ops req" "admit_all s ops env req i ps st = (Inl e, st')"
  shows "run_error e"
  using assms(2) by (induction ps arbitrary: i st) (auto dest: admit_plugin_raises[OF assms(1)] split: sum.splits prod.splits)

lemma wait_raises:
  assumes "ops_raise_value_errors ops req" "wait_for_results ops env req d st = (Inl e, st')"
  shows "run_error e"
proof -
  have t: "run_error x" if "task_result ops req d p t = Inl x" for p t x
    using that assms(1) by (auto simp: task_result_def ops_raise_value_errors_def split: task_end.splits sum.splits if_splits)
  show ?thesis using assms
    by (auto simp: wait_for_results_def ops_raise_value_errors_def run_error_def[of CancelledError] rbind_Inl_iff
        dest!: rmap_list_Inl t split: if_splits wait_end.splits sum.splits)
qed

lemma run_raises:
  assumes "ops_raise_value_errors ops req" "run_operation s ops env plugins req d sh = (Inl e, st)"
  shows "run_error e"
proof -
  have "admit_global s env st1 = (Inl x, st2) \<Longrightarrow> run_error x" for st1 x st2
    by (auto simp: admit_global_def run_error_def Let_def dest!: try_acquire_raise split: if_splits sum.splits option.splits prod.splits)
  then show ?thesis using assms
    by (auto simp: run_operation_def run_body_def Let_def dest: admit_all_raises wait_raises split: prod.splits sum.splits)
qed

lemma price_ops_raise: "ops_raise_value_errors price_ops req"
  by (auto simp: ops_raise_value_errors_def price_ops_def static_price_result_def deadline_price_result_def
      internal_price_task_failure_result_def error_price_result_def mk_price_result_def run_error_def split_beta split: if_splits)

lemma quote_ops_raise: "ops_raise_value_errors quote_ops req"
  by (auto simp: ops_raise_value_errors_def quote_ops_def static_quote_result_def deadline_quote_result_def
      internal_quote_task_failure_result_def error_quote_result_def mk_quote_result_def run_error_def split_beta split: if_splits)

lemma resolve_price_raises: "resolve_price s ce env req use_underlying sv = (Inl e, sv') \<Longrightarrow> run_error e"
  by (auto simp: resolve_price_def failed_price_resolution_def mk_resolved_price_def on_resolution_error_def run_error_def Let_def
      dest!: try_acquire_raise split: if_splits sum.splits option.splits prod.splits exc.splits)

lemma resolve_quote_raises: "resolve_quote s ce env req use_underlying sv = (Inl e, sv') \<Longrightarrow> run_error e"
  by (auto simp: resolve_quote_def failed_quote_resolution_def mk_resolved_quote_def on_resolution_error_def run_error_def Let_def
      dest!: try_acquire_raise split: if_splits sum.splits option.splits prod.splits exc.splits)

section \<open>Properties\<close>

text \<open>C1: An aggregated price response answers every chosen provider exactly once, lists successful
  results before failed ones and each group by provider, summarises exactly the listed results
  and is marked partial exactly when one of them failed.\<close>

theorem aggregated_prices_complete:
  assumes "aggregate_prices ce env req provider_ids use_underlying timeout_ms ag
      = (Inr (ordered, summary, partial), run, ag')"
    and "waits_ok (ae_run env) (length (rs_runnable run))"
  shows "\<exists>plugins. registry_resolve (ag_registry ag) provider_ids PRICE (pr_chain_id req) = Inr plugins
    \<and> plugins \<noteq> [] \<and> mset (map p_provider ordered) = mset (map pl_id plugins)
    \<and> sorted (map (\<lambda>r. (status_rank (p_status r), p_provider r)) ordered)
    \<and> summary = build_price_summary ordered \<and> ps_requested summary = int (length plugins)
    \<and> (partial \<longleftrightarrow> (\<exists>r \<in> set ordered. p_status r \<noteq> OK))"
  by (rule aggregated_prices_core[OF assms])

definition example_aggregator :: aggregator where
  "example_aggregator = \<lparr>ag_settings = default_settings, ag_registry = ProviderRegistry default_settings,
     ag_runner = example_shared, ag_vault = example_service\<rparr>"

definition example_agg_env :: "'r run_env \<Rightarrow> 'r agg_env" where
  "example_agg_env env = \<lparr>ae_vault = example_vault_env, ae_during_vault = (\<lambda>s. s), ae_run = env,
     ae_during_run = (\<lambda>v. v)\<rparr>"

abbreviation example_aggregate ::
    "(price_result list \<times> price_summary \<times> bool) res \<times> price_result run_state \<times> aggregator" where
  "example_aggregate \<equiv> aggregate_prices example_chain_env (example_agg_env example_env) example_request
     (Some [''curve'']) False None example_aggregator"

lemma example_aggregate_result:
  "(case fst example_aggregate of Inl e \<Rightarrow> False | Inr (ordered, summary, partial) \<Rightarrow> length ordered = 1 \<and> \<not> partial)
   \<and> length (rs_runnable (fst (snd example_aggregate))) = 1"
  by code_simp

theorem aggregated_prices_complete_witness:
  "\<exists>ordered summary. fst example_aggregate = Inr (ordered, summary, False) \<and> ps_requested summary = 1
     \<and> mset (map p_provider ordered) = {#''curve''#}"
proof -
  obtain ordered summary where r: "fst example_aggregate = Inr (ordered, summary, False)" "length ordered = 1"
    using example_aggregate_result by (auto split: sum.splits)
  have run: "example_aggregate = (Inr (ordered, summary, False), fst (snd example_aggregate), snd (snd example_aggregate))"
    using r(1) by (simp add: prod_eq_iff)
  have w: "waits_ok (ae_run (example_agg_env example_env)) (length (rs_runnable (fst (snd example_aggregate))))"
    using example_aggregate_result by (simp add: waits_ok_def example_agg_env_def example_env_def)
  obtain plugins where p: "registry_resolve (ag_registry example_aggregator) (Some [''curve'']) PRICE
      (pr_chain_id example_request) = Inr plugins" and m: "mset (map p_provider ordered) = mset (map pl_id plugins)"
    "ps_requested summary = int (length plugins)"
    using aggregated_prices_complete[OF run w] by blast
  have "map pl_id plugins = [''curve'']" using resolve_requested_ids[of default_settings "[''curve'']" plugins] p
    by (simp add: registry_resolve_def example_aggregator_def split: if_splits)
  with r(1) m show ?thesis by auto
qed

text \<open>When the vault behind a requested price cannot be resolved, no provider is asked and no
  circuit or provider limiter is touched: every chosen provider gets one result that says that
  the resolution failed, and the response has no price.\<close>

theorem vault_failure_asks_no_provider:
  assumes "registry_resolve (ag_registry ag) provider_ids PRICE (pr_chain_id req) = Inr plugins" "plugins \<noteq> []"
    and "resolve_price (ag_settings ag) ce (ae_vault env) req use_underlying (ag_vault ag) = (Inr resolved, v)"
    and "rp_status resolved = FAILED"
  shows "\<exists>ordered summary. aggregate_prices ce env req provider_ids use_underlying timeout_ms ag
      = (Inr (ordered, summary, True), init_run (ae_during_vault env (ag_runner ag)),
         ag\<lparr>ag_vault := ae_during_run env v, ag_runner := ae_during_vault env (ag_runner ag)\<rparr>)
    \<and> mset (map p_provider ordered) = mset (map pl_id plugins)
    \<and> (\<forall>r \<in> set ordered. p_status r = ERROR \<and> p_error r = Some failure_error_info \<and> p_price_usd r = None)
    \<and> ps_median_price summary = None"
proof -
  note kept = resolve_price_request_kept[OF assms(3)]
  then obtain reason where f: "rp_failure resolved = Some \<lparr>vf_reason = reason, vf_latency_ms = elapsed_ms (ae_vault env)\<rparr>"
    using assms(4) by blast
  let ?rs = "map (\<lambda>p. \<lparr>p_provider = pl_id p, p_status = ERROR, p_token = Some (pr_token req), p_price_usd = None,
        p_latency_ms = elapsed_ms (ae_vault env), p_as_of = None, p_error = Some failure_error_info,
        p_vault_context = None\<rparr>) plugins"
  have a: "price_answers (ag_settings ag) (ae_run env) plugins req resolved timeout_ms sh = (Inr ?rs, init_run sh)" for sh
    using assms(4) f by (simp add: price_answers_def price_failures_Inr elapsed_ms_def)
  have c: "rp_vault_context resolved = None" using kept assms(4) by simp
  obtain ordered summary partial where p: "present_prices None ?rs = (ordered, summary, partial)" by (metis prod_cases3)
  have o: "ordered = sort_price_results ?rs" using p by (auto simp: present_prices_def apply_price_context_def Let_def)
  then have all: "\<forall>r \<in> set ordered. p_status r = ERROR \<and> p_error r = Some failure_error_info \<and> p_price_usd r = None"
    by (auto simp: sort_price_results_def)
  note pp = present_prices_correct[OF p]
  have "length ordered = length plugins" by (simp add: o sort_price_results_def)
  then obtain r where "r \<in> set ordered" using assms(2) by (cases ordered) auto
  then have "partial" using all pp by force
  moreover have "filter (\<lambda>r. p_status r = OK) ordered = []" using all by (auto simp: filter_empty_conv)
  then have "ps_median_price summary = None" using pp by (simp add: build_price_summary_def Let_def map_filter_simps)
  moreover have "mset (map p_provider ordered) = mset (map pl_id plugins)" using pp by (simp add: comp_def)
  ultimately show ?thesis using assms(1-3) a c p all by (simp add: aggregate_prices_def Let_def)
qed

theorem vault_failure_asks_no_provider_witness:
  "\<exists>ordered summary run ag. aggregate_prices example_chain_env (example_agg_env example_env) example_vault_request None True
      None (example_aggregator\<lparr>ag_vault := example_service\<lparr>vs_limiter := \<lparr>lim_capacity = 16, lim_used = 16\<rparr>\<rparr>\<rparr>)
      = (Inr (ordered, summary, True), run, ag) \<and> ps_median_price summary = None \<and> rs_calls run = []"
proof -
  let ?ag = "example_aggregator\<lparr>ag_vault := example_service\<lparr>vs_limiter := \<lparr>lim_capacity = 16, lim_used = 16\<rparr>\<rparr>\<rparr>"
  let ?env = "example_agg_env example_env"
  let ?g = "registry_resolve (ag_registry ?ag) None PRICE (pr_chain_id example_vault_request)"
  let ?r = "resolve_price (ag_settings ?ag) example_chain_env (ae_vault ?env) example_vault_request True (ag_vault ?ag)"
  have "case ?g of Inl e \<Rightarrow> False | Inr ps \<Rightarrow> ps \<noteq> []" by code_simp
  then obtain plugins where g: "?g = Inr plugins" "plugins \<noteq> []" by (auto split: sum.splits)
  have "case fst ?r of Inl e \<Rightarrow> False | Inr x \<Rightarrow> rp_status x = FAILED" by code_simp
  then obtain resolved where x: "fst ?r = Inr resolved" "rp_status resolved = FAILED" by (auto split: sum.splits)
  then have run: "?r = (Inr resolved, snd ?r)" by (simp add: prod_eq_iff)
  obtain ordered summary ag where "aggregate_prices example_chain_env ?env example_vault_request None True None ?ag
      = (Inr (ordered, summary, True), init_run (ae_during_vault ?env (ag_runner ?ag)), ag)"
    "ps_median_price summary = None"
    using vault_failure_asks_no_provider[OF g run x(2), of None] by (elim exE conjE) (rule that)
  then show ?thesis by (intro exI conjI) (assumption, assumption, rule init_run_views(2))
qed

text \<open>The usage of all limiters, and an environment in which nobody else uses them.\<close>

definition undisturbed :: "'r agg_env \<Rightarrow> bool" where
  "undisturbed env \<longleftrightarrow> quiet_env (ae_run env) \<and> quiet (ve_wakes (ae_vault env))
     \<and> ve_others (ae_vault env) = (\<lambda>l. l) \<and> ae_during_vault env = (\<lambda>s. s) \<and> ae_during_run env = (\<lambda>v. v)"

definition usage_ok :: "aggregator \<Rightarrow> bool" where
  "usage_ok ag \<longleftrightarrow> (\<forall>k. 0 \<le> provider_used (ag_runner ag) k) \<and> 0 \<le> lim_used (get_global (ag_runner ag))
     \<and> 0 \<le> lim_used (vs_limiter (ag_vault ag))"

definition same_usage :: "aggregator \<Rightarrow> aggregator \<Rightarrow> bool" where
  "same_usage a b \<longleftrightarrow> (\<forall>k. provider_used (ag_runner a) k = provider_used (ag_runner b) k)
     \<and> get_global (ag_runner a) = get_global (ag_runner b) \<and> vs_limiter (ag_vault a) = vs_limiter (ag_vault b)"

lemma price_answers_usage:
  assumes "price_answers s env ps req resolved tm sh = (x, st)" "quiet_env env"
    "\<forall>k. 0 \<le> provider_used sh k" "0 \<le> lim_used (get_global sh)"
  shows "provider_used (rs_shared st) k = provider_used sh k \<and> get_global (rs_shared st) = get_global sh"
proof (cases "rp_status resolved = FAILED")
  case True
  then show ?thesis using assms(1) by (auto simp: price_answers_def split: option.splits)
next
  case False
  then obtain q d where "run_operation s price_ops env ps q d sh = (x, st)"
    using assms(1) by (auto simp: price_answers_def run_prices_def Let_def)
  then show ?thesis by (rule quiet_run_restores_limiters[OF assms(2) _ assms(3,4)])
qed

lemma quote_answers_usage:
  assumes "quote_answers s env ps req resolved tm sh = (x, st)" "quiet_env env"
    "\<forall>k. 0 \<le> provider_used sh k" "0 \<le> lim_used (get_global sh)"
  shows "provider_used (rs_shared st) k = provider_used sh k \<and> get_global (rs_shared st) = get_global sh"
proof (cases "rq_status resolved = FAILED")
  case True
  then show ?thesis using assms(1) by (auto simp: quote_answers_def split: option.splits)
next
  case False
  then obtain q d where "run_operation s quote_ops env ps q d sh = (x, st)"
    using assms(1) by (auto simp: quote_answers_def run_quotes_def Let_def)
  then show ?thesis by (rule quiet_run_restores_limiters[OF assms(2) _ assms(3,4)])
qed

text \<open>C3: When no other request interferes, aggregating prices or quotes gives back every unit of
  capacity it took, of the providers, of the process and of the vault resolution, whatever the
  outcome: an answer, an unknown provider, an overload, a cancellation.\<close>

theorem aggregation_restores_capacity:
  assumes "undisturbed env" "undisturbed qenv" "usage_ok ag"
  shows "same_usage (snd (snd (aggregate_prices ce env req ids use_underlying tm ag))) ag
    \<and> same_usage (snd (snd (aggregate_quotes ce qenv qreq ids use_underlying tm ag))) ag"
proof
  have same: "same_usage ag ag" by (simp add: same_usage_def)
  have u: "\<forall>k. 0 \<le> provider_used (ag_runner ag) k" "0 \<le> lim_used (get_global (ag_runner ag))"
    "0 \<le> lim_used (vs_limiter (ag_vault ag))" using assms(3) by (simp_all add: usage_ok_def)
  note e = assms(1)[unfolded undisturbed_def] and f = assms(2)[unfolded undisturbed_def]
  obtain r v where v: "resolve_price (ag_settings ag) ce (ae_vault env) req use_underlying (ag_vault ag) = (r, v)" by fastforce
  have vl: "vs_limiter v = vs_limiter (ag_vault ag)"
    using vault_resolution_restores_limiter[of "ae_vault env" "ag_vault ag"] e u(3) v by (metis snd_conv)
  show "same_usage (snd (snd (aggregate_prices ce env req ids use_underlying tm ag))) ag"
    using e same v vl price_answers_usage[OF _ _ u(1,2)]
    by (auto simp: aggregate_prices_def same_usage_def Let_def split: sum.splits prod.splits)
  obtain q w where w: "resolve_quote (ag_settings ag) ce (ae_vault qenv) qreq use_underlying (ag_vault ag) = (q, w)" by fastforce
  have wl: "vs_limiter w = vs_limiter (ag_vault ag)"
    using vault_resolution_restores_limiter[of "ae_vault qenv" "ag_vault ag"] f u(3) w by (metis snd_conv)
  show "same_usage (snd (snd (aggregate_quotes ce qenv qreq ids use_underlying tm ag))) ag"
    using f same w wl quote_answers_usage[OF _ _ u(1,2)]
    by (auto simp: aggregate_quotes_def same_usage_def Let_def split: sum.splits prod.splits)
qed

theorem aggregation_restores_capacity_witness:
  "same_usage (snd (snd example_aggregate)) example_aggregator"
proof -
  have "undisturbed (example_agg_env example_env)" "undisturbed (example_agg_env example_quote_env)"
    by (simp_all add: undisturbed_def example_agg_env_def quiet_env_def quiet_def example_env_def
        example_quote_env_def example_vault_env_def)
  moreover have "usage_ok example_aggregator"
    by (simp add: usage_ok_def example_aggregator_def example_shared_def provider_used_def get_global_def example_service_def)
  ultimately show ?thesis using aggregation_restores_capacity by blast
qed

text \<open>C2: When the plugins return quote results as the model class constructs them, every result of an
  aggregated quote is valid again after the conversion to vault shares, and every success states
  the input amount of the caller's request, also when the providers were asked for another one.\<close>

theorem aggregated_quotes_sound:
  assumes "aggregate_quotes ce env req provider_ids use_underlying timeout_ms ag
      = (Inr (ordered, summary, partial), run, ag')"
    and "\<forall>r \<in> plugin_responses (ae_run env). valid_quote_result r"
    and "0 \<le> qr_amount_in req" "qr_amount_in req \<le> MAX_UINT256"
  shows "\<forall>r \<in> set ordered. valid_quote_result r \<and> (q_status r = OK \<longrightarrow> q_amount_in r = Some (qr_amount_in req))"
  by (rule aggregated_quotes_core[OF assms])

abbreviation example_quote_aggregate ::
    "(quote_result list \<times> quote_summary \<times> bool) res \<times> quote_result run_state \<times> aggregator" where
  "example_quote_aggregate \<equiv> aggregate_quotes example_chain_env (example_agg_env example_quote_env)
     example_quote_request (Some [''curve'']) False None example_aggregator"

theorem aggregated_quotes_sound_witness:
  "\<exists>ordered summary partial. fst example_quote_aggregate = Inr (ordered, summary, partial) \<and> ordered \<noteq> []
     \<and> list_all valid_quote_result ordered \<and> q_status (hd ordered) = OK \<and> q_amount_in (hd ordered) = Some 5"
proof -
  have "case fst example_quote_aggregate of Inl e \<Rightarrow> False | Inr (ordered, summary, partial) \<Rightarrow>
      length ordered = 1 \<and> q_status (hd ordered) = OK"
    by code_simp
  then obtain ordered summary partial where r: "fst example_quote_aggregate = Inr (ordered, summary, partial)"
    "length ordered = 1" "q_status (hd ordered) = OK" by (auto split: sum.splits)
  have run: "example_quote_aggregate = (Inr (ordered, summary, partial), fst (snd example_quote_aggregate),
      snd (snd example_quote_aggregate))" using r(1) by (simp add: prod_eq_iff)
  have v: "\<forall>x \<in> plugin_responses (ae_run (example_agg_env example_quote_env)). valid_quote_result x"
    by (simp add: plugin_responses_def example_agg_env_def example_quote_env_def valid_quote_result_def
        uint256_field_def MAX_UINT256_def)
  have "\<forall>x \<in> set ordered. valid_quote_result x \<and> (q_status x = OK \<longrightarrow> q_amount_in x = Some 5)"
    using aggregated_quotes_sound[OF run v] by (simp add: MAX_UINT256_def)
  moreover have "ordered \<noteq> []" using r(2) by auto
  ultimately show ?thesis using r(1,3) by (intro exI conjI) (auto simp: list_all_iff)
qed

end
