(* ===== verification/Endpoints.thy ===== *)
theory Endpoints
  imports Aggregator TokenMetadata HttpClient Parsing
begin

text \<open>
  The endpoints (\<open>api/routes\<close>, \<open>api/schemas\<close>): validation and normalisation of the requests, the calls of the
  aggregator and of the metadata resolver, the assembly of the responses, the mapping of exceptions to statuses.
  Routing, the coercion of query parameters and the printing of JSON are FastAPI; the time of retrieval, a wall
  clock reading, is left out.
\<close>

section \<open>Replies\<close>

text \<open>A body, an error with its status, type, message and extra headers, a query the framework refuses before the
  handler runs (422), or an exception no handler takes.\<close>

datatype 'a reply =
  Reply 'a | Http_error int string string "(string \<times> string) list" | Unprocessable_query | Unhandled exc

fun exc_reply :: "exc \<Rightarrow> 'a reply" where
  "exc_reply (InvalidRequestError t m) = Http_error 400 t m []"
| "exc_reply e = Unhandled e"

fun aggregate_exc_reply :: "exc \<Rightarrow> 'a reply" where
  "aggregate_exc_reply (AdmissionRejectedError t m status_code retry_after_seconds) =
     Http_error status_code t m [(''Retry-After'', int_str retry_after_seconds)]"
| "aggregate_exc_reply e = exc_reply e"

section \<open>Requests\<close>

definition parse_provider_query_values :: "string list option \<Rightarrow> string list option" where
  "parse_provider_query_values values =
     (case values of
        None \<Rightarrow> None
      | Some vs \<Rightarrow>
          let flattened = concat (map (\<lambda>item. filter (\<lambda>p. p \<noteq> []) (map py_strip (py_split_on (CHR '','') item))) vs)
          in if flattened = [] then None else Some flattened)"

fun normalize_provider_ids :: "string list \<Rightarrow> string set \<Rightarrow> string list" where
  "normalize_provider_ids [] seen = []"
| "normalize_provider_ids (provider # rest) seen =
     (let provider_id = py_lower (py_strip provider) in
      if provider_id = [] \<or> provider_id \<in> seen then normalize_provider_ids rest seen
      else provider_id # normalize_provider_ids rest (insert provider_id seen))"

record base_payload =
  pa_chain_id :: int
  pa_providers :: "string list option"
  pa_use_underlying :: bool

record price_payload = base_payload +
  pa_token :: string

record quote_payload = base_payload +
  pa_token_in :: string
  pa_token_out :: string
  pa_amount_in :: string
  pa_include_route :: bool

definition payload_providers :: "string list option \<Rightarrow> string list option" where
  "payload_providers v = map_option (\<lambda>ps. normalize_provider_ids ps {}) v"

definition mk_price_payload :: "int \<Rightarrow> string \<Rightarrow> string list option \<Rightarrow> bool \<Rightarrow> price_payload res" where
  "mk_price_payload chain_id token providers use_underlying =
     (if chain_id \<le> 0 \<or> length token < 42 then Inl (ValueError ''validation'')
      else Inr \<lparr>pa_chain_id = chain_id, pa_providers = payload_providers providers, pa_use_underlying = use_underlying,
                pa_token = token\<rparr>)"

definition mk_quote_payload ::
    "int \<Rightarrow> string \<Rightarrow> string \<Rightarrow> string \<Rightarrow> string list option \<Rightarrow> bool \<Rightarrow> bool \<Rightarrow> quote_payload res" where
  "mk_quote_payload chain_id token_in token_out amount_in providers include_route use_underlying =
     (if chain_id \<le> 0 \<or> length token_in < 42 \<or> length token_out < 42 then Inl (ValueError ''validation'')
      else Inr \<lparr>pa_chain_id = chain_id, pa_providers = payload_providers providers, pa_use_underlying = use_underlying,
                pa_token_in = token_in, pa_token_out = token_out, pa_amount_in = amount_in,
                pa_include_route = include_route\<rparr>)"

text \<open>The constraints the routes declare on their query parameters.\<close>

definition token_query_ok :: "string \<Rightarrow> bool" where
  "token_query_ok token = (length token \<ge> 42)"

definition timeout_query_ok :: "int option \<Rightarrow> bool" where
  "timeout_query_ok timeout_ms =
     (case timeout_ms of None \<Rightarrow> True | Some t \<Rightarrow> MIN_REQUEST_TIMEOUT_MS \<le> t \<and> t \<le> MAX_REQUEST_TIMEOUT_MS)"

section \<open>Responses\<close>

record metadata_response =
  mt_chain_id :: int
  mt_address :: string
  mt_symbol :: "string option"
  mt_decimals :: "int option"
  mt_logo_url :: "string option"

record price_vault_context =
  pv_vault_type :: "vault_type option"
  pv_underlying_token :: "string option"
  pv_price_per_share :: rat
  pv_block_number :: int

record price_entry =
  pe_status :: provider_status
  pe_success :: bool
  pe_price :: "rat option"
  pe_latency_ms :: int
  pe_as_of :: "rat option"
  pe_error :: "error_info option"

record selected_price =
  sl_provider :: string
  sl_price :: "rat option"
  sl_latency_ms :: int
  sl_as_of :: "rat option"
  sl_vault_context :: "price_vault_context option"

record price_response =
  px_request_id :: string
  px_chain_id :: int
  px_token :: metadata_response
  px_provider_order :: "string list"
  px_price_data :: "selected_price option"
  px_providers :: "(string, price_entry) odict"
  px_summary :: price_summary

record quote_vault_context =
  qv_vault_type :: "vault_type option"
  qv_underlying_token_in :: "string option"
  qv_underlying_token_out :: "string option"
  qv_price_per_share_token_in :: "rat option"
  qv_price_per_share_token_out :: "rat option"
  qv_block_number :: int

record quote_entry =
  qe_status :: provider_status
  qe_success :: bool
  qe_amount_in :: "string option"
  qe_amount_out :: "string option"
  qe_amount_out_min :: "string option"
  qe_price_impact_bps :: "int option"
  qe_estimated_gas :: "int option"
  qe_latency_ms :: int
  qe_as_of :: "rat option"
  qe_error :: "error_info option"
  qe_route :: "(string \<times> json) list option"

record selected_quote =
  sq_provider :: string
  sq_amount_in :: "string option"
  sq_amount_out :: "string option"
  sq_amount_out_min :: "string option"
  sq_price_impact_bps :: "int option"
  sq_estimated_gas :: "int option"
  sq_latency_ms :: int
  sq_as_of :: "rat option"
  sq_route :: "(string \<times> json) list option"
  sq_vault_context :: "quote_vault_context option"

record quote_summary_response =
  su_requested :: int
  su_successful :: int
  su_failed :: int
  su_high_amount_out :: "string option"
  su_low_amount_out :: "string option"
  su_median_amount_out :: "string option"

record quote_response =
  qx_request_id :: string
  qx_chain_id :: int
  qx_token_in :: metadata_response
  qx_token_out :: metadata_response
  qx_provider_order :: "string list"
  qx_quote :: "selected_quote option"
  qx_providers :: "(string, quote_entry) odict"
  qx_summary :: quote_summary_response

record token_response =
  tx_request_id :: string
  tx_chain_id :: int
  tx_token :: metadata_response

definition metadata_for_address :: "eth_lib \<Rightarrow> (string, token_metadata) odict \<Rightarrow> token_ref \<Rightarrow> metadata_response res" where
  "metadata_for_address eth metadata token =
     rbind (case map_of metadata (tr_address token) of
         Some m \<Rightarrow> Inr m
       | None \<Rightarrow> rbind (token_logo_url eth (tr_chain_id token) (tr_address token)) (\<lambda>url.
           mk_token_metadata eth (tr_chain_id token) (tr_address token) (tr_symbol token) (tr_decimals token) (Some url)
             (Some ''fallback''))) (\<lambda>m.
     rbind (token_logo_url eth (tm_chain_id m) (tm_address m)) (\<lambda>url.
       Inr \<lparr>mt_chain_id = tm_chain_id m, mt_address = tm_address m, mt_symbol = tm_symbol m, mt_decimals = tm_decimals m,
            mt_logo_url = Some url\<rparr>))"

text \<open>The metadata of a remapped token under the address the client asked for.\<close>

definition copy_metadata ::
    "token_ref option \<Rightarrow> token_ref \<Rightarrow> (string, token_metadata) odict \<Rightarrow> (string, token_metadata) odict" where
  "copy_metadata original target metadata =
     (case original of
        None \<Rightarrow> metadata
      | Some orig \<Rightarrow> (case map_of metadata (tr_address target) of
            None \<Rightarrow> metadata
          | Some m \<Rightarrow> AList.update (tr_address orig) (m\<lparr>tm_address := tr_address orig\<rparr>) metadata))"

section \<open>The endpoints\<close>

record api_state =
  as_aggregator :: aggregator
  as_metadata :: metadata_resolver

record 'r api_env =
  an_chain :: chain_env
  an_aggregate :: "'r agg_env"
  an_token_abi :: token_abi
  an_resolve :: resolve_env
  an_request_id :: string

text \<open>The resolution of the metadata and the observation of the remapped addresses, after the aggregation.\<close>

definition resolve_and_observe ::
    "eth_lib \<Rightarrow> int \<Rightarrow> (metadata_resolver \<Rightarrow> (string, token_metadata) odict res \<times> metadata_resolver) \<Rightarrow> string list
     \<Rightarrow> metadata_resolver \<Rightarrow> (string, token_metadata) odict res \<times> metadata_resolver" where
  "resolve_and_observe eth chain_id resolve originals mv =
     (case resolve mv of
        (Inl e, mv1) \<Rightarrow> (Inl e, mv1)
      | (Inr metadata, mv1) \<Rightarrow>
          if originals = [] then (Inr metadata, mv1)
          else (case observe_identities eth chain_id originals mv1 of
              (Inl e, mv2) \<Rightarrow> (Inl e, mv2)
            | (Inr _, mv2) \<Rightarrow> (Inr metadata, mv2)))"

definition to_price_vault_context :: "vault_context option \<Rightarrow> price_vault_context option" where
  "to_price_vault_context vc =
     (case vc of
        None \<Rightarrow> None
      | Some v \<Rightarrow> (case vc_price_per_share v of
            None \<Rightarrow> None
          | Some p \<Rightarrow> Some \<lparr>pv_vault_type = vc_vault_type v, pv_underlying_token = vc_underlying_token v,
                pv_price_per_share = p, pv_block_number = vc_block_number v\<rparr>))"

definition price_entry_of :: "price_result \<Rightarrow> price_entry" where
  "price_entry_of r = \<lparr>pe_status = p_status r, pe_success = success (p_status r), pe_price = p_price_usd r,
     pe_latency_ms = p_latency_ms r, pe_as_of = p_as_of r, pe_error = p_error r\<rparr>"

definition selected_price_of :: "price_result \<Rightarrow> selected_price" where
  "selected_price_of r = \<lparr>sl_provider = p_provider r, sl_price = p_price_usd r, sl_latency_ms = p_latency_ms r,
     sl_as_of = p_as_of r, sl_vault_context = to_price_vault_context (p_vault_context r)\<rparr>"

definition entries_in_order :: "('r \<Rightarrow> 'e) \<Rightarrow> string list \<Rightarrow> (string, 'r) odict \<Rightarrow> (string, 'e) odict" where
  "entries_in_order entry order by_provider =
     List.map_filter (\<lambda>p. map_option (\<lambda>r. (p, entry r)) (map_of by_provider p)) order"

definition handle_price_request ::
    "price_result api_env \<Rightarrow> settings \<Rightarrow> price_payload \<Rightarrow> int option \<Rightarrow> api_state \<Rightarrow> price_response reply \<times> api_state" where
  "handle_price_request env s payload timeout_ms st =
     (let eth = ce_eth (an_chain env) in
      case normalize_price_request eth (pa_chain_id payload) (pa_token payload) of
        Inl e \<Rightarrow> (exc_reply e, st)
      | Inr (normalized, original) \<Rightarrow>
        let response_token = (case original of Some orig \<Rightarrow> orig | None \<Rightarrow> pr_token normalized);
            (aggregated, _, ag) = aggregate_prices (an_chain env) (an_aggregate env) normalized (pa_providers payload)
              (pa_use_underlying payload) timeout_ms (as_aggregator st)
        in case aggregated of
             Inl e \<Rightarrow> (aggregate_exc_reply e, st\<lparr>as_aggregator := ag\<rparr>)
           | Inr (results, summary, _) \<Rightarrow>
             let order = build_provider_order (map p_provider results) (pa_providers payload) (price_provider_priority s);
                 by_provider = index_price_results results;
                 (resolved, mv) = resolve_and_observe eth (pa_chain_id payload)
                   (resolve_from_price_results eth (an_token_abi env) (ce_answers (an_chain env)) (an_resolve env)
                      (pa_chain_id payload) (pr_token normalized) results)
                   (case original of None \<Rightarrow> [] | Some orig \<Rightarrow> [tr_address orig]) (as_metadata st);
                 st1 = st\<lparr>as_aggregator := ag, as_metadata := mv\<rparr>
             in case resolved of
                  Inl e \<Rightarrow> (exc_reply e, st1)
                | Inr metadata \<Rightarrow>
                  (case metadata_for_address eth (copy_metadata original (pr_token normalized) metadata) response_token of
                     Inl e \<Rightarrow> (exc_reply e, st1)
                   | Inr token \<Rightarrow>
                       (Reply \<lparr>px_request_id = an_request_id env, px_chain_id = pa_chain_id payload, px_token = token,
                          px_provider_order = order,
                          px_price_data = map_option selected_price_of (select_price_result order by_provider),
                          px_providers = entries_in_order price_entry_of order by_provider, px_summary = summary\<rparr>, st1)))"

definition price_endpoint ::
    "price_result api_env \<Rightarrow> settings \<Rightarrow> string \<Rightarrow> int \<Rightarrow> string list option \<Rightarrow> bool \<Rightarrow> int option \<Rightarrow> api_state
     \<Rightarrow> price_response reply \<times> api_state" where
  "price_endpoint env s token chain_id providers use_underlying timeout_ms st =
     (if \<not> (token_query_ok token \<and> chain_id > 0 \<and> timeout_query_ok timeout_ms) then (Unprocessable_query, st)
      else case mk_price_payload chain_id token (parse_provider_query_values providers) use_underlying of
        Inl e \<Rightarrow> (Unhandled e, st)
      | Inr payload \<Rightarrow> handle_price_request env s payload timeout_ms st)"

definition base_unit_string :: "int option \<Rightarrow> string option" where
  "base_unit_string v = map_option int_str v"

definition to_quote_vault_context :: "vault_context option \<Rightarrow> quote_vault_context option" where
  "to_quote_vault_context vc =
     map_option (\<lambda>v. \<lparr>qv_vault_type = vc_vault_type v, qv_underlying_token_in = vc_underlying_token_in v,
       qv_underlying_token_out = vc_underlying_token_out v, qv_price_per_share_token_in = vc_price_per_share_token_in v,
       qv_price_per_share_token_out = vc_price_per_share_token_out v, qv_block_number = vc_block_number v\<rparr>) vc"

definition quote_entry_of :: "quote_result \<Rightarrow> quote_entry" where
  "quote_entry_of r = \<lparr>qe_status = q_status r, qe_success = success (q_status r), qe_amount_in = base_unit_string (q_amount_in r),
     qe_amount_out = base_unit_string (q_amount_out r), qe_amount_out_min = base_unit_string (q_amount_out_min r),
     qe_price_impact_bps = q_price_impact_bps r, qe_estimated_gas = q_estimated_gas r, qe_latency_ms = q_latency_ms r,
     qe_as_of = q_as_of r, qe_error = q_error r, qe_route = q_route r\<rparr>"

definition selected_quote_of :: "quote_result \<Rightarrow> selected_quote" where
  "selected_quote_of r = \<lparr>sq_provider = q_provider r, sq_amount_in = base_unit_string (q_amount_in r),
     sq_amount_out = base_unit_string (q_amount_out r), sq_amount_out_min = base_unit_string (q_amount_out_min r),
     sq_price_impact_bps = q_price_impact_bps r, sq_estimated_gas = q_estimated_gas r, sq_latency_ms = q_latency_ms r,
     sq_as_of = q_as_of r, sq_route = q_route r, sq_vault_context = to_quote_vault_context (q_vault_context r)\<rparr>"

definition quote_summary_of :: "quote_summary \<Rightarrow> quote_summary_response" where
  "quote_summary_of q = \<lparr>su_requested = qs_requested q, su_successful = qs_successful q, su_failed = qs_failed q,
     su_high_amount_out = base_unit_string (qs_high_amount_out q), su_low_amount_out = base_unit_string (qs_low_amount_out q),
     su_median_amount_out = base_unit_string (qs_median_amount_out q)\<rparr>"

definition originals_of :: "token_ref option list \<Rightarrow> string list" where
  "originals_of refs = map tr_address (List.map_filter id refs)"

definition handle_quote_request ::
    "quote_result api_env \<Rightarrow> settings \<Rightarrow> quote_payload \<Rightarrow> int option \<Rightarrow> api_state \<Rightarrow> quote_response reply \<times> api_state" where
  "handle_quote_request env s payload timeout_ms st =
     (let eth = ce_eth (an_chain env) in
      case normalize_quote_request eth (pa_chain_id payload) (pa_token_in payload) (pa_token_out payload) (pa_amount_in payload) of
        Inl e \<Rightarrow> (exc_reply e, st)
      | Inr (normalized, original_in, original_out) \<Rightarrow>
        let response_in = (case original_in of Some orig \<Rightarrow> orig | None \<Rightarrow> qr_token_in normalized);
            response_out = (case original_out of Some orig \<Rightarrow> orig | None \<Rightarrow> qr_token_out normalized);
            (aggregated, _, ag) = aggregate_quotes (an_chain env) (an_aggregate env) normalized (pa_providers payload)
              (pa_use_underlying payload) timeout_ms (as_aggregator st)
        in case aggregated of
             Inl e \<Rightarrow> (aggregate_exc_reply e, st\<lparr>as_aggregator := ag\<rparr>)
           | Inr (answered, summary, _) \<Rightarrow>
             let results = (if pa_include_route payload then answered else map (\<lambda>r. r\<lparr>q_route := None\<rparr>) answered);
                 order = build_provider_order (map q_provider results) (pa_providers payload) (quote_provider_priority s);
                 by_provider = index_quote_results results;
                 (resolved, mv) = resolve_and_observe eth (pa_chain_id payload)
                   (resolve_from_quote_results eth (an_token_abi env) (ce_answers (an_chain env)) (an_resolve env)
                      (pa_chain_id payload) (qr_token_in normalized) (qr_token_out normalized) results)
                   (originals_of [original_in, original_out]) (as_metadata st);
                 st1 = st\<lparr>as_aggregator := ag, as_metadata := mv\<rparr>
             in case resolved of
                  Inl e \<Rightarrow> (exc_reply e, st1)
                | Inr found \<Rightarrow>
                  let metadata = copy_metadata original_out (qr_token_out normalized)
                        (copy_metadata original_in (qr_token_in normalized) found)
                  in case rbind (metadata_for_address eth metadata response_in) (\<lambda>tin.
                          rbind (metadata_for_address eth metadata response_out) (\<lambda>tout. Inr (tin, tout))) of
                       Inl e \<Rightarrow> (exc_reply e, st1)
                     | Inr (token_in, token_out) \<Rightarrow>
                         (Reply \<lparr>qx_request_id = an_request_id env, qx_chain_id = pa_chain_id payload, qx_token_in = token_in,
                            qx_token_out = token_out, qx_provider_order = order,
                            qx_quote = map_option selected_quote_of (select_quote_result order by_provider),
                            qx_providers = entries_in_order quote_entry_of order by_provider,
                            qx_summary = quote_summary_of summary\<rparr>, st1))"

definition quote_endpoint ::
    "quote_result api_env \<Rightarrow> settings \<Rightarrow> string \<Rightarrow> string \<Rightarrow> string \<Rightarrow> int \<Rightarrow> string list option \<Rightarrow> bool \<Rightarrow> bool \<Rightarrow> int option
     \<Rightarrow> api_state \<Rightarrow> quote_response reply \<times> api_state" where
  "quote_endpoint env s token_in token_out amount_in chain_id providers include_route use_underlying timeout_ms st =
     (if \<not> (token_query_ok token_in \<and> token_query_ok token_out \<and> chain_id > 0 \<and> timeout_query_ok timeout_ms)
      then (Unprocessable_query, st)
      else case mk_quote_payload chain_id token_in token_out amount_in (parse_provider_query_values providers) include_route use_underlying of
        Inl e \<Rightarrow> (Unhandled e, st)
      | Inr payload \<Rightarrow> handle_quote_request env s payload timeout_ms st)"

definition token_endpoint ::
    "eth_lib \<Rightarrow> token_abi \<Rightarrow> rpc_answer \<Rightarrow> resolve_env \<Rightarrow> string \<Rightarrow> string \<Rightarrow> int \<Rightarrow> metadata_resolver
     \<Rightarrow> token_response reply \<times> metadata_resolver" where
  "token_endpoint eth abi ans env request_id token chain_id mv =
     (if \<not> (token_query_ok token \<and> chain_id > 0) then (Unprocessable_query, mv)
      else case normalize_token_request eth chain_id token of
        Inl e \<Rightarrow> (exc_reply e, mv)
      | Inr (normalized, original) \<Rightarrow>
        (case resolve_and_observe eth chain_id (resolve_token eth abi ans env chain_id normalized)
            (case original of None \<Rightarrow> [] | Some orig \<Rightarrow> [tr_address orig]) mv of
           (Inl e, mv1) \<Rightarrow> (exc_reply e, mv1)
         | (Inr metadata, mv1) \<Rightarrow>
             (case metadata_for_address eth (copy_metadata original normalized metadata)
                 (case original of Some orig \<Rightarrow> orig | None \<Rightarrow> normalized) of
                Inl e \<Rightarrow> (exc_reply e, mv1)
              | Inr t \<Rightarrow> (Reply \<lparr>tx_request_id = request_id, tx_chain_id = chain_id, tx_token = t\<rparr>, mv1))))"

section \<open>Readiness\<close>

datatype check_value = Check_bool bool | Check_int int | Check_str string

record ready_response =
  rd_status :: string
  rd_checks :: "(string, check_value) odict"

definition available_at :: "registry \<Rightarrow> operation \<Rightarrow> int \<Rightarrow> string set" where
  "available_at g op chain_id = set (available_provider_ids g op (Some chain_id))"

text \<open>The breaker is read once per chain and operation; \<open>now\<close> is the clock of each reading.\<close>

definition ready_providers :: "registry \<Rightarrow> aggregator \<Rightarrow> int list \<Rightarrow> (int \<Rightarrow> operation \<Rightarrow> rat) \<Rightarrow> operation \<Rightarrow> string set" where
  "ready_providers g ag cids now op =
     \<Union> (set (map (\<lambda>c. available_at g op c - aggregator_circuit_open_providers ag c (operation_value op) (now c op)) cids))"

definition blocked_providers :: "registry \<Rightarrow> aggregator \<Rightarrow> int list \<Rightarrow> (int \<Rightarrow> operation \<Rightarrow> rat) \<Rightarrow> string set" where
  "blocked_providers g ag cids now =
     \<Union> (set (concat (map (\<lambda>c. map (\<lambda>op. available_at g op c
        \<inter> aggregator_circuit_open_providers ag c (operation_value op) (now c op)) [PRICE, QUOTE]) cids)))"

definition unready_reason ::
    "settings \<Rightarrow> nat \<Rightarrow> string set \<Rightarrow> string set \<Rightarrow> string set \<Rightarrow> string set \<Rightarrow> bool \<Rightarrow> bool \<Rightarrow> string option" where
  "unready_reason s available price_providers ready_price quote_providers ready_quote unhealthy exceeded =
     (if enable_readiness_strict s \<and> available = 0 then Some ''no_available_providers''
      else if price_providers \<noteq> {} \<and> ready_price = {} then Some ''no_ready_price_providers''
      else if quote_providers \<noteq> {} \<and> ready_quote = {} then Some ''no_ready_quote_providers''
      else if unhealthy then Some ''provider_transport_unhealthy''
      else if exceeded then Some ''close_wait_threshold_exceeded''
      else None)"

record ready_env =
  ry_breaker_now :: "int \<Rightarrow> operation \<Rightarrow> rat"
  ry_close_wait :: "int option"
  ry_recycle_now :: "string \<Rightarrow> rat \<times> rat"
  ry_health_now :: "string \<Rightarrow> rat"

definition ready_endpoint ::
    "ready_env \<Rightarrow> settings \<Rightarrow> registry \<Rightarrow> aggregator \<Rightarrow> (string, http_client) odict
     \<Rightarrow> (int \<times> ready_response) \<times> (string, http_client) odict" where
  "ready_endpoint env s g ag clients =
     (let available_count = available_provider_count g None;
          price_providers = set (available_provider_ids g PRICE None);
          quote_providers = set (available_provider_ids g QUOTE None);
          ready_price = ready_providers g ag (chain_ids s) (ry_breaker_now env) PRICE;
          ready_quote = ready_providers g ag (chain_ids s) (ry_breaker_now env) QUOTE;
          exceeded = (case ry_close_wait env of None \<Rightarrow> False | Some n \<Rightarrow> n > close_wait_ready_threshold s);
          clients1 = (if exceeded then recycle_transports ''close_wait'' (ry_recycle_now env) clients else clients);
          unhealthy = transport_unhealthy (ry_health_now env) clients1;
          reason = unready_reason s available_count price_providers ready_price quote_providers ready_quote unhealthy exceeded;
          checks = [(''provider_registry'', Check_bool True), (''enabled_chains'', Check_int (int (length (chain_ids s)))),
            (''configured_rpc_chains'', Check_int (int (length (rpc_urls_by_chain s)))),
            (''available_providers'', Check_int (int available_count)),
            (''ready_price_providers'', Check_int (int (card ready_price))),
            (''ready_quote_providers'', Check_int (int (card ready_quote))),
            (''circuit_open_providers'', Check_int (int (card (blocked_providers g ag (chain_ids s) (ry_breaker_now env))))),
            (''provider_transport_unhealthy'', Check_bool unhealthy), (''strict_mode'', Check_bool (enable_readiness_strict s)),
            (''metrics_enabled'', Check_bool (metrics_enabled s))]
            @ (case ry_close_wait env of None \<Rightarrow> [] | Some n \<Rightarrow> [(''close_wait_sockets'', Check_int n)])
            @ (case reason of None \<Rightarrow> [] | Some r \<Rightarrow> [(''reason'', Check_str r)])
      in ((if reason = None then 200 else 503, \<lparr>rd_status = (if reason = None then ''ok'' else ''not_ready''), rd_checks = checks\<rparr>), clients1))"

section \<open>Lemmas on the answers\<close>

lemma exc_reply_not_Reply [simp]: "exc_reply e \<noteq> Reply r" "aggregate_exc_reply e \<noteq> Reply r"
proof -
  show "exc_reply e \<noteq> Reply r" by (cases e) simp_all
  then show "aggregate_exc_reply e \<noteq> Reply r" by (cases e) simp_all
qed

lemma keys_index_by [simp]: "fst ` set (index_by f rs) = f ` set rs"
  by (induction rs rule: rev_induct) (simp_all add: index_by_def dom_update)

text \<open>A table by provider, whose entries are of their provider.\<close>

definition keyed_by :: "('r \<Rightarrow> string) \<Rightarrow> (string, 'r) odict \<Rightarrow> bool" where
  "keyed_by provider d \<longleftrightarrow> (\<forall>p r. map_of d p = Some r \<longrightarrow> provider r = p)"

lemma keyed_index_by: "distinct (map f rs) \<Longrightarrow> keyed_by f (index_by f rs)"
  by (simp add: keyed_by_def index_by_in)

lemma select_first_entries:
  assumes "keyed_by f d" "\<And>r. st_e (g r) = status r"
  shows "map_option (\<lambda>r. (f r, g r)) (select_first status order d) = find (\<lambda>(p, e). st_e e = OK) (entries_in_order g order d)"
  using assms(1) by (induction order) (auto simp: entries_in_order_def map_filter_simps assms(2) keyed_by_def split: option.splits)

lemma entries_in_order_keys:
  "set order \<subseteq> fst ` set d \<Longrightarrow> map fst (entries_in_order g order d) = order"
  by (induction order) (auto simp: entries_in_order_def map_filter_simps map_of_eq_None_iff split: option.splits)

lemma entries_in_order_set:
  "set (entries_in_order g order d) = {(p, g r) | p r. p \<in> set order \<and> map_of d p = Some r}"
  by (auto simp: entries_in_order_def map_filter_set)

lemma order_facts:
  "distinct (build_provider_order av req dflt)" "set (build_provider_order av req dflt) = set av"
  by (auto simp: build_provider_order_eq Let_def distinct_dedup_from set_dedup_from)

lemma order_requested:
  assumes "distinct ids" "set av = set ids"
  shows "build_provider_order av (Some ids) dflt = ids"
proof -
  have "filter (\<lambda>x. x \<in> set av) ids = ids" using assms(2) by simp
  moreover have "dedup ids = ids" using assms(1) by (simp add: dedup_from_id)
  ultimately show ?thesis using assms(2) by (simp add: build_provider_order_eq set_dedup_from[THEN sym] flip: set_empty) (auto simp: set_dedup_from)
qed

lemma entries_permutation:
  assumes "distinct (map f rs)"
  shows "mset (entries_in_order g (build_provider_order (map f rs) req dflt) (index_by f rs)) = mset (map (\<lambda>r. (f r, g r)) rs)"
    (is "mset ?es = mset ?xs")
proof -
  have "map fst ?es = build_provider_order (map f rs) req dflt"
    by (rule entries_in_order_keys) (simp add: order_facts)
  then have "distinct (map fst ?es)" by (simp add: order_facts)
  then have "distinct ?es" by (simp add: distinct_map)
  moreover have "distinct ?xs" using assms by (auto simp: distinct_map inj_on_def)
  moreover have "set ?es = set ?xs" using index_by_in[OF assms]
    by (auto simp: entries_in_order_set order_facts)
  ultimately show ?thesis by (rule iffD1[OF set_eq_iff_mset_eq_distinct])
qed

section \<open>Lemmas on the requests\<close>

lemma normalize_provider_ids_eq:
  "normalize_provider_ids ps seen = dedup_from seen (filter (\<lambda>p. p \<noteq> []) (map (\<lambda>p. py_lower (py_strip p)) ps))"
  by (induction ps arbitrary: seen) (auto simp: Let_def)

lemma normalize_provider_ids_distinct: "distinct (normalize_provider_ids ps seen)"
  by (simp add: normalize_provider_ids_eq distinct_dedup_from)

lemma mk_price_payload_fields:
  "mk_price_payload chain_id token providers use_underlying = Inr p \<Longrightarrow> pa_chain_id p = chain_id \<and> pa_token p = token
     \<and> pa_providers p = payload_providers providers \<and> pa_use_underlying p = use_underlying"
  by (auto simp: mk_price_payload_def split: if_splits)

lemma payload_providers_distinct: "payload_providers v = Some ids \<Longrightarrow> distinct ids"
  by (auto simp: payload_providers_def normalize_provider_ids_distinct)

section \<open>Lemmas on the responses\<close>

text \<open>What a response says of its entries: one for each name of the order, the selected one the first success.\<close>

definition entries_sound :: "string list \<Rightarrow> (string \<times> 'e) list \<Rightarrow> ('e \<Rightarrow> provider_status) \<Rightarrow> (string \<times> 'e) option \<Rightarrow> bool" where
  "entries_sound order es st_e selected \<longleftrightarrow>
     distinct order \<and> map fst es = order \<and> selected = find (\<lambda>(p, e). st_e e = OK) es"

lemma answer_sound:
  assumes d: "distinct (map f rs)" and st: "\<And>r. st_e (g r) = status r"
  shows "entries_sound (build_provider_order (map f rs) req dflt)
      (entries_in_order g (build_provider_order (map f rs) req dflt) (index_by f rs)) st_e
      (map_option (\<lambda>r. (f r, g r)) (select_first status (build_provider_order (map f rs) req dflt) (index_by f rs)))"
  using select_first_entries[where st_e = st_e and g = g and status = status, OF keyed_index_by[OF d] st]
  by (simp add: entries_sound_def order_facts entries_in_order_keys)

lemma answer_counts:
  fixes req :: "string list option" and dflt :: "string list"
  assumes d: "distinct (map f rs)" and st: "\<And>r. st_e (g r) = status r"
  defines "es \<equiv> entries_in_order g (build_provider_order (map f rs) req dflt) (index_by f rs)"
  shows "length es = length rs"
    "length (filter (\<lambda>(p, e). st_e e = OK) es) = length (filter (\<lambda>r. status r = OK) rs)"
proof -
  note m = entries_permutation[OF d, of g req dflt, folded es_def]
  from mset_eq_length[OF m] show "length es = length rs" by simp
  have "mset (filter (\<lambda>(p, e). st_e e = OK) es) = mset (filter (\<lambda>(p, e). st_e e = OK) (map (\<lambda>r. (f r, g r)) rs))"
    by (simp only: mset_filter m)
  from mset_eq_length[OF this] show
    "length (filter (\<lambda>(p, e). st_e e = OK) es) = length (filter (\<lambda>r. status r = OK) rs)"
    by (simp add: filter_map comp_def st)
qed

lemma metadata_for_address_logo:
  "metadata_for_address eth metadata t = Inr m \<Longrightarrow>
     \<exists>url. mt_logo_url m = Some url \<and> token_logo_url eth (mt_chain_id m) (mt_address m) = Inr url"
  by (auto simp: metadata_for_address_def)

lemma registry_ids_of:
  assumes "registry_resolve (ProviderRegistry s) requested op chain_id = Inr plugins"
    "mset ids = mset (map pl_id plugins)" "case requested of None \<Rightarrow> True | Some r \<Rightarrow> distinct r"
  shows "distinct ids" "set ids = (case requested of Some r \<Rightarrow> set r
      | None \<Rightarrow> set (available_provider_ids (ProviderRegistry s) op (Some chain_id)))"
proof -
  note r = registry_resolve_correct[OF assms(1,3)]
  show "distinct ids" using r mset_eq_imp_distinct_iff[OF assms(2)] by blast
  show "set ids = (case requested of Some r \<Rightarrow> set r
      | None \<Rightarrow> set (available_provider_ids (ProviderRegistry s) op (Some chain_id)))"
    using r mset_eq_setD[OF assms(2)] by (auto split: option.splits)
qed

definition requested_ids :: "string list option \<Rightarrow> string list option" where
  "requested_ids providers = payload_providers (parse_provider_query_values providers)"

lemma requested_ids_distinct: "case requested_ids providers of None \<Rightarrow> True | Some r \<Rightarrow> distinct r"
  by (auto simp: requested_ids_def payload_providers_distinct split: option.splits)

text \<open>The providers of a response: the requested ones in the order requested, else those the chain has for the operation.\<close>

definition answers_request :: "settings \<Rightarrow> operation \<Rightarrow> int \<Rightarrow> string list option \<Rightarrow> string list \<Rightarrow> bool" where
  "answers_request s op chain_id requested order \<longleftrightarrow> (case requested of
     Some ids \<Rightarrow> order = ids
   | None \<Rightarrow> set order = set (available_provider_ids (ProviderRegistry s) op (Some chain_id)))"

lemma order_answers:
  assumes "distinct av" "set av = (case requested of Some r \<Rightarrow> set r
      | None \<Rightarrow> set (available_provider_ids (ProviderRegistry s) op (Some chain_id)))"
    "case requested of None \<Rightarrow> True | Some r \<Rightarrow> distinct r"
  shows "answers_request s op chain_id requested (build_provider_order av requested dflt)"
  using assms by (cases requested) (simp_all add: answers_request_def order_facts order_requested)

lemma resolved_response:
  assumes "table_ok chain_id result" "map_of result (tr_address t) = Some m" "canonical eth (tr_address t)" "chain_id > 0"
  shows "metadata_for_address eth result t = Inr \<lparr>mt_chain_id = chain_id, mt_address = tr_address t, mt_symbol = tm_symbol m,
      mt_decimals = tm_decimals m, mt_logo_url = Some (logo_url_of chain_id (tr_address t))\<rparr>"
proof -
  have "entry_ok chain_id (tr_address t) m"
    using assms(1) map_of_SomeD[OF assms(2)] by (auto simp: table_ok_def list_all_iff)
  then show ?thesis using assms(2-4)
    by (simp add: metadata_for_address_def entry_ok_def token_logo_url_def canonical_def logo_url_of_def)
qed

lemma copied_response:
  assumes "table_ok chain_id result" "map_of result (tr_address target) = Some m" "canonical eth (tr_address orig)" "chain_id > 0"
  shows "metadata_for_address eth (copy_metadata (Some orig) target result) orig =
      Inr \<lparr>mt_chain_id = chain_id, mt_address = tr_address orig, mt_symbol = tm_symbol m,
      mt_decimals = tm_decimals m, mt_logo_url = Some (logo_url_of chain_id (tr_address orig))\<rparr>"
proof -
  have "entry_ok chain_id (tr_address target) m"
    using assms(1) map_of_SomeD[OF assms(2)] by (auto simp: table_ok_def list_all_iff)
  then show ?thesis using assms(2-4)
    by (simp add: metadata_for_address_def copy_metadata_def entry_ok_def token_logo_url_def canonical_def logo_url_of_def od_get_set)
qed

lemma observe_canonical:
  "canonical eth a \<Longrightarrow> \<exists>mv'. observe_identities eth chain_id [a] mv = (Inr (), mv')"
  by (simp add: observe_identities_def enroll_observed_def normalize_addresses_def canonical_def)

lemma remap_canonical:
  assumes "eth_ok eth" "normalize_token_request eth chain_id token = Inr (normalized, original)" "length token = 42"
  shows "canonical eth (tr_address normalized)"
    "normalize_address eth token = Inr (tr_address (case original of Some orig \<Rightarrow> orig | None \<Rightarrow> normalized))"
    "case original of Some orig \<Rightarrow> canonical eth (tr_address orig) | None \<Rightarrow> True"
proof -
  obtain a where a: "normalize_address eth token = Inr a"
    using assms(2) by (auto simp: normalize_token_request_def mk_token_ref_def split: sum.splits)
  then have ca: "canonical eth a" unfolding canonical_def by (rule normalize_address_idem[OF assms(1) _ assms(3)])
  have len: "length b = 42" if "resolve_remap chain_id a = Some b" for b
    using that by (auto simp: resolve_remap_def REMAP_TABLE_def split: if_splits)
  show "canonical eth (tr_address normalized)"
    "normalize_address eth token = Inr (tr_address (case original of Some orig \<Rightarrow> orig | None \<Rightarrow> normalized))"
    "case original of Some orig \<Rightarrow> canonical eth (tr_address orig) | None \<Rightarrow> True"
    using assms(2) a ca len normalize_address_idem[OF assms(1)]
    by (auto simp: normalize_token_request_def mk_token_ref_def apply_remap_def canonical_def split: option.splits sum.splits)
qed

lemma mk_quote_payload_fields:
  "mk_quote_payload chain_id token_in token_out amount_in providers include_route use_underlying = Inr p \<Longrightarrow>
     pa_chain_id p = chain_id \<and> pa_token_in p = token_in \<and> pa_token_out p = token_out \<and> pa_amount_in p = amount_in
     \<and> pa_providers p = payload_providers providers \<and> pa_include_route p = include_route \<and> pa_use_underlying p = use_underlying"
  by (auto simp: mk_quote_payload_def split: if_splits)

text \<open>The results as the response shows them.\<close>

definition shown_quotes :: "bool \<Rightarrow> quote_result list \<Rightarrow> quote_result list" where
  "shown_quotes include_route rs = (if include_route then rs else map (\<lambda>r. r\<lparr>q_route := None\<rparr>) rs)"

lemma shown_quotes_simps [simp]:
  "map q_provider (shown_quotes i rs) = map q_provider rs" "length (shown_quotes i rs) = length rs"
  "length (filter (\<lambda>r. q_status r = OK) (shown_quotes i rs)) = length (filter (\<lambda>r. q_status r = OK) rs)"
  by (simp_all add: shown_quotes_def filter_map comp_def)

lemma shown_quotes_mem:
  assumes "r \<in> set (shown_quotes i rs)"
  obtains r0 where "r0 \<in> set rs" "q_status r = q_status r0" "q_amount_in r = q_amount_in r0" "q_amount_out r = q_amount_out r0"
    "valid_quote_result r \<longleftrightarrow> valid_quote_result r0" "\<not> i \<longrightarrow> q_route r = None"
  using assms by (auto simp: shown_quotes_def valid_quote_result_def split: if_splits)

text \<open>An amount of the response is a text that reads back as a number of base units, positive in a success.\<close>

definition amount_text :: "string option \<Rightarrow> bool \<Rightarrow> bool" where
  "amount_text shown ok \<longleftrightarrow> (case shown of None \<Rightarrow> \<not> ok
     | Some t \<Rightarrow> (case py_int_of_str t of None \<Rightarrow> False
         | Some v \<Rightarrow> 0 \<le> v \<and> v \<le> MAX_UINT256 \<and> (ok \<longrightarrow> 0 < v)))"

lemma base_unit_string_text: "valid_quote_result r \<Longrightarrow> amount_text (base_unit_string (q_amount_out r)) (q_status r = OK)"
  by (cases "q_amount_out r")
    (auto simp: amount_text_def base_unit_string_def valid_quote_result_def uint256_field_def py_int_of_int_str)

lemma py_strip_head:
  assumes "\<not> py_isspace c"
  shows "\<exists>cs'. py_strip (c # cs) = c # cs'"
proof -
  have "\<exists>ys. dropWhile py_isspace (xs @ [c]) = ys @ [c]" for xs
    using assms by (induction xs) auto
  then obtain ys where "dropWhile py_isspace (rev cs @ [c]) = ys @ [c]" by blast
  then have "py_strip (c # cs) = c # rev ys" using assms by (simp add: py_strip_def py_lstrip_def)
  then show ?thesis by blast
qed

lemma valid_amount_range:
  assumes "parse_positive_int v f = Inr n"
  shows "0 \<le> n" "n \<le> MAX_UINT256"
proof -
  have re: "positive_int_re v" and p: "py_int_of_str v = Some n" and le: "n \<le> MAX_UINT256"
    using assms by (auto simp: parse_positive_int_def Let_def split: if_splits option.splits)
  from re obtain c cs where v: "v = c # cs" "is_dec_digit c" by (auto simp: positive_int_re_def split: list.splits)
  with py_strip_head[of c cs] digit_not_space obtain cs' where "py_strip v = c # cs'" by blast
  moreover have "c \<noteq> CHR ''-''" using v(2) by (auto simp: is_dec_digit_def)
  ultimately show "0 \<le> n" using p by (auto simp: py_int_of_str_def Let_def split: option.splits if_splits)
  from le show "n \<le> MAX_UINT256" .
qed

section \<open>Lemmas on query parameters and failures\<close>

lemma py_split_on_nonempty [simp]: "py_split_on c s \<noteq> []"
  by (induction s) (auto split: list.splits)

lemma py_split_on_append: "py_split_on c (a @ c # b) = py_split_on c a @ py_split_on c b"
  by (induction a) (auto simp: Cons_eq_append_conv split: list.splits)

lemma py_strip_idem [simp]: "py_strip (py_strip s) = py_strip s"
proof (rule py_strip_id)
  let ?t = "dropWhile py_isspace s"
  have s: "py_strip s = rev (dropWhile py_isspace (rev ?t))" by (simp add: py_strip_def py_lstrip_def)
  show "py_strip s = [] \<or> \<not> py_isspace (hd (py_strip s)) \<and> \<not> py_isspace (last (py_strip s))"
  proof (cases "py_strip s = []")
    case False
    then have l: "\<not> py_isspace (last (py_strip s))" unfolding s by (simp add: last_rev hd_dropWhile)
    obtain ys where "rev ?t = ys @ dropWhile py_isspace (rev ?t)" by (metis takeWhile_dropWhile_id)
    then have t: "?t = py_strip s @ rev ys" unfolding s by (metis rev_append rev_rev_ident)
    have "?t \<noteq> []" unfolding t using False by simp
    then have "\<not> py_isspace (hd ?t)" by (rule hd_dropWhile)
    moreover have "hd ?t = hd (py_strip s)" unfolding t using False by simp
    ultimately have "\<not> py_isspace (hd (py_strip s))" by simp
    with l show ?thesis by blast
  qed simp
qed

lemma parse_provider_values: "parse_provider_query_values (Some vs) =
    (let ps = filter (\<lambda>p. p \<noteq> []) (map py_strip (concat (map (py_split_on (CHR '','')) vs))) in if ps = [] then None else Some ps)"
proof -
  have "concat (map (\<lambda>item. filter (\<lambda>p. p \<noteq> []) (map py_strip (py_split_on (CHR '','') item))) vs)
      = filter (\<lambda>p. p \<noteq> []) (map py_strip (concat (map (py_split_on (CHR '','')) vs)))"
    by (induction vs) simp_all
  then show ?thesis by (simp add: parse_provider_query_values_def)
qed

text \<open>\<open>','.join(values)\<close>.\<close>

fun join_commas :: "string list \<Rightarrow> string" where
  "join_commas [] = []"
| "join_commas [v] = v"
| "join_commas (v # w # vs) = v @ CHR '','' # join_commas (w # vs)"

lemma split_join_commas: "vs \<noteq> [] \<Longrightarrow> py_split_on (CHR '','') (join_commas vs) = concat (map (py_split_on (CHR '','')) vs)"
  by (induction vs rule: join_commas.induct) (simp_all add: py_split_on_append)

lemma aggregate_prices_raises:
  assumes "aggregate_prices ce env req ids use_underlying timeout_ms ag = (Inl e, run, ag')"
  shows "run_error e \<or> (\<exists>t m. e = InvalidRequestError t m)"
proof -
  have reg: "\<exists>t m. x = InvalidRequestError t m" if "registry_resolve g ids PRICE c = Inl x" for g c x
    using that by (auto simp: registry_resolve_def lookup_plugin_def dest!: rmap_list_Inl split: if_splits option.splits)
  have ans: "run_error x" if "price_answers s env' sel req' resolved t sh = (Inl x, run')" for s env' sel req' resolved t sh x run'
  proof (cases "rp_status resolved = FAILED")
    case True
    then show ?thesis using that
      by (auto simp: price_answers_def vault_resolution_price_failures_def mk_price_result_def run_error_def
          dest!: rmap_list_Inl split: option.splits if_splits)
  next
    case False
    then show ?thesis using that run_raises[OF price_ops_raise] by (auto simp: price_answers_def run_prices_def)
  qed
  show ?thesis using assms reg ans resolve_price_raises
    by (auto simp: aggregate_prices_def NO_PROVIDERS_def Let_def rbind_Inl_iff split: sum.splits if_splits prod.splits)
qed

lemma aggregate_quotes_raises:
  assumes "aggregate_quotes ce env req ids use_underlying timeout_ms ag = (Inl e, run, ag')"
  shows "run_error e \<or> (\<exists>t m. e = InvalidRequestError t m)"
proof -
  have reg: "\<exists>t m. x = InvalidRequestError t m" if "registry_resolve g ids QUOTE c = Inl x" for g c x
    using that by (auto simp: registry_resolve_def lookup_plugin_def dest!: rmap_list_Inl split: if_splits option.splits)
  have ans: "run_error x" if "quote_answers s env' sel req' resolved t sh = (Inl x, run')" for s env' sel req' resolved t sh x run'
  proof (cases "rq_status resolved = FAILED")
    case True
    then show ?thesis using that
      by (auto simp: quote_answers_def vault_resolution_quote_failures_def mk_quote_result_def run_error_def
          dest!: rmap_list_Inl split: option.splits if_splits)
  next
    case False
    then show ?thesis using that run_raises[OF quote_ops_raise] by (auto simp: quote_answers_def run_quotes_def)
  qed
  have norm: "run_error x \<or> (\<exists>t m. x = InvalidRequestError t m)" if "normalize_underlying eth a = Inl x" for eth a x
    using that by (cases a) (auto simp: normalize_address_def run_error_def rbind_Inl_iff split: option.splits if_splits)
  have ctx: "run_error x \<or> (\<exists>t m. x = InvalidRequestError t m)" if "mk_vault_context eth v = Inl x" for eth v x
    using that norm by (auto simp: mk_vault_context_def rbind_Inl_iff run_error_def[of "ValueError _"] split: if_splits)
  have vc: "run_error x \<or> (\<exists>t m. x = InvalidRequestError t m)" if "quote_vault_context eth a b = Inl x" for eth a b x
    using that ctx by (auto simp: quote_vault_context_def rbind_Inl_iff split: option.splits)
  have adapt: "run_error x \<or> (\<exists>t m. x = InvalidRequestError t m)" if "apply_quote_resolution eth r q rs = Inl x" for eth r q rs x
    using that by (auto simp: apply_quote_resolution_def adapt_quote_result_def Let_def rbind_Inl_iff
        dest!: rmap_list_Inl vc split: option.splits if_splits sum.splits prod.splits)
  show ?thesis using assms reg ans resolve_quote_raises
    by (auto simp: aggregate_quotes_def NO_PROVIDERS_def Let_def rbind_Inl_iff dest!: adapt split: sum.splits if_splits prod.splits)
qed

text \<open>How a request fails: 400 for the client's mistakes, 503 with a delay when the service is full, else as an exception.\<close>

definition failure_ok :: "'a reply \<Rightarrow> api_state \<Rightarrow> api_state \<Rightarrow> bool" where
  "failure_ok reply st st' \<longleftrightarrow> (case reply of
     Reply _ \<Rightarrow> True
   | Unprocessable_query \<Rightarrow> st' = st
   | Http_error code t m headers \<Rightarrow> code = 400 \<and> headers = []
       \<or> code = 503 \<and> t = ''SERVICE_OVERLOADED'' \<and> headers = [(''Retry-After'', ''1'')] \<and> as_metadata st' = as_metadata st
   | Unhandled e \<Rightarrow> (\<forall>t m. e \<noteq> InvalidRequestError t m))"

lemma exc_reply_failure: "failure_ok (exc_reply e) st st'"
  by (cases e) (auto simp: failure_ok_def)

lemma int_str_1 [simp]: "int_str 1 = ''1''"
  by code_simp

lemma aggregate_exc_reply_failure:
  assumes "run_error e \<or> (\<exists>t m. e = InvalidRequestError t m)" "as_metadata st' = as_metadata st"
  shows "failure_ok (aggregate_exc_reply e) st st'"
  using assms by (auto simp: run_error_def SERVICE_OVERLOADED_def failure_ok_def)

lemma handle_price_failure: "failure_ok (fst (handle_price_request env s payload t st)) st (snd (handle_price_request env s payload t st))"
  by (auto simp: handle_price_request_def Let_def exc_reply_failure failure_ok_def[of "Reply _"]
      intro!: aggregate_exc_reply_failure dest: aggregate_prices_raises split: sum.splits prod.splits)

lemma handle_quote_failure: "failure_ok (fst (handle_quote_request env s payload t st)) st (snd (handle_quote_request env s payload t st))"
  by (auto simp: handle_quote_request_def Let_def exc_reply_failure failure_ok_def[of "Reply _"]
      intro!: aggregate_exc_reply_failure dest: aggregate_quotes_raises split: sum.splits prod.splits)

section \<open>Properties\<close>

text \<open>C5: A price response lists every provider once: the requested ones in the order of the query, else all the chain has for
  prices. Its selected price is the entry of the first provider of that order that succeeded, its summary counts exactly the
  entries, and the logo address of its token is the one computed from the token's chain and address.\<close>

theorem price_response_sound:
  assumes "normalize_price_request (ce_eth (an_chain env)) chain_id token = Inr (normalized, original)"
    and "aggregate_prices (an_chain env) (an_aggregate env) normalized (requested_ids providers) use_underlying timeout_ms
      (as_aggregator st) = (aggregated, run, ag)" "waits_ok (ae_run (an_aggregate env)) (length (rs_runnable run))"
    and "ag_registry (as_aggregator st) = ProviderRegistry s0"
    and "price_endpoint env s token chain_id providers use_underlying timeout_ms st = (Reply resp, st')"
  shows "let es = px_providers resp; ok = filter (\<lambda>(p, e). pe_status e = OK) es; t = px_token resp in
      answers_request s0 PRICE chain_id (requested_ids providers) (px_provider_order resp)
    \<and> distinct (px_provider_order resp) \<and> map fst es = px_provider_order resp
    \<and> map_option (\<lambda>x. (sl_provider x, sl_price x, sl_latency_ms x)) (px_price_data resp)
      = map_option (\<lambda>(p, e). (p, pe_price e, pe_latency_ms e)) (find (\<lambda>(p, e). pe_status e = OK) es)
    \<and> ps_requested (px_summary resp) = int (length es) \<and> ps_successful (px_summary resp) = int (length ok)
    \<and> (\<exists>url. mt_logo_url t = Some url \<and> token_logo_url (ce_eth (an_chain env)) (mt_chain_id t) (mt_address t) = Inr url)"
proof -
  let ?req = "requested_ids providers"
  obtain payload where pl: "pa_chain_id payload = chain_id" "pa_token payload = token" "pa_providers payload = ?req"
      "pa_use_underlying payload = use_underlying"
    and h: "handle_price_request env s payload timeout_ms st = (Reply resp, st')"
    using assms(5) by (auto simp: price_endpoint_def requested_ids_def dest!: mk_price_payload_fields split: if_splits sum.splits)
  obtain rs summary partial where a: "aggregated = Inr (rs, summary, partial)"
    using h by (cases aggregated) (auto simp: handle_price_request_def pl assms(1,2) Let_def)
  let ?order = "build_provider_order (map p_provider rs) ?req (price_provider_priority s)"
  let ?es = "entries_in_order price_entry_of ?order (index_by p_provider rs)"
  obtain metadata where resp: "px_provider_order resp = ?order" "px_providers resp = ?es" "px_summary resp = summary"
      "px_price_data resp = map_option selected_price_of (select_first p_status ?order (index_by p_provider rs))"
    and m: "metadata_for_address (ce_eth (an_chain env)) metadata
      (case original of Some orig \<Rightarrow> orig | None \<Rightarrow> pr_token normalized) = Inr (px_token resp)"
    using h by (auto simp: handle_price_request_def pl assms(1,2) a select_price_result_def index_price_results_def Let_def
        split: sum.splits prod.splits)
  from aggregated_prices_core[OF assms(2)[unfolded a] assms(3), unfolded assms(4)] obtain plugins where
    g: "registry_resolve (ProviderRegistry s0) ?req PRICE (pr_chain_id normalized) = Inr plugins"
      "mset (map p_provider rs) = mset (map pl_id plugins)" "summary = build_price_summary rs" by blast
  have c: "pr_chain_id normalized = chain_id"
    using assms(1) by (auto simp: normalize_price_request_def split: sum.splits)
  note ids = registry_ids_of[OF g(1,2) requested_ids_distinct]
  note sound = answer_sound[OF ids(1), where g = price_entry_of and st_e = pe_status and status = p_status]
  note counts = answer_counts[OF ids(1), where g = price_entry_of and st_e = pe_status and status = p_status]
  have sel: "map_option (\<lambda>x. (sl_provider x, sl_price x, sl_latency_ms x)) (px_price_data resp)
      = map_option (\<lambda>(p, e). (p, pe_price e, pe_latency_ms e)) (find (\<lambda>(p, e). pe_status e = OK) ?es)"
    using sound[of ?req "price_provider_priority s"] unfolding resp entries_sound_def
    by (auto simp: price_entry_of_def selected_price_of_def comp_def option.map_comp dest: sym)
  show ?thesis
    using order_answers[OF ids requested_ids_distinct] metadata_for_address_logo[OF m] sel counts[of ?req]
      sound[of ?req "price_provider_priority s"]
    by (simp add: Let_def resp c g(3) entries_sound_def price_entry_of_def build_price_summary_def)
qed

text \<open>C9: The token endpoint answers every well-formed request for an enabled chain, whatever the chain's node does, with the
  address the client asked for (also when it is remapped to another token), the logo address computed from it, and the
  symbol and decimals the store knows of the token it stands for.\<close>

theorem token_response_total:
  assumes "eth_ok eth" "length token = 42" "chain_id > 0" "chain_id \<in> set (chain_ids (mv_settings mv))"
    and "normalize_token_request eth chain_id token = Inr (normalized, original)"
    and "metadata_ok eth (mv_db mv)" "quiet_env env (mv_db mv)" "never_cancelled ans"
  shows "\<exists>t mv'. token_endpoint eth abi ans env request_id token chain_id mv
      = (Reply \<lparr>tx_request_id = request_id, tx_chain_id = chain_id, tx_token = t\<rparr>, mv')
    \<and> normalize_address eth token = Inr (mt_address t) \<and> mt_chain_id t = chain_id
    \<and> mt_logo_url t = Some (''https://prices.wavey.info/token-logos/'' @ int_str chain_id @ ''/'' @ py_lower (mt_address t))
    \<and> (\<forall>r. map_of (db_metadata (mv_db mv)) (chain_id, tr_address normalized) = Some r \<longrightarrow>
         (mr_symbol r \<noteq> None \<longrightarrow> mt_symbol t = mr_symbol r) \<and> (mr_decimals r \<noteq> None \<longrightarrow> mt_decimals t = mr_decimals r))"
proof -
  note rc = remap_canonical[OF assms(1,5,2)]
  have "resolvable eth chain_id [normalized] [tr_address normalized] mv"
    using assms(3,4) rc(1) by (simp add: resolvable_def normalize_addresses_def canonical_def)
  from resolve_metadata_core[OF this assms(6-8), of abi "''token_request''"] obtain result mv1 where
    r: "resolve_token eth abi ans env chain_id normalized mv = (Inr result, mv1)"
      "map fst result = [tr_address normalized]" "table_ok chain_id result"
    and known: "\<forall>a m r. (a, m) \<in> set result \<longrightarrow> map_of (db_metadata (mv_db mv)) (chain_id, a) = Some r \<longrightarrow>
        keeps_known (row_metadata chain_id a r) m" unfolding resolve_token_def by (elim exE conjE)
  obtain m where m: "result = [(tr_address normalized, m)]" using r(2) by auto
  have k: "(mr_symbol r \<noteq> None \<longrightarrow> tm_symbol m = mr_symbol r) \<and> (mr_decimals r \<noteq> None \<longrightarrow> tm_decimals m = mr_decimals r)"
    if "map_of (db_metadata (mv_db mv)) (chain_id, tr_address normalized) = Some r" for r
    using known[rule_format, of "tr_address normalized" m r] that m by (auto simp: keeps_known_def row_metadata_def)
  have q: "token_query_ok token" "\<not> chain_id \<le> 0" using assms(2,3) by (simp_all add: token_query_ok_def)
  show ?thesis
  proof (cases original)
    case None
    then show ?thesis using rc k r(1) q assms(5) resolved_response[OF r(3) _ rc(1) assms(3), of m] m
      by (simp add: token_endpoint_def resolve_and_observe_def copy_metadata_def logo_url_of_def TOKEN_LOGO_ORIGIN_def)
  next
    case (Some orig)
    obtain mv2 where o: "observe_identities eth chain_id [tr_address orig] mv1 = (Inr (), mv2)"
      using observe_canonical[of eth "tr_address orig"] rc(3) Some by auto
    then show ?thesis using rc k r(1) q assms(5) copied_response[OF r(3), of normalized m eth orig] assms(3) m Some
      by (simp add: token_endpoint_def resolve_and_observe_def logo_url_of_def TOKEN_LOGO_ORIGIN_def)
  qed
qed

text \<open>Every entry of a quote response fits the request and hides its route when asked to.\<close>

lemma quote_entry_fits:
  assumes "aggregate_quotes cenv env req ids use_underlying timeout_ms ag0 = (Inr (answered, summary, partial), run, ag)"
    and "\<forall>r \<in> plugin_responses (ae_run env). valid_quote_result r"
    and "0 \<le> qr_amount_in req" "qr_amount_in req \<le> MAX_UINT256" "distinct (map q_provider (shown_quotes include_route answered))"
    and "(p, e) \<in> set (entries_in_order quote_entry_of order (index_by q_provider (shown_quotes include_route answered)))"
  shows "(include_route \<or> qe_route e = None) \<and> (qe_status e = OK \<longrightarrow> qe_amount_in e = Some (int_str (qr_amount_in req)))
    \<and> amount_text (qe_amount_out e) (qe_status e = OK)"
proof -
  note valid = aggregated_quotes_core[OF assms(1-4)]
  from assms(6) obtain r where r: "e = quote_entry_of r" "r \<in> set (shown_quotes include_route answered)"
    using index_by_in[OF assms(5)] by (auto simp: entries_in_order_set)
  then obtain r0 where r0: "r0 \<in> set answered" "q_status r = q_status r0" "q_amount_in r = q_amount_in r0"
      "valid_quote_result r \<longleftrightarrow> valid_quote_result r0" "\<not> include_route \<longrightarrow> q_route r = None"
    by (auto elim: shown_quotes_mem)
  then have "valid_quote_result r" using valid by blast
  from base_unit_string_text[OF this] r0 valid show ?thesis by (auto simp: r(1) quote_entry_of_def base_unit_string_def)
qed

text \<open>C6: A quote response lists every provider once, the requested ones in the order of the query; its quote is the entry of the
  first provider of that order that succeeded, with its amounts. Every successful entry states the amount the client asked for,
  its output amount is the decimal text of a 256-bit number, and no entry shows a route unless routes were asked for.\<close>

theorem quote_response_sound:
  assumes "normalize_quote_request (ce_eth (an_chain env)) chain_id token_in token_out amount_in = Inr (normalized, original_in, original_out)"
    and "aggregate_quotes (an_chain env) (an_aggregate env) normalized (requested_ids providers) use_underlying timeout_ms
      (as_aggregator st) = (aggregated, run, ag)" "waits_ok (ae_run (an_aggregate env)) (length (rs_runnable run))"
    and "\<forall>r \<in> plugin_responses (ae_run (an_aggregate env)). valid_quote_result r"
    and "ag_registry (as_aggregator st) = ProviderRegistry s0"
    and "quote_endpoint env s token_in token_out amount_in chain_id providers include_route use_underlying timeout_ms st
      = (Reply resp, st')"
  shows "let es = qx_providers resp in
      answers_request s0 QUOTE chain_id (requested_ids providers) (qx_provider_order resp)
    \<and> distinct (qx_provider_order resp) \<and> map fst es = qx_provider_order resp
    \<and> map_option (\<lambda>x. (sq_provider x, sq_amount_in x, sq_amount_out x, sq_route x)) (qx_quote resp)
      = map_option (\<lambda>(p, e). (p, qe_amount_in e, qe_amount_out e, qe_route e)) (find (\<lambda>(p, e). qe_status e = OK) es)
    \<and> su_requested (qx_summary resp) = int (length es)
    \<and> (\<forall>(p, e) \<in> set es. (include_route \<or> qe_route e = None)
        \<and> (qe_status e = OK \<longrightarrow> qe_amount_in e = Some (int_str (qr_amount_in normalized)))
        \<and> amount_text (qe_amount_out e) (qe_status e = OK))"
proof -
  let ?req = "requested_ids providers"
  obtain payload where pl: "pa_chain_id payload = chain_id" "pa_token_in payload = token_in" "pa_token_out payload = token_out"
      "pa_amount_in payload = amount_in" "pa_providers payload = ?req" "pa_use_underlying payload = use_underlying"
      "pa_include_route payload = include_route"
    and h: "handle_quote_request env s payload timeout_ms st = (Reply resp, st')"
    using assms(6) by (auto simp: quote_endpoint_def requested_ids_def dest!: mk_quote_payload_fields split: if_splits sum.splits)
  obtain answered summary partial where a: "aggregated = Inr (answered, summary, partial)"
    using h by (cases aggregated) (auto simp: handle_quote_request_def pl assms(1,2) Let_def)
  define rs where "rs = shown_quotes include_route answered"
  let ?order = "build_provider_order (map q_provider rs) ?req (quote_provider_priority s)"
  let ?es = "entries_in_order quote_entry_of ?order (index_by q_provider rs)"
  have resp: "qx_provider_order resp = ?order" "qx_providers resp = ?es" "qx_summary resp = quote_summary_of summary"
      "qx_quote resp = map_option selected_quote_of (select_first q_status ?order (index_by q_provider rs))"
    using h by (auto simp: handle_quote_request_def pl assms(1,2) a select_quote_result_def index_quote_results_def Let_def
        rs_def shown_quotes_def split: sum.splits prod.splits)
  from aggregated_quote_providers[OF assms(2)[unfolded a] assms(3), unfolded assms(5)] obtain plugins where
    g: "registry_resolve (ProviderRegistry s0) ?req QUOTE (qr_chain_id normalized) = Inr plugins"
      "mset (map q_provider rs) = mset (map pl_id plugins)" "summary = build_quote_summary answered"
    by (auto simp: rs_def)
  have c: "qr_chain_id normalized = chain_id" and amount: "0 \<le> qr_amount_in normalized" "qr_amount_in normalized \<le> MAX_UINT256"
    using assms(1) by (auto simp: normalize_quote_request_def split: sum.splits dest: valid_amount_range)
  note ids = registry_ids_of[OF g(1,2) requested_ids_distinct]
  note sound = answer_sound[OF ids(1), where g = quote_entry_of and st_e = qe_status and status = q_status]
  note counts = answer_counts[OF ids(1), where g = quote_entry_of and st_e = qe_status and status = q_status]
  have sel: "map_option (\<lambda>x. (sq_provider x, sq_amount_in x, sq_amount_out x, sq_route x)) (qx_quote resp)
      = map_option (\<lambda>(p, e). (p, qe_amount_in e, qe_amount_out e, qe_route e)) (find (\<lambda>(p, e). qe_status e = OK) ?es)"
    using sound[of ?req "quote_provider_priority s"] unfolding resp entries_sound_def
    by (auto simp: quote_entry_of_def selected_quote_of_def comp_def option.map_comp dest: sym)
  have "\<forall>(p, e) \<in> set ?es. (include_route \<or> qe_route e = None)
      \<and> (qe_status e = OK \<longrightarrow> qe_amount_in e = Some (int_str (qr_amount_in normalized)))
      \<and> amount_text (qe_amount_out e) (qe_status e = OK)"
    unfolding rs_def by (intro ballI case_prodI2 quote_entry_fits[OF assms(2)[unfolded a] assms(4) amount ids(1)[unfolded rs_def]]) simp
  moreover have "length rs = length answered" by (simp add: rs_def)
  ultimately show ?thesis
    using order_answers[OF ids requested_ids_distinct] sel counts(1)[of ?req] sound[of ?req "quote_provider_priority s"]
    by (simp add: Let_def resp c g(3) entries_sound_def quote_entry_of_def build_quote_summary_def quote_summary_of_def)
qed


text \<open>Providers named in one comma-separated parameter and in several parameters are the same request: the same ids, in the
  same order, without repetitions.\<close>

theorem provider_parameters_equivalent:
  "requested_ids (Some values) = requested_ids (Some [join_commas values])
   \<and> (case requested_ids (Some values) of None \<Rightarrow> True | Some ids \<Rightarrow> distinct ids \<and> ids \<noteq> [] \<and> [] \<notin> set ids)"
proof
  show "requested_ids (Some values) = requested_ids (Some [join_commas values])"
    by (cases "values = []") (simp_all add: requested_ids_def parse_provider_values split_join_commas py_strip_def py_lstrip_def)
  show "case requested_ids (Some values) of None \<Rightarrow> True | Some ids \<Rightarrow> distinct ids \<and> ids \<noteq> [] \<and> [] \<notin> set ids"
  proof (cases "parse_provider_query_values (Some values)")
    case (Some ps)
    then have "ps \<noteq> []" "\<forall>p \<in> set ps. p \<noteq> [] \<and> py_strip p = p"
      by (auto simp: parse_provider_values Let_def split: if_splits)
    then have "set (filter (\<lambda>p. p \<noteq> []) (map (\<lambda>p. py_lower (py_strip p)) ps)) \<noteq> {}"
      by (cases ps) (auto simp: py_lower_def)
    then have "normalize_provider_ids ps {} \<noteq> []"
      by (metis normalize_provider_ids_eq set_dedup_from Diff_empty list.set(1))
    then show ?thesis using Some
      by (auto simp: requested_ids_def payload_providers_def normalize_provider_ids_eq distinct_dedup_from set_dedup_from)
  qed (simp add: requested_ids_def payload_providers_def)
qed


section \<open>Witnesses\<close>

definition example_api_env :: "'r run_env \<Rightarrow> 'r api_env" where
  "example_api_env env = \<lparr>an_chain = example_chain_env, an_aggregate = example_agg_env env, an_token_abi = example_abi,
     an_resolve = TokenMetadata.example_env, an_request_id = ''r1''\<rparr>"

definition example_api_state :: api_state where
  "example_api_state = \<lparr>as_aggregator = example_aggregator, as_metadata = TokenMetadata.example_resolver\<rparr>"

abbreviation token_at :: "char \<Rightarrow> token_ref" where
  "token_at c \<equiv> \<lparr>tr_chain_id = 1, tr_address = addr c, tr_symbol = None, tr_decimals = None, tr_logo_url = None\<rparr>"

abbreviation api_price_answer :: price_result where
  "api_price_answer \<equiv> example_response\<lparr>p_token := Some (token_at (CHR ''a''))\<rparr>"

definition api_price_env :: "price_result run_env" where
  "api_price_env = Runner.example_env\<lparr>re_wait := Waited (\<lambda>s. s) [(0, Task_done (Response api_price_answer) 5)] []\<rparr>"

abbreviation api_quote_answer :: quote_result where
  "api_quote_answer \<equiv> example_quote_response\<lparr>q_token_in := Some (token_at (CHR ''a'')),
     q_token_out := Some (token_at (CHR ''b'')), q_route := Some [(''hops'', JBool True)]\<rparr>"

definition api_quote_env :: "quote_result run_env" where
  "api_quote_env = example_quote_env\<lparr>re_wait := Waited (\<lambda>s. s) [(0, Task_done (Response api_quote_answer) 5)] []\<rparr>"

lemma example_metadata:
  assumes "normalize_addresses lower_eth (map tr_address refs) = Inr xs" "list_all (canonical lower_eth) xs"
  shows "\<exists>result mv. resolve_metadata lower_eth example_abi example_answers TokenMetadata.example_env 1 refs source
      TokenMetadata.example_resolver = (Inr result, mv) \<and> map fst result = xs \<and> table_ok 1 result"
proof -
  have "example_answers h q \<noteq> Inl CancelledError" for h q by (cases q) auto
  then have "never_cancelled example_answers" by (simp add: never_cancelled_def)
  moreover have "metadata_ok lower_eth (mv_db TokenMetadata.example_resolver)" by code_simp
  moreover have "resolvable lower_eth 1 refs xs TokenMetadata.example_resolver" using assms
    by (simp add: resolvable_def TokenMetadata.example_resolver_def TokenMetadataResolver_def default_settings_def CHAINS_def)
  moreover have "quiet_env TokenMetadata.example_env (mv_db TokenMetadata.example_resolver)"
    by (simp add: quiet_env_def TokenMetadata.example_env_def)
  ultimately show ?thesis using resolve_metadata_core by blast
qed

lemma example_canonical: "canonical lower_eth (addr (CHR ''a''))" "canonical lower_eth (addr (CHR ''b''))"
  unfolding canonical_def by code_simp+

lemma example_addresses:
  "normalize_addresses lower_eth [addr (CHR ''a''), addr (CHR ''a'')] = Inr [addr (CHR ''a'')]"
  "normalize_addresses lower_eth [addr (CHR ''a''), addr (CHR ''b''), addr (CHR ''a''), addr (CHR ''b'')]
     = Inr [addr (CHR ''a''), addr (CHR ''b'')]"
  using example_canonical by (simp_all add: normalize_addresses_def canonical_def)

definition example_ready_env :: ready_env where
  "example_ready_env = \<lparr>ry_breaker_now = (\<lambda>c op. 1), ry_close_wait = Some 3, ry_recycle_now = (\<lambda>p. (1, 1)), ry_health_now = (\<lambda>p. 1)\<rparr>"


abbreviation api_price_request :: price_request where
  "api_price_request \<equiv> \<lparr>pr_chain_id = 1, pr_token = token_at (CHR ''a''), pr_timeout_ms = None\<rparr>"

lemma example_price_request:
  "normalize_price_request lower_eth 1 (addr (CHR ''a'')) = Inr (api_price_request, None)"
  "requested_ids (Some [''curve'']) = Some [''curve'']"
  "mk_price_payload 1 (addr (CHR ''a'')) (parse_provider_query_values (Some [''curve''])) False =
     Inr \<lparr>pa_chain_id = 1, pa_providers = Some [''curve''], pa_use_underlying = False, pa_token = addr (CHR ''a'')\<rparr>"
  "token_query_ok (addr (CHR ''a''))" "timeout_query_ok None"
  "price_refs lower_eth 1 [api_price_answer] = Inr [token_at (CHR ''a'')]"
  by code_simp+

lemma example_price_aggregated:
  "\<exists>summary run ag. aggregate_prices example_chain_env (example_agg_env api_price_env) api_price_request
      (Some [''curve'']) False None example_aggregator = (Inr ([api_price_answer], summary, False), run, ag)
    \<and> length (rs_runnable run) = 1" (is "\<exists>summary run ag. ?r = _ \<and> _")
proof -
  have "case ?r of (Inr (rs, s, p), run, ag) \<Rightarrow> rs = [api_price_answer] \<and> \<not> p \<and> length (rs_runnable run) = 1 | _ \<Rightarrow> False"
    by code_simp
  then show ?thesis by (auto split: prod.splits sum.splits)
qed

lemma example_api_simps [simp]:
  "an_chain (example_api_env env) = example_chain_env" "an_aggregate (example_api_env env) = example_agg_env env"
  "an_token_abi (example_api_env env) = example_abi" "an_resolve (example_api_env env) = TokenMetadata.example_env"
  "an_request_id (example_api_env env) = ''r1''" "ce_eth example_chain_env = lower_eth" "ce_answers example_chain_env = example_answers"
  "as_aggregator example_api_state = example_aggregator" "as_metadata example_api_state = TokenMetadata.example_resolver"
  "ae_run (example_agg_env env) = env" "ag_registry example_aggregator = ProviderRegistry default_settings"
  by (simp_all add: example_api_env_def example_chain_env_def example_api_state_def example_agg_env_def example_aggregator_def)

lemma example_price_reply:
  "\<exists>resp st'. price_endpoint (example_api_env api_price_env) default_settings (addr (CHR ''a'')) 1 (Some [''curve'']) False None
      example_api_state = (Reply resp, st')"
proof -
  obtain summary run ag where a: "aggregate_prices example_chain_env (example_agg_env api_price_env) api_price_request
      (Some [''curve'']) False None example_aggregator = (Inr ([api_price_answer], summary, False), run, ag)"
    using example_price_aggregated by blast
  obtain result mv where m: "resolve_metadata lower_eth example_abi example_answers TokenMetadata.example_env 1
      [token_at (CHR ''a''), token_at (CHR ''a'')] ''provider'' TokenMetadata.example_resolver = (Inr result, mv)"
      "map fst result = [addr (CHR ''a'')]" "table_ok 1 result"
    using example_metadata[of "[token_at (CHR ''a''), token_at (CHR ''a'')]" "[addr (CHR ''a'')]" "''provider''"] example_addresses example_canonical by auto
  obtain x where x: "result = [(addr (CHR ''a''), x)]" using m(2) by auto
  from resolved_response[OF m(3), of "token_at (CHR ''a'')" x lower_eth] x example_canonical m(1) a example_price_request
  show ?thesis
    by (simp add: price_endpoint_def handle_price_request_def Let_def resolve_from_price_results_def
        resolve_and_observe_def copy_metadata_def)
qed

theorem price_response_sound_witness:
  "\<exists>resp st'. price_endpoint (example_api_env api_price_env) default_settings (addr (CHR ''a'')) 1 (Some [''curve'']) False None
      example_api_state = (Reply resp, st') \<and> map fst (px_providers resp) = [''curve''] \<and> ps_requested (px_summary resp) = 1"
proof -
  obtain resp st' where r: "price_endpoint (example_api_env api_price_env) default_settings (addr (CHR ''a'')) 1 (Some [''curve'']) False
      None example_api_state = (Reply resp, st')" using example_price_reply by blast
  obtain summary run ag where a: "aggregate_prices example_chain_env (example_agg_env api_price_env) api_price_request
      (Some [''curve'']) False None example_aggregator = (Inr ([api_price_answer], summary, False), run, ag)"
    and n: "length (rs_runnable run) = 1" using example_price_aggregated by blast
  have w: "waits_ok api_price_env (length (rs_runnable run))" by (simp add: n waits_ok_def api_price_env_def)
  from price_response_sound[OF _ _ _ _ r] example_price_request(1,2) a w
  have "map fst (px_providers resp) = [''curve'']" "ps_requested (px_summary resp) = int (length (px_providers resp))"
    by (auto simp: answers_request_def Let_def)
  then show ?thesis using r by (metis length_map One_nat_def length_Cons list.size(3) of_nat_1)
qed

abbreviation api_quote_request :: quote_request where
  "api_quote_request \<equiv> \<lparr>qr_chain_id = 1, qr_token_in = token_at (CHR ''a''), qr_token_out = token_at (CHR ''b''), qr_amount_in = 5,
     qr_timeout_ms = None\<rparr>"

lemma example_quote_request:
  "normalize_quote_request lower_eth 1 (addr (CHR ''a'')) (addr (CHR ''b'')) ''5'' = Inr (api_quote_request, None, None)"
  "requested_ids (Some [''curve'']) = Some [''curve'']"
  "mk_quote_payload 1 (addr (CHR ''a'')) (addr (CHR ''b'')) ''5'' (parse_provider_query_values (Some [''curve''])) False False =
     Inr \<lparr>pa_chain_id = 1, pa_providers = Some [''curve''], pa_use_underlying = False, pa_token_in = addr (CHR ''a''),
       pa_token_out = addr (CHR ''b''), pa_amount_in = ''5'', pa_include_route = False\<rparr>"
  "token_query_ok (addr (CHR ''a''))" "token_query_ok (addr (CHR ''b''))" "timeout_query_ok None"
  "quote_refs lower_eth 1 [api_quote_answer\<lparr>q_route := None\<rparr>] = Inr [token_at (CHR ''a''), token_at (CHR ''b'')]"
  by code_simp+

lemma example_quote_aggregated:
  "\<exists>summary run ag. aggregate_quotes example_chain_env (example_agg_env api_quote_env) api_quote_request
      (Some [''curve'']) False None example_aggregator = (Inr ([api_quote_answer], summary, False), run, ag)
    \<and> length (rs_runnable run) = 1" (is "\<exists>summary run ag. ?r = _ \<and> _")
proof -
  have "case ?r of (Inr (rs, s, p), run, ag) \<Rightarrow> rs = [api_quote_answer] \<and> \<not> p \<and> length (rs_runnable run) = 1 | _ \<Rightarrow> False"
    by code_simp
  then show ?thesis by (auto split: prod.splits sum.splits)
qed

lemma example_quote_reply:
  "\<exists>resp st'. quote_endpoint (example_api_env api_quote_env) default_settings (addr (CHR ''a'')) (addr (CHR ''b'')) ''5'' 1
      (Some [''curve'']) False False None example_api_state = (Reply resp, st')"
proof -
  obtain summary run ag where a: "aggregate_quotes example_chain_env (example_agg_env api_quote_env) api_quote_request
      (Some [''curve'']) False None example_aggregator = (Inr ([api_quote_answer], summary, False), run, ag)"
    using example_quote_aggregated by blast
  let ?refs = "[token_at (CHR ''a''), token_at (CHR ''b''), token_at (CHR ''a''), token_at (CHR ''b'')]"
  obtain result mv where m: "resolve_metadata lower_eth example_abi example_answers TokenMetadata.example_env 1
      ?refs ''provider'' TokenMetadata.example_resolver = (Inr result, mv)"
      "map fst result = [addr (CHR ''a''), addr (CHR ''b'')]" "table_ok 1 result"
    using example_metadata[of ?refs "[addr (CHR ''a''), addr (CHR ''b'')]" "''provider''"] example_addresses example_canonical by auto
  obtain x y where x: "result = [(addr (CHR ''a''), x), (addr (CHR ''b''), y)]" using m(2) by auto
  from resolved_response[OF m(3), of "token_at (CHR ''a'')" x lower_eth] resolved_response[OF m(3), of "token_at (CHR ''b'')" y lower_eth]
    x example_canonical m(1) a example_quote_request
  show ?thesis
    by (simp add: quote_endpoint_def handle_quote_request_def Let_def resolve_from_quote_results_def originals_of_def map_filter_simps
        resolve_and_observe_def copy_metadata_def)
qed

theorem quote_response_sound_witness:
  "\<exists>resp st'. quote_endpoint (example_api_env api_quote_env) default_settings (addr (CHR ''a'')) (addr (CHR ''b'')) ''5'' 1
      (Some [''curve'']) False False None example_api_state = (Reply resp, st')
    \<and> map fst (qx_providers resp) = [''curve''] \<and> qe_route (snd (hd (qx_providers resp))) = None"
proof -
  obtain resp st' where r: "quote_endpoint (example_api_env api_quote_env) default_settings (addr (CHR ''a'')) (addr (CHR ''b'')) ''5'' 1
      (Some [''curve'']) False False None example_api_state = (Reply resp, st')" using example_quote_reply by blast
  obtain summary run ag where a: "aggregate_quotes example_chain_env (example_agg_env api_quote_env) api_quote_request
      (Some [''curve'']) False None example_aggregator = (Inr ([api_quote_answer], summary, False), run, ag)"
    and n: "length (rs_runnable run) = 1" using example_quote_aggregated by blast
  have w: "waits_ok api_quote_env (length (rs_runnable run))" by (simp add: n waits_ok_def api_quote_env_def)
  have v: "\<forall>r \<in> plugin_responses api_quote_env. valid_quote_result r"
    by (simp add: plugin_responses_def api_quote_env_def valid_quote_result_def uint256_field_def MAX_UINT256_def)
  have q: "normalize_quote_request (ce_eth (an_chain (example_api_env api_quote_env))) 1 (addr (CHR ''a'')) (addr (CHR ''b'')) ''5''
      = Inr (api_quote_request, None, None)" by (simp only: example_api_simps example_quote_request(1))
  have a': "aggregate_quotes (an_chain (example_api_env api_quote_env)) (an_aggregate (example_api_env api_quote_env)) api_quote_request
      (requested_ids (Some [''curve''])) False None (as_aggregator example_api_state) = (Inr ([api_quote_answer], summary, False), run, ag)"
    by (simp only: example_api_simps example_quote_request(2) a)
  from quote_response_sound[OF q a' _ _ _ r, of default_settings] w v
  have f: "map fst (qx_providers resp) = [''curve'']" "\<forall>(p, e) \<in> set (qx_providers resp). qe_route e = None"
    unfolding Let_def answers_request_def example_quote_request(2) by (simp, force)
  then obtain e where "qx_providers resp = [(''curve'', e)]" by (cases "qx_providers resp") auto
  with f r show ?thesis by auto
qed

lemma example_token_request:
  "normalize_token_request lower_eth 1 example_address =
     Inr (\<lparr>tr_chain_id = 1, tr_address = ''0x4e3fbd56cd56c3e72c1403e103b45db9da5b9d2b'', tr_symbol = None, tr_decimals = None,
       tr_logo_url = None\<rparr>, Some \<lparr>tr_chain_id = 1, tr_address = example_address, tr_symbol = None, tr_decimals = None,
       tr_logo_url = None\<rparr>)"
  "metadata_ok lower_eth (mv_db TokenMetadata.example_resolver)" "length example_address = 42"
  "normalize_address lower_eth example_address = Inr example_address"
  by code_simp+

theorem token_response_total_witness:
  "\<exists>t mv'. token_endpoint lower_eth example_abi (\<lambda>h q. Inl (OtherException ''ConnectionError'')) TokenMetadata.example_env ''r1''
      example_address 1 TokenMetadata.example_resolver = (Reply \<lparr>tx_request_id = ''r1'', tx_chain_id = 1, tx_token = t\<rparr>, mv')
    \<and> mt_address t = example_address"
proof -
  have "1 \<in> set (chain_ids (mv_settings TokenMetadata.example_resolver))"
    by (simp add: TokenMetadata.example_resolver_def TokenMetadataResolver_def default_settings_def CHAINS_def)
  moreover have "quiet_env TokenMetadata.example_env (mv_db TokenMetadata.example_resolver)"
    by (simp add: quiet_env_def TokenMetadata.example_env_def)
  moreover have "never_cancelled (\<lambda>h q. Inl (OtherException ''ConnectionError''))" by (simp add: never_cancelled_def)
  ultimately show ?thesis
    using token_response_total[OF lower_eth_ok example_token_request(3) _ _ example_token_request(1,2), of TokenMetadata.example_env
        "\<lambda>h q. Inl (OtherException ''ConnectionError'')" example_abi "''r1''"] example_token_request(4) by auto
qed

end
