(* ===== verification/Responses.thy ===== *)
theory Responses
  imports Endpoints Metrics
begin

text \<open>
  The parts of the responses below the endpoints: the texts of the enumerations and the errors as JSON
  (\<open>core/errors.py\<close>, \<open>core/models.py\<close>), and the step both aggregating routes share, with its metrics
  (\<open>api/routes/aggregate_utils.py\<close>). Endpoints has that step inlined and without metrics; that it is the same is
  \<open>price_route_shares\<close> and \<open>quote_route_shares\<close>.
\<close>

section \<open>Enumerations and errors\<close>

fun provider_status_value :: "provider_status \<Rightarrow> string" where
  "provider_status_value OK = ''ok''"
| "provider_status_value NO_ROUTE = ''no_route''"
| "provider_status_value ERROR = ''error''"
| "provider_status_value BAD_REQUEST = ''bad_request''"

fun error_type_value :: "error_type \<Rightarrow> string" where
  "error_type_value TIMEOUT = ''TIMEOUT''"
| "error_type_value RATE_LIMITED = ''RATE_LIMITED''"
| "error_type_value UPSTREAM_HTTP = ''UPSTREAM_HTTP''"
| "error_type_value UPSTREAM_PARSE = ''UPSTREAM_PARSE''"
| "error_type_value INTERNAL_TRANSPORT_TIMEOUT = ''INTERNAL_TRANSPORT_TIMEOUT''"
| "error_type_value NO_ROUTE_ERROR = ''NO_ROUTE''"
| "error_type_value UNSUPPORTED_OPERATION = ''UNSUPPORTED_OPERATION''"
| "error_type_value UNSUPPORTED_CHAIN = ''UNSUPPORTED_CHAIN''"
| "error_type_value PROVIDER_UNAVAILABLE = ''PROVIDER_UNAVAILABLE''"
| "error_type_value DEADLINE_EXCEEDED = ''DEADLINE_EXCEEDED''"
| "error_type_value INTERNAL = ''INTERNAL''"
| "error_type_value VAULT_RESOLUTION_FAILED = ''VAULT_RESOLUTION_FAILED''"
| "error_type_value INVALID_VAULT_CONVERSION = ''INVALID_VAULT_CONVERSION''"

definition ERROR_TYPES :: "error_type list" where
  "ERROR_TYPES = [TIMEOUT, RATE_LIMITED, UPSTREAM_HTTP, UPSTREAM_PARSE, INTERNAL_TRANSPORT_TIMEOUT, NO_ROUTE_ERROR,
     UNSUPPORTED_OPERATION, UNSUPPORTED_CHAIN, PROVIDER_UNAVAILABLE, DEADLINE_EXCEEDED, INTERNAL, VAULT_RESOLUTION_FAILED,
     INVALID_VAULT_CONVERSION]"

text \<open>\<open>ErrorInfo._serialize\<close>.\<close>

definition serialize_error :: "error_info \<Rightarrow> (string \<times> json) list" where
  "serialize_error e =
     [(''type'', JStr (error_type_value (ei_type e)))]
     @ (case ei_code e of None \<Rightarrow> [] | Some c \<Rightarrow> [(''code'', JInt c)])
     @ [(''message'', JStr (ei_message e))]
     @ (case ei_retry_after_ms e of None \<Rightarrow> [] | Some t \<Rightarrow> [(''retry_after_ms'', JInt t)])"

text \<open>The model reading it: the declared fields and no other one.\<close>

definition optional_int_field :: "(string \<times> json) list \<Rightarrow> string \<Rightarrow> int option option" where
  "optional_int_field d k =
     (case map_of d k of None \<Rightarrow> Some None | Some JNull \<Rightarrow> Some None | Some (JInt n) \<Rightarrow> Some (Some n) | _ \<Rightarrow> None)"

definition read_error_info :: "(string \<times> json) list \<Rightarrow> error_info option" where
  "read_error_info d =
     (if \<not> list_all (\<lambda>e. fst e \<in> {''type'', ''message'', ''code'', ''retry_after_ms''}) d then None
      else case (map_of d ''type'', map_of d ''message'', optional_int_field d ''code'', optional_int_field d ''retry_after_ms'') of
        (Some (JStr t), Some (JStr m), Some c, Some r) \<Rightarrow>
          (case List.find (\<lambda>x. error_type_value x = t) ERROR_TYPES of
             None \<Rightarrow> None
           | Some x \<Rightarrow> Some \<lparr>ei_type = x, ei_message = m, ei_code = c, ei_retry_after_ms = r\<rparr>)
      | _ \<Rightarrow> None)"

definition quote_success :: "quote_result \<Rightarrow> bool" where
  "quote_success r \<longleftrightarrow> q_status r = OK"

section \<open>The step the aggregating routes share\<close>

text \<open>The id the middleware stored in the state of the request.\<close>

definition get_request_id :: "string option \<Rightarrow> string \<Rightarrow> string" where
  "get_request_id stored uuid = (case stored of Some i \<Rightarrow> i | None \<Rightarrow> uuid)"

definition provider_order_for_results :: "('r \<Rightarrow> string) \<Rightarrow> 'r list \<Rightarrow> string list option \<Rightarrow> string list \<Rightarrow> string list" where
  "provider_order_for_results provider results requested_provider_ids default_priority =
     build_provider_order (map provider results) requested_provider_ids default_priority"

text \<open>\<open>counts\<close> are the numbers of requested and of failed providers of a summary.\<close>

definition aggregate_with_provider_order ::
    "string \<Rightarrow> ('s \<Rightarrow> int \<times> int) \<Rightarrow> ('r \<Rightarrow> string) \<Rightarrow> ('r list \<Rightarrow> (string, 'r) odict) \<Rightarrow> ('r list \<times> 's \<times> bool) res
     \<Rightarrow> string list option \<Rightarrow> string list \<Rightarrow> metric_store
     \<Rightarrow> ('r list \<times> 's \<times> string list \<times> (string, 'r) odict) reply \<times> metric_store" where
  "aggregate_with_provider_order endpoint counts provider index_results aggregate_call requested_provider_ids default_priority ms =
     (case aggregate_call of
        Inl e \<Rightarrow> (aggregate_exc_reply e, ms)
      | Inr (results, summary, partial) \<Rightarrow>
          (let ms1 = record_aggregate_metrics endpoint (fst (counts summary)) (snd (counts summary)) partial ms;
               provider_order = build_provider_order (map provider results) requested_provider_ids default_priority;
               by_provider = index_results results
           in (Reply (results, summary, provider_order, by_provider), ms1)))"

section \<open>The aggregating routes with their metrics\<close>

definition price_counts :: "price_summary \<Rightarrow> int \<times> int" where
  "price_counts s = (ps_requested s, ps_failed s)"

definition quote_counts :: "quote_summary \<Rightarrow> int \<times> int" where
  "quote_counts s = (qs_requested s, qs_failed s)"

definition price_route ::
    "price_result api_env \<Rightarrow> settings \<Rightarrow> price_payload \<Rightarrow> int option \<Rightarrow> api_state \<Rightarrow> metric_store
     \<Rightarrow> price_response reply \<times> api_state \<times> metric_store" where
  "price_route env s payload timeout_ms st ms =
     (let eth = ce_eth (an_chain env) in
      case normalize_price_request eth (pa_chain_id payload) (pa_token payload) of
        Inl e \<Rightarrow> (exc_reply e, st, ms)
      | Inr (normalized, original) \<Rightarrow>
        let response_token = (case original of Some orig \<Rightarrow> orig | None \<Rightarrow> pr_token normalized);
            (aggregated, _, ag) = aggregate_prices (an_chain env) (an_aggregate env) normalized (pa_providers payload)
              (pa_use_underlying payload) timeout_ms (as_aggregator st);
            (shared, ms1) = aggregate_with_provider_order ''/v1/price'' price_counts p_provider index_price_results aggregated
              (pa_providers payload) (price_provider_priority s) ms
        in (case shared of
             Reply (results, summary, provider_order, by_provider) \<Rightarrow>
               let (resolved, mv) = resolve_and_observe eth (pa_chain_id payload)
                     (resolve_from_price_results eth (an_token_abi env) (ce_answers (an_chain env)) (an_resolve env)
                        (pa_chain_id payload) (pr_token normalized) results)
                     (case original of None \<Rightarrow> [] | Some orig \<Rightarrow> [tr_address orig]) (as_metadata st);
                   st1 = st\<lparr>as_aggregator := ag, as_metadata := mv\<rparr>
               in (case resolved of
                    Inl e \<Rightarrow> (exc_reply e, st1, ms1)
                  | Inr metadata \<Rightarrow>
                    (case metadata_for_address eth (copy_metadata original (pr_token normalized) metadata) response_token of
                       Inl e \<Rightarrow> (exc_reply e, st1, ms1)
                     | Inr token \<Rightarrow>
                         (Reply \<lparr>px_request_id = an_request_id env, px_chain_id = pa_chain_id payload, px_token = token,
                            px_provider_order = provider_order,
                            px_price_data = map_option selected_price_of (select_price_result provider_order by_provider),
                            px_providers = entries_in_order price_entry_of provider_order by_provider, px_summary = summary\<rparr>, st1, ms1)))
           | Http_error status t m hs \<Rightarrow> (Http_error status t m hs, st\<lparr>as_aggregator := ag\<rparr>, ms1)
           | Unprocessable_query \<Rightarrow> (Unprocessable_query, st\<lparr>as_aggregator := ag\<rparr>, ms1)
           | Unhandled e \<Rightarrow> (Unhandled e, st\<lparr>as_aggregator := ag\<rparr>, ms1)))"

text \<open>The routes of a quote are removed from the results in place, so also from the results by provider.\<close>

definition hide_route :: "bool \<Rightarrow> quote_result \<Rightarrow> quote_result" where
  "hide_route include_route r = (if include_route then r else r\<lparr>q_route := None\<rparr>)"

definition quote_route ::
    "quote_result api_env \<Rightarrow> settings \<Rightarrow> quote_payload \<Rightarrow> int option \<Rightarrow> api_state \<Rightarrow> metric_store
     \<Rightarrow> quote_response reply \<times> api_state \<times> metric_store" where
  "quote_route env s payload timeout_ms st ms =
     (let eth = ce_eth (an_chain env) in
      case normalize_quote_request eth (pa_chain_id payload) (pa_token_in payload) (pa_token_out payload) (pa_amount_in payload) of
        Inl e \<Rightarrow> (exc_reply e, st, ms)
      | Inr (normalized, original_in, original_out) \<Rightarrow>
        let response_in = (case original_in of Some orig \<Rightarrow> orig | None \<Rightarrow> qr_token_in normalized);
            response_out = (case original_out of Some orig \<Rightarrow> orig | None \<Rightarrow> qr_token_out normalized);
            (aggregated, _, ag) = aggregate_quotes (an_chain env) (an_aggregate env) normalized (pa_providers payload)
              (pa_use_underlying payload) timeout_ms (as_aggregator st);
            (shared, ms1) = aggregate_with_provider_order ''/v1/quote'' quote_counts q_provider index_quote_results aggregated
              (pa_providers payload) (quote_provider_priority s) ms
        in (case shared of
             Reply (answered, summary, provider_order, indexed) \<Rightarrow>
               let results = map (hide_route (pa_include_route payload)) answered;
                   by_provider = map (\<lambda>(p, r). (p, hide_route (pa_include_route payload) r)) indexed;
                   (resolved, mv) = resolve_and_observe eth (pa_chain_id payload)
                     (resolve_from_quote_results eth (an_token_abi env) (ce_answers (an_chain env)) (an_resolve env)
                        (pa_chain_id payload) (qr_token_in normalized) (qr_token_out normalized) results)
                     (originals_of [original_in, original_out]) (as_metadata st);
                   st1 = st\<lparr>as_aggregator := ag, as_metadata := mv\<rparr>
               in (case resolved of
                    Inl e \<Rightarrow> (exc_reply e, st1, ms1)
                  | Inr found \<Rightarrow>
                    let metadata = copy_metadata original_out (qr_token_out normalized)
                          (copy_metadata original_in (qr_token_in normalized) found)
                    in (case rbind (metadata_for_address eth metadata response_in) (\<lambda>tin.
                            rbind (metadata_for_address eth metadata response_out) (\<lambda>tout. Inr (tin, tout))) of
                         Inl e \<Rightarrow> (exc_reply e, st1, ms1)
                       | Inr (token_in, token_out) \<Rightarrow>
                           (Reply \<lparr>qx_request_id = an_request_id env, qx_chain_id = pa_chain_id payload, qx_token_in = token_in,
                              qx_token_out = token_out, qx_provider_order = provider_order,
                              qx_quote = map_option selected_quote_of (select_quote_result provider_order by_provider),
                              qx_providers = entries_in_order quote_entry_of provider_order by_provider,
                              qx_summary = quote_summary_of summary\<rparr>, st1, ms1)))
           | Http_error status t m hs \<Rightarrow> (Http_error status t m hs, st\<lparr>as_aggregator := ag\<rparr>, ms1)
           | Unprocessable_query \<Rightarrow> (Unprocessable_query, st\<lparr>as_aggregator := ag\<rparr>, ms1)
           | Unhandled e \<Rightarrow> (Unhandled e, st\<lparr>as_aggregator := ag\<rparr>, ms1)))"

section \<open>Lemmas\<close>

lemma error_value_find: "List.find (\<lambda>x. error_type_value x = error_type_value t) ERROR_TYPES = Some t"
  by (cases t) (simp_all add: ERROR_TYPES_def)

lemma shared_step_error:
  "aggregate_with_provider_order ep counts prov index (Inl e) req dflt ms = (aggregate_exc_reply e, ms)"
  by (simp add: aggregate_with_provider_order_def)

lemma shared_step_results:
  "aggregate_with_provider_order ep counts prov index (Inr (results, summary, partial)) req dflt ms =
     (Reply (results, summary, build_provider_order (map prov results) req dflt, index results),
      record_aggregate_metrics ep (fst (counts summary)) (snd (counts summary)) partial ms)"
  by (simp add: aggregate_with_provider_order_def)

lemma partial_price:
  "aggregate_prices ce env req ids u t ag = (Inr (results, summary, partial), run, ag') \<Longrightarrow> partial = (ps_failed summary > 0)"
  by (auto simp: aggregate_prices_def present_prices_def Let_def split: sum.splits if_splits prod.splits)

lemma partial_quote:
  "aggregate_quotes ce env req ids u t ag = (Inr (results, summary, partial), run, ag') \<Longrightarrow> partial = (qs_failed summary > 0)"
  by (auto simp: aggregate_quotes_def present_quotes_def Let_def split: sum.splits if_splits prod.splits)

lemma hide_routes: "map (hide_route b) rs = (if b then rs else map (\<lambda>r. r\<lparr>q_route := None\<rparr>) rs)"
  by (induction rs) (simp_all add: hide_route_def)

lemma hide_route_provider [simp]: "q_provider (hide_route b r) = q_provider r"
  by (simp add: hide_route_def)

lemma hide_route_providers [simp]: "q_provider \<circ> hide_route b = q_provider"
  by (simp add: comp_def)

lemma update_mapped: "AList.update k (f v) (map (\<lambda>(p, r). (p, f r)) d) = map (\<lambda>(p, r). (p, f r)) (AList.update k v d)"
  by (induction d) auto

lemma index_hidden:
  "index_quote_results (map (hide_route b) rs) = map (\<lambda>(p, r). (p, hide_route b r)) (index_quote_results rs)"
  unfolding index_quote_results_def index_by_def
  by (induction rs rule: rev_induct) (simp_all add: update_mapped)

lemma price_route_shares:
  assumes "price_route env s payload t st ms = (reply, st', ms')"
  shows "(reply, st') = handle_price_request env s payload t st"
proof (cases "normalize_price_request (ce_eth (an_chain env)) (pa_chain_id payload) (pa_token payload)")
  case (Inl e)
  then show ?thesis using assms by (simp add: price_route_def handle_price_request_def)
next
  case (Inr n)
  obtain normalized original where n: "n = (normalized, original)" by (cases n)
  obtain aggregated run ag where a: "aggregate_prices (an_chain env) (an_aggregate env) normalized (pa_providers payload)
      (pa_use_underlying payload) t (as_aggregator st) = (aggregated, run, ag)" by (metis prod_cases3)
  show ?thesis
  proof (cases aggregated)
    case (Inl e)
    then show ?thesis using assms \<open>normalize_price_request _ _ _ = Inr n\<close> n a
      by (cases e) (simp_all add: price_route_def handle_price_request_def Let_def shared_step_error)
  next
    case (Inr res)
    then show ?thesis using assms \<open>normalize_price_request _ _ _ = Inr n\<close> n a
      by (cases res) (auto simp: price_route_def handle_price_request_def Let_def shared_step_results split: prod.splits sum.splits)
  qed
qed

lemma quote_route_shares:
  assumes "quote_route env s payload t st ms = (reply, st', ms')"
  shows "(reply, st') = handle_quote_request env s payload t st"
proof (cases "normalize_quote_request (ce_eth (an_chain env)) (pa_chain_id payload) (pa_token_in payload) (pa_token_out payload)
    (pa_amount_in payload)")
  case (Inl e)
  then show ?thesis using assms by (simp add: quote_route_def handle_quote_request_def)
next
  case (Inr n)
  obtain normalized oin out where n: "n = (normalized, oin, out)" by (cases n)
  obtain aggregated run ag where a: "aggregate_quotes (an_chain env) (an_aggregate env) normalized (pa_providers payload)
      (pa_use_underlying payload) t (as_aggregator st) = (aggregated, run, ag)" by (metis prod_cases3)
  show ?thesis
  proof (cases aggregated)
    case (Inl e)
    then show ?thesis using assms \<open>normalize_quote_request _ _ _ _ _ = Inr n\<close> n a
      by (cases e) (simp_all add: quote_route_def handle_quote_request_def Let_def shared_step_error)
  next
    case (Inr res)
    obtain answered summary partial where res: "res = (answered, summary, partial)" by (cases res)
    from Inr res show ?thesis using assms \<open>normalize_quote_request _ _ _ _ _ = Inr n\<close> n a
      by (auto simp: quote_route_def handle_quote_request_def Let_def shared_step_results index_hidden[symmetric] hide_routes[symmetric]
          simp del: rbind_Inr_iff split: prod.splits sum.splits)
  qed
qed

text \<open>The metrics after a route: those before, or with one aggregate recorded whose counts the response shows.\<close>

lemma price_route_metrics:
  assumes "price_route env s payload t st ms = (reply, st', ms')"
  shows "case reply of
      Reply r \<Rightarrow> ms' = record_aggregate_metrics ''/v1/price'' (ps_requested (px_summary r)) (ps_failed (px_summary r))
        (ps_failed (px_summary r) > 0) ms
    | _ \<Rightarrow> ms' = ms \<or> (\<exists>n f. ms' = record_aggregate_metrics ''/v1/price'' n f (f > 0) ms)"
proof (cases "normalize_price_request (ce_eth (an_chain env)) (pa_chain_id payload) (pa_token payload)")
  case (Inl e)
  then show ?thesis using assms by (cases e) (auto simp: price_route_def)
next
  case (Inr n)
  obtain normalized original where n: "n = (normalized, original)" by (cases n)
  obtain aggregated run ag where a: "aggregate_prices (an_chain env) (an_aggregate env) normalized (pa_providers payload)
      (pa_use_underlying payload) t (as_aggregator st) = (aggregated, run, ag)" by (metis prod_cases3)
  note [simp] = price_route_def Let_def Inr n a
  show ?thesis
  proof (cases aggregated)
    case (Inl e)
    then show ?thesis using assms by (cases e) (auto simp: shared_step_error)
  next
    case res: (Inr res)
    obtain results summary partial where r: "res = (results, summary, partial)" by (cases res)
    have p: "partial = (ps_failed summary > 0)" using partial_price a res r by blast
    from res r p show ?thesis using assms
      by (auto simp: shared_step_results price_counts_def split: prod.splits sum.splits reply.splits)
  qed
qed

lemma quote_route_metrics:
  assumes "quote_route env s payload t st ms = (reply, st', ms')"
  shows "case reply of
      Reply r \<Rightarrow> ms' = record_aggregate_metrics ''/v1/quote'' (su_requested (qx_summary r)) (su_failed (qx_summary r))
        (su_failed (qx_summary r) > 0) ms
    | _ \<Rightarrow> ms' = ms \<or> (\<exists>n f. ms' = record_aggregate_metrics ''/v1/quote'' n f (f > 0) ms)"
proof (cases "normalize_quote_request (ce_eth (an_chain env)) (pa_chain_id payload) (pa_token_in payload) (pa_token_out payload)
    (pa_amount_in payload)")
  case (Inl e)
  then show ?thesis using assms by (cases e) (auto simp: quote_route_def)
next
  case (Inr n)
  obtain normalized oin out where n: "n = (normalized, oin, out)" by (cases n)
  obtain aggregated run ag where a: "aggregate_quotes (an_chain env) (an_aggregate env) normalized (pa_providers payload)
      (pa_use_underlying payload) t (as_aggregator st) = (aggregated, run, ag)" by (metis prod_cases3)
  note [simp] = quote_route_def Let_def Inr n a
  show ?thesis
  proof (cases aggregated)
    case (Inl e)
    then show ?thesis using assms by (cases e) (auto simp: shared_step_error)
  next
    case res: (Inr res)
    obtain results summary partial where r: "res = (results, summary, partial)" by (cases res)
    have p: "partial = (qs_failed summary > 0)" using partial_quote a res r by blast
    from res r p show ?thesis using assms
      by (auto simp: shared_step_results quote_counts_def quote_summary_of_def simp del: rbind_Inr_iff split: prod.splits sum.splits reply.splits)
  qed
qed

section \<open>Properties\<close>

text \<open>The error of a result survives its JSON: what the serialiser writes, optional fields left out, is read back as the same
  error by the model that admits exactly the declared fields.\<close>

theorem error_info_round_trip: "read_error_info (serialize_error e) = Some e"
proof -
  have keys: "list_all (\<lambda>x. fst x \<in> {''type'', ''message'', ''code'', ''retry_after_ms''}) (serialize_error e)"
    by (simp add: serialize_error_def split: option.splits)
  have "map_of (serialize_error e) ''type'' = Some (JStr (error_type_value (ei_type e)))"
    "map_of (serialize_error e) ''message'' = Some (JStr (ei_message e))"
    "optional_int_field (serialize_error e) ''code'' = Some (ei_code e)"
    "optional_int_field (serialize_error e) ''retry_after_ms'' = Some (ei_retry_after_ms e)"
    by (simp_all add: serialize_error_def optional_int_field_def split: option.splits)
  then show ?thesis unfolding read_error_info_def using keys by (simp add: error_value_find)
qed

text \<open>C19: The aggregating routes report what they answer: a price or a quote route with its shared step and its metrics gives the
  response and the state of the endpoint without metrics, and after a response the counter of partial responses has grown
  by one exactly when the summary shown counts a failure, that of failed responses exactly when it counts nothing else.\<close>

theorem routes_report_and_refine:
  "(let (reply, st', ms') = price_route env s payload t st ms in
      (reply, st') = handle_price_request env s payload t st
      \<and> (case reply of
           Reply r \<Rightarrow>
             metric_value (PARTIAL_RESPONSES_TOTAL, [''/v1/price'']) ms'
               = map_option (\<lambda>v. v + (if ps_failed (px_summary r) > 0 then 1 else 0)) (metric_value (PARTIAL_RESPONSES_TOTAL, [''/v1/price'']) ms)
           \<and> metric_value (ALL_FAILED_RESPONSES_TOTAL, [''/v1/price'']) ms'
               = map_option (\<lambda>v. v + (if ps_requested (px_summary r) > 0 \<and> ps_failed (px_summary r) = ps_requested (px_summary r) then 1 else 0))
                   (metric_value (ALL_FAILED_RESPONSES_TOTAL, [''/v1/price'']) ms)
         | _ \<Rightarrow> True))
   \<and> (let (reply, st', ms') = quote_route qenv s qpayload t st ms in
      (reply, st') = handle_quote_request qenv s qpayload t st
      \<and> (case reply of
           Reply r \<Rightarrow>
             metric_value (PARTIAL_RESPONSES_TOTAL, [''/v1/quote'']) ms'
               = map_option (\<lambda>v. v + (if su_failed (qx_summary r) > 0 then 1 else 0)) (metric_value (PARTIAL_RESPONSES_TOTAL, [''/v1/quote'']) ms)
           \<and> metric_value (ALL_FAILED_RESPONSES_TOTAL, [''/v1/quote'']) ms'
               = map_option (\<lambda>v. v + (if su_requested (qx_summary r) > 0 \<and> su_failed (qx_summary r) = su_requested (qx_summary r) then 1 else 0))
                   (metric_value (ALL_FAILED_RESPONSES_TOTAL, [''/v1/quote'']) ms)
         | _ \<Rightarrow> True))"
proof -
  obtain reply st' ms' where p: "price_route env s payload t st ms = (reply, st', ms')" by (metis prod_cases3)
  obtain qreply qst' qms' where q: "quote_route qenv s qpayload t st ms = (qreply, qst', qms')" by (metis prod_cases3)
  have paths: "normalize_endpoint ''/v1/price'' = ''/v1/price''" "normalize_endpoint ''/v1/quote'' = ''/v1/quote''" by code_simp+
  note [simp] = paths record_aggregate_metrics_def record_partial_response_def record_all_failed_response_def option.map_ident
  show ?thesis using price_route_shares[OF p] price_route_metrics[OF p] quote_route_shares[OF q] quote_route_metrics[OF q]
    by (cases reply; cases qreply) (simp_all add: p q Let_def)
qed

end
