(* ===== verification/Reporting.thy ===== *)
theory Reporting
  imports Lifecycle Responses
begin

text \<open>
  What the services report about themselves, apart from the middleware: the gauges of capacity
  (\<open>core/provider_runner.py\<close>, \<open>core/vault_underlying.py\<close>), of providers and their warnings (\<open>providers/registry.py\<close>),
  of the age of the token lists (\<open>token_metadata/logo_service.py\<close>), the log line of a failed transport
  (\<open>providers/http_helpers.py\<close>), the label of a vault (\<open>vault/resolver.py\<close>), and the description of the interface
  (\<open>app/main.py\<close>).
\<close>

section \<open>Capacity\<close>

definition sync_capacity_metrics :: "string \<Rightarrow> capacity_limiters \<Rightarrow> metric_store \<Rightarrow> metric_store" where
  "sync_capacity_metrics operation c ms =
     set_admission_inflight_units ''provider'' operation (provider_used_units c)
       (set_admission_inflight_units ''global'' operation (lim_used (global_limiter c)) ms)"

definition sync_inflight :: "string \<Rightarrow> limiter \<Rightarrow> metric_store \<Rightarrow> metric_store" where
  "sync_inflight operation l = set_admission_inflight_units ''vault'' operation (lim_used l)"

definition record_price_result :: "price_result \<Rightarrow> int \<Rightarrow> metric_store \<Rightarrow> metric_store" where
  "record_price_result r latency_ms = record_provider_call (p_provider r) ''price'' (provider_status_value (p_status r)) latency_ms"

definition record_quote_result :: "quote_result \<Rightarrow> int \<Rightarrow> metric_store \<Rightarrow> metric_store" where
  "record_quote_result r latency_ms = record_provider_call (q_provider r) ''quote'' (provider_status_value (q_status r)) latency_ms"

section \<open>Providers\<close>

definition warning :: "string \<Rightarrow> string \<Rightarrow> (string, log_value) odict \<Rightarrow> log_record" where
  "warning logger message extra =
     \<lparr>lr_levelname = ''WARNING'', lr_name = logger, lr_message = message, lr_extra = extra, lr_exc_info = None\<rparr>"

text \<open>\<open>sorted(enabled - set(known))\<close>: every unknown id once.\<close>

definition unknown_provider_warnings :: "settings \<Rightarrow> log_record list" where
  "unknown_provider_warnings s =
     map (\<lambda>pid. warning ''price_api.registry'' ''unknown_enabled_provider_id'' [(''provider'', L_str pid)])
       (sort (remdups (filter (\<lambda>pid. pid \<notin> set known_provider_ids) (providers_enabled s))))"

definition invalid_priority_warnings :: "registry \<Rightarrow> log_record list" where
  "invalid_priority_warnings g =
     concat (map (\<lambda>(op, priority).
       map (\<lambda>pid. warning ''price_api.registry'' ''ignored_priority_provider'' [(''operation'', L_str op), (''provider'', L_str pid)])
         (filter (\<lambda>pid. pid \<notin> set (map fst (rg_plugins g))) priority))
       [(''price'', price_provider_priority (rg_settings g)), (''quote'', quote_provider_priority (rg_settings g))])"

definition sync_provider_availability_metrics :: "registry \<Rightarrow> metric_store \<Rightarrow> metric_store" where
  "sync_provider_availability_metrics g = fold (\<lambda>(pid, p). set_provider_available pid (pl_available p)) (rg_plugins g)"

text \<open>\<open>ProviderRegistry.__init__\<close> with everything it reports.\<close>

definition build_registry :: "settings \<Rightarrow> metric_store \<Rightarrow> registry \<times> log_record list \<times> metric_store" where
  "build_registry s ms =
     (let g = ProviderRegistry s
      in (g, unknown_provider_warnings s @ invalid_priority_warnings g, sync_provider_availability_metrics g ms))"

section \<open>Transports, vaults and token lists\<close>

definition log_transport_failure :: "http_client \<Rightarrow> httpx_error \<Rightarrow> string option \<Rightarrow> string option \<Rightarrow> int option \<Rightarrow> log_record" where
  "log_transport_failure h e provider_id operation timeout_ms =
     (let or_unknown = (\<lambda>v. case v of None \<Rightarrow> ''unknown'' | Some t \<Rightarrow> if t = [] then ''unknown'' else t) in
      warning ''price_api.providers.transport'' ''provider_transport_failure''
        [(''provider'', L_str (or_unknown provider_id)), (''operation'', L_str (or_unknown operation)),
         (''transport_error_type'', L_str (httpx_class_name e)),
         (''timeout_ms'', L_int (case timeout_ms of Some t \<Rightarrow> t | None \<Rightarrow> hc_timeout_ms h)),
         (''provider_global_limit'', L_int (hc_max_connections h))])"

fun vault_type_value :: "vault_type \<Rightarrow> string" where
  "vault_type_value ERC4626 = ''erc4626''"
| "vault_type_value YEARN_V2 = ''yearn_v2''"

definition resolved_vault_type :: "vault_info option \<Rightarrow> vault_info option \<Rightarrow> string" where
  "resolved_vault_type vault_in vault_out =
     (case (vault_in, vault_out) of
        (None, None) \<Rightarrow> ''unknown''
      | (Some a, Some b) \<Rightarrow> if vi_vault_type a = vi_vault_type b then vault_type_value (vi_vault_type a) else ''mixed''
      | (Some a, None) \<Rightarrow> vault_type_value (vi_vault_type a)
      | (None, Some b) \<Rightarrow> vault_type_value (vi_vault_type b))"

definition update_source_metrics :: "int \<Rightarrow> logo_source list \<Rightarrow> logo_service \<Rightarrow> metric_store \<Rightarrow> metric_store" where
  "update_source_metrics now sources sv =
     fold (\<lambda>(chain_id, source) ms.
         if metadata_url source = None \<or> \<not> supports_chain source chain_id then ms
         else case get_logo_source_sync_state (source_id source) chain_id (sv_db sv) of
           None \<Rightarrow> ms
         | Some (synced_at, _) \<Rightarrow>
             set_logo_source_refresh_age (source_id source) chain_id (max (of_int (now - synced_at) / 1000) 0) ms)
       (List.product (sv_chain_ids sv) sources)"

section \<open>The interface\<close>

text \<open>The paths of the routers, in the order they are included.\<close>

definition app_routes :: "string list" where
  "app_routes = [''/v1/health'', ''/v1/ready'', ''/v1/providers'', ''/v1/token'', ''/token-logos/{chain_id}/{address}'',
     ''/metrics'', ''/v1/price'', ''/v1/quote'']"

definition set_default :: "(string \<times> json) list \<Rightarrow> string \<Rightarrow> (string \<times> json) list" where
  "set_default d k = (if k \<in> fst ` set d then d else d @ [(k, JObj [])])"

definition auth_schemes :: "(string \<times> json) list" where
  "auth_schemes =
     [(''BearerAuth'', JObj [(''type'', JStr ''http''), (''scheme'', JStr ''bearer''),
         (''description'', JStr ''Authorization: Bearer <api_key>'')]),
      (''ApiKeyHeader'', JObj [(''type'', JStr ''apiKey''), (''in'', JStr ''header''), (''name'', JStr ''x-api-key''),
         (''description'', JStr ''x-api-key: <api_key>'')])]"

text \<open>\<open>_custom_openapi\<close>: \<open>generated\<close> is the schema of FastAPI, the state the schema of the application.\<close>

definition custom_openapi ::
    "(string \<times> json) list \<Rightarrow> (string \<times> json) list option \<Rightarrow> (string \<times> json) list res \<times> (string \<times> json) list option" where
  "custom_openapi generated openapi_schema =
     (case openapi_schema of
        Some (e # schema) \<Rightarrow> (Inr (e # schema), openapi_schema)
      | _ \<Rightarrow>
         (let d = set_default generated ''components'' in
          case map_of d ''components'' of
            Some (JObj components) \<Rightarrow>
              (let c = set_default components ''securitySchemes'' in
               case map_of c ''securitySchemes'' of
                 Some (JObj schemes) \<Rightarrow>
                   (let schemes1 = fold (\<lambda>(k, v). AList.update k v) auth_schemes schemes;
                        schema = AList.update ''security'' (JList [JObj [(''BearerAuth'', JList [])], JObj [(''ApiKeyHeader'', JList [])]])
                          (AList.update ''components'' (JObj (AList.update ''securitySchemes'' (JObj schemes1) c)) d)
                    in (Inr schema, Some schema))
               | _ \<Rightarrow> (Inl (OtherException ''AttributeError''), openapi_schema))
          | _ \<Rightarrow> (Inl (OtherException ''AttributeError''), openapi_schema)))"

section \<open>Lemmas\<close>

text \<open>A gauge set in a loop has the value of the last iteration that sets it.\<close>

lemma metric_value_fold_set:
  "metric_value c (fold (\<lambda>x ms. if P x then child_set (key x) (val x) ms else ms) xs ms) =
     (case List.find (\<lambda>x. P x \<and> key x = c) (rev xs) of None \<Rightarrow> metric_value c ms | Some x \<Rightarrow> val x)"
  by (induction xs rule: rev_induct) (auto split: option.splits)

lemma find_only:
  assumes "x \<in> set xs" "Q x" "\<And>y. y \<in> set xs \<Longrightarrow> Q y \<Longrightarrow> y = x"
  shows "List.find Q (rev xs) = Some x"
  using assms by (metis find_Some_iff find_None_iff not_Some_eq set_rev nth_mem)

lemma availability_fold:
  "sync_provider_availability_metrics g = fold (\<lambda>x ms. if True then child_set (PROVIDER_AVAILABLE, [fst x])
     (Some (if pl_available (snd x) then 1 else 0)) ms else ms) (rg_plugins g)"
  unfolding sync_provider_availability_metrics_def by (intro arg_cong2[of _ _ _ _ fold] ext) (auto simp: set_provider_available_def)

lemma built_ids: "fst ` set (rg_plugins (ProviderRegistry s)) = set (providers_enabled s) \<inter> set known_provider_ids"
  by (auto simp: ProviderRegistry_def build_plugins_def Let_def known_provider_ids_def)

lemma availability_gauge:
  assumes "(pid, p) \<in> set (rg_plugins (ProviderRegistry s))"
  shows "metric_value (PROVIDER_AVAILABLE, [pid]) (sync_provider_availability_metrics (ProviderRegistry s) ms)
    = Some (if pl_available p then 1 else 0)"
proof -
  have "y = (pid, p)" if "y \<in> set (rg_plugins (ProviderRegistry s))" "True \<and> (PROVIDER_AVAILABLE, [fst y]) = (PROVIDER_AVAILABLE, [pid])" for y
  proof (cases y)
    case (Pair k q)
    then have "(pid, q) \<in> set (rg_plugins (ProviderRegistry s))" using that by simp
    then show ?thesis using eq_key_imp_eq_value[OF registry_distinct assms] Pair that by simp
  qed
  from find_only[OF assms _ this] show ?thesis unfolding availability_fold metric_value_fold_set by simp
qed

lemma unknown_warnings:
  "warning ''price_api.registry'' ''unknown_enabled_provider_id'' [(''provider'', L_str pid)] \<in> set (unknown_provider_warnings s)
     \<longleftrightarrow> pid \<in> set (providers_enabled s) \<and> pid \<notin> set known_provider_ids"
  by (auto simp: unknown_provider_warnings_def warning_def)

lemma distinct_unknown_warnings: "distinct (unknown_provider_warnings s)"
  unfolding unknown_provider_warnings_def
  by (auto simp: distinct_map warning_def inj_on_def)

text \<open>Both operations share the limiters, so a gauge labelled with one operation shows what the other one uses; and as each
  run only writes the gauges of its own operation, one of them can stay above zero when nothing is in flight any more.\<close>

lemma stale_gauge:
  fixes busy idle :: capacity_limiters
  assumes "lim_used (global_limiter busy) = 3" "lim_used (global_limiter idle) = 0"
  shows "metric_value (ADMISSION_INFLIGHT_UNITS, [''global'', ''price''])
     (sync_capacity_metrics ''quote'' idle (sync_capacity_metrics ''price'' busy ms)) = Some 3"
  using assms by (simp add: sync_capacity_metrics_def set_admission_inflight_units_def)

section \<open>Properties\<close>

text \<open>The registry accounts for every provider it is told to enable: it is either built, and its gauge says whether it is
  available, or reported as unknown, once; names in a priority list are reported exactly when no such provider is active.\<close>

theorem registry_reports_exact:
  "(let (g, warnings, ms') = build_registry s ms in
      set (providers_enabled s) = (set (providers_enabled s) \<inter> fst ` set (rg_plugins g))
        \<union> {pid. warning ''price_api.registry'' ''unknown_enabled_provider_id'' [(''provider'', L_str pid)] \<in> set warnings}
    \<and> (set (providers_enabled s) \<inter> fst ` set (rg_plugins g))
        \<inter> {pid. warning ''price_api.registry'' ''unknown_enabled_provider_id'' [(''provider'', L_str pid)] \<in> set warnings} = {}
    \<and> distinct (unknown_provider_warnings s)
    \<and> list_all (\<lambda>(pid, p). metric_value (PROVIDER_AVAILABLE, [pid]) ms' = Some (if pl_available p then 1 else 0)) (rg_plugins g)
    \<and> {pid. warning ''price_api.registry'' ''ignored_priority_provider'' [(''operation'', L_str ''quote''), (''provider'', L_str pid)] \<in> set warnings}
        = set (quote_provider_priority s) - fst ` set (rg_plugins g))"
proof -
  let ?g = "ProviderRegistry s"
  have settings: "rg_settings ?g = s" by (simp add: ProviderRegistry_def)
  have split: "warning l ''unknown_enabled_provider_id'' e \<in> set (invalid_priority_warnings ?g) \<longleftrightarrow> False"
    "warning l ''ignored_priority_provider'' e \<in> set (unknown_provider_warnings s) \<longleftrightarrow> False" for l e
    by (auto simp: invalid_priority_warnings_def unknown_provider_warnings_def warning_def)
  have quote: "warning ''price_api.registry'' ''ignored_priority_provider'' [(''operation'', L_str ''quote''), (''provider'', L_str pid)]
      \<in> set (invalid_priority_warnings ?g) \<longleftrightarrow> pid \<in> set (quote_provider_priority s) \<and> pid \<notin> fst ` set (rg_plugins ?g)" for pid
    by (auto simp: invalid_priority_warnings_def warning_def settings image_iff)
  have gauges: "list_all (\<lambda>(pid, p). metric_value (PROVIDER_AVAILABLE, [pid]) (sync_provider_availability_metrics ?g ms)
      = Some (if pl_available p then 1 else 0)) (rg_plugins ?g)"
    using availability_gauge by (auto simp: list_all_iff)
  show ?thesis
    unfolding build_registry_def Let_def prod.case set_append Un_iff split quote unknown_warnings
    using built_ids[of s] gauges distinct_unknown_warnings by auto
qed

text \<open>Every path the application serves has a label of its own in the request metrics.\<close>

lemma routes_have_labels: "list_all (\<lambda>path. normalize_endpoint path = path) app_routes" "distinct app_routes"
  by code_simp+

lemma map_of_set_default: "map_of (set_default d k) = (if k \<in> fst ` set d then map_of d else (map_of d)(k \<mapsto> JObj []))"
proof (cases "k \<in> fst ` set d")
  case False
  then have "map_of d k = None" by (simp add: map_of_eq_None_iff)
  then have "map_of (d @ [(k, JObj [])]) j = ((map_of d)(k \<mapsto> JObj [])) j" for j
    by (simp add: map_add_def split: option.splits)
  then show ?thesis using False by (auto simp: set_default_def)
qed (simp add: set_default_def)

text \<open>The document of the interface names both ways to authenticate: whenever it can be made, it is made once and then given
  again unchanged, it offers the bearer token and the key header as alternatives, defines both schemes, and keeps everything
  else FastAPI generated, other security schemes included.\<close>

theorem openapi_documents_auth:
  assumes "custom_openapi generated None = (Inr schema, state)"
  shows "custom_openapi generated2 state = (Inr schema, state)
    \<and> map_of schema ''security'' = Some (JList [JObj [(''BearerAuth'', JList [])], JObj [(''ApiKeyHeader'', JList [])]])
    \<and> (\<exists>components schemes. map_of schema ''components'' = Some (JObj components)
        \<and> map_of components ''securitySchemes'' = Some (JObj schemes)
        \<and> map_of schemes ''BearerAuth'' = map_of auth_schemes ''BearerAuth''
        \<and> map_of schemes ''ApiKeyHeader'' = map_of auth_schemes ''ApiKeyHeader'')
    \<and> (\<forall>k. k \<notin> {''security'', ''components''} \<longrightarrow> map_of schema k = map_of generated k)"
proof -
  let ?d = "set_default generated ''components''"
  obtain components where c: "map_of ?d ''components'' = Some (JObj components)"
    using assms by (auto simp: custom_openapi_def Let_def split: option.splits json.splits)
  let ?c = "set_default components ''securitySchemes''"
  obtain schemes where s: "map_of ?c ''securitySchemes'' = Some (JObj schemes)"
    using assms c by (auto simp: custom_openapi_def Let_def split: option.splits json.splits)
  let ?schemes = "fold (\<lambda>(k, v). AList.update k v) auth_schemes schemes"
  let ?schema = "AList.update ''security'' (JList [JObj [(''BearerAuth'', JList [])], JObj [(''ApiKeyHeader'', JList [])]])
     (AList.update ''components'' (JObj (AList.update ''securitySchemes'' (JObj ?schemes) ?c)) ?d)"
  have r: "schema = ?schema" "state = Some schema" using assms[unfolded custom_openapi_def Let_def option.case c s json.case] by blast+
  have "?schema \<noteq> []" by simp
  then have "custom_openapi generated2 state = (Inr schema, state)"
    unfolding r by (cases ?schema) (simp_all add: custom_openapi_def)
  moreover have "map_of ?schemes ''BearerAuth'' = map_of auth_schemes ''BearerAuth''"
    "map_of ?schemes ''ApiKeyHeader'' = map_of auth_schemes ''ApiKeyHeader''"
    by (simp_all add: auth_schemes_def update_conv')
  moreover have "map_of schema k = map_of generated k" if "k \<notin> {''security'', ''components''}" for k
    using that by (simp add: r update_conv' map_of_set_default)
  ultimately show ?thesis by (simp add: r update_conv')
qed

theorem openapi_documents_auth_witness:
  "fst (custom_openapi [(''paths'', JObj [])] (snd (custom_openapi [(''paths'', JObj [])] None)))
     = fst (custom_openapi [(''paths'', JObj [])] None)
   \<and> map_option fst (List.find (\<lambda>e. fst e = ''paths'') (projr (fst (custom_openapi [(''paths'', JObj [])] None)))) = Some ''paths''"
proof -
  obtain schema state where s: "custom_openapi [(''paths'', JObj [])] None = (Inr schema, state)"
    by (simp add: custom_openapi_def set_default_def auth_schemes_def Let_def)
  have "map_option fst (List.find (\<lambda>e. fst e = ''paths'') (projr (fst (custom_openapi [(''paths'', JObj [])] None)))) = Some ''paths''"
    by code_simp
  then show ?thesis using openapi_documents_auth[OF s, of "[(''paths'', JObj [])]"] by (simp add: s)
qed

end
