(* ===== verification/Spec2Isabelle.thy ===== *)
theory Spec2Isabelle
  imports KeyDatabase LogoRoute ApiKeyTool PrewarmTool MulticallReaders LogoSourceClasses ProviderClasses Reporting
begin

text \<open>
  A model of the price and quote aggregation service of \<open>src/price_api\<close> (Python).

  The program. A request for the price of a token, or for a quote of a swap, is sent to several
  providers at once (\<open>core/aggregator.py\<close>, \<open>core/provider_runner.py\<close>) under a circuit breaker
  (\<open>core/circuit.py\<close>) and capacity limiters (\<open>core/limits.py\<close>); the results are ordered, selected and
  summarised (\<open>core/normalizer.py\<close>, \<open>core/selection.py\<close>). When asked to, a token that is the share of a
  vault is priced through the vault's underlying token: the vault is detected over an RPC node
  (\<open>web3/client.py\<close>, \<open>vault/adapters\<close>), the request rewritten and the results converted back
  (\<open>vault/resolver.py\<close>, \<open>core/vault_underlying.py\<close>). API keys and rate limits guard the endpoints
  (\<open>security\<close>).

  Theories, in the order of their imports.
  \<^item> Prelude: exceptions and results (\<open>exc\<close>, \<open>'a res\<close>), the string operations of Python the code uses
    (characters are code points below 256), insertion-ordered dictionaries as association lists.
  \<^item> Decimals: \<open>decimal.Decimal\<close> values as rationals, with the rounding of the default context
    (28 significant digits, half even).
  \<^item> Domain: chains, errors, addresses and amounts, the records of \<open>core/models.py\<close> with their
    validators. \<open>eth_lib\<close> stands for \<open>eth_utils\<close>; \<open>eth_ok\<close> states what the code relies on.
  \<^item> Circuit, Capacity: one state record each, one definition per method. Clock readings are
    arguments, a method that reads the clock twice has two of them.
  \<^item> Selection, Config, Plugins: the functions of the modules of the same names
    (\<open>core/selection.py\<close>, \<open>core/normalizer.py\<close>, \<open>app/config.py\<close>, \<open>providers/base.py\<close>,
    \<open>providers/registry.py\<close>).
  \<^item> Runner: one fan-out. The code runs as one \<open>asyncio\<close> task among others: at each suspension the
    environment record says what the others did to the shared state, and in which order and how the
    provider tasks ended. The price and the quote version are interpretations of the locales
    \<open>checked_operation\<close> and \<open>valid_operation\<close>.
  \<^item> Adapters, Resolver, VaultUnderlying: vault detection, the cache of detected vaults, the rewriting
    of requests and the conversion of results. The RPC node is a function of the questions asked so far.
  \<^item> Aggregator: the whole aggregation, over the shared runner and vault service.
  \<^item> ApiKeys: the key store over its SQLite tables and the anonymous limiter; both interpret the locale
    \<open>window_counter\<close>. KeyDatabase: the same operations over rows of SQL values with the statements and the migration of
    \<open>security/store.py\<close>; that they implement the store of ApiKeys is a theorem.
  \<^item> Gateway: the middleware of \<open>app/main.py\<close> in front of every endpoint: request ids, authentication,
    anonymous access, rate limits and response headers.
  \<^item> Metrics: the metrics with the functions that record them (\<open>observability/metrics.py\<close>); TextLines, Logging: the
    splitting of texts, the log formatter with its redaction, the request context and the count of sockets
    (\<open>observability/logging.py\<close>, \<open>system.py\<close>).
  \<^item> Serving: the whole middleware, as in \<open>app/main.py\<close>, with its metrics and logs; that it refines the Gateway is a
    theorem. Start and shutdown of the application, and the routes of a few lines.
  \<^item> Parsing: the readers of provider payloads (\<open>providers/parsing.py\<close>, \<open>providers/common.py\<close>): decimals,
    amounts in base units, time stamps, token metadata.
  \<^item> HttpClient: the retrying client (\<open>providers/clients/http.py\<close>) with the replacement of the underlying
    client by age, use and pool time-outs, as a step relation, and its maintenance by the registry. What the
    network answers is a function of the underlying client, the attempt and the request.
  \<^item> Transport: timed calls and what their outcomes mean (\<open>providers/http_helpers.py\<close>).
  \<^item> Providers: the four provider plugins. Their readers interpret the locales \<open>price_reader\<close> and
    \<open>quote_reader\<close>; \<open>plugin_get_price\<close> and \<open>plugin_get_quote\<close> dispatch on the plugin as the class does, and
    discharge what the theorems on a fan-out assume of the answers.
  \<^item> MetadataCache: the SQLite store of token metadata and logos (\<open>token_metadata/cache.py\<close>), one dictionary
    per table, its constraints as \<open>logo_row_ok\<close>, one definition per transaction, sequences of them as
    \<open>apply_ops\<close>.
  \<^item> TokenMetadata: the merge policy, the multicall for missing metadata and the resolver over the store
    (\<open>token_metadata/policy.py\<close>, \<open>onchain.py\<close>, \<open>resolver.py\<close>, \<open>logo_urls.py\<close>). What other requests do to the
    store between its transactions is the record \<open>resolve_env\<close>.
  \<^item> LogoSources: the reviewed sources of logos, the policy on image URLs over a model of \<open>urlsplit\<close>, the
    candidates of a token and the refresh of the token lists (\<open>token_metadata/logo_sources.py\<close>). The web is a
    function of the URL and of the URLs asked before; the log of the latter is what the safety theorems are about.
  \<^item> LogoService: the validation of images and the acquisition (\<open>token_metadata/logo_acquirer.py\<close>,
    \<open>logo_overrides.py\<close>), the retry schedule and the maintenance rounds (\<open>token_metadata/logo_service.py\<close>).
    Pillow, SHA-256 and the packaged images are parameters.
  \<^item> LogoRoute: the public route of the logos with its parser of entity tags (\<open>api/routes/token_logos.py\<close>).
  \<^item> Endpoints: the price, quote, token and readiness routes with their schemas (\<open>api/routes\<close>, \<open>api/schemas\<close>): from the
    query parameters over the aggregator and the metadata resolver to the response or the failure.
  \<^item> ApiKeyTool, PrewarmTool: the command-line tools (\<open>tools\<close>) over the same stores: the command is what \<open>argparse\<close> reads,
    output and exit code are values; while \<open>wait\<close> polls, the service changes the store as it likes.
  \<^item> MulticallReaders: the readers of multicall replies in their several copies (\<open>vault/adapters/yearn_v2.py\<close>,
    \<open>token_metadata/onchain.py\<close>) agree with the ones the model uses, over every reply the contract can give; the ABI
    of the contract, and that each question asked conforms to it.
  \<^item> LogoSourceClasses: the logo sources as records of the members of the classes; each one has the laws of
    \<open>LogoSource\<close> and gives what LogoSources computes. ProviderClasses: the constructors of the provider classes and the
    registry built of them, in agreement with Plugins and HttpClient.
  \<^item> SettingsSources: the sources of the settings, their order, the path of the file, the merge of the sources and the
    aliases of every field (\<open>app/config.py\<close>).
  \<^item> Application: the getters of \<open>app/dependencies.py\<close> with their caches, as programs over the objects built so far;
    other threads may interfere while a constructor runs. Lifecycle: what is started and closed
    (\<open>lifespan\<close> of \<open>app/main.py\<close> and the \<open>start\<close> and \<open>aclose\<close> methods), any of which may fail.
  \<^item> Responses: the errors as JSON and the step that both aggregating routes share, with its metrics
    (\<open>core/errors.py\<close>, \<open>api/routes/aggregate_utils.py\<close>); that the routes over it refine those of Endpoints is a theorem.
  \<^item> Reporting: the gauges and warnings of the services, the line of a failed transport and the document of the interface
    (an update of the one FastAPI builds).

  What the properties say. The aggregated answer is complete, ordered and summarised as documented and
  gives back all capacity on every path; a fan-out leaks neither reservations nor half-open probes,
  answers every plugin once and lets no result through that does not fit the request; the breaker keeps
  its invariant, opens exactly at the threshold, and keeps a rate-limit cool-down; the limiters conserve
  units and lose no wake-up under any interleaving; selection and summaries are correct for their
  documented meaning; detected vaults are usable and conversions bounded; the key store refines a map
  of live keys and both limiters admit exactly their limit; only live credentials or permitted anonymous
  requests reach an endpoint. A provider's results are valid and name what was asked for, whatever its
  network answers; calls end in a payload or a classified failure, and a 429 keeps the circuit closed to
  calls for the delay it asks for; requests are sent at most as often as configured and never on a client
  that is too old or about to be closed; amounts are read exactly. Metadata of valid addresses always resolves and is
  found again in the store; a stored logo survives whatever is recorded later. Logos are
  fetched from the reviewed hosts only, and a token that is due is recorded with its image or a bounded retry. A response lists
  and selects what its aggregation gave, in the order the client asked for; failures get the documented statuses, the
  readiness check says exactly whether work can be done, and conditional requests for logos are answered exactly. Every request is
  counted and logged once however it ends, with a bounded number of labels, and no log line shows a credential. Keys made
  with the tool work until they are deleted with it, and the wait for logos ends. The statements of SQL implement the key
  store, also over a migrated database. A setting comes from the first source that gives its first alias; shared objects are
  built once when the getters run one after the other, and everything that was opened is closed at shutdown. The contract
  that bundles calls is only sent what its interface admits. Some theorems outside the manifest's
  properties state behaviour that is likely not intended (see the findings of the manifest).

  Bounds and fuel. No definition uses fuel: every loop of the code is over a finite list, except the
  wait for capacity, which is driven by the list of wake-ups the environment gives (finite because the
  time-out is), and the polls of the prewarm tool, which are a \<open>partial_function\<close> with a theorem that it returns. Python integers are \<open>int\<close>; amounts are bounded by \<open>MAX_UINT256\<close> where the code checks it.
  Clock values are rationals.

  Not modelled. The metrics and log lines that a component records itself, other than those of the middleware, the shared
  step of the routes and Reporting (the recording functions are in Metrics); the construction of the FastAPI application and
  HTTP serving; pydantic's coercion of JSON and of texts to numbers; the reading of command lines (\<open>argparse\<close>); the asyncio
  scheduler (its choices are the environment's); failures of SQLite; the bytes of the packaged logos; what the code only
  passes on to a library when it builds an object of it (limits and headers of \<open>httpx\<close>, pragmas of SQLite). What is left
  of the sources beside these are imports and the tests.
\<close>

end
